(* ===== verification/Prelude.thy ===== *)
theory Prelude
  imports Complex_Main "HOL-Library.Monad_Syntax"
begin

text \<open>
  Shared material of the development: the collections of rewrite rules the component theories
  fill, and generic lemmas on lists, folds and stores that several components use.  A DOM update
  loop of the program (\<open>queryAll(...).forEach(el => ...)\<close>) is a fold of pointwise store updates,
  so the lemmas here say what such a fold leaves at one address.
\<close>

named_theorems dom_simps \<open>what the DOM mutators leave at an element\<close>
named_theorems deck_frame \<open>fields an operation of the deck does not write\<close>
named_theorems shape_simps \<open>the tree of the slides container is not changed by data updates\<close>

section \<open>Folds\<close>

lemma fold_invariant_mono:
  assumes "\<And>x s. x \<in> set xs \<Longrightarrow> P s \<Longrightarrow> P (f x s)" and "P s"
  shows "P (fold f xs s)"
  using assms by (induction xs arbitrary: s) auto

lemma fold_keeps:
  assumes "\<And>x s. x \<in> set xs \<Longrightarrow> g (f x s) = g s"
  shows "g (fold f xs s) = g s"
  using assms by (induction xs arbitrary: s) auto

lemma fold_commuting_observation:
  assumes "\<And>x s. x \<in> set xs \<Longrightarrow> g (f x s) = h x (g s)"
  shows "g (fold f xs s) = fold h xs (g s)"
  using assms by (induction xs arbitrary: s) auto

text \<open>A store update at each address of a list, the same function everywhere.\<close>

lemma fold_upd_notin:
  "i \<notin> set is \<Longrightarrow> fold (\<lambda>j m. m(j := f j (m j))) is m i = m i"
  by (induction "is" arbitrary: m) auto

lemma fold_upd_distinct:
  "distinct is \<Longrightarrow> i \<in> set is \<Longrightarrow> fold (\<lambda>j m. m(j := f j (m j))) is m i = f i (m i)"
  by (induction "is" arbitrary: m) (auto simp: fold_upd_notin)

lemma fold_upd_idem:
  assumes "\<And>x. f (f x) = f x"
  shows "fold (\<lambda>j m. m(j := f (m j))) is m i = (if i \<in> set is then f (m i) else m i)"
proof (induction "is" arbitrary: m)
  case Nil
  show ?case by simp
next
  case (Cons a as)
  have "fold (\<lambda>j m. m(j := f (m j))) (a # as) m i =
      fold (\<lambda>j m. m(j := f (m j))) as (m(a := f (m a))) i"
    by (simp only: fold_simps)
  also have "\<dots> = (if i \<in> set (a # as) then f (m i) else m i)"
    unfolding Cons.IH by (simp add: assms)
  finally show ?case .
qed

section \<open>Lists\<close>

lemma enumerate_mem_iff:
  "(i, x) \<in> set (enumerate 0 xs) \<longleftrightarrow> i < length xs \<and> xs ! i = x"
  by (auto simp: in_set_enumerate_eq)

lemma find_Some_mem: "List.find P xs = Some x \<Longrightarrow> x \<in> set xs \<and> P x"
  by (auto simp: find_Some_iff)

lemma find_unique:
  assumes "x \<in> set xs" and "P x" and "\<And>y. y \<in> set xs \<Longrightarrow> P y \<Longrightarrow> y = x"
  shows "List.find P xs = Some x"
proof (cases "List.find P xs")
  case None
  with assms(1,2) show ?thesis by (auto simp: find_None_iff)
next
  case (Some y)
  with assms(3) show ?thesis by (auto dest: find_Some_mem)
qed

lemma nth_mem_distinct_inj:
  "distinct xs \<Longrightarrow> i < length xs \<Longrightarrow> j < length xs \<Longrightarrow> xs ! i = xs ! j \<longleftrightarrow> i = j"
  by (rule nth_eq_iff_index_eq)

lemma filter_eq_all: "(\<And>x. x \<in> set xs \<Longrightarrow> P x) \<Longrightarrow> filter P xs = xs"
  by (induction xs) auto

lemma filter_single:
  "i < length xs \<Longrightarrow> (\<And>k. k < length xs \<Longrightarrow> P (xs ! k) \<longleftrightarrow> k = i) \<Longrightarrow> filter P xs = [xs ! i]"
proof (induction xs arbitrary: i)
  case Nil
  then show ?case by simp
next
  case (Cons x xs)
  have step: "P (xs ! k) \<longleftrightarrow> Suc k = i" if "k < length xs" for k
    using Cons.prems(2) [of "Suc k"] that by simp
  show ?case
  proof (cases i)
    case 0
    have "P y \<longleftrightarrow> False" if "y \<in> set xs" for y
      using that step 0 by (auto simp: in_set_conv_nth)
    then have "filter P xs = []" by (simp add: filter_empty_conv)
    with 0 Cons.prems(2) [of 0] show ?thesis by simp
  next
    case (Suc j)
    with Cons step have "filter P xs = [xs ! j]" by simp
    with Suc Cons.prems(2) [of 0] show ?thesis by simp
  qed
qed

end
