(* ===== verification/JsStrings.thy ===== *)
theory JsStrings
  imports Prelude
begin

text \<open>
  The string and number-to-string operations of JavaScript that the program relies on, over
  Isabelle's \<^typ>\<open>string\<close> (a list of bytes: a string of the page stands for its UTF-8 encoding).
  \<open>parseInt(s, 10)\<close> is \<open>parseInt10\<close> (\<^const>\<open>None\<close> is \<open>NaN\<close>), the decimal rendering of an integer
  in a string concatenation is \<open>show_int\<close>, \<open>s.split(c)\<close> for a one-character separator is
  \<open>split_on\<close>, and \<open>encodeURIComponent\<close>/\<open>decodeURIComponent\<close> work on the bytes.
\<close>

section \<open>Digits and parseInt\<close>

definition is_digit :: "char \<Rightarrow> bool" where
  "is_digit c \<longleftrightarrow> 48 \<le> (of_char c :: nat) \<and> (of_char c :: nat) \<le> 57"

definition digit_val :: "char \<Rightarrow> int" where
  "digit_val c = int (of_char c) - 48"

definition digit_char :: "nat \<Rightarrow> char" where
  "digit_char n = ''0123456789'' ! n"

definition is_ws :: "char \<Rightarrow> bool" where
  "is_ws c \<longleftrightarrow> c = CHR '' '' \<or> (9 \<le> (of_char c :: nat) \<and> (of_char c :: nat) \<le> 13)"

definition digits_val :: "string \<Rightarrow> int" where
  "digits_val ds = foldl (\<lambda>a c. 10 * a + digit_val c) 0 ds"

definition parse_digits :: "string \<Rightarrow> int option" where
  "parse_digits s =
     (let ds = takeWhile is_digit s in if ds = [] then None else Some (digits_val ds))"

fun parse_signed :: "string \<Rightarrow> int option" where
  "parse_signed [] = None"
| "parse_signed (c # s) =
     (if c = CHR ''-'' then map_option uminus (parse_digits s)
      else if c = CHR ''+'' then parse_digits s
      else parse_digits (c # s))"

definition parseInt10 :: "string \<Rightarrow> int option" where
  "parseInt10 s = parse_signed (dropWhile is_ws s)"

fun show_nat :: "nat \<Rightarrow> string" where
  "show_nat n = (if n < 10 then [digit_char n] else show_nat (n div 10) @ [digit_char (n mod 10)])"

declare show_nat.simps [simp del]

definition show_int :: "int \<Rightarrow> string" where
  "show_int i = (if i < 0 then CHR ''-'' # show_nat (nat (- i)) else show_nat (nat i))"

definition all_digits :: "string \<Rightarrow> bool" where
  "all_digits s \<longleftrightarrow> list_all is_digit s"

section \<open>Splitting\<close>

fun split_on :: "char \<Rightarrow> string \<Rightarrow> string list" where
  "split_on c [] = [[]]"
| "split_on c (x # xs) =
     (if x = c then [] # split_on c xs
      else (case split_on c xs of [] \<Rightarrow> [[x]] | w # ws \<Rightarrow> (x # w) # ws))"

fun join_with :: "string \<Rightarrow> string list \<Rightarrow> string" where
  "join_with s [] = []"
| "join_with s [x] = x"
| "join_with s (x # y # ys) = x @ s @ join_with s (y # ys)"

text \<open>A missing attribute read as the empty string, and as the word \<open>null\<close> where it is made a string.\<close>

definition or_empty :: "string option \<Rightarrow> string" where
  "or_empty v = (case v of Some s \<Rightarrow> s | None \<Rightarrow> [])"

definition or_null :: "string option \<Rightarrow> string" where
  "or_null v = (case v of Some s \<Rightarrow> s | None \<Rightarrow> ''null'')"

text \<open>\<open>s.indexOf(w) !== -1\<close>\<close>

definition contains_substring :: "string \<Rightarrow> string \<Rightarrow> bool" where
  "contains_substring w s \<longleftrightarrow> list_ex (\<lambda>i. take (length w) (drop i s) = w) [0..<Suc (length s)]"

text \<open>\<open>!!s\<close> for an attribute that may be missing: it is there and not empty.\<close>

definition truthy_string :: "string option \<Rightarrow> bool" where
  "truthy_string s = (case s of None \<Rightarrow> False | Some t \<Rightarrow> t \<noteq> [])"

text \<open>\<open>s.trim()\<close>\<close>

definition js_trim :: "string \<Rightarrow> string" where
  "js_trim s = rev (dropWhile is_ws (rev (dropWhile is_ws s)))"

text \<open>\<open>(s || 0)\<close> under \<open>parseInt\<close>: an empty or missing attribute reads as 0.\<close>

definition parseInt_or0 :: "string option \<Rightarrow> int option" where
  "parseInt_or0 s = (case s of None \<Rightarrow> Some 0 | Some t \<Rightarrow> if t = [] then Some 0 else parseInt10 t)"

text \<open>The names every object literal inherits, so that \<open>o[name]\<close> is there without an assignment.\<close>

definition object_prototype :: "string list" where
  "object_prototype =
     [''constructor'', ''__defineGetter__'', ''__defineSetter__'', ''hasOwnProperty'',
      ''__lookupGetter__'', ''__lookupSetter__'', ''isPrototypeOf'', ''propertyIsEnumerable'',
      ''toString'', ''valueOf'', ''__proto__'', ''toLocaleString'']"

section \<open>URI components\<close>

definition hex_digit :: "nat \<Rightarrow> char" where
  "hex_digit n = ''0123456789ABCDEF'' ! n"

definition uri_unreserved :: "char \<Rightarrow> bool" where
  "uri_unreserved c \<longleftrightarrow>
     c \<in> set ''ABCDEFGHIJKLMNOPQRSTUVWXYZabcdefghijklmnopqrstuvwxyz0123456789-_.!~*()''
     \<or> c = CHR 0x27"

fun encodeURIComponent :: "string \<Rightarrow> string" where
  "encodeURIComponent [] = []"
| "encodeURIComponent (c # s) =
     (if uri_unreserved c then c # encodeURIComponent s
      else CHR 0x25 # hex_digit (of_char c div 16) # hex_digit (of_char c mod 16)
             # encodeURIComponent s)"

text \<open>\<open>encodeURI\<close> also keeps the characters that separate the parts of an address.\<close>

fun encodeURI :: "string \<Rightarrow> string" where
  "encodeURI [] = []"
| "encodeURI (c # s) =
     (if uri_unreserved c \<or> c \<in> set '';/?:@&=+$,#'' then c # encodeURI s
      else CHR 0x25 # hex_digit (of_char c div 16) # hex_digit (of_char c mod 16) # encodeURI s)"

definition hex_val :: "char \<Rightarrow> nat option" where
  "hex_val c =
     (let n = of_char c :: nat
      in if 48 \<le> n \<and> n \<le> 57 then Some (n - 48)
         else if 65 \<le> n \<and> n \<le> 70 then Some (n - 55)
         else if 97 \<le> n \<and> n \<le> 102 then Some (n - 87)
         else None)"

text \<open>
  \<open>decodeURIComponent\<close> throws a URIError on a malformed escape: \<^const>\<open>None\<close>.
\<close>

fun decodeURIComponent :: "string \<Rightarrow> string option" where
  "decodeURIComponent [] = Some []"
| "decodeURIComponent (c # s) =
     (if c = CHR 0x25
      then (case s of
              a # b # t \<Rightarrow>
                (case (hex_val a, hex_val b) of
                   (Some x, Some y) \<Rightarrow>
                     map_option ((#) (char_of (16 * x + y))) (decodeURIComponent t)
                 | _ \<Rightarrow> None)
            | _ \<Rightarrow> None)
      else map_option ((#) c) (decodeURIComponent s))"

section \<open>Facts\<close>

lemma digit_char_cases:
  assumes "n < 10"
  shows "is_digit (digit_char n) \<and> digit_val (digit_char n) = int n"
proof -
  have "n \<in> {0, 1, 2, 3, 4, 5, 6, 7, 8, 9}" using assms by auto
  then show ?thesis
    by (auto simp: is_digit_def digit_val_def digit_char_def)
qed

lemma digits_val_snoc: "digits_val (ds @ [c]) = 10 * digits_val ds + digit_val c"
  by (simp add: digits_val_def)

lemma show_nat_digits: "list_all is_digit (show_nat n)"
proof (induction n rule: show_nat.induct)
  case (1 n)
  then show ?case
    by (subst show_nat.simps) (auto simp: digit_char_cases)
qed

lemma show_nat_nonempty [simp]: "show_nat n \<noteq> []"
  by (subst show_nat.simps) simp

lemma digits_val_show_nat: "digits_val (show_nat n) = int n"
proof (induction n rule: show_nat.induct)
  case (1 n)
  show ?case
  proof (cases "n < 10")
    case True
    then show ?thesis
      by (subst show_nat.simps) (simp add: digits_val_def digit_char_cases)
  next
    case False
    with "1.IH" have "digits_val (show_nat (n div 10)) = int (n div 10)" by simp
    with False show ?thesis
      by (subst show_nat.simps) (simp add: digits_val_snoc digit_char_cases; presburger)
  qed
qed

lemma digit_not_special: "is_digit c \<Longrightarrow> c \<noteq> CHR ''-'' \<and> c \<noteq> CHR ''+'' \<and> \<not> is_ws c \<and> c \<noteq> CHR ''/''"
  by (auto simp: is_digit_def is_ws_def)

lemma show_nat_hd: "\<exists>c s. show_nat n = c # s \<and> is_digit c"
  using show_nat_digits [of n] by (cases "show_nat n") auto

lemma takeWhile_digits_append:
  "list_all is_digit ds \<Longrightarrow> (rest = [] \<or> \<not> is_digit (hd rest)) \<Longrightarrow> takeWhile is_digit (ds @ rest) = ds"
  by (induction ds) (cases rest; auto)+

lemma parse_digits_show_nat:
  "(rest = [] \<or> \<not> is_digit (hd rest)) \<Longrightarrow> parse_digits (show_nat n @ rest) = Some (int n)"
  by (simp add: parse_digits_def takeWhile_digits_append show_nat_digits digits_val_show_nat)

lemma parseInt10_show_nat_append:
  assumes "rest = [] \<or> \<not> is_digit (hd rest)"
  shows "parseInt10 (show_nat n @ rest) = Some (int n)"
proof -
  obtain c s where cs: "show_nat n = c # s" "is_digit c" using show_nat_hd by blast
  with digit_not_special [of c]
  have "parseInt10 (show_nat n @ rest) = parse_digits (show_nat n @ rest)"
    by (simp add: parseInt10_def)
  with assms show ?thesis by (simp add: parse_digits_show_nat)
qed

lemma parseInt10_show_nat [simp]: "parseInt10 (show_nat n) = Some (int n)"
  using parseInt10_show_nat_append [of "[]"] by simp

lemma parseInt10_show_int [simp]: "parseInt10 (show_int i) = Some i"
proof (cases "i < 0")
  case True
  have "\<not> is_ws (CHR ''-'')" by (simp add: is_ws_def)
  with True show ?thesis
    using parse_digits_show_nat [of "[]" "nat (- i)"] by (simp add: show_int_def parseInt10_def)
next
  case False
  then show ?thesis by (simp add: show_int_def)
qed

lemma parseInt10_Nil [simp]: "parseInt10 [] = None"
  by (simp add: parseInt10_def)

lemma show_int_nonempty [simp]: "show_int i \<noteq> []"
  by (simp add: show_int_def)

lemma parseInt_or0_show_int [simp]: "parseInt_or0 (Some (show_int i)) = Some i"
  by (simp add: parseInt_or0_def)

lemma parseInt_or0_None [simp]: "parseInt_or0 None = Some 0"
  by (simp add: parseInt_or0_def)

lemma all_digits_show_nat: "all_digits (show_nat n)"
  by (simp add: all_digits_def show_nat_digits)

lemma show_int_nonneg: "0 \<le> i \<Longrightarrow> show_int i = show_nat (nat i)"
  by (simp add: show_int_def)

lemma show_nat_no_slash: "CHR ''/'' \<notin> set (show_nat n)"
  using show_nat_digits [of n] digit_not_special by (auto simp: list_all_iff)

lemma split_on_nonempty [simp]: "split_on c s \<noteq> []"
  by (induction s) (auto split: list.splits)

lemma split_on_no_sep: "c \<notin> set s \<Longrightarrow> split_on c s = [s]"
  by (induction s) auto

lemma split_on_append_sep: "c \<notin> set s \<Longrightarrow> split_on c (s @ c # t) = s # split_on c t"
  by (induction s) auto

lemma hex_val_hex_digit:
  assumes "n < 16"
  shows "hex_val (hex_digit n) = Some n"
proof -
  have "n \<in> {0, 1, 2, 3, 4, 5, 6, 7, 8, 9, 10, 11, 12, 13, 14, 15}"
    using assms by (simp only: insert_iff empty_iff) presburger
  then show ?thesis by (auto simp: hex_val_def hex_digit_def Let_def)
qed

lemma of_char_div_16: "(of_char c :: nat) div 16 < 16"
  by (rule less_mult_imp_div_less) simp

text \<open>Encoding a URI component and decoding it again gives the string back.\<close>

lemma decode_encodeURIComponent [simp]: "decodeURIComponent (encodeURIComponent s) = Some s"
proof (induction s)
  case Nil
  show ?case by simp
next
  case (Cons c s)
  show ?case
  proof (cases "uri_unreserved c")
    case True
    then have "c \<noteq> CHR 0x25" by (auto simp: uri_unreserved_def)
    with True Cons show ?thesis by simp
  next
    case False
    have "16 * ((of_char c :: nat) div 16) + of_char c mod 16 = of_char c"
      by simp
    moreover note of_char_div_16 [of c]
    ultimately show ?thesis
      using False Cons by (simp add: hex_val_hex_digit)
  qed
qed

lemma encode_no_slash: "CHR ''/'' \<notin> set (encodeURIComponent s)"
proof (induction s)
  case Nil
  show ?case by simp
next
  case (Cons c s)
  have hx: "n < 16 \<Longrightarrow> hex_digit n \<noteq> CHR ''/''" for n
  proof -
    assume "n < 16"
    then have "n \<in> {0, 1, 2, 3, 4, 5, 6, 7, 8, 9, 10, 11, 12, 13, 14, 15}"
      by (simp only: insert_iff empty_iff) presburger
    then show "hex_digit n \<noteq> CHR ''/''" by (auto simp: hex_digit_def)
  qed
  from hx [of "of_char c div 16"] hx [of "of_char c mod 16"] of_char_div_16 [of c] Cons
  show ?case
    by (auto simp: uri_unreserved_def)
qed

end
