(* ===== verification/JsNum.thy ===== *)
theory JsNum
  imports Prelude
begin

text \<open>
  JavaScript numbers.  \<open>jsval\<close> is what an index argument can be: a whole number, \<open>NaN\<close> or
  \<open>undefined\<close>.  \<open>jsnum\<close> is a quantity that is divided and scaled: a finite rational, one of the
  two infinities or \<open>NaN\<close>, with the IEEE rules for the exceptional values.  The rounding of a
  64-bit float and the sign of zero are not modelled.
\<close>

section \<open>Index arguments\<close>

datatype jsval = Undef | NaNv | Num int

text \<open>Relational operators are false as soon as one side is not a number.\<close>

fun jv_gt :: "jsval \<Rightarrow> int \<Rightarrow> bool" where
  "jv_gt (Num i) j = (i > j)"
| "jv_gt _ _ = False"

fun jv_ge :: "jsval \<Rightarrow> int \<Rightarrow> bool" where
  "jv_ge (Num i) j = (i \<ge> j)"
| "jv_ge _ _ = False"

fun jv_lt :: "jsval \<Rightarrow> int \<Rightarrow> bool" where
  "jv_lt (Num i) j = (i < j)"
| "jv_lt _ _ = False"

fun jv_add :: "jsval \<Rightarrow> int \<Rightarrow> jsval" where
  "jv_add (Num i) j = Num (i + j)"
| "jv_add _ _ = NaNv"

text \<open>\<open>x || 0\<close>\<close>

fun jv_or0 :: "jsval \<Rightarrow> int" where
  "jv_or0 (Num i) = i"
| "jv_or0 _ = 0"

text \<open>\<open>x === undefined ? y : x\<close>\<close>

definition jv_default :: "jsval \<Rightarrow> jsval \<Rightarrow> jsval" where
  "jv_default x y = (if x = Undef then y else x)"

definition jv_of_parse :: "int option \<Rightarrow> jsval" where
  "jv_of_parse p = (case p of None \<Rightarrow> NaNv | Some i \<Rightarrow> Num i)"

fun jv_is_num :: "jsval \<Rightarrow> bool" where
  "jv_is_num (Num i) = True"
| "jv_is_num _ = False"

text \<open>The operator \<open>%\<close>: the result takes the sign of the dividend.\<close>

definition js_rem :: "int \<Rightarrow> int \<Rightarrow> int" where
  "js_rem a b = (if a < 0 then - (\<bar>a\<bar> mod \<bar>b\<bar>) else \<bar>a\<bar> mod \<bar>b\<bar>)"

text \<open>\<open>Number.MAX_VALUE\<close>, used as an index that is past every slide.\<close>

definition js_max_value :: int where
  "js_max_value = (2 ^ 53 - 1) * 2 ^ 971"

section \<open>Quantities\<close>

datatype jsnum = NaN | PInf | NInf | Fin rat

fun js_neg :: "jsnum \<Rightarrow> jsnum" where
  "js_neg NaN = NaN"
| "js_neg PInf = NInf"
| "js_neg NInf = PInf"
| "js_neg (Fin q) = Fin (- q)"

fun js_add :: "jsnum \<Rightarrow> jsnum \<Rightarrow> jsnum" where
  "js_add NaN y = NaN"
| "js_add x NaN = NaN"
| "js_add PInf NInf = NaN"
| "js_add NInf PInf = NaN"
| "js_add PInf y = PInf"
| "js_add NInf y = NInf"
| "js_add x PInf = PInf"
| "js_add x NInf = NInf"
| "js_add (Fin p) (Fin q) = Fin (p + q)"

definition js_sub :: "jsnum \<Rightarrow> jsnum \<Rightarrow> jsnum" where
  "js_sub x y = js_add x (js_neg y)"

definition js_sgn_inf :: "rat \<Rightarrow> jsnum" where
  "js_sgn_inf q = (if q > 0 then PInf else if q < 0 then NInf else NaN)"

fun js_mul :: "jsnum \<Rightarrow> jsnum \<Rightarrow> jsnum" where
  "js_mul NaN y = NaN"
| "js_mul x NaN = NaN"
| "js_mul PInf PInf = PInf"
| "js_mul PInf NInf = NInf"
| "js_mul NInf PInf = NInf"
| "js_mul NInf NInf = PInf"
| "js_mul PInf (Fin q) = js_sgn_inf q"
| "js_mul NInf (Fin q) = js_sgn_inf (- q)"
| "js_mul (Fin q) PInf = js_sgn_inf q"
| "js_mul (Fin q) NInf = js_sgn_inf (- q)"
| "js_mul (Fin p) (Fin q) = Fin (p * q)"

text \<open>Division by (positive) zero gives an infinity, or \<open>NaN\<close> for \<open>0 / 0\<close>.\<close>

fun js_div :: "jsnum \<Rightarrow> jsnum \<Rightarrow> jsnum" where
  "js_div NaN y = NaN"
| "js_div x NaN = NaN"
| "js_div PInf PInf = NaN"
| "js_div PInf NInf = NaN"
| "js_div NInf PInf = NaN"
| "js_div NInf NInf = NaN"
| "js_div PInf (Fin q) = (if q < 0 then NInf else PInf)"
| "js_div NInf (Fin q) = (if q < 0 then PInf else NInf)"
| "js_div (Fin p) PInf = Fin 0"
| "js_div (Fin p) NInf = Fin 0"
| "js_div (Fin p) (Fin q) = (if q = 0 then js_sgn_inf p else Fin (p / q))"

fun js_less :: "jsnum \<Rightarrow> jsnum \<Rightarrow> bool" where
  "js_less NaN y = False"
| "js_less x NaN = False"
| "js_less PInf y = False"
| "js_less x NInf = False"
| "js_less NInf y = True"
| "js_less x PInf = True"
| "js_less (Fin p) (Fin q) = (p < q)"

text \<open>\<open>Math.min\<close> and \<open>Math.max\<close> are \<open>NaN\<close> when an argument is.\<close>

definition js_min :: "jsnum \<Rightarrow> jsnum \<Rightarrow> jsnum" where
  "js_min x y = (if x = NaN \<or> y = NaN then NaN else if js_less y x then y else x)"

definition js_max :: "jsnum \<Rightarrow> jsnum \<Rightarrow> jsnum" where
  "js_max x y = (if x = NaN \<or> y = NaN then NaN else if js_less x y then y else x)"

text \<open>\<open>!!x\<close>: zero and \<open>NaN\<close> are falsy.\<close>

fun js_truthy :: "jsnum \<Rightarrow> bool" where
  "js_truthy NaN = False"
| "js_truthy (Fin q) = (q \<noteq> 0)"
| "js_truthy _ = True"

definition js_of_int :: "int \<Rightarrow> jsnum" where
  "js_of_int i = Fin (of_int i)"

section \<open>Facts\<close>

lemma js_rem_bounds:
  assumes "b > 0"
  shows "- b < js_rem a b \<and> js_rem a b < b"
proof -
  from assms have "0 \<le> \<bar>a\<bar> mod \<bar>b\<bar>" "\<bar>a\<bar> mod \<bar>b\<bar> < b" by auto
  with assms show ?thesis
    unfolding js_rem_def by (cases "a < 0"; simp only: if_True if_False; linarith)
qed

lemma js_rem_small: "0 \<le> a \<Longrightarrow> a < b \<Longrightarrow> js_rem a b = a"
  by (simp add: js_rem_def)

lemma js_rem_self: "b > 0 \<Longrightarrow> js_rem b b = 0"
  by (simp add: js_rem_def)

lemma js_rem_minus_one: "b > 1 \<Longrightarrow> js_rem (- 1) b = - 1"
  by (simp add: js_rem_def)

lemma js_max_value_large: "int n < 2 ^ 53 \<Longrightarrow> int n < js_max_value"
proof -
  assume "int n < 2 ^ 53"
  also have "(2::int) ^ 53 \<le> js_max_value" by (simp add: js_max_value_def)
  finally show ?thesis .
qed

text \<open>Clamping a quantity that is a number keeps it between the two bounds.\<close>

lemma js_min_Fin: "js_min (Fin p) (Fin q) = Fin (min p q)"
  by (simp add: js_min_def min_def not_less)

lemma js_max_Fin: "js_max (Fin p) (Fin q) = Fin (max p q)"
  by (auto simp: js_max_def max_def)

lemma js_clamp_Fin:
  assumes "x \<noteq> NaN" and "lo \<le> hi"
  shows "\<exists>q. js_min (js_max x (Fin lo)) (Fin hi) = Fin q \<and> lo \<le> q \<and> q \<le> hi"
  using assms by (cases x) (auto simp: js_min_def js_max_def)

end
