(* ===== verification/Dom.thy ===== *)
theory Dom
  imports JsStrings JsNum
begin

text \<open>
  The part of the page the program reads and writes: the \<open>.slides\<close> container as a tree of element
  addresses (\<open>node\<close>), and a store that holds, at each address, the element's tag, classes and
  attributes.  A variable of the program that holds an element (\<open>currentSlide\<close>) is an address, so
  two variables can name the same element and a write through one is seen through the other.
  A CSS selector of the program is a predicate on elements, and \<open>querySelectorAll\<close> is the filter
  of the descendants in document order.
\<close>

datatype tag = Section | Img | Video | Audio | Iframe | Source | Anchor | Aside | Tag string
  \<comment> \<open>\<open>Tag\<close> is any other element, by its \<open>nodeName\<close>\<close>

abbreviation OtherTag :: tag where
  "OtherTag \<equiv> Tag ''DIV''"

datatype cls = Past | Present | Future | Stack | Fragment | Visible | CurrentFragment | Disabled
  | CenterClass | NotesClass | HasDarkBackground | HasLightBackground | FadeOut | FitText
  | SlideBackgroundClass | Hljs | HljsLnCode | HljsLnLine

datatype attr = AId | Hidden | AriaHidden | DataState | DataAutoslide | DataAutoplay
  | DataVisibility | DataFragment | DataFragmentIndex | DataPreviousIndexv | DataStartIndexv
  | DataAutoAnimate | DataAutoAnimateId | DataAutoAnimateRestart | DataNotes
  | DataIndexH | DataIndexV | DataPreventSwipe
  | DataBackground | DataBackgroundSize | DataBackgroundImage | DataBackgroundVideo
  | DataBackgroundIframe | DataBackgroundColor | DataBackgroundGradient | DataBackgroundRepeat
  | DataBackgroundPosition | DataBackgroundTransition | DataBackgroundOpacity | DataPreload
  | DataBackgroundVideoLoop | DataBackgroundVideoMuted
  | Src | DataSrc | DataLazyLoaded | DataIgnore | DataPausedByReveal | Playsinline
  | DataId | DataAutoAnimateTarget | DataAutoAnimateEasing | DataAutoAnimateDuration
  | DataAutoAnimateDelay | DataAutoAnimateUnmatched | DataLineNumber | DataMarkdown

datatype transform3d = NoTransform | TranslateX jsnum | TranslateY jsnum

datatype topstyle = TopUnset | TopZero | TopPx rat

record elem =
  tag :: tag
  classes :: "cls set"
  attrs :: "attr \<Rightarrow> string option"
  displayNone :: bool
  top :: topstyle
  transform :: transform3d
  innerHTML :: string
  duration :: rat
  playbackRate :: rat

text \<open>An element with no classes and no attributes, as \<open>document.createElement\<close> returns it.\<close>

definition blank_elem :: "tag \<Rightarrow> elem" where
  "blank_elem t = \<lparr>tag = t, classes = {}, attrs = (\<lambda>_. None), displayNone = False,
     top = TopUnset, transform = NoTransform, innerHTML = [], duration = 0, playbackRate = 1\<rparr>"

datatype node = Node (nid: nat) (children: "node list")

record dom =
  dom_root :: node
  el :: "nat \<Rightarrow> elem"

section \<open>The tree\<close>

fun descendants :: "node \<Rightarrow> node list" where
  "descendants (Node i ns) = concat (map (\<lambda>n. n # descendants n) ns)"

definition nodes :: "dom \<Rightarrow> node list" where
  "nodes d = dom_root d # descendants (dom_root d)"

definition node_of :: "dom \<Rightarrow> nat \<Rightarrow> node option" where
  "node_of d i = List.find (\<lambda>n. nid n = i) (nodes d)"

definition parent_of :: "dom \<Rightarrow> nat \<Rightarrow> node option" where
  "parent_of d i = List.find (\<lambda>n. i \<in> set (map nid (children n))) (nodes d)"

text \<open>\<open>el.nextElementSibling\<close>\<close>

definition next_sibling :: "dom \<Rightarrow> nat \<Rightarrow> nat option" where
  "next_sibling d i =
     (case parent_of d i of
        None \<Rightarrow> None
      | Some p \<Rightarrow>
          (case dropWhile (\<lambda>j. j \<noteq> i) (map nid (children p)) of
             _ # j # _ \<Rightarrow> Some j
           | _ \<Rightarrow> None))"

section \<open>Selectors\<close>

definition has_class :: "cls \<Rightarrow> elem \<Rightarrow> bool" where
  "has_class c e \<longleftrightarrow> c \<in> classes e"

definition has_attr :: "attr \<Rightarrow> elem \<Rightarrow> bool" where
  "has_attr a e \<longleftrightarrow> attrs e a \<noteq> None"

definition is_section :: "elem \<Rightarrow> bool" where
  "is_section e \<longleftrightarrow> tag e = Section"

text \<open>\<open>queryAll(el, selector)\<close> of \<open>utils/util.js\<close>: the matching proper descendants, in document order.\<close>

definition queryAll_node :: "dom \<Rightarrow> node \<Rightarrow> (elem \<Rightarrow> bool) \<Rightarrow> nat list" where
  "queryAll_node d n P = filter (\<lambda>i. P (el d i)) (map nid (descendants n))"

definition queryAll :: "dom \<Rightarrow> nat \<Rightarrow> (elem \<Rightarrow> bool) \<Rightarrow> nat list" where
  "queryAll d i P = (case node_of d i of None \<Rightarrow> [] | Some n \<Rightarrow> queryAll_node d n P)"

definition querySelector :: "dom \<Rightarrow> nat \<Rightarrow> (elem \<Rightarrow> bool) \<Rightarrow> nat option" where
  "querySelector d i P = (case queryAll d i P of [] \<Rightarrow> None | x # _ \<Rightarrow> Some x)"

text \<open>The element and its ancestors, from the outside in; \<open>el.closest(selector)\<close> looks from the inside.\<close>

definition element_path :: "dom \<Rightarrow> nat \<Rightarrow> nat list" where
  "element_path dm i = map nid (filter (\<lambda>n. nid n = i \<or> i \<in> nid ` set (descendants n)) (nodes dm))"

definition closest :: "dom \<Rightarrow> nat \<Rightarrow> (elem \<Rightarrow> bool) \<Rightarrow> nat option" where
  "closest dm i P = List.find (\<lambda>j. P (el dm j)) (rev (element_path dm i))"

text \<open>Selectors that also look at the ancestors of an element.\<close>

definition queryIds :: "dom \<Rightarrow> nat \<Rightarrow> (nat \<Rightarrow> bool) \<Rightarrow> nat list" where
  "queryIds dm s Q = filter Q (queryAll dm s (\<lambda>_. True))"

definition has_ancestor :: "dom \<Rightarrow> (elem \<Rightarrow> bool) \<Rightarrow> nat \<Rightarrow> bool" where
  "has_ancestor dm P i \<longleftrightarrow> list_ex (\<lambda>j. j \<noteq> i \<and> P (el dm j)) (element_path dm i)"

text \<open>Direct children that are sections, the \<open>>section\<close> step of the selectors.\<close>

definition section_children :: "dom \<Rightarrow> node \<Rightarrow> node list" where
  "section_children d n = filter (\<lambda>m. is_section (el d (nid m))) (children n)"

text \<open>\<open>HORIZONTAL_SLIDES_SELECTOR\<close> is \<open>.slides>section\<close>.\<close>

definition horizontal_nodes :: "dom \<Rightarrow> node list" where
  "horizontal_nodes d = section_children d (dom_root d)"

definition horizontal_slides :: "dom \<Rightarrow> nat list" where
  "horizontal_slides d = map nid (horizontal_nodes d)"

text \<open>\<open>VERTICAL_SLIDES_SELECTOR\<close> is \<open>.slides>section.present>section\<close>.\<close>

definition present_vertical_slides :: "dom \<Rightarrow> nat list" where
  "present_vertical_slides d =
     concat (map (\<lambda>n. map nid (section_children d n))
       (filter (\<lambda>n. has_class Present (el d (nid n))) (horizontal_nodes d)))"

text \<open>\<open>SLIDES_SELECTOR\<close> is \<open>.slides section\<close>.\<close>

definition all_slides :: "dom \<Rightarrow> nat list" where
  "all_slides d = queryAll_node d (dom_root d) is_section"

text \<open>\<open>slide.parentNode.nodeName.match( /section/i )\<close>\<close>

definition is_vertical :: "dom \<Rightarrow> nat \<Rightarrow> bool" where
  "is_vertical d i =
     (case parent_of d i of None \<Rightarrow> False | Some p \<Rightarrow> is_section (el d (nid p)))"

section \<open>Mutators\<close>

definition update_el :: "nat \<Rightarrow> (elem \<Rightarrow> elem) \<Rightarrow> dom \<Rightarrow> dom" where
  "update_el i f d = d\<lparr>el := (el d)(i := f (el d i))\<rparr>"

definition update_all :: "(elem \<Rightarrow> elem) \<Rightarrow> nat list \<Rightarrow> dom \<Rightarrow> dom" where
  "update_all f is d = fold (\<lambda>i. update_el i f) is d"

definition add_class :: "cls \<Rightarrow> elem \<Rightarrow> elem" where
  "add_class c e = e\<lparr>classes := insert c (classes e)\<rparr>"

definition remove_class :: "cls \<Rightarrow> elem \<Rightarrow> elem" where
  "remove_class c e = e\<lparr>classes := classes e - {c}\<rparr>"

definition set_attr :: "attr \<Rightarrow> string \<Rightarrow> elem \<Rightarrow> elem" where
  "set_attr a v e = e\<lparr>attrs := (attrs e)(a := Some v)\<rparr>"

definition remove_attr :: "attr \<Rightarrow> elem \<Rightarrow> elem" where
  "remove_attr a e = e\<lparr>attrs := (attrs e)(a := None)\<rparr>"

section \<open>Facts about the mutators\<close>

lemma has_class_add [simp, dom_simps]: "has_class c (add_class c' e) \<longleftrightarrow> c = c' \<or> has_class c e"
  by (auto simp: has_class_def add_class_def)

lemma has_class_remove [simp, dom_simps]:
  "has_class c (remove_class c' e) \<longleftrightarrow> c \<noteq> c' \<and> has_class c e"
  by (auto simp: has_class_def remove_class_def)

lemma has_class_set_attr [simp]: "has_class c (set_attr a v e) = has_class c e"
  by (simp add: has_class_def set_attr_def)

lemma has_class_remove_attr [simp]: "has_class c (remove_attr a e) = has_class c e"
  by (simp add: has_class_def remove_attr_def)

lemma attrs_add_class [simp]: "attrs (add_class c e) = attrs e"
  by (simp add: add_class_def)

lemma attrs_remove_class [simp]: "attrs (remove_class c e) = attrs e"
  by (simp add: remove_class_def)

lemma attrs_set_attr [simp]: "attrs (set_attr a v e) = (attrs e)(a := Some v)"
  by (simp add: set_attr_def)

lemma attrs_remove_attr [simp]: "attrs (remove_attr a e) = (attrs e)(a := None)"
  by (simp add: remove_attr_def)

lemma tag_mutators [simp]:
  "tag (add_class c e) = tag e" "tag (remove_class c e) = tag e"
  "tag (set_attr a v e) = tag e" "tag (remove_attr a e) = tag e"
  by (simp_all add: add_class_def remove_class_def set_attr_def remove_attr_def)

lemma is_section_mutators [simp]:
  "is_section (add_class c e) = is_section e" "is_section (remove_class c e) = is_section e"
  "is_section (set_attr a v e) = is_section e" "is_section (remove_attr a e) = is_section e"
  by (simp_all add: is_section_def)

lemma has_class_Fragment_stable [simp]:
  "c \<noteq> Fragment \<Longrightarrow> has_class Fragment (add_class c e) = has_class Fragment e"
  by auto

section \<open>Data updates leave the tree alone\<close>

lemma root_update_el [simp, shape_simps]: "dom_root (update_el i f d) = dom_root d"
  by (simp add: update_el_def)

lemma el_update_el: "el (update_el i f d) j = (if j = i then f (el d i) else el d j)"
  by (simp add: update_el_def)

lemma el_update_el_same [simp]: "el (update_el i f d) i = f (el d i)"
  by (simp add: el_update_el)

lemma el_update_el_other [simp]: "j \<noteq> i \<Longrightarrow> el (update_el i f d) j = el d j"
  by (simp add: el_update_el)

lemma root_fold:
  assumes "\<And>x d. dom_root (f x d) = dom_root d"
  shows "dom_root (fold f xs d) = dom_root d"
  using assms by (induction xs arbitrary: d) auto

lemma root_update_all [simp, shape_simps]: "dom_root (update_all f is d) = dom_root d"
  by (simp add: update_all_def root_fold)

lemma el_update_all:
  assumes "\<And>x. f (f x) = f x"
  shows "el (update_all f is d) i = (if i \<in> set is then f (el d i) else el d i)"
proof -
  have "el (update_all f is d) = fold (\<lambda>j m. m(j := f (m j))) is (el d)"
    unfolding update_all_def
    by (rule fold_commuting_observation) (simp add: update_el_def)
  then show ?thesis by (simp only: fold_upd_idem [OF assms])
qed

lemma update_all_Nil [simp]: "update_all f [] d = d"
  by (simp add: update_all_def)

lemma update_all_Cons [simp]: "update_all f (i # is) d = update_all f is (update_el i f d)"
  by (simp add: update_all_def)

lemma el_update_all_notin [simp]: "i \<notin> set is \<Longrightarrow> el (update_all f is d) i = el d i"
  by (induction "is" arbitrary: d) auto

text \<open>What depends on the tree only is the same after a data update.\<close>

lemma nodes_root: "dom_root d' = dom_root d \<Longrightarrow> nodes d' = nodes d"
  by (simp add: nodes_def)

lemma node_of_root: "dom_root d' = dom_root d \<Longrightarrow> node_of d' i = node_of d i"
  by (simp add: node_of_def nodes_def)

lemma parent_of_root: "dom_root d' = dom_root d \<Longrightarrow> parent_of d' i = parent_of d i"
  by (simp add: parent_of_def nodes_def)

lemma next_sibling_root: "dom_root d' = dom_root d \<Longrightarrow> next_sibling d' i = next_sibling d i"
  by (simp add: next_sibling_def parent_of_root [of d' d])

text \<open>
  Two documents with the same tree and the same tags have the same slides.  Every operation of the
  deck but \<open>shuffle\<close> and \<open>removeHiddenSlides\<close> keeps both.
\<close>

definition same_shape :: "dom \<Rightarrow> dom \<Rightarrow> bool" where
  "same_shape d d' \<longleftrightarrow>
     dom_root d' = dom_root d \<and>
     (\<forall>i. tag (el d' i) = tag (el d i) \<and> has_class Fragment (el d' i) = has_class Fragment (el d i))"

lemma same_shape_refl [simp, intro]: "same_shape d d"
  by (simp add: same_shape_def)

lemma same_shape_trans [trans]: "same_shape a b \<Longrightarrow> same_shape b c \<Longrightarrow> same_shape a c"
  by (simp add: same_shape_def)

lemma same_shape_update_el:
  "(\<And>e. tag (f e) = tag e \<and> has_class Fragment (f e) = has_class Fragment e)
    \<Longrightarrow> same_shape d (update_el i f d)"
  by (simp add: same_shape_def el_update_el)

lemma same_shape_fold:
  assumes "\<And>x d. same_shape d (f x d)"
  shows "same_shape d (fold f xs d)"
proof (induction xs arbitrary: d)
  case Nil
  show ?case by simp
next
  case (Cons x xs)
  from assms [of d x] Cons.IH [of "f x d"] show ?case by (simp) (rule same_shape_trans)
qed

lemma same_shape_update_all:
  "(\<And>e. tag (f e) = tag e \<and> has_class Fragment (f e) = has_class Fragment e)
    \<Longrightarrow> same_shape d (update_all f is d)"
  unfolding update_all_def by (rule same_shape_fold) (rule same_shape_update_el)

lemma same_shape_root: "same_shape d d' \<Longrightarrow> dom_root d' = dom_root d"
  by (simp add: same_shape_def)

lemma same_shape_is_section: "same_shape d d' \<Longrightarrow> is_section (el d' i) = is_section (el d i)"
  by (simp add: same_shape_def is_section_def)

lemma same_shape_section_children: "same_shape d d' \<Longrightarrow> section_children d' n = section_children d n"
  by (simp add: section_children_def same_shape_is_section [of d d'])

lemma same_shape_horizontal_nodes: "same_shape d d' \<Longrightarrow> horizontal_nodes d' = horizontal_nodes d"
  by (simp add: horizontal_nodes_def same_shape_section_children [of d d'] same_shape_root [of d d'])

lemma same_shape_horizontal_slides:
  "same_shape d d' \<Longrightarrow> horizontal_slides d' = horizontal_slides d"
  by (simp add: horizontal_slides_def same_shape_horizontal_nodes [of d d'])

lemma same_shape_is_vertical: "same_shape d d' \<Longrightarrow> is_vertical d' i = is_vertical d i"
  by (simp add: is_vertical_def parent_of_root [OF same_shape_root] same_shape_is_section [of d d']
      split: option.splits)

lemma same_shape_queryAll_node:
  assumes "same_shape d d'" and "\<And>i. P (el d' i) = P (el d i)"
  shows "queryAll_node d' n P = queryAll_node d n P"
  using assms(2) by (simp add: queryAll_node_def)

lemma same_shape_queryAll:
  assumes "same_shape d d'" and "\<And>i. P (el d' i) = P (el d i)"
  shows "queryAll d' j P = queryAll d j P"
proof -
  have "node_of d' j = node_of d j" by (rule node_of_root) (rule same_shape_root [OF assms(1)])
  then show ?thesis
    using same_shape_queryAll_node [OF assms] by (simp add: queryAll_def split: option.splits)
qed

lemma same_shape_sections: "same_shape d d' \<Longrightarrow> queryAll d' j is_section = queryAll d j is_section"
  by (rule same_shape_queryAll) (simp_all add: same_shape_def is_section_def)

lemma same_shape_fragments:
  "same_shape d d' \<Longrightarrow> queryAll d' j (has_class Fragment) = queryAll d j (has_class Fragment)"
  by (rule same_shape_queryAll) (simp_all add: same_shape_def)

section \<open>Marks\<close>

text \<open>
  What the position of the deck is written in: the tree, the tags, and every class and attribute
  but the ones that only record the progress within a slide or its place in the overview.
\<close>

definition progress_classes :: "cls set" where
  "progress_classes = {Visible, CurrentFragment}"

definition progress_attrs :: "attr set" where
  "progress_attrs = {DataFragment, DataFragmentIndex, DataIndexH, DataIndexV, DataPreviousIndexv}"

definition same_marks_elem :: "elem \<Rightarrow> elem \<Rightarrow> bool" where
  "same_marks_elem e e' \<longleftrightarrow>
     tag e' = tag e \<and> classes e' - progress_classes = classes e - progress_classes \<and>
     (\<forall>a. a \<notin> progress_attrs \<longrightarrow> attrs e' a = attrs e a) \<and> innerHTML e' = innerHTML e"

definition same_marks :: "dom \<Rightarrow> dom \<Rightarrow> bool" where
  "same_marks d d' \<longleftrightarrow> dom_root d' = dom_root d \<and> (\<forall>i. same_marks_elem (el d i) (el d' i))"

lemma same_marks_elem_refl [simp, intro]: "same_marks_elem e e"
  by (simp add: same_marks_elem_def)

lemma same_marks_elem_trans: "same_marks_elem a b \<Longrightarrow> same_marks_elem b c \<Longrightarrow> same_marks_elem a c"
  by (simp add: same_marks_elem_def)

lemma same_marks_refl [simp, intro]: "same_marks d d"
  by (simp add: same_marks_def)

lemma same_marks_trans [trans]: "same_marks a b \<Longrightarrow> same_marks b c \<Longrightarrow> same_marks a c"
  by (auto simp: same_marks_def intro: same_marks_elem_trans)

lemma same_marks_update_el: "(\<And>e. same_marks_elem e (f e)) \<Longrightarrow> same_marks d (update_el i f d)"
  by (simp add: same_marks_def el_update_el)

lemma same_marks_fold:
  assumes "\<And>x d. same_marks d (f x d)"
  shows "same_marks d (fold f xs d)"
proof (induction xs arbitrary: d)
  case Nil
  show ?case by simp
next
  case (Cons x xs)
  from assms [of d x] Cons.IH [of "f x d"] show ?case by (simp) (rule same_marks_trans)
qed

lemma same_marks_update_all: "(\<And>e. same_marks_elem e (f e)) \<Longrightarrow> same_marks d (update_all f is d)"
  unfolding update_all_def by (rule same_marks_fold) (rule same_marks_update_el)

lemma same_marks_class:
  "same_marks d d' \<Longrightarrow> c \<notin> progress_classes \<Longrightarrow> has_class c (el d' i) = has_class c (el d i)"
  by (auto simp: same_marks_def same_marks_elem_def has_class_def)

lemma same_marks_attr:
  "same_marks d d' \<Longrightarrow> a \<notin> progress_attrs \<Longrightarrow> attrs (el d' i) a = attrs (el d i) a"
  by (simp add: same_marks_def same_marks_elem_def)

lemma same_marks_shape: "same_marks d d' \<Longrightarrow> same_shape d d'"
  by (simp add: same_shape_def same_marks_class progress_classes_def)
    (simp add: same_marks_def same_marks_elem_def)

text \<open>The mutators that only write progress.\<close>

lemma same_marks_add_class [simp]: "c \<in> progress_classes \<Longrightarrow> same_marks_elem e (add_class c e)"
  by (auto simp: same_marks_elem_def add_class_def)

lemma same_marks_remove_class [simp]: "c \<in> progress_classes \<Longrightarrow> same_marks_elem e (remove_class c e)"
  by (auto simp: same_marks_elem_def remove_class_def)

lemma same_marks_set_attr [simp]: "a \<in> progress_attrs \<Longrightarrow> same_marks_elem e (set_attr a v e)"
  by (auto simp: same_marks_elem_def set_attr_def)

lemma same_marks_style [simp]:
  "same_marks_elem e (e\<lparr>displayNone := b\<rparr>)" "same_marks_elem e (e\<lparr>top := t\<rparr>)"
  "same_marks_elem e (e\<lparr>transform := x\<rparr>)"
  by (simp_all add: same_marks_elem_def)

section \<open>Well-formed documents\<close>

text \<open>Each element occurs once in the tree.\<close>

definition distinct_ids :: "dom \<Rightarrow> bool" where
  "distinct_ids d \<longleftrightarrow> distinct (map nid (nodes d))"

lemma same_shape_distinct_ids: "same_shape d d' \<Longrightarrow> distinct_ids d' = distinct_ids d"
  by (simp add: distinct_ids_def nodes_root [of d' d] same_shape_root [of d d'])

lemma queryAll_subset: "i \<in> set (queryAll d j P) \<Longrightarrow> P (el d i)"
  by (auto simp: queryAll_def queryAll_node_def split: option.splits)

lemma children_descendants: "set (children n) \<subseteq> set (descendants n)"
  by (cases n) auto

lemma child_in_descendants: "m \<in> set (children n) \<Longrightarrow> m \<in> set (descendants n)"
  using children_descendants by auto

lemma descendants_trans:
  "m \<in> set (descendants n) \<Longrightarrow> set (descendants m) \<subseteq> set (descendants n)"
  by (induction n rule: descendants.induct) fastforce

lemma child_node_of:
  assumes "distinct_ids d" and "n \<in> set (nodes d)"
  shows "node_of d (nid n) = Some n"
  unfolding node_of_def
proof (rule find_unique)
  show "n \<in> set (nodes d)" by (rule assms(2))
  show "nid n = nid n" ..
  fix m assume "m \<in> set (nodes d)" "nid m = nid n"
  with assms show "m = n"
    by (auto simp: distinct_ids_def distinct_map dest: inj_onD)
qed

lemma horizontal_node_in_nodes: "n \<in> set (horizontal_nodes d) \<Longrightarrow> n \<in> set (nodes d)"
  by (auto simp: horizontal_nodes_def section_children_def nodes_def dest: child_in_descendants)

lemma queryAll_horizontal:
  assumes "distinct_ids d" and "n \<in> set (horizontal_nodes d)"
  shows "queryAll d (nid n) P = queryAll_node d n P"
  using assms child_node_of horizontal_node_in_nodes by (auto simp: queryAll_def)

end
