(* ===== verification/Config.thy ===== *)
theory Config
  imports JsNum
begin

text \<open>
  The configuration object (\<open>config.js\<close>): the options the modelled code reads, with their default
  values, in the order of the file.  An option that may be a boolean, a string or a function is a
  datatype with one constructor per kind of value; a configured callback is represented by the
  value the code reads from it.  The options of backgrounds, media, auto-animation and the PDF
  export are a record of their own, \<open>content_config\<close>.  Options that only style sheets read have no
  field.
\<close>

datatype dim = DimNum rat | DimPct string
  \<comment> \<open>a number of pixels, or a string that ends in a percent sign\<close>

datatype slide_number = SNOff | SNOn | SNFormat string | SNFun "nat option \<Rightarrow> string list"

datatype nav_mode = NavDefault | NavLinear | NavGrid

datatype api_method = MNext | MPrev | MLeft | MRight | MUp | MDown | MTogglePause | MToggleOverview
  | MToggleHelp | MToggleAutoSlide | MUnknown
  \<comment> \<open>a method of the API that a key can name; \<open>MUnknown\<close> is a name the API does not have\<close>

datatype key_action = KeyCallback nat | KeyMethod api_method
  \<comment> \<open>a callback function (by its identity), or the name of an API method\<close>

datatype keyboard_option = KeysOff | KeysOn | KeysCustom "(string \<times> key_action) list"

datatype keyboard_condition = CondNone | CondFocused | CondFun "int \<Rightarrow> bool"
  \<comment> \<open>\<open>CondFun f\<close>: a predicate on the pressed key code; false ignores the key\<close>

datatype show_notes = NotesOff | NotesOn | NotesLayout string

datatype auto_slide = ASFalse | ASNum jsnum

text \<open>\<open>!!autoSlide\<close>\<close>

fun as_truthy :: "auto_slide \<Rightarrow> bool" where
  "as_truthy ASFalse = False"
| "as_truthy (ASNum x) = js_truthy x"

record config =
  cfg_width :: dim
  cfg_height :: dim
  cfg_margin :: rat
  cfg_minScale :: rat
  cfg_maxScale :: rat
  cfg_controls :: bool
  cfg_controlsTutorial :: bool
  cfg_progress :: bool
  cfg_slideNumber :: slide_number
  cfg_showSlideNumber :: string
  cfg_hashOneBasedIndex :: bool
  cfg_hash :: bool
  cfg_respondToHashChanges :: bool
  cfg_history :: bool
  cfg_keyboard :: keyboard_option
  cfg_keyboardCondition :: keyboard_condition
  cfg_disableLayout :: bool
  cfg_overview :: bool
  cfg_center :: bool
  cfg_touch :: bool
  cfg_loop :: bool
  cfg_rtl :: bool
  cfg_navigationMode :: nav_mode
  cfg_fragments :: bool
  cfg_fragmentInURL :: bool
  cfg_embedded :: bool
  cfg_help :: bool
  cfg_pause :: bool
  cfg_showNotes :: show_notes

record full_config = config +
  cfg_autoAnimate :: bool
  cfg_autoSlide :: auto_slide
  cfg_autoSlideStoppable :: bool
  cfg_autoSlideMethod :: bool
  cfg_mouseWheel :: bool
  cfg_postMessageEvents :: bool
  cfg_viewDistance :: int
  cfg_mobileViewDistance :: int
  cfg_hideInactiveCursor :: bool
  cfg_hideCursorTime :: int
  cfg_showHiddenSlides :: bool
  cfg_shuffle :: bool
  cfg_autoPlayMediaOff :: bool
    \<comment> \<open>\<open>autoPlayMedia === false\<close>; its default is \<open>null\<close>\<close>

definition default_config :: full_config where
  "default_config =
    \<lparr>cfg_width = DimNum 960,
     cfg_height = DimNum 700,
     cfg_margin = 4 / 100,
     cfg_minScale = 2 / 10,
     cfg_maxScale = 2,
     cfg_controls = True,
     cfg_controlsTutorial = True,
     cfg_progress = True,
     cfg_slideNumber = SNOff,
     cfg_showSlideNumber = ''all'',
     cfg_hashOneBasedIndex = False,
     cfg_hash = False,
     cfg_respondToHashChanges = True,
     cfg_history = False,
     cfg_keyboard = KeysOn,
     cfg_keyboardCondition = CondNone,
     cfg_disableLayout = False,
     cfg_overview = True,
     cfg_center = True,
     cfg_touch = True,
     cfg_loop = False,
     cfg_rtl = False,
     cfg_navigationMode = NavDefault,
     cfg_fragments = True,
     cfg_fragmentInURL = True,
     cfg_embedded = False,
     cfg_help = True,
     cfg_pause = True,
     cfg_showNotes = NotesOff,
     cfg_autoAnimate = True,
     cfg_autoSlide = ASNum (Fin 0),
     cfg_autoSlideStoppable = True,
     cfg_autoSlideMethod = False,
     cfg_mouseWheel = False,
     cfg_postMessageEvents = False,
     cfg_viewDistance = 3,
     cfg_mobileViewDistance = 2,
     cfg_hideInactiveCursor = True,
     cfg_hideCursorTime = 5000,
     cfg_showHiddenSlides = False,
     cfg_shuffle = False,
     cfg_autoPlayMediaOff = False\<rparr>"

text \<open>
  The options of the controllers for backgrounds, media, auto-animation and PDF export.  A style that
  is animated may fix the value it starts from or ends at.
\<close>

record anim_style =
  st_property :: string
  st_from :: "string option"
  st_to :: "string option"

definition plain_style :: "string \<Rightarrow> anim_style" where
  "plain_style p = \<lparr>st_property = p, st_from = None, st_to = None\<rparr>"

record content_config =
  cfg_autoPlayMedia :: "bool option"
  cfg_preloadIframes :: "bool option"
  cfg_parallaxBackgroundImage :: string
  cfg_parallaxBackgroundSize :: string
  cfg_parallaxBackgroundRepeat :: string
  cfg_parallaxBackgroundPosition :: string
  cfg_parallaxBackgroundHorizontal :: "rat option"
  cfg_parallaxBackgroundVertical :: "rat option"
  cfg_display :: string
  cfg_autoAnimateEasing :: string
  cfg_autoAnimateDuration :: jsnum
  cfg_autoAnimateUnmatched :: bool
  cfg_autoAnimateStyles :: "anim_style list"
  cfg_pdfMaxPagesPerSlide :: jsnum
  cfg_pdfSeparateFragments :: bool
  cfg_pdfPageHeightOffset :: rat

definition default_content_config :: content_config where
  "default_content_config =
    \<lparr>cfg_autoPlayMedia = None,
     cfg_preloadIframes = None,
     cfg_parallaxBackgroundImage = [],
     cfg_parallaxBackgroundSize = [],
     cfg_parallaxBackgroundRepeat = [],
     cfg_parallaxBackgroundPosition = [],
     cfg_parallaxBackgroundHorizontal = None,
     cfg_parallaxBackgroundVertical = None,
     cfg_display = ''block'',
     cfg_autoAnimateEasing = ''ease'',
     cfg_autoAnimateDuration = Fin 1,
     cfg_autoAnimateUnmatched = True,
     cfg_autoAnimateStyles = map plain_style
       [''opacity'', ''color'', ''background-color'', ''padding'', ''font-size'', ''line-height'',
        ''letter-spacing'', ''border-width'', ''border-color'', ''border-radius'', ''outline'',
        ''outline-offset''],
     cfg_pdfMaxPagesPerSlide = PInf,
     cfg_pdfSeparateFragments = True,
     cfg_pdfPageHeightOffset = - 1\<rparr>"

lemma default_config_simps [simp]:
  "cfg_loop default_config = False" "cfg_rtl default_config = False"
  "cfg_fragments default_config = True" "cfg_navigationMode default_config = NavDefault"
  "cfg_overview default_config = True" "cfg_pause default_config = True"
  "cfg_fragmentInURL default_config = True" "cfg_hashOneBasedIndex default_config = False"
  "cfg_autoSlide default_config = ASNum (Fin 0)" "cfg_viewDistance default_config = 3"
  "cfg_progress default_config = True" "cfg_slideNumber default_config = SNOff"
  "cfg_hash default_config = False" "cfg_history default_config = False"
  "cfg_autoSlideStoppable default_config = True" "cfg_keyboard default_config = KeysOn"
  "cfg_keyboardCondition default_config = CondNone" "cfg_autoSlideMethod default_config = False"
  "cfg_postMessageEvents default_config = False" "cfg_showNotes default_config = NotesOff"
  by (simp_all add: default_config_def)

end
