(* ===== verification/Deck.thy ===== *)
theory Deck
  imports Dom Config
begin

text \<open>
  The state of one presentation (the local variables of the function exported by \<open>reveal.js\<close>) as a
  record, the log of what the deck tells the outside (events, messages, media), the timers it has
  pending with the browser, and the queries of \<open>reveal.js\<close> that only read the state.
\<close>

section \<open>What the deck sends out\<close>

record indices =
  ih :: jsval
  iv :: jsval
  ifr :: jsval

record snapshot =
  snap_indexh :: jsval
  snap_indexv :: jsval
  snap_indexf :: jsval
  snap_paused :: bool
  snap_overview :: bool

datatype event =
    BeforeSlideChange jsval jsval
  | SlideChanged jsval jsval "nat option" "nat option"
  | StateEvent string
  | VisibleEvent nat
  | HiddenEvent nat
  | FragmentShown "nat list"
  | FragmentHidden "nat list"
  | PausedEvent
  | ResumedEvent
  | AutoSlidePausedEvent
  | AutoSlideResumedEvent
  | OverviewShown jsval jsval "nat option"
  | OverviewHidden jsval jsval "nat option"
  | ResizeEvent jsnum jsnum
  | SlideTransitionEnd jsval jsval "nat option" "nat option"
  | CallbackEvent string
  | ReadyEvent jsval jsval "nat option"

text \<open>
  One entry of the log: a dispatched event, a message posted to the parent window, or a call of a
  controller that works on media, backgrounds or accessibility only.
\<close>

datatype eff =
    Dispatch event
  | PostParent event snapshot
  | StartEmbedded nat
  | StopEmbedded "nat option"
  | LoadContent nat
  | UnloadContent nat
  | LayoutContents dim dim
  | AnnounceElement nat
  | UpdateBackgrounds
  | UpdateParallax
  | LayoutBackgrounds
  | CreateBackgrounds
  | SyncBackground nat
  | FormatEmbedded
  | ResetAutoAnimate
  | RunAutoAnimate nat nat
  | EnterFullscreen
  | RunCallback nat
  | RunAutoSlideMethod

section \<open>Timers\<close>

datatype timer_action =
    TimAutoSlide
  | TimResetVerticalIndices
  | TimEnableTransitions
  | TimOverviewDeactivated
  | TimReplaceState string
  | TimAnnounce
  | TimHideCursor
  | TimReady

record timer =
  tid :: int
  taction :: timer_action
  tdelay :: jsnum

section \<open>The state\<close>

datatype wrapper_class = PausedClass | OverviewClass | OverviewDeactivating | HasVerticalSlides
  | HasHorizontalSlides | FocusedClass | ShowNotesClass | ReadyClass
  | WrapperLightBackground | WrapperDarkBackground | HasParallaxBackground

datatype slides_class = NoTransition | DisableSlideTransitions

datatype layout_transform = LayoutNone | LayoutScale jsnum

datatype overview_transform = OverviewNone | OverviewAt jsnum jsnum jsnum
  \<comment> \<open>scale, x offset, y offset\<close>

datatype transition_state = Idle | Running

datatype focus_state = FocusUnset | StateFocus | StateBlur

datatype overlay_kind = HelpOverlay | PreviewOverlay string

text \<open>The state of one group of navigation arrows (\<open>controlsLeft\<close>, ...).\<close>

record control =
  ctl_enabled :: bool
  ctl_fragmented :: bool
  ctl_disabled :: bool

record controls_state =
  ctl_left :: control
  ctl_right :: control
  ctl_up :: control
  ctl_down :: control
  ctl_prev :: control
  ctl_next :: control
  hl_down :: bool
  hl_left :: bool
  hl_right :: bool

record slide_number_html =
  sn_href :: string
  sn_a :: string
  sn_rest :: "(string \<times> string) option"

record ui_state =
  progressScale :: "jsnum option"
  ctl :: controls_state
  slideNumberHtml :: "slide_number_html option"
  notesHtml :: "string option"

text \<open>What the browser and the user contribute; the deck reads these and never writes them.\<close>

record browser =
  isMobile :: bool
  isPrintingPDF :: bool
  isSpeakerNotes :: bool
  inIframe :: bool
  wrapperWidth :: rat
  wrapperHeight :: rat
  innerWidth :: rat
  innerHeight :: rat
  scrollHeight :: "nat \<Rightarrow> rat"
  prevents :: "jsval \<Rightarrow> jsval \<Rightarrow> bool"
    \<comment> \<open>whether a listener cancels \<open>beforeslidechange\<close> for this target\<close>

record deck =
  cfg :: full_config
  env :: browser
  doc :: dom
  indexh :: jsval
  indexv :: jsval
  previousSlide :: "nat option"
  currentSlide :: "nat option"
  hasNavigatedHorizontally :: bool
  hasNavigatedVertically :: bool
  deckState :: "string list"
  viewportClasses :: "string set"
  scale :: jsnum
  slidesSize :: "(jsnum \<times> jsnum) option"
  layoutTransform :: layout_transform
  overviewTransform :: overview_transform
  transition :: transition_state
  autoSlide :: auto_slide
  autoSlidePlayer :: "bool option"
  autoSlideTimeout :: int
  autoSlideStartTime :: int
  autoSlidePaused :: bool
  overviewActive :: bool
  overviewSlideWidth :: jsnum
  overviewSlideHeight :: jsnum
  wrapperClasses :: "wrapper_class set"
  slidesClasses :: "slides_class set"
  overlay :: "overlay_kind option"
  keyBindings :: "(string \<times> key_action) list"
  ui :: ui_state
  urlHash :: string
  historyStack :: "string list"
  pendingHashChanges :: nat
  replaceStateTimestamp :: int
  replaceStateTimeout :: int
  now :: int
  timers :: "timer list"
  nextTimer :: int
  focusState :: focus_state
  cursorHidden :: bool
  cursorInactiveTimeout :: int
  lastMouseWheelStep :: int
  touchStartX :: rat
  touchStartY :: rat
  touchStartCount :: nat
  touchCaptured :: bool
  log :: "eff list"

definition update_doc :: "(dom \<Rightarrow> dom) \<Rightarrow> deck \<Rightarrow> deck" where
  "update_doc f d = d\<lparr>doc := f (doc d)\<rparr>"

definition emit :: "eff \<Rightarrow> deck \<Rightarrow> deck" where
  "emit x d = d\<lparr>log := log d @ [x]\<rparr>"

text \<open>\<open>setTimeout\<close> returns the handle; \<open>clearTimeout\<close> of a handle that is not pending does nothing.\<close>

definition set_timeout :: "timer_action \<Rightarrow> jsnum \<Rightarrow> deck \<Rightarrow> int \<times> deck" where
  "set_timeout a dl d =
     (nextTimer d,
      d\<lparr>timers := timers d @ [\<lparr>tid = nextTimer d, taction = a, tdelay = dl\<rparr>],
        nextTimer := nextTimer d + 1\<rparr>)"

definition clear_timeout :: "int \<Rightarrow> deck \<Rightarrow> deck" where
  "clear_timeout i d = d\<lparr>timers := filter (\<lambda>t. tid t \<noteq> i) (timers d)\<rparr>"

section \<open>Queries on the slides\<close>

definition index_of :: "nat list \<Rightarrow> nat \<Rightarrow> int" where
  "index_of xs x = (let k = length (takeWhile (\<lambda>y. y \<noteq> x) xs)
                    in if k < length xs then int k else - 1)"

definition getHorizontalSlides :: "deck \<Rightarrow> nat list" where
  "getHorizontalSlides d = horizontal_slides (doc d)"

definition getVerticalSlides :: "deck \<Rightarrow> nat list" where
  "getVerticalSlides d =
     concat (map (\<lambda>n. map nid (section_children (doc d) n)) (horizontal_nodes (doc d)))"

definition getVerticalStacks :: "deck \<Rightarrow> nat list" where
  "getVerticalStacks d = filter (\<lambda>i. has_class Stack (el (doc d) i)) (getHorizontalSlides d)"

definition hasHorizontalSlides :: "deck \<Rightarrow> bool" where
  "hasHorizontalSlides d \<longleftrightarrow> length (getHorizontalSlides d) > 1"

definition hasVerticalSlides :: "deck \<Rightarrow> bool" where
  "hasVerticalSlides d \<longleftrightarrow> length (getVerticalSlides d) > 1"

definition is_uncounted :: "elem \<Rightarrow> bool" where
  "is_uncounted e \<longleftrightarrow> attrs e DataVisibility = Some ''uncounted''"

definition getSlides :: "deck \<Rightarrow> nat list" where
  "getSlides d =
     filter (\<lambda>i. \<not> has_class Stack (el (doc d) i) \<and> \<not> is_uncounted (el (doc d) i)) (all_slides (doc d))"

definition getTotalSlides :: "deck \<Rightarrow> nat" where
  "getTotalSlides d = length (getSlides d)"

definition isVerticalSlide :: "deck \<Rightarrow> nat \<Rightarrow> bool" where
  "isVerticalSlide d s = is_vertical (doc d) s"

definition isLastVerticalSlide :: "deck \<Rightarrow> bool" where
  "isLastVerticalSlide d =
     (case currentSlide d of
        None \<Rightarrow> False
      | Some s \<Rightarrow> isVerticalSlide d s \<and> next_sibling (doc d) s = None)"

definition isFirstSlide :: "deck \<Rightarrow> bool" where
  "isFirstSlide d \<longleftrightarrow> indexh d = Num 0 \<and> indexv d = Num 0"

definition isLastSlide :: "deck \<Rightarrow> bool" where
  "isLastSlide d =
     (case currentSlide d of
        None \<Rightarrow> False
      | Some s \<Rightarrow>
          if next_sibling (doc d) s \<noteq> None then False
          else if isVerticalSlide d s \<and>
            (case parent_of (doc d) s of
               None \<Rightarrow> False
             | Some p \<Rightarrow> next_sibling (doc d) (nid p) \<noteq> None) then False
          else True)"

definition getSlide :: "deck \<Rightarrow> int \<Rightarrow> jsval \<Rightarrow> nat option" where
  "getSlide d x y =
     (let hs = getHorizontalSlides d
      in if 0 \<le> x \<and> x < int (length hs)
         then (let h = hs ! nat x; vs = queryAll (doc d) h is_section
               in if vs \<noteq> [] \<and> y \<noteq> Undef
                  then (case y of
                          Num j \<Rightarrow> if 0 \<le> j \<and> j < int (length vs) then Some (vs ! nat j) else None
                        | _ \<Rightarrow> None)
                  else Some h)
         else None)"

definition getPreviousVerticalIndex :: "dom \<Rightarrow> nat option \<Rightarrow> jsval" where
  "getPreviousVerticalIndex dm stack =
     (case stack of
        None \<Rightarrow> Num 0
      | Some s \<Rightarrow>
          if has_class Stack (el dm s)
          then jv_of_parse (parseInt_or0
                 (if has_attr DataStartIndexv (el dm s) then attrs (el dm s) DataStartIndexv
                  else attrs (el dm s) DataPreviousIndexv))
          else Num 0)"

text \<open>\<open>setPreviousVerticalIndex( stack, v )\<close> writes \<open>v || 0\<close>.\<close>

definition setPreviousVerticalIndex :: "nat \<Rightarrow> jsval \<Rightarrow> dom \<Rightarrow> dom" where
  "setPreviousVerticalIndex s v = update_el s (set_attr DataPreviousIndexv (show_int (jv_or0 v)))"

section \<open>Counting slides\<close>

text \<open>
  The inner loop of \<open>getSlidePastCount\<close> over the vertical slides of one stack; the flag says
  whether the outer loop was left (\<open>break mainLoop\<close>).
\<close>

fun past_count_verticals :: "dom \<Rightarrow> nat option \<Rightarrow> nat list \<Rightarrow> nat \<Rightarrow> nat \<times> bool" where
  "past_count_verticals dm s [] n = (n, False)"
| "past_count_verticals dm s (v # vs) n =
     (if s = Some v then (n, True)
      else past_count_verticals dm s vs (if is_uncounted (el dm v) then n else Suc n))"

fun past_count_loop :: "dom \<Rightarrow> nat option \<Rightarrow> nat list \<Rightarrow> nat \<Rightarrow> nat" where
  "past_count_loop dm s [] n = n"
| "past_count_loop dm s (h # hs) n =
     (case past_count_verticals dm s (queryAll dm h is_section) n of
        (m, True) \<Rightarrow> m
      | (m, False) \<Rightarrow>
          if s = Some h then m
          else past_count_loop dm s hs
                 (if \<not> has_class Stack (el dm h) \<and> \<not> is_uncounted (el dm h) then Suc m else m))"

definition getSlidePastCount :: "deck \<Rightarrow> nat option \<Rightarrow> nat" where
  "getSlidePastCount d s = past_count_loop (doc d) s (getHorizontalSlides d) 0"

definition is_fragment :: "elem \<Rightarrow> bool" where
  "is_fragment = has_class Fragment"

definition is_visible_fragment :: "elem \<Rightarrow> bool" where
  "is_visible_fragment e \<longleftrightarrow> has_class Fragment e \<and> has_class Visible e"

definition getProgress :: "deck \<Rightarrow> jsnum" where
  "getProgress d =
     (let totalCount = getTotalSlides d;
          pastCount = of_nat (getSlidePastCount d (currentSlide d)) :: rat;
          pastCount' =
            (case currentSlide d of
               None \<Rightarrow> pastCount
             | Some s \<Rightarrow>
                 let allFragments = queryAll (doc d) s is_fragment
                 in if length allFragments > 0
                    then pastCount + of_nat (length (queryAll (doc d) s is_visible_fragment))
                           / of_nat (length allFragments) * (9 / 10)
                    else pastCount)
      in js_min (js_div (Fin pastCount') (Fin (of_nat totalCount - 1))) (Fin 1))"

definition getIndices :: "deck \<Rightarrow> nat option \<Rightarrow> indices" where
  "getIndices d slide =
     (case slide of
        Some s \<Rightarrow>
          (let isVertical = isVerticalSlide d s;
               slideh = (if isVertical then (case parent_of (doc d) s of None \<Rightarrow> s | Some p \<Rightarrow> nid p)
                         else s)
           in \<lparr>ih = Num (max (index_of (getHorizontalSlides d) slideh) 0),
               iv = (if isVertical
                     then Num (max (index_of (queryAll (doc d) slideh is_section) s) 0)
                     else Undef),
               ifr = Undef\<rparr>)
      | None \<Rightarrow>
          \<lparr>ih = indexh d, iv = indexv d,
           ifr =
             (case currentSlide d of
                None \<Rightarrow> Undef
              | Some s \<Rightarrow>
                  if queryAll (doc d) s is_fragment \<noteq> [] then
                    (case querySelector (doc d) s (has_class CurrentFragment) of
                       Some c \<Rightarrow>
                         (case attrs (el (doc d) c) DataFragmentIndex of
                            Some t \<Rightarrow> jv_of_parse (parseInt10 t)
                          | None \<Rightarrow> Num (int (length (queryAll (doc d) s is_visible_fragment)) - 1))
                     | None \<Rightarrow> Num (int (length (queryAll (doc d) s is_visible_fragment)) - 1))
                  else Undef)\<rparr>)"

definition isPaused :: "deck \<Rightarrow> bool" where
  "isPaused d \<longleftrightarrow> PausedClass \<in> wrapperClasses d"

definition isAutoSliding :: "deck \<Rightarrow> bool" where
  "isAutoSliding d \<longleftrightarrow> as_truthy (autoSlide d) \<and> \<not> autoSlidePaused d"

definition getState :: "deck \<Rightarrow> snapshot" where
  "getState d =
     (let i = getIndices d None
      in \<lparr>snap_indexh = ih i, snap_indexv = iv i, snap_indexf = ifr i,
          snap_paused = isPaused d, snap_overview = overviewActive d\<rparr>)"

text \<open>
  \<open>dispatchEvent\<close>: an event whose target is the wrapper is also posted to the parent window.  The
  listeners are code outside the deck; of what they do the model keeps the one effect the deck
  reads, the cancelling of \<open>beforeslidechange\<close> (\<^const>\<open>prevents\<close>).
\<close>

definition dispatchPostMessage :: "event \<Rightarrow> deck \<Rightarrow> deck" where
  "dispatchPostMessage ev d =
     (if cfg_postMessageEvents (cfg d) \<and> inIframe (env d) then emit (PostParent ev (getState d)) d
      else d)"

fun targets_wrapper :: "event \<Rightarrow> bool" where
  "targets_wrapper (VisibleEvent i) = False"
| "targets_wrapper (HiddenEvent i) = False"
| "targets_wrapper _ = True"

definition dispatchEvent :: "event \<Rightarrow> deck \<Rightarrow> deck" where
  "dispatchEvent ev d =
     (let d1 = emit (Dispatch ev) d
      in if targets_wrapper ev then dispatchPostMessage ev d1 else d1)"

section \<open>Available routes\<close>

record routes =
  r_left :: bool
  r_right :: bool
  r_up :: bool
  r_down :: bool

record fragment_routes =
  f_prev :: bool
  f_next :: bool

text \<open>\<open>Fragments.availableRoutes\<close>\<close>

definition is_enabled_fragment :: "elem \<Rightarrow> bool" where
  "is_enabled_fragment e \<longleftrightarrow> has_class Fragment e \<and> \<not> has_class Disabled e"

definition is_hidden_fragment :: "elem \<Rightarrow> bool" where
  "is_hidden_fragment e \<longleftrightarrow> is_enabled_fragment e \<and> \<not> has_class Visible e"

definition fragments_availableRoutes :: "deck \<Rightarrow> fragment_routes" where
  "fragments_availableRoutes d =
     (case currentSlide d of
        Some s \<Rightarrow>
          if cfg_fragments (cfg d)
          then (let fs = queryAll (doc d) s is_enabled_fragment;
                    hidden = queryAll (doc d) s is_hidden_fragment
                in \<lparr>f_prev = (int (length fs) - int (length hidden) > 0), f_next = (hidden \<noteq> [])\<rparr>)
          else \<lparr>f_prev = False, f_next = False\<rparr>
      | None \<Rightarrow> \<lparr>f_prev = False, f_next = False\<rparr>)"

definition availableRoutes :: "bool \<Rightarrow> deck \<Rightarrow> routes" where
  "availableRoutes includeFragments d =
     (let nh = int (length (horizontal_slides (doc d)));
          nv = int (length (present_vertical_slides (doc d)));
          r0 = \<lparr>r_left = jv_gt (indexh d) 0, r_right = jv_lt (indexh d) (nh - 1),
                r_up = jv_gt (indexv d) 0, r_down = jv_lt (indexv d) (nv - 1)\<rparr>;
          r1 = (if cfg_loop (cfg d) \<and> nh > 1 then r0\<lparr>r_left := True, r_right := True\<rparr> else r0);
          r2 = (if cfg_loop (cfg d) \<and> nv > 1 then r1\<lparr>r_up := True, r_down := True\<rparr> else r1);
          r3 = (if nh > 1 \<and> cfg_navigationMode (cfg d) = NavLinear
                then r2\<lparr>r_right := r_right r2 \<or> r_down r2, r_left := r_left r2 \<or> r_up r2\<rparr>
                else r2);
          fr = fragments_availableRoutes d;
          r4 = (if includeFragments
                then \<lparr>r_left = r_left r3 \<or> f_prev fr, r_right = r_right r3 \<or> f_next fr,
                      r_up = r_up r3 \<or> f_prev fr, r_down = r_down r3 \<or> f_next fr\<rparr>
                else r3)
      in if cfg_rtl (cfg d) then r4\<lparr>r_left := r_right r4, r_right := r_left r4\<rparr> else r4)"

end
