(* ===== verification/Contracts.thy ===== *)
theory Contracts
  imports Deck
begin

text \<open>
  The contracts the operations of the deck share, as locales.  A \<open>quiet_operation\<close> leaves the
  position of the deck alone: the configuration, the indices, the current and the previous slide
  and every mark of the document.  A \<open>timer_operation\<close> keeps the discipline of the two timer slots
  (\<open>autoSlideTimeout\<close> and \<open>replaceStateTimeout\<close>): a pending timer of the kind is the one whose
  handle is stored.  A \<open>passive_operation\<close> is quiet and does not touch timers at all, so it also is
  a timer operation.  Each component interprets the contracts its operations keep.
\<close>

section \<open>Quiet operations\<close>

definition quiet :: "deck \<Rightarrow> deck \<Rightarrow> bool" where
  "quiet d d' \<longleftrightarrow>
     cfg d' = cfg d \<and> env d' = env d \<and> indexh d' = indexh d \<and> indexv d' = indexv d \<and>
     previousSlide d' = previousSlide d \<and> currentSlide d' = currentSlide d \<and>
     overviewActive d' = overviewActive d \<and> deckState d' = deckState d \<and>
     viewportClasses d' = viewportClasses d \<and> same_marks (doc d) (doc d')"

lemma quiet_refl [simp, intro]: "quiet d d"
  by (simp add: quiet_def)

lemma quiet_trans [trans]: "quiet a b \<Longrightarrow> quiet b c \<Longrightarrow> quiet a c"
  by (auto simp: quiet_def intro: same_marks_trans)

lemma quiet_fold:
  assumes "\<And>x d. quiet d (f x d)"
  shows "quiet d (fold f xs d)"
proof (induction xs arbitrary: d)
  case Nil
  show ?case by simp
next
  case (Cons x xs)
  from assms [of d x] Cons.IH [of "f x d"] show ?case by (simp) (rule quiet_trans)
qed

lemma quiet_update_doc: "(\<And>dm. same_marks dm (f dm)) \<Longrightarrow> quiet d (update_doc f d)"
  by (simp add: quiet_def update_doc_def)

lemma quiet_marks: "quiet d d' \<Longrightarrow> same_marks (doc d) (doc d')"
  by (simp add: quiet_def)

locale quiet_operation =
  fixes oper :: "deck \<Rightarrow> deck"
  assumes quiet: "quiet d (oper d)"
begin

lemma fields [simp]:
  "cfg (oper d) = cfg d" "env (oper d) = env d"
  "indexh (oper d) = indexh d" "indexv (oper d) = indexv d"
  "previousSlide (oper d) = previousSlide d" "currentSlide (oper d) = currentSlide d"
  "overviewActive (oper d) = overviewActive d"
  "deckState (oper d) = deckState d" "viewportClasses (oper d) = viewportClasses d"
  using quiet [of d] by (simp_all add: quiet_def)

lemma marks: "same_marks (doc d) (doc (oper d))"
  by (rule quiet_marks) (rule quiet)

lemma shape: "same_shape (doc d) (doc (oper d))"
  by (rule same_marks_shape) (rule marks)

lemma slides [simp]: "horizontal_slides (doc (oper d)) = horizontal_slides (doc d)"
  by (rule same_shape_horizontal_slides) (rule shape)

lemma verticals [simp]: "queryAll (doc (oper d)) s is_section = queryAll (doc d) s is_section"
  by (rule same_shape_sections) (rule shape)

lemma fragments_of [simp]:
  "queryAll (doc (oper d)) s (has_class Fragment) = queryAll (doc d) s (has_class Fragment)"
  by (rule same_shape_fragments) (rule shape)

lemma vertical [simp]: "is_vertical (doc (oper d)) s = is_vertical (doc d) s"
  by (rule same_shape_is_vertical) (rule shape)

lemma compose: "quiet a d \<Longrightarrow> quiet a (oper d)"
  using quiet_trans quiet by blast

end

section \<open>Timer slots\<close>

definition slot_inv :: "(deck \<Rightarrow> int) \<Rightarrow> (timer_action \<Rightarrow> bool) \<Rightarrow> deck \<Rightarrow> bool" where
  "slot_inv slot owns d \<longleftrightarrow>
     0 < nextTimer d \<and> slot d < nextTimer d \<and> distinct (map tid (timers d)) \<and>
     (\<forall>t \<in> set (timers d). 0 < tid t \<and> tid t < nextTimer d \<and> (owns (taction t) \<longrightarrow> tid t = slot d))"

text \<open>
  The pattern of a variable that holds the handle of the one pending timer of its kind: the code
  clears the handle before it starts a new timer and stores the new handle.
\<close>

locale timer_slot =
  fixes slot :: "deck \<Rightarrow> int" and put_slot :: "int \<Rightarrow> deck \<Rightarrow> deck"
    and owns :: "timer_action \<Rightarrow> bool"
  assumes slot_put: "slot (put_slot i d) = i"
    and timers_put: "timers (put_slot i d) = timers d"
    and next_put: "nextTimer (put_slot i d) = nextTimer d"
    and slot_local: "slot (d\<lparr>timers := ts, nextTimer := n\<rparr>) = slot d"
begin

lemma slot_clear: "slot (clear_timeout i d) = slot d"
  using slot_local [where d = d and ts = "filter (\<lambda>t. tid t \<noteq> i) (timers d)" and n = "nextTimer d"]
  by (simp add: clear_timeout_def)

lemma inv_clear: "slot_inv slot owns d \<Longrightarrow> slot_inv slot owns (clear_timeout i d)"
  unfolding slot_inv_def slot_clear by (auto simp: clear_timeout_def distinct_map_filter)

lemma clear_empties:
  "slot_inv slot owns d \<Longrightarrow> t \<in> set (timers (clear_timeout (slot d) d)) \<Longrightarrow> \<not> owns (taction t)"
  by (auto simp: slot_inv_def clear_timeout_def)

lemma inv_set_other:
  "slot_inv slot owns d \<Longrightarrow> \<not> owns a \<Longrightarrow> slot_inv slot owns (snd (set_timeout a dl d))"
  by (fastforce simp: slot_inv_def set_timeout_def slot_local)

lemma inv_reset:
  "slot_inv slot owns d \<Longrightarrow> slot_inv slot owns (put_slot (- 1) (clear_timeout (slot d) d))"
  using clear_empties [of d] inv_clear [of d "slot d"]
  unfolding slot_inv_def slot_put timers_put next_put by fastforce

lemma inv_start:
  assumes "slot_inv slot owns d" and "\<And>t. t \<in> set (timers d) \<Longrightarrow> \<not> owns (taction t)"
  shows "slot_inv slot owns (put_slot (fst (set_timeout a dl d)) (snd (set_timeout a dl d)))"
  using assms unfolding slot_inv_def slot_put timers_put next_put
  by (auto simp: set_timeout_def)

lemma inv_restart:
  assumes "slot_inv slot owns d"
  shows "slot_inv slot owns
    (put_slot (fst (set_timeout a dl (clear_timeout (slot d) d)))
      (snd (set_timeout a dl (clear_timeout (slot d) d))))"
  using assms inv_clear clear_empties by (intro inv_start) blast+

lemma at_most_one:
  assumes "slot_inv slot owns d"
  shows "length (filter (\<lambda>t. owns (taction t)) (timers d)) \<le> 1"
proof -
  let ?ts = "filter (\<lambda>t. owns (taction t)) (timers d)"
  have "distinct (map tid ?ts)" using assms by (auto simp: slot_inv_def distinct_map_filter)
  moreover have "set (map tid ?ts) \<subseteq> {slot d}" using assms by (auto simp: slot_inv_def)
  ultimately have "length (map tid ?ts) \<le> card {slot d}"
    by (metis card_mono distinct_card finite.emptyI finite_insert)
  then show ?thesis by simp
qed

end

definition is_auto_timer :: "timer_action \<Rightarrow> bool" where
  "is_auto_timer a \<longleftrightarrow> a = TimAutoSlide"

definition is_replace_timer :: "timer_action \<Rightarrow> bool" where
  "is_replace_timer a = (case a of TimReplaceState u \<Rightarrow> True | _ \<Rightarrow> False)"

interpretation auto_slot: timer_slot autoSlideTimeout "\<lambda>i d. d\<lparr>autoSlideTimeout := i\<rparr>" is_auto_timer
  by unfold_locales simp_all

interpretation replace_slot:
  timer_slot replaceStateTimeout "\<lambda>i d. d\<lparr>replaceStateTimeout := i\<rparr>" is_replace_timer
  by unfold_locales simp_all

text \<open>What stops the automatic sliding: the paused mode, the overview, or the user's own pause.\<close>

definition auto_blocked :: "deck \<Rightarrow> bool" where
  "auto_blocked d \<longleftrightarrow> isPaused d \<or> overviewActive d \<or> autoSlidePaused d"

definition timers_ok :: "deck \<Rightarrow> bool" where
  "timers_ok d \<longleftrightarrow>
     slot_inv autoSlideTimeout is_auto_timer d \<and> slot_inv replaceStateTimeout is_replace_timer d \<and>
     (auto_blocked d \<longrightarrow> (\<forall>t \<in> set (timers d). taction t \<noteq> TimAutoSlide))"

section \<open>Timer operations\<close>

definition same_timers :: "deck \<Rightarrow> deck \<Rightarrow> bool" where
  "same_timers d d' \<longleftrightarrow>
     timers d' = timers d \<and> nextTimer d' = nextTimer d \<and> autoSlideTimeout d' = autoSlideTimeout d \<and>
     replaceStateTimeout d' = replaceStateTimeout d \<and> isPaused d' = isPaused d \<and>
     overviewActive d' = overviewActive d \<and> autoSlidePaused d' = autoSlidePaused d"

lemma same_timers_refl [simp, intro]: "same_timers d d"
  by (simp add: same_timers_def)

lemma same_timers_trans [trans]: "same_timers a b \<Longrightarrow> same_timers b c \<Longrightarrow> same_timers a c"
  by (simp add: same_timers_def)

lemma same_timers_fold:
  assumes "\<And>x d. same_timers d (f x d)"
  shows "same_timers d (fold f xs d)"
proof (induction xs arbitrary: d)
  case Nil
  show ?case by simp
next
  case (Cons x xs)
  from assms [of d x] Cons.IH [of "f x d"] show ?case by (simp) (rule same_timers_trans)
qed

lemma same_timers_ok: "same_timers d d' \<Longrightarrow> timers_ok d' = timers_ok d"
  by (simp add: same_timers_def timers_ok_def slot_inv_def auto_blocked_def)

lemma same_timers_update_doc: "same_timers d (update_doc f d)"
  by (simp add: same_timers_def update_doc_def isPaused_def)

locale timer_operation =
  fixes oper :: "deck \<Rightarrow> deck"
  assumes keeps_timers_ok: "timers_ok d \<Longrightarrow> timers_ok (oper d)"

locale passive_operation = quiet_operation +
  assumes untimed: "same_timers d (oper d)"
begin

lemma timers_unchanged [simp]:
  "timers (oper d) = timers d" "isPaused (oper d) = isPaused d"
  "autoSlidePaused (oper d) = autoSlidePaused d"
  using untimed [of d] by (simp_all add: same_timers_def)

lemma compose_timers: "same_timers a d \<Longrightarrow> same_timers a (oper d)"
  using same_timers_trans untimed by blast

lemma ok_unchanged [simp]: "timers_ok (oper d) = timers_ok d"
  by (rule same_timers_ok) (rule untimed)

end

sublocale passive_operation < timer_operation
  by unfold_locales simp

lemma isPaused_cong: "wrapperClasses d' = wrapperClasses d \<Longrightarrow> isPaused d' = isPaused d"
  by (simp add: isPaused_def)

section \<open>The primitives\<close>

lemma emit_passive: "quiet d (emit x d)" "same_timers d (emit x d)"
  by (simp_all add: emit_def quiet_def same_timers_def isPaused_def)

interpretation emit: passive_operation "emit x" for x
  by unfold_locales (rule emit_passive)+

lemma dispatchEvent_passive: "quiet d (dispatchEvent ev d)" "same_timers d (dispatchEvent ev d)"
  by (simp_all add: dispatchEvent_def dispatchPostMessage_def Let_def emit_def quiet_def
      same_timers_def isPaused_def)

interpretation dispatchEvent: passive_operation "dispatchEvent ev" for ev
  by unfold_locales (rule dispatchEvent_passive)+

lemma doc_emit [simp]: "doc (emit x d) = doc d"
  by (simp add: emit_def)

lemma doc_dispatchEvent [simp]: "doc (dispatchEvent ev d) = doc d"
  by (simp add: dispatchEvent_def dispatchPostMessage_def Let_def)

lemma wrapperClasses_emit [simp]: "wrapperClasses (emit x d) = wrapperClasses d"
  by (simp add: emit_def)

lemma wrapperClasses_dispatchEvent [simp]: "wrapperClasses (dispatchEvent ev d) = wrapperClasses d"
  by (simp add: dispatchEvent_def dispatchPostMessage_def Let_def)

lemma timers_ok_clear: "timers_ok d \<Longrightarrow> timers_ok (clear_timeout i d)"
  unfolding timers_ok_def
  by (auto intro: auto_slot.inv_clear replace_slot.inv_clear)
    (auto simp: clear_timeout_def auto_blocked_def isPaused_def)

lemma timers_ok_set:
  "timers_ok d \<Longrightarrow> \<not> is_auto_timer a \<Longrightarrow> \<not> is_replace_timer a \<Longrightarrow> timers_ok (snd (set_timeout a dl d))"
  unfolding timers_ok_def
  by (auto intro: auto_slot.inv_set_other replace_slot.inv_set_other)
    (auto simp: set_timeout_def auto_blocked_def isPaused_def is_auto_timer_def)

lemma clear_timeout_quiet: "quiet d (clear_timeout i d)"
  by (simp add: clear_timeout_def quiet_def)

interpretation clear_timeout: quiet_operation "clear_timeout i" for i
  by unfold_locales (rule clear_timeout_quiet)

lemma set_timeout_quiet: "quiet d (snd (set_timeout a dl d))"
  by (simp add: set_timeout_def quiet_def)

interpretation set_timeout: quiet_operation "\<lambda>d. snd (set_timeout a dl d)" for a dl
  by unfold_locales (rule set_timeout_quiet)

end
