(* ===== verification/Location.thy ===== *)
theory Location
  imports Contracts
begin

text \<open>
  \<open>controllers/location.js\<close>: the deck's position as the hash of the page URL.  \<open>getHash\<close> renders
  the position of a slide, \<open>getIndicesFromHash\<close> parses a hash, and \<open>writeURL\<close> stores it, either by
  pushing to the history or by a debounced \<open>history.replaceState\<close>.  (\<open>readURL\<close>, which navigates,
  is in the theory of navigation.)  The page URL is kept as its hash: a replaced URL without a hash
  is the empty string.
\<close>

section \<open>Rendering a position\<close>

definition hashIndexBase :: "deck \<Rightarrow> int" where
  "hashIndexBase d = (if cfg_hashOneBasedIndex (cfg d) then 1 else 0)"

fun show_jsval :: "jsval \<Rightarrow> string" where
  "show_jsval (Num i) = show_int i"
| "show_jsval NaNv = ''NaN''"
| "show_jsval Undef = ''undefined''"

text \<open>The \<open>/h/v/f\<close> form, with the trailing zero components left out.\<close>

definition index_path :: "int \<Rightarrow> indices \<Rightarrow> string" where
  "index_path base i =
     ''/''
     @ (if jv_gt (ih i) 0 \<or> jv_gt (iv i) 0 \<or> jv_ge (ifr i) 0 then show_jsval (jv_add (ih i) base)
        else [])
     @ (if jv_gt (iv i) 0 \<or> jv_ge (ifr i) 0 then ''/'' @ show_jsval (jv_add (iv i) base) else [])
     @ (if jv_ge (ifr i) 0 then ''/'' @ show_jsval (ifr i) else [])"

definition named_path :: "string \<Rightarrow> indices \<Rightarrow> string" where
  "named_path name i =
     ''/'' @ encodeURIComponent name @ (if jv_ge (ifr i) 0 then ''/'' @ show_jsval (ifr i) else [])"

definition getHash :: "deck \<Rightarrow> nat option \<Rightarrow> string" where
  "getHash d slide =
     (let s = (case slide of None \<Rightarrow> currentSlide d | Some x \<Rightarrow> Some x);
          sid = (case s of None \<Rightarrow> None | Some x \<Rightarrow> attrs (el (doc d) x) AId);
          i0 = getIndices d slide;
          i = (if cfg_fragmentInURL (cfg d) then i0 else i0\<lparr>ifr := Undef\<rparr>)
      in case sid of
           Some name \<Rightarrow> if name \<noteq> [] then named_path name i else index_path (hashIndexBase d) i
         | None \<Rightarrow> index_path (hashIndexBase d) i)"

section \<open>Parsing a hash\<close>

text \<open>\<open>hash.replace( /^#\/?/, '' )\<close>\<close>

fun strip_hash :: "string \<Rightarrow> string" where
  "strip_hash [] = []"
| "strip_hash (c # s) =
     (if c = CHR 0x23 then (case s of [] \<Rightarrow> [] | e # t \<Rightarrow> if e = CHR ''/'' then t else s)
      else c # s)"

text \<open>\<open>/\/[-\d]+$/.test( name )\<close>: the last of several segments is made of digits and dashes.\<close>

definition has_fragment_suffix :: "string \<Rightarrow> bool" where
  "has_fragment_suffix name =
     (let bits = split_on (CHR ''/'') name; l = last bits
      in length bits > 1 \<and> l \<noteq> [] \<and> list_all (\<lambda>c. is_digit c \<or> c = CHR ''-'') l)"

definition getElementById :: "dom \<Rightarrow> string \<Rightarrow> nat option" where
  "getElementById dm name = map_option nid (List.find (\<lambda>n. attrs (el dm (nid n)) AId = Some name) (nodes dm))"

definition or_undef :: "int option \<Rightarrow> jsval" where
  "or_undef p = (case p of None \<Rightarrow> Undef | Some i \<Rightarrow> Num i)"

text \<open>\<open>( parseInt( bits[k], 10 ) - base ) || 0\<close>\<close>

definition bit_index :: "string list \<Rightarrow> nat \<Rightarrow> int \<Rightarrow> int" where
  "bit_index bits k base =
     (if k < length bits then (case parseInt10 (bits ! k) of None \<Rightarrow> 0 | Some i \<Rightarrow> i - base) else 0)"

definition getIndicesFromHash :: "deck \<Rightarrow> string \<Rightarrow> indices option" where
  "getIndicesFromHash d hash =
     (let name = strip_hash hash;
          bits = split_on (CHR ''/'') name
      in if \<not> all_digits (hd bits) \<and> name \<noteq> [] then
           (let sfx = has_fragment_suffix name;
                f = (if sfx then or_undef (parseInt10 (last bits)) else Undef);
                name' = (if sfx then hd bits else name)
            in case Option.bind (decodeURIComponent name') (getElementById (doc d)) of
                 Some e \<Rightarrow> Some ((getIndices d (Some e))\<lparr>ifr := f\<rparr>)
               | None \<Rightarrow> None)
         else
           (let base = hashIndexBase d;
                f = (if cfg_fragmentInURL (cfg d) \<and> 2 < length bits
                     then or_undef (parseInt10 (bits ! 2)) else Undef)
            in Some \<lparr>ih = Num (bit_index bits 0 base), iv = Num (bit_index bits 1 base), ifr = f\<rparr>))"

section \<open>Writing the URL\<close>

definition MAX_REPLACE_STATE_FREQUENCY :: int where
  "MAX_REPLACE_STATE_FREQUENCY = 1000"

definition replaceState :: "string \<Rightarrow> deck \<Rightarrow> deck" where
  "replaceState url d = d\<lparr>urlHash := url, replaceStateTimestamp := now d\<rparr>"

definition debouncedReplaceState :: "string \<Rightarrow> deck \<Rightarrow> deck" where
  "debouncedReplaceState url d =
     (let d1 = clear_timeout (replaceStateTimeout d) d
      in if now d1 - replaceStateTimestamp d1 > MAX_REPLACE_STATE_FREQUENCY
         then replaceState url d1
         else (case set_timeout (TimReplaceState url) (js_of_int MAX_REPLACE_STATE_FREQUENCY) d1 of
                 (i, d2) \<Rightarrow> d2\<lparr>replaceStateTimeout := i\<rparr>))"

text \<open>
  \<open>window.location.hash = hash\<close> pushes a history entry and queues a \<open>hashchange\<close> event, unless the
  hash is the one the page already has.
\<close>

definition assign_hash :: "string \<Rightarrow> deck \<Rightarrow> deck" where
  "assign_hash h d =
     (if urlHash d = CHR 0x23 # h then d
      else d\<lparr>historyStack := urlHash d # historyStack d, urlHash := CHR 0x23 # h,
             pendingHashChanges := Suc (pendingHashChanges d)\<rparr>)"

definition writeURL :: "deck \<Rightarrow> deck" where
  "writeURL d =
     (if currentSlide d = None then d
      else (let hash = getHash d None
            in if cfg_history (cfg d) then assign_hash hash d
               else if cfg_hash (cfg d)
                 then (if hash = ''/'' then debouncedReplaceState [] d
                       else debouncedReplaceState (CHR 0x23 # hash) d)
               else d))"

section \<open>Contracts\<close>

lemma replaceState_passive: "quiet d (replaceState u d)" "same_timers d (replaceState u d)"
  by (simp_all add: replaceState_def quiet_def same_timers_def isPaused_def)

interpretation replaceState: passive_operation "replaceState u" for u
  by unfold_locales (rule replaceState_passive)+

lemma assign_hash_passive: "quiet d (assign_hash u d)" "same_timers d (assign_hash u d)"
  by (simp_all add: assign_hash_def quiet_def same_timers_def isPaused_def)

lemma debounced_eq:
  "debouncedReplaceState url d =
     (if now d - replaceStateTimestamp d > MAX_REPLACE_STATE_FREQUENCY
      then replaceState url (clear_timeout (replaceStateTimeout d) d)
      else (let r = set_timeout (TimReplaceState url) (js_of_int MAX_REPLACE_STATE_FREQUENCY)
                      (clear_timeout (replaceStateTimeout d) d)
            in (snd r)\<lparr>replaceStateTimeout := fst r\<rparr>))"
  by (simp add: debouncedReplaceState_def clear_timeout_def set_timeout_def)

lemma debounced_quiet: "quiet d (debouncedReplaceState url d)"
  by (simp add: debouncedReplaceState_def clear_timeout_def set_timeout_def quiet_def
      replaceState_def Let_def)

lemma debounced_timers: "timers_ok d \<Longrightarrow> timers_ok (debouncedReplaceState url d)"
proof -
  assume ok: "timers_ok d"
  let ?c = "clear_timeout (replaceStateTimeout d) d"
  let ?r = "set_timeout (TimReplaceState url) (js_of_int MAX_REPLACE_STATE_FREQUENCY) ?c"
  let ?e = "(snd ?r)\<lparr>replaceStateTimeout := fst ?r\<rparr>"
  have c: "timers_ok ?c" by (rule timers_ok_clear [OF ok])
  have "slot_inv autoSlideTimeout is_auto_timer (snd ?r)"
    using c by (intro auto_slot.inv_set_other) (simp_all add: timers_ok_def is_auto_timer_def)
  then have 1: "slot_inv autoSlideTimeout is_auto_timer ?e" by (simp add: slot_inv_def)
  have 2: "slot_inv replaceStateTimeout is_replace_timer ?e"
    using ok by (intro replace_slot.inv_restart) (simp add: timers_ok_def)
  have "auto_blocked ?e \<longrightarrow> (\<forall>t \<in> set (timers ?e). taction t \<noteq> TimAutoSlide)"
    using c by (auto simp: timers_ok_def auto_blocked_def set_timeout_def isPaused_def)
  with 1 2 have "timers_ok ?e" by (simp add: timers_ok_def)
  with c show ?thesis by (simp add: debounced_eq Let_def)
qed

lemma writeURL_quiet: "quiet d (writeURL d)"
  by (simp add: writeURL_def Let_def debounced_quiet assign_hash_passive)

lemma writeURL_timers: "timers_ok d \<Longrightarrow> timers_ok (writeURL d)"
  using same_timers_ok [OF assign_hash_passive(2)]
  by (simp add: writeURL_def Let_def debounced_timers)

interpretation writeURL: quiet_operation writeURL
  by unfold_locales (rule writeURL_quiet)

interpretation writeURL_t: timer_operation writeURL
  by unfold_locales (rule writeURL_timers)

end
