(* ===== verification/Displays.thy ===== *)
theory Displays
  imports Location
begin

text \<open>
  The controllers that show the position: the progress bar (\<open>controllers/progress.js\<close>), the
  navigation arrows (\<open>controllers/controls.js\<close>), the slide number
  (\<open>controllers/slidenumber.js\<close>) and the speaker notes (\<open>controllers/notes.js\<close>).
\<close>

definition update_ui :: "(ui_state \<Rightarrow> ui_state) \<Rightarrow> deck \<Rightarrow> deck" where
  "update_ui f d = d\<lparr>ui := f (ui d)\<rparr>"

section \<open>Progress bar\<close>

definition progress_update :: "deck \<Rightarrow> deck" where
  "progress_update d =
     (if cfg_progress (cfg d)
      then (let scale = (if getTotalSlides d < 2 then Fin 0 else getProgress d)
            in update_ui (\<lambda>u. u\<lparr>progressScale := Some scale\<rparr>) d)
      else d)"

section \<open>Navigation arrows\<close>

definition control_reset :: "control \<Rightarrow> control" where
  "control_reset c = c\<lparr>ctl_enabled := False, ctl_fragmented := False, ctl_disabled := True\<rparr>"

definition control_enable :: "control \<Rightarrow> control" where
  "control_enable c = c\<lparr>ctl_enabled := True, ctl_disabled := False\<rparr>"

definition control_fragmented :: "control \<Rightarrow> control" where
  "control_fragmented c = c\<lparr>ctl_enabled := True, ctl_fragmented := True, ctl_disabled := False\<rparr>"

definition apply_if :: "bool \<Rightarrow> ('a \<Rightarrow> 'a) \<Rightarrow> 'a \<Rightarrow> 'a" where
  "apply_if b f x = (if b then f x else x)"

definition controls_routes :: "routes \<Rightarrow> controls_state \<Rightarrow> controls_state" where
  "controls_routes r c =
     c\<lparr>ctl_left := apply_if (r_left r) control_enable (control_reset (ctl_left c)),
       ctl_right := apply_if (r_right r) control_enable (control_reset (ctl_right c)),
       ctl_up := apply_if (r_up r) control_enable (control_reset (ctl_up c)),
       ctl_down := apply_if (r_down r) control_enable (control_reset (ctl_down c)),
       ctl_prev := apply_if (r_left r \<or> r_up r) control_enable (control_reset (ctl_prev c)),
       ctl_next := apply_if (r_right r \<or> r_down r) control_enable (control_reset (ctl_next c))\<rparr>"

definition controls_fragments :: "bool \<Rightarrow> fragment_routes \<Rightarrow> controls_state \<Rightarrow> controls_state" where
  "controls_fragments vertical fr c =
     (let c1 = c\<lparr>ctl_prev := apply_if (f_prev fr) control_fragmented (ctl_prev c),
                 ctl_next := apply_if (f_next fr) control_fragmented (ctl_next c)\<rparr>
      in if vertical
         then c1\<lparr>ctl_up := apply_if (f_prev fr) control_fragmented (ctl_up c1),
                 ctl_down := apply_if (f_next fr) control_fragmented (ctl_down c1)\<rparr>
         else c1\<lparr>ctl_left := apply_if (f_prev fr) control_fragmented (ctl_left c1),
                 ctl_right := apply_if (f_next fr) control_fragmented (ctl_right c1)\<rparr>)"

definition controls_tutorial :: "deck \<Rightarrow> routes \<Rightarrow> controls_state \<Rightarrow> controls_state" where
  "controls_tutorial d r c =
     (if \<not> hasNavigatedVertically d \<and> r_down r then c\<lparr>hl_down := True\<rparr>
      else (let c1 = c\<lparr>hl_down := False\<rparr>; v0 = (iv (getIndices d None) = Num 0)
            in if cfg_rtl (cfg d)
               then c1\<lparr>hl_left := (\<not> hasNavigatedHorizontally d \<and> r_left r \<and> v0)\<rparr>
               else c1\<lparr>hl_right := (\<not> hasNavigatedHorizontally d \<and> r_right r \<and> v0)\<rparr>))"

definition controls_update :: "deck \<Rightarrow> deck" where
  "controls_update d =
     (let r = availableRoutes False d;
          c1 = controls_routes r (ctl (ui d));
          c2 = (case currentSlide d of
                  None \<Rightarrow> c1
                | Some s \<Rightarrow> controls_fragments (isVerticalSlide d s) (fragments_availableRoutes d) c1);
          c3 = (if cfg_controlsTutorial (cfg d) then controls_tutorial d r c2 else c2)
      in update_ui (\<lambda>u. u\<lparr>ctl := c3\<rparr>) d)"

section \<open>Slide number\<close>

definition formatNumber :: "string list \<Rightarrow> bool \<Rightarrow> string \<Rightarrow> slide_number_html" where
  "formatNumber value bIsNumber url =
     \<lparr>sn_href = url,
      sn_a = (case value of [] \<Rightarrow> ''undefined'' | a # _ \<Rightarrow> a),
      sn_rest = (case value of
                   a # delimiter # b # _ \<Rightarrow> if bIsNumber then Some (delimiter, b) else None
                 | _ \<Rightarrow> None)\<rparr>"

text \<open>
  The third component of the value is a number in the formats of the controller; a value returned
  by a configured function consists of strings, so \<open>formatNumber\<close> shows its first part only.
\<close>

definition slide_number_format :: "deck \<Rightarrow> string" where
  "slide_number_format d =
     (let format = (case cfg_slideNumber (cfg d) of SNFormat s \<Rightarrow> s | _ \<Rightarrow> ''h.v'')
      in if CHR ''c'' \<notin> set format \<and> length (getHorizontalSlides d) = 1 then ''c'' else format)"

definition horizontalOffset :: "deck \<Rightarrow> nat option \<Rightarrow> int" where
  "horizontalOffset d slide =
     (case slide of None \<Rightarrow> 1 | Some s \<Rightarrow> (if is_uncounted (el (doc d) s) then 0 else 1))"

definition slide_number_value :: "deck \<Rightarrow> nat option \<Rightarrow> string list" where
  "slide_number_value d slide =
     (let format = slide_number_format d;
          past = int (getSlidePastCount d slide) + horizontalOffset d slide
      in if format = ''c'' then [show_int past]
         else if format = ''c/t'' then [show_int past, ''/'', show_nat (getTotalSlides d)]
         else (let ix = getIndices d slide;
                   h = show_jsval (jv_add (ih ix) (horizontalOffset d slide));
                   sep = (if format = ''h/v'' then ''/'' else ''.'');
                   vertical = (case slide of None \<Rightarrow> False | Some s \<Rightarrow> isVerticalSlide d s)
               in if vertical then [h, sep, show_jsval (jv_add (iv ix) 1)] else [h]))"

definition getSlideNumber :: "deck \<Rightarrow> nat option \<Rightarrow> slide_number_html" where
  "getSlideNumber d slide =
     (let url = CHR 0x23 # getHash d slide
      in case cfg_slideNumber (cfg d) of
           SNFun g \<Rightarrow> formatNumber (g slide) False url
         | _ \<Rightarrow> formatNumber (slide_number_value d slide) True url)"

text \<open>A format that is the empty string is falsy.\<close>

definition slide_number_shown :: "slide_number \<Rightarrow> bool" where
  "slide_number_shown n \<longleftrightarrow> (case n of SNOff \<Rightarrow> False | SNFormat f \<Rightarrow> f \<noteq> [] | _ \<Rightarrow> True)"

definition slideNumber_update :: "deck \<Rightarrow> deck" where
  "slideNumber_update d =
     (if slide_number_shown (cfg_slideNumber (cfg d))
      then update_ui (\<lambda>u. u\<lparr>slideNumberHtml := Some (getSlideNumber d (currentSlide d))\<rparr>) d
      else d)"

section \<open>Speaker notes\<close>

definition is_notes_aside :: "elem \<Rightarrow> bool" where
  "is_notes_aside e \<longleftrightarrow> tag e = Aside \<and> has_class NotesClass e"

definition getSlideNotes :: "deck \<Rightarrow> nat \<Rightarrow> string" where
  "getSlideNotes d s =
     (case attrs (el (doc d) s) DataNotes of
        Some t \<Rightarrow> t
      | None \<Rightarrow> join_with ''\<newline>''
          (map (\<lambda>i. innerHTML (el (doc d) i)) (queryAll (doc d) s is_notes_aside)))"

definition notes_placeholder :: string where
  "notes_placeholder = ''<span class=\"notes-placeholder\">No notes on this slide.</span>''"

definition notes_update :: "deck \<Rightarrow> deck" where
  "notes_update d =
     (case currentSlide d of
        None \<Rightarrow> d
      | Some s \<Rightarrow>
          if cfg_showNotes (cfg d) \<noteq> NotesOff \<and> \<not> isPrintingPDF (env d)
          then (let n = getSlideNotes d s
                in update_ui (\<lambda>u. u\<lparr>notesHtml := Some (if n = [] then notes_placeholder else n)\<rparr>) d)
          else d)"

section \<open>Contracts\<close>

text \<open>The displays only write the user interface.\<close>

definition only_ui :: "(deck \<Rightarrow> deck) \<Rightarrow> bool" where
  "only_ui f \<longleftrightarrow> (\<forall>d. \<exists>u. f d = d\<lparr>ui := u\<rparr>)"

lemma only_ui_passive:
  assumes "only_ui f"
  shows "quiet d (f d)" "same_timers d (f d)" "doc (f d) = doc d"
    "wrapperClasses (f d) = wrapperClasses d"
proof -
  obtain u where "f d = d\<lparr>ui := u\<rparr>" using assms by (auto simp: only_ui_def)
  then show "quiet d (f d)" "same_timers d (f d)" "doc (f d) = doc d"
    "wrapperClasses (f d) = wrapperClasses d"
    by (simp_all add: quiet_def same_timers_def isPaused_def)
qed

lemma keeps_ui: "\<exists>u. d = d\<lparr>ui := u\<rparr>"
  by (rule exI [of _ "ui d"]) simp

lemma only_ui_displays:
  "only_ui progress_update" "only_ui controls_update" "only_ui slideNumber_update"
  "only_ui notes_update"
  by (auto simp: only_ui_def progress_update_def controls_update_def slideNumber_update_def
      notes_update_def update_ui_def Let_def keeps_ui split: option.splits)

lemmas displays_passive =
  only_ui_passive [OF only_ui_displays(1)] only_ui_passive [OF only_ui_displays(2)]
  only_ui_passive [OF only_ui_displays(3)] only_ui_passive [OF only_ui_displays(4)]

lemmas doc_displays [simp] = displays_passive(3,7,11,15)

interpretation progress_update: passive_operation progress_update
  by unfold_locales (rule displays_passive)+

interpretation controls_update: passive_operation controls_update
  by unfold_locales (rule displays_passive)+

interpretation slideNumber_update: passive_operation slideNumber_update
  by unfold_locales (rule displays_passive)+

interpretation notes_update: passive_operation notes_update
  by unfold_locales (rule displays_passive)+

end
