(* ===== verification/AutoSlide.thy ===== *)
theory AutoSlide
  imports Displays
begin

text \<open>
  Automatic sliding and the paused mode of \<open>reveal.js\<close>: \<open>cueAutoSlide\<close> chooses the delay for the
  current slide and fragment and starts one timer, \<open>cancelAutoSlide\<close>, \<open>pauseAutoSlide\<close> and
  \<open>resumeAutoSlide\<close> stop and restart it, and \<open>pause\<close>/\<open>resume\<close> toggle the black screen.
\<close>

section \<open>Cueing\<close>

definition cancelAutoSlide :: "deck \<Rightarrow> deck" where
  "cancelAutoSlide d = (clear_timeout (autoSlideTimeout d) d)\<lparr>autoSlideTimeout := - 1\<rparr>"

definition parsed_delay :: "string option \<Rightarrow> auto_slide" where
  "parsed_delay s =
     ASNum (case Option.bind s parseInt10 of None \<Rightarrow> NaN | Some i \<Rightarrow> js_of_int i)"

definition is_media :: "elem \<Rightarrow> bool" where
  "is_media e \<longleftrightarrow> tag e = Video \<or> tag e = Audio"

text \<open>\<open>el.duration * 1000 / el.playbackRate\<close>\<close>

definition media_ms :: "elem \<Rightarrow> jsnum" where
  "media_ms e = js_div (js_mul (Fin (duration e)) (Fin 1000)) (Fin (playbackRate e))"

definition media_delay :: "elem \<Rightarrow> auto_slide \<Rightarrow> auto_slide" where
  "media_delay e a =
     (case a of
        ASFalse \<Rightarrow> ASFalse
      | ASNum x \<Rightarrow>
          if has_attr DataAutoplay e \<and> js_truthy x \<and> js_less x (media_ms e)
          then ASNum (js_add (media_ms e) (Fin 1000)) else a)"

definition computed_autoSlide :: "deck \<Rightarrow> nat \<Rightarrow> auto_slide" where
  "computed_autoSlide d s =
     (let dm = doc d;
          fragment = (case querySelector dm s (has_class CurrentFragment) of
                        Some f \<Rightarrow> Some f
                      | None \<Rightarrow> querySelector dm s is_fragment);
          fragmentAutoSlide =
            (case fragment of None \<Rightarrow> None | Some f \<Rightarrow> attrs (el dm f) DataAutoslide);
          parentAutoSlide =
            (case parent_of dm s of None \<Rightarrow> None | Some p \<Rightarrow> attrs (el dm (nid p)) DataAutoslide);
          slideAutoSlide = attrs (el dm s) DataAutoslide
      in if truthy_string fragmentAutoSlide then parsed_delay fragmentAutoSlide
         else if truthy_string slideAutoSlide then parsed_delay slideAutoSlide
         else if truthy_string parentAutoSlide then parsed_delay parentAutoSlide
         else if queryAll dm s is_fragment = []
              then fold (\<lambda>m. media_delay (el dm m)) (queryAll dm s is_media) (cfg_autoSlide (cfg d))
              else cfg_autoSlide (cfg d))"

text \<open>Whether the next automatic slide is due after \<open>autoSlide\<close> has been computed.\<close>

definition should_cue :: "deck \<Rightarrow> bool" where
  "should_cue d \<longleftrightarrow>
     as_truthy (autoSlide d) \<and> \<not> autoSlidePaused d \<and> \<not> isPaused d \<and> \<not> overviewActive d \<and>
     (\<not> isLastSlide d \<or> f_next (fragments_availableRoutes d) \<or> cfg_loop (cfg d))"

definition as_delay :: "auto_slide \<Rightarrow> jsnum" where
  "as_delay a = (case a of ASFalse \<Rightarrow> Fin 0 | ASNum x \<Rightarrow> x)"

definition set_player :: "bool \<Rightarrow> deck \<Rightarrow> deck" where
  "set_player b d =
     (case autoSlidePlayer d of None \<Rightarrow> d | Some _ \<Rightarrow> d\<lparr>autoSlidePlayer := Some b\<rparr>)"

definition cueAutoSlide :: "deck \<Rightarrow> deck" where
  "cueAutoSlide d0 =
     (let d = cancelAutoSlide d0
      in case (currentSlide d, cfg_autoSlide (cfg d)) of
           (Some s, ASNum x) \<Rightarrow>
             (let d1 = d\<lparr>autoSlide := computed_autoSlide d s\<rparr>;
                  d2 = (if should_cue d1
                        then (case set_timeout TimAutoSlide (as_delay (autoSlide d1)) d1 of
                                (i, t) \<Rightarrow> t\<lparr>autoSlideTimeout := i, autoSlideStartTime := now t\<rparr>)
                        else d1)
              in set_player (autoSlideTimeout d2 \<noteq> - 1) d2)
         | _ \<Rightarrow> d)"

section \<open>Pausing the automatic sliding\<close>

definition pauseAutoSlide :: "deck \<Rightarrow> deck" where
  "pauseAutoSlide d =
     (if as_truthy (autoSlide d) \<and> \<not> autoSlidePaused d
      then (let d1 = dispatchEvent AutoSlidePausedEvent (d\<lparr>autoSlidePaused := True\<rparr>)
            in set_player False (clear_timeout (autoSlideTimeout d1) d1))
      else d)"

definition resumeAutoSlide :: "deck \<Rightarrow> deck" where
  "resumeAutoSlide d =
     (if as_truthy (autoSlide d) \<and> autoSlidePaused d
      then cueAutoSlide (dispatchEvent AutoSlideResumedEvent (d\<lparr>autoSlidePaused := False\<rparr>))
      else d)"

definition toggleAutoSlide :: "bool option \<Rightarrow> deck \<Rightarrow> deck" where
  "toggleAutoSlide override d =
     (case override of
        Some b \<Rightarrow> if b then resumeAutoSlide d else pauseAutoSlide d
      | None \<Rightarrow> if autoSlidePaused d then resumeAutoSlide d else pauseAutoSlide d)"

definition onUserInput :: "deck \<Rightarrow> deck" where
  "onUserInput d = (if cfg_autoSlideStoppable (cfg d) then pauseAutoSlide d else d)"

section \<open>The paused mode\<close>

definition pause :: "deck \<Rightarrow> deck" where
  "pause d =
     (if cfg_pause (cfg d)
      then (let wasPaused = isPaused d;
                d1 = cancelAutoSlide d;
                d2 = d1\<lparr>wrapperClasses := insert PausedClass (wrapperClasses d1)\<rparr>
            in if wasPaused then d2 else dispatchEvent PausedEvent d2)
      else d)"

definition resume :: "deck \<Rightarrow> deck" where
  "resume d =
     (let wasPaused = isPaused d;
          d1 = cueAutoSlide (d\<lparr>wrapperClasses := wrapperClasses d - {PausedClass}\<rparr>)
      in if wasPaused then dispatchEvent ResumedEvent d1 else d1)"

definition togglePause :: "bool option \<Rightarrow> deck \<Rightarrow> deck" where
  "togglePause override d =
     (case override of
        Some b \<Rightarrow> if b then pause d else resume d
      | None \<Rightarrow> if isPaused d then resume d else pause d)"

section \<open>Contracts\<close>

lemma cancelAutoSlide_quiet: "quiet d (cancelAutoSlide d)"
  by (simp add: cancelAutoSlide_def clear_timeout_def quiet_def)

interpretation cancelAutoSlide: quiet_operation cancelAutoSlide
  by unfold_locales (rule cancelAutoSlide_quiet)

lemma auto_blocked_cancel [simp]: "auto_blocked (cancelAutoSlide d) = auto_blocked d"
  by (simp add: cancelAutoSlide_def clear_timeout_def auto_blocked_def isPaused_def)

lemma cancel_empties:
  "timers_ok d \<Longrightarrow> t \<in> set (timers (cancelAutoSlide d)) \<Longrightarrow> taction t \<noteq> TimAutoSlide"
  using auto_slot.clear_empties [of d t]
  by (auto simp: timers_ok_def cancelAutoSlide_def is_auto_timer_def)

lemma cancelAutoSlide_timers: "timers_ok d \<Longrightarrow> timers_ok (cancelAutoSlide d)"
proof -
  assume ok: "timers_ok d"
  then have 1: "slot_inv autoSlideTimeout is_auto_timer (cancelAutoSlide d)"
    unfolding cancelAutoSlide_def by (intro auto_slot.inv_reset) (simp add: timers_ok_def)
  have "slot_inv replaceStateTimeout is_replace_timer (clear_timeout (autoSlideTimeout d) d)"
    using ok by (intro replace_slot.inv_clear) (simp add: timers_ok_def)
  then have 2: "slot_inv replaceStateTimeout is_replace_timer (cancelAutoSlide d)"
    by (simp add: cancelAutoSlide_def slot_inv_def)
  from 1 2 cancel_empties [OF ok] show ?thesis by (simp add: timers_ok_def)
qed

interpretation cancelAutoSlide_t: timer_operation cancelAutoSlide
  by unfold_locales (rule cancelAutoSlide_timers)

lemma set_player_passive: "quiet d (set_player b d)" "same_timers d (set_player b d)"
  by (simp_all add: set_player_def quiet_def same_timers_def isPaused_def split: option.splits)

interpretation set_player: passive_operation "set_player b" for b
  by unfold_locales (rule set_player_passive)+

text \<open>Starting the auto-slide timer when none is pending and nothing blocks it.\<close>

definition start_auto :: "deck \<Rightarrow> deck" where
  "start_auto d =
     (let r = set_timeout TimAutoSlide (as_delay (autoSlide d)) d
      in (snd r)\<lparr>autoSlideTimeout := fst r, autoSlideStartTime := now (snd r)\<rparr>)"

lemma start_auto_timers:
  assumes "timers_ok d" and none: "\<And>t. t \<in> set (timers d) \<Longrightarrow> taction t \<noteq> TimAutoSlide"
    and "\<not> auto_blocked d"
  shows "timers_ok (start_auto d)"
proof -
  let ?r = "set_timeout TimAutoSlide (as_delay (autoSlide d)) d"
  let ?e = "(snd ?r)\<lparr>autoSlideTimeout := fst ?r\<rparr>"
  have "slot_inv autoSlideTimeout is_auto_timer ?e"
    using assms by (intro auto_slot.inv_start) (auto simp: timers_ok_def is_auto_timer_def)
  moreover have "slot_inv replaceStateTimeout is_replace_timer (snd ?r)"
    using assms by (intro replace_slot.inv_set_other) (auto simp: timers_ok_def is_replace_timer_def)
  moreover have "\<not> auto_blocked (start_auto d)"
    using assms by (simp add: start_auto_def set_timeout_def auto_blocked_def isPaused_def)
  ultimately show ?thesis
    by (simp add: timers_ok_def start_auto_def Let_def slot_inv_def)
qed

lemma start_auto_quiet: "quiet d (start_auto d)"
  by (simp add: start_auto_def set_timeout_def quiet_def)

lemma cueAutoSlide_eq:
  "cueAutoSlide d0 =
     (let d = cancelAutoSlide d0
      in case (currentSlide d, cfg_autoSlide (cfg d)) of
           (Some s, ASNum x) \<Rightarrow>
             (let d1 = d\<lparr>autoSlide := computed_autoSlide d s\<rparr>;
                  d2 = (if should_cue d1 then start_auto d1 else d1)
              in set_player (autoSlideTimeout d2 \<noteq> - 1) d2)
         | _ \<Rightarrow> d)"
  by (simp add: cueAutoSlide_def start_auto_def set_timeout_def Let_def
      split: option.splits auto_slide.splits)

lemma put_auto_quiet: "quiet d (d\<lparr>autoSlide := a\<rparr>)" "same_timers d (d\<lparr>autoSlide := a\<rparr>)"
  by (simp_all add: quiet_def same_timers_def isPaused_def)

lemma cueAutoSlide_quiet: "quiet d (cueAutoSlide d)"
  unfolding cueAutoSlide_eq Let_def
  using cancelAutoSlide_quiet put_auto_quiet(1) start_auto_quiet set_player.quiet
  by (auto intro!: set_player.compose split: option.splits auto_slide.splits)
    (meson quiet_trans)+

lemma cueAutoSlide_timers:
  assumes "timers_ok d"
  shows "timers_ok (cueAutoSlide d)"
proof -
  have ok: "timers_ok (cancelAutoSlide d)" by (rule cancelAutoSlide_timers [OF assms])
  have "timers_ok (start_auto ((cancelAutoSlide d)\<lparr>autoSlide := a\<rparr>))"
    if "should_cue ((cancelAutoSlide d)\<lparr>autoSlide := a\<rparr>)" for a
  proof (rule start_auto_timers)
    show "timers_ok ((cancelAutoSlide d)\<lparr>autoSlide := a\<rparr>)"
      using ok same_timers_ok [OF put_auto_quiet(2)] by simp
    show "taction t \<noteq> TimAutoSlide" if "t \<in> set (timers ((cancelAutoSlide d)\<lparr>autoSlide := a\<rparr>))" for t
      using that cancel_empties [OF assms] by simp
    show "\<not> auto_blocked ((cancelAutoSlide d)\<lparr>autoSlide := a\<rparr>)"
      using that by (simp add: should_cue_def auto_blocked_def)
  qed
  with ok same_timers_ok [OF put_auto_quiet(2)] show ?thesis
    by (simp add: cueAutoSlide_eq Let_def split: option.splits auto_slide.splits)
qed

interpretation cueAutoSlide: quiet_operation cueAutoSlide
  by unfold_locales (rule cueAutoSlide_quiet)

interpretation cueAutoSlide_t: timer_operation cueAutoSlide
  by unfold_locales (rule cueAutoSlide_timers)

text \<open>The user's pause and the paused mode.\<close>

lemma put_user_pause_quiet: "quiet d (d\<lparr>autoSlidePaused := b\<rparr>)"
  by (simp add: quiet_def)

lemma pauseAutoSlide_quiet: "quiet d (pauseAutoSlide d)"
  by (simp add: pauseAutoSlide_def Let_def set_player.compose clear_timeout.compose
      dispatchEvent.compose put_user_pause_quiet)

lemma block_timers:
  assumes "timers_ok d" and "timers d' = filter (\<lambda>t. tid t \<noteq> autoSlideTimeout d) (timers d)"
    and "nextTimer d' = nextTimer d" "autoSlideTimeout d' = autoSlideTimeout d"
    "replaceStateTimeout d' = replaceStateTimeout d"
  shows "timers_ok d'"
proof -
  let ?c = "clear_timeout (autoSlideTimeout d) d"
  have 1: "timers_ok ?c" by (rule timers_ok_clear [OF assms(1)])
  have 2: "taction t \<noteq> TimAutoSlide" if "t \<in> set (timers d')" for t
    using auto_slot.clear_empties [of d t] assms(1,2) that
    by (auto simp: timers_ok_def clear_timeout_def is_auto_timer_def)
  from 1 2 assms(2-) show ?thesis by (simp add: timers_ok_def slot_inv_def clear_timeout_def)
qed

lemma pauseAutoSlide_timers: "timers_ok d \<Longrightarrow> timers_ok (pauseAutoSlide d)"
proof -
  assume ok: "timers_ok d"
  let ?d1 = "dispatchEvent AutoSlidePausedEvent (d\<lparr>autoSlidePaused := True\<rparr>)"
  have s: "same_timers (d\<lparr>autoSlidePaused := True\<rparr>) ?d1" by (rule dispatchEvent.untimed)
  then have f: "timers ?d1 = timers d" "nextTimer ?d1 = nextTimer d"
    "autoSlideTimeout ?d1 = autoSlideTimeout d" "replaceStateTimeout ?d1 = replaceStateTimeout d"
    unfolding same_timers_def by simp_all
  have c: "timers (clear_timeout i x) = filter (\<lambda>t. tid t \<noteq> i) (timers x)"
    "nextTimer (clear_timeout i x) = nextTimer x" "autoSlideTimeout (clear_timeout i x) = autoSlideTimeout x"
    "replaceStateTimeout (clear_timeout i x) = replaceStateTimeout x" for i and x :: deck
    by (simp_all add: clear_timeout_def)
  have "timers_ok (clear_timeout (autoSlideTimeout ?d1) ?d1)"
    by (rule block_timers [OF ok]) (simp_all only: c f)
  then show ?thesis using ok by (simp add: pauseAutoSlide_def Let_def)
qed

lemma resumeAutoSlide_quiet: "quiet d (resumeAutoSlide d)"
  by (simp add: resumeAutoSlide_def cueAutoSlide.compose dispatchEvent.compose put_user_pause_quiet)

lemma unblock_timers: "timers_ok d \<Longrightarrow> timers_ok (d\<lparr>autoSlidePaused := False\<rparr>)"
  by (auto simp: timers_ok_def slot_inv_def auto_blocked_def isPaused_def)

lemma resumeAutoSlide_timers: "timers_ok d \<Longrightarrow> timers_ok (resumeAutoSlide d)"
  using unblock_timers [of d] by (simp add: resumeAutoSlide_def cueAutoSlide_t.keeps_timers_ok)

interpretation pauseAutoSlide: quiet_operation pauseAutoSlide
  by unfold_locales (rule pauseAutoSlide_quiet)

interpretation pauseAutoSlide_t: timer_operation pauseAutoSlide
  by unfold_locales (rule pauseAutoSlide_timers)

interpretation resumeAutoSlide: quiet_operation resumeAutoSlide
  by unfold_locales (rule resumeAutoSlide_quiet)

interpretation resumeAutoSlide_t: timer_operation resumeAutoSlide
  by unfold_locales (rule resumeAutoSlide_timers)

interpretation toggleAutoSlide: quiet_operation "toggleAutoSlide b" for b
  by unfold_locales (simp add: toggleAutoSlide_def pauseAutoSlide_quiet resumeAutoSlide_quiet
      split: option.splits)

interpretation toggleAutoSlide_t: timer_operation "toggleAutoSlide b" for b
  by unfold_locales (simp add: toggleAutoSlide_def pauseAutoSlide_timers resumeAutoSlide_timers
      split: option.splits)

interpretation onUserInput: quiet_operation onUserInput
  by unfold_locales (simp add: onUserInput_def pauseAutoSlide_quiet)

interpretation onUserInput_t: timer_operation onUserInput
  by unfold_locales (simp add: onUserInput_def pauseAutoSlide_timers)

lemma put_wrapper_quiet: "quiet d (d\<lparr>wrapperClasses := c\<rparr>)"
  by (simp add: quiet_def)

lemma pause_quiet: "quiet d (pause d)"
proof -
  have "quiet d ((cancelAutoSlide d)\<lparr>wrapperClasses := c\<rparr>)" for c
    by (rule quiet_trans [OF cancelAutoSlide_quiet put_wrapper_quiet])
  then show ?thesis by (simp add: pause_def Let_def dispatchEvent.compose)
qed

lemma pause_timers: "timers_ok d \<Longrightarrow> timers_ok (pause d)"
proof -
  assume ok: "timers_ok d"
  let ?c = "cancelAutoSlide d"
  have "timers_ok (?c\<lparr>wrapperClasses := insert PausedClass (wrapperClasses ?c)\<rparr>)"
    using cancelAutoSlide_timers [OF ok] cancel_empties [OF ok]
    by (simp add: timers_ok_def slot_inv_def)
  with ok show ?thesis by (simp add: pause_def Let_def)
qed

lemma resume_quiet: "quiet d (resume d)"
  by (simp add: resume_def Let_def dispatchEvent.compose cueAutoSlide.compose put_wrapper_quiet)

lemma resume_timers: "timers_ok d \<Longrightarrow> timers_ok (resume d)"
proof -
  assume ok: "timers_ok d"
  then have "timers_ok (d\<lparr>wrapperClasses := wrapperClasses d - {PausedClass}\<rparr>)"
    by (auto simp: timers_ok_def slot_inv_def auto_blocked_def isPaused_def)
  then show ?thesis by (simp add: resume_def Let_def cueAutoSlide_t.keeps_timers_ok)
qed

interpretation pause: quiet_operation pause
  by unfold_locales (rule pause_quiet)

interpretation pause_t: timer_operation pause
  by unfold_locales (rule pause_timers)

interpretation resume: quiet_operation resume
  by unfold_locales (rule resume_quiet)

interpretation resume_t: timer_operation resume
  by unfold_locales (rule resume_timers)

interpretation togglePause: quiet_operation "togglePause b" for b
  by unfold_locales (simp add: togglePause_def pause_quiet resume_quiet split: option.splits)

interpretation togglePause_t: timer_operation "togglePause b" for b
  by unfold_locales (simp add: togglePause_def pause_timers resume_timers split: option.splits)

text \<open>Cancelling restores the discipline whatever blocks the deck now.\<close>

lemma cancel_restores:
  assumes "slot_inv autoSlideTimeout is_auto_timer d"
    and "slot_inv replaceStateTimeout is_replace_timer d"
  shows "timers_ok (cancelAutoSlide d)"
proof -
  have 1: "slot_inv autoSlideTimeout is_auto_timer (cancelAutoSlide d)"
    unfolding cancelAutoSlide_def by (rule auto_slot.inv_reset) (rule assms(1))
  have "slot_inv replaceStateTimeout is_replace_timer (clear_timeout (autoSlideTimeout d) d)"
    by (rule replace_slot.inv_clear) (rule assms(2))
  then have 2: "slot_inv replaceStateTimeout is_replace_timer (cancelAutoSlide d)"
    by (simp add: cancelAutoSlide_def slot_inv_def)
  have "taction t \<noteq> TimAutoSlide" if "t \<in> set (timers (cancelAutoSlide d))" for t
    using auto_slot.clear_empties [OF assms(1), of t] that
    by (auto simp: cancelAutoSlide_def is_auto_timer_def)
  with 1 2 show ?thesis by (simp add: timers_ok_def)
qed

end
