(* ===== verification/Layout.thy ===== *)
theory Layout
  imports AutoSlide
begin

text \<open>
  Scaling of the presentation (\<open>layout\<close> and \<open>getComputedSlideSize\<close> of \<open>reveal.js\<close>) and the parts
  of the overview (\<open>controllers/overview.js\<close>) that only place slides.  The value of
  \<open>layoutTransform\<close> stands for the style of the slides container that \<open>layout\<close> writes as one group
  (its zoom, offsets and transform); \<open>slidesSize\<close> is its width and height.
\<close>

fun jsnum_of_jsval :: "jsval \<Rightarrow> jsnum" where
  "jsnum_of_jsval (Num i) = js_of_int i"
| "jsnum_of_jsval _ = NaN"

section \<open>Slide size\<close>

record slide_size =
  sz_width :: jsnum
  sz_height :: jsnum
  sz_presentationWidth :: jsnum
  sz_presentationHeight :: jsnum

definition or_measure :: "rat option \<Rightarrow> rat \<Rightarrow> rat" where
  "or_measure x y = (case x of None \<Rightarrow> y | Some q \<Rightarrow> if q = 0 then y else q)"

definition resolve_dim :: "dim \<Rightarrow> jsnum \<Rightarrow> jsnum" where
  "resolve_dim dm available =
     (case dm of
        DimNum q \<Rightarrow> Fin q
      | DimPct s \<Rightarrow>
          (case parseInt10 s of
             None \<Rightarrow> NaN
           | Some i \<Rightarrow> js_mul (js_div (js_of_int i) (Fin 100)) available))"

definition getComputedSlideSize :: "rat option \<Rightarrow> rat option \<Rightarrow> deck \<Rightarrow> slide_size" where
  "getComputedSlideSize pw ph d =
     (let c = cfg d;
          w0 = or_measure pw (wrapperWidth (env d));
          h0 = or_measure ph (wrapperHeight (env d));
          w1 = Fin (w0 - w0 * cfg_margin c);
          h1 = Fin (h0 - h0 * cfg_margin c)
      in \<lparr>sz_width = resolve_dim (cfg_width c) w1, sz_height = resolve_dim (cfg_height c) h1,
          sz_presentationWidth = w1, sz_presentationHeight = h1\<rparr>)"

section \<open>The overview's placement\<close>

definition overview_update :: "deck \<Rightarrow> deck" where
  "overview_update d =
     (let vmin = min (innerWidth (env d)) (innerHeight (env d));
          s = js_div (Fin (max (vmin / 5) 150)) (Fin vmin);
          i = getIndices d None
      in d\<lparr>overviewTransform :=
             OverviewAt s (js_mul (js_neg (jsnum_of_jsval (ih i))) (overviewSlideWidth d))
               (js_mul (js_neg (jsnum_of_jsval (iv i))) (overviewSlideHeight d))\<rparr>)"

definition set_transform :: "transform3d \<Rightarrow> elem \<Rightarrow> elem" where
  "set_transform t e = e\<lparr>transform := t\<rparr>"

definition overview_layout_vertical :: "jsnum \<Rightarrow> nat \<Rightarrow> nat \<times> nat \<Rightarrow> dom \<Rightarrow> dom" where
  "overview_layout_vertical height h p =
     update_el (snd p) (\<lambda>e. set_transform (TranslateY (js_mul (js_of_int (int (fst p))) height))
       (set_attr DataIndexV (show_nat (fst p)) (set_attr DataIndexH (show_nat h) e)))"

definition overview_layout_horizontal :: "jsnum \<Rightarrow> jsnum \<Rightarrow> nat \<times> nat \<Rightarrow> dom \<Rightarrow> dom" where
  "overview_layout_horizontal width height p dm =
     (let dm1 = update_el (snd p) (\<lambda>e. set_transform (TranslateX (js_mul (js_of_int (int (fst p))) width))
                  (set_attr DataIndexH (show_nat (fst p)) e)) dm
      in if has_class Stack (el dm1 (snd p))
         then fold (overview_layout_vertical height (fst p))
                (enumerate 0 (queryAll dm1 (snd p) is_section)) dm1
         else dm1)"

definition overview_layout :: "deck \<Rightarrow> deck" where
  "overview_layout d =
     emit LayoutBackgrounds
       (update_doc (fold (overview_layout_horizontal (overviewSlideWidth d) (overviewSlideHeight d))
         (enumerate 0 (getHorizontalSlides d))) d)"

section \<open>Layout\<close>

definition computed_scale :: "full_config \<Rightarrow> slide_size \<Rightarrow> jsnum" where
  "computed_scale c sz =
     js_min (js_max (js_min (js_div (sz_presentationWidth sz) (sz_width sz))
                            (js_div (sz_presentationHeight sz) (sz_height sz)))
              (Fin (cfg_minScale c)))
       (Fin (cfg_maxScale c))"

definition centered_top :: "browser \<Rightarrow> slide_size \<Rightarrow> nat \<Rightarrow> topstyle" where
  "centered_top b sz s =
     (case js_max (js_div (js_sub (sz_height sz) (Fin (scrollHeight b s))) (Fin 2)) (Fin 0) of
        Fin q \<Rightarrow> TopPx q
      | _ \<Rightarrow> TopUnset)"

definition layout_slide :: "deck \<Rightarrow> slide_size \<Rightarrow> nat \<Rightarrow> dom \<Rightarrow> dom" where
  "layout_slide d sz s =
     update_el s (\<lambda>e.
       if displayNone e then e
       else if cfg_center (cfg d) \<or> has_class CenterClass e
         then (if has_class Stack e then e\<lparr>top := TopZero\<rparr>
               else e\<lparr>top := centered_top (env d) sz s\<rparr>)
       else e\<lparr>top := TopUnset\<rparr>)"

definition layout_scale :: "deck \<Rightarrow> deck" where
  "layout_scale d =
     (let sz = getComputedSlideSize None None d;
          oldScale = scale d;
          d1 = emit (LayoutContents (cfg_width (cfg d)) (cfg_height (cfg d))) d;
          s = computed_scale (cfg d) sz;
          d2 = d1\<lparr>slidesSize := Some (sz_width sz, sz_height sz), scale := s,
                  layoutTransform := (if s = Fin 1 then LayoutNone else LayoutScale s)\<rparr>;
          d3 = update_doc (\<lambda>dm. fold (layout_slide d2 sz) (all_slides dm) dm) d2
      in if oldScale = NaN \<or> s = NaN \<or> oldScale \<noteq> s then dispatchEvent (ResizeEvent oldScale s) d3
         else d3)"

definition layout :: "deck \<Rightarrow> deck" where
  "layout d =
     (if isPrintingPDF (env d) then d
      else (let d1 = (if cfg_disableLayout (cfg d) then d else layout_scale d);
                d2 = emit UpdateParallax (progress_update d1)
            in if overviewActive d2 then overview_update d2 else d2))"

section \<open>Contracts\<close>

lemma overview_update_passive: "quiet d (overview_update d)" "same_timers d (overview_update d)"
  by (simp_all add: overview_update_def Let_def quiet_def same_timers_def isPaused_def)

interpretation overview_update: passive_operation overview_update
  by unfold_locales (rule overview_update_passive)+

lemma same_marks_set_transform: "same_marks_elem e e' \<Longrightarrow> same_marks_elem e (set_transform t e')"
  by (erule same_marks_elem_trans) (simp add: set_transform_def)

lemma same_marks_elem_set:
  "a \<in> progress_attrs \<Longrightarrow> same_marks_elem e e' \<Longrightarrow> same_marks_elem e (set_attr a v e')"
  by (rule same_marks_elem_trans [OF _ same_marks_set_attr])

lemma progress_attr_mem:
  "DataIndexH \<in> progress_attrs" "DataIndexV \<in> progress_attrs" "DataFragment \<in> progress_attrs"
  "DataFragmentIndex \<in> progress_attrs" "DataPreviousIndexv \<in> progress_attrs"
  by (simp_all add: progress_attrs_def)

lemma layout_vertical_marks: "same_marks dm (overview_layout_vertical h i p dm)"
  unfolding overview_layout_vertical_def
  by (rule same_marks_update_el)
    (intro same_marks_set_transform same_marks_elem_set progress_attr_mem same_marks_elem_refl)

lemma layout_horizontal_marks: "same_marks dm (overview_layout_horizontal w h p dm)"
proof -
  have 1: "same_marks dm (update_el s (\<lambda>e. set_transform t (set_attr DataIndexH v e)) dm)" for s t v
    by (rule same_marks_update_el)
      (intro same_marks_set_transform same_marks_elem_set progress_attr_mem same_marks_elem_refl)
  have 2: "same_marks dm' (fold (overview_layout_vertical h i) ps dm')" for dm' i ps
    by (rule same_marks_fold) (rule layout_vertical_marks)
  show ?thesis
    by (simp add: overview_layout_horizontal_def Let_def 1 same_marks_trans [OF 1 2])
qed

interpretation overview_layout: passive_operation overview_layout
  by unfold_locales
    (simp_all add: overview_layout_def emit.compose emit.compose_timers quiet_update_doc
      same_marks_fold layout_horizontal_marks same_timers_update_doc)

lemma layout_slide_marks: "same_marks dm (layout_slide d sz s dm)"
  unfolding layout_slide_def by (rule same_marks_update_el) simp

lemma layout_slides_quiet: "quiet d (update_doc (\<lambda>dm. fold (layout_slide a sz) (all_slides dm) dm) d)"
  by (rule quiet_update_doc, rule same_marks_fold) (rule layout_slide_marks)

interpretation layout_slides:
  passive_operation "update_doc (\<lambda>dm. fold (layout_slide a sz) (all_slides dm) dm)" for a sz
  by unfold_locales (rule layout_slides_quiet same_timers_update_doc)+

lemma put_layout_passive:
  "quiet d (d\<lparr>slidesSize := a, scale := b, layoutTransform := c\<rparr>)"
  "same_timers d (d\<lparr>slidesSize := a, scale := b, layoutTransform := c\<rparr>)"
  by (simp_all add: quiet_def same_timers_def isPaused_def)

interpretation put_layout:
  passive_operation "\<lambda>d. d\<lparr>slidesSize := a, scale := b, layoutTransform := c\<rparr>" for a b c
  by unfold_locales (rule put_layout_passive)+

interpretation layout_scale: passive_operation layout_scale
  by unfold_locales
    (simp_all add: layout_scale_def Let_def dispatchEvent.compose layout_slides.compose
      put_layout.compose emit.compose dispatchEvent.compose_timers layout_slides.compose_timers
      put_layout.compose_timers emit.compose_timers)

interpretation layout: passive_operation layout
  by unfold_locales
    (simp_all add: layout_def Let_def overview_update.compose emit.compose progress_update.compose
      layout_scale.compose overview_update.compose_timers emit.compose_timers
      progress_update.compose_timers layout_scale.compose_timers)

text \<open>
  The scale of the presentation stays between the configured bounds, whatever the sizes of the
  window and of the slides are, infinite quotients included, unless a size is not a number.
\<close>

lemma scale_bounds:
  assumes "cfg_minScale c \<le> cfg_maxScale c"
    and "js_div (sz_presentationWidth sz) (sz_width sz) \<noteq> NaN"
    and "js_div (sz_presentationHeight sz) (sz_height sz) \<noteq> NaN"
  shows "\<exists>q. computed_scale c sz = Fin q \<and> cfg_minScale c \<le> q \<and> q \<le> cfg_maxScale c"
proof -
  have "js_min (js_div (sz_presentationWidth sz) (sz_width sz))
      (js_div (sz_presentationHeight sz) (sz_height sz)) \<noteq> NaN"
    using assms(2,3) by (simp add: js_min_def)
  from js_clamp_Fin [OF this assms(1)] show ?thesis by (simp add: computed_scale_def)
qed

end
