(* ===== verification/Fragments.thy ===== *)
theory Fragments
  imports Displays
begin

text \<open>
  \<open>controllers/fragments.js\<close>: the steps within a slide.  Fragments are revealed in the order of
  their \<open>data-fragment-index\<close>; \<open>sort\<close> computes that order and writes the indices back without gaps,
  \<open>update\<close> shows the fragments up to an index and hides the others, and \<open>goto\<close>, \<open>next\<close> and \<open>prev\<close>
  move the index.
\<close>

section \<open>Ordering\<close>

text \<open>\<open>parseInt( fragment.getAttribute( 'data-fragment-index' ), 10 )\<close>; \<^const>\<open>None\<close> when it is missing or \<open>NaN\<close>.\<close>

definition frag_index :: "dom \<Rightarrow> nat \<Rightarrow> int option" where
  "frag_index dm f = Option.bind (attrs (el dm f) DataFragmentIndex) parseInt10"

text \<open>A key of a JavaScript array; any other key is a plain property, which \<open>concat\<close> drops.\<close>

definition is_array_index :: "int \<Rightarrow> bool" where
  "is_array_index i \<longleftrightarrow> 0 \<le> i \<and> i < 2 ^ 32 - 1"

definition explicit_indices :: "dom \<Rightarrow> nat list \<Rightarrow> int list" where
  "explicit_indices dm fs = filter is_array_index (List.map_filter (frag_index dm) fs)"

definition ordered_groups :: "dom \<Rightarrow> nat list \<Rightarrow> nat list list" where
  "ordered_groups dm fs =
     map (\<lambda>k. filter (\<lambda>f. frag_index dm f = Some k) fs) (sort (remdups (explicit_indices dm fs)))"

definition unordered_groups :: "dom \<Rightarrow> nat list \<Rightarrow> nat list list" where
  "unordered_groups dm fs =
     map (\<lambda>f. [f]) (filter (\<lambda>f. \<not> has_attr DataFragmentIndex (el dm f)) fs)"

definition fragment_groups :: "dom \<Rightarrow> nat list \<Rightarrow> nat list list" where
  "fragment_groups dm fs = ordered_groups dm fs @ unordered_groups dm fs"

definition write_group :: "nat \<times> nat list \<Rightarrow> dom \<Rightarrow> dom" where
  "write_group g = update_all (set_attr DataFragmentIndex (show_int (int (fst g)))) (snd g)"

definition write_groups :: "nat list list \<Rightarrow> dom \<Rightarrow> dom" where
  "write_groups gs = fold write_group (enumerate 0 gs)"

text \<open>\<open>sort( fragments )\<close>: the sorted fragments, and the document with the indices written.\<close>

definition fragments_sort :: "nat list \<Rightarrow> dom \<Rightarrow> nat list \<times> dom" where
  "fragments_sort fs dm = (let gs = fragment_groups dm fs in (concat gs, write_groups gs dm))"

definition sort_doc :: "nat list \<Rightarrow> dom \<Rightarrow> dom" where
  "sort_doc fs dm = snd (fragments_sort fs dm)"

text \<open>\<open>this.sort( ... ).pop()\<close> with its index read back (\<open>getAttribute( ... ) || 0\<close>).\<close>

definition last_index :: "nat list \<Rightarrow> dom \<Rightarrow> jsval \<times> dom" where
  "last_index fs dm =
     (case fragments_sort fs dm of
        (srt, dm') \<Rightarrow>
          (if srt = [] then Undef
           else jv_of_parse (parseInt_or0 (attrs (el dm' (last srt)) DataFragmentIndex)), dm'))"

definition sortAll :: "deck \<Rightarrow> deck" where
  "sortAll d =
     update_doc (\<lambda>dm0. fold (\<lambda>h dm.
         let vs = queryAll dm h is_section;
             dm1 = fold (\<lambda>v m. sort_doc (queryAll m v is_fragment) m) vs dm
         in if vs = [] then sort_doc (queryAll dm1 h is_fragment) dm1 else dm1)
       (horizontal_slides dm0) dm0) d"

definition fragments_sync :: "nat \<Rightarrow> deck \<Rightarrow> deck" where
  "fragments_sync s d = update_doc (\<lambda>dm. sort_doc (queryAll dm s is_fragment) dm) d"

section \<open>Enabling and disabling\<close>

definition fragments_disable :: "deck \<Rightarrow> deck" where
  "fragments_disable d =
     update_doc (\<lambda>dm. update_all (\<lambda>e. remove_class CurrentFragment (add_class Visible e))
       (queryAll_node dm (dom_root dm) is_fragment) dm) d"

definition fragments_enable :: "deck \<Rightarrow> deck" where
  "fragments_enable d =
     update_doc (\<lambda>dm. update_all (\<lambda>e. remove_class CurrentFragment (remove_class Visible e))
       (queryAll_node dm (dom_root dm) is_fragment) dm) d"

definition fragments_configure :: "bool \<Rightarrow> deck \<Rightarrow> deck" where
  "fragments_configure oldFragments d =
     (if \<not> cfg_fragments (cfg d) then fragments_disable d
      else if \<not> oldFragments then fragments_enable d
      else d)"

section \<open>Showing and hiding\<close>

fun jv_le :: "jsval \<Rightarrow> jsval \<Rightarrow> bool" where
  "jv_le (Num i) (Num j) = (i \<le> j)"
| "jv_le _ _ = False"

text \<open>\<open>===\<close> on indices: \<open>NaN\<close> is not equal to itself.\<close>

fun jv_same :: "jsval \<Rightarrow> jsval \<Rightarrow> bool" where
  "jv_same (Num i) (Num j) = (i = j)"
| "jv_same Undef Undef = True"
| "jv_same _ _ = False"

fun jv_max :: "jsval \<Rightarrow> jsval \<Rightarrow> jsval" where
  "jv_max (Num i) (Num j) = Num (max i j)"
| "jv_max _ _ = NaNv"

fun jv_min :: "jsval \<Rightarrow> jsval \<Rightarrow> jsval" where
  "jv_min (Num i) (Num j) = Num (min i j)"
| "jv_min _ _ = NaNv"

record frag_loop =
  fl_shown :: "nat list"
  fl_hidden :: "nat list"
  fl_max :: jsval
  fl_deck :: deck

definition update_elem :: "nat \<Rightarrow> (elem \<Rightarrow> elem) \<Rightarrow> deck \<Rightarrow> deck" where
  "update_elem i f = update_doc (update_el i f)"

text \<open>The branch of the loop for a fragment at or before the current index.\<close>

definition show_fragment :: "bool \<Rightarrow> nat \<Rightarrow> frag_loop \<Rightarrow> frag_loop" where
  "show_fragment isCurrent f l =
     (let d = fl_deck l;
          wasVisible = has_class Visible (el (doc d) f);
          d1 = update_elem f (\<lambda>e. remove_class CurrentFragment (add_class Visible e)) d;
          d2 = (if isCurrent
                then emit (StartEmbedded f)
                       (update_elem f (add_class CurrentFragment) (emit (AnnounceElement f) d1))
                else d1)
      in if wasVisible then l\<lparr>fl_deck := d2\<rparr>
         else l\<lparr>fl_shown := fl_shown l @ [f], fl_deck := dispatchEvent (VisibleEvent f) d2\<rparr>)"

definition hide_fragment :: "nat \<Rightarrow> frag_loop \<Rightarrow> frag_loop" where
  "hide_fragment f l =
     (let d = fl_deck l;
          wasVisible = has_class Visible (el (doc d) f);
          d1 = update_elem f (\<lambda>e. remove_class CurrentFragment (remove_class Visible e)) d
      in if wasVisible
         then l\<lparr>fl_hidden := fl_hidden l @ [f],
                fl_deck := dispatchEvent (HiddenEvent f) (emit (StopEmbedded (Some f)) d1)\<rparr>
         else l\<lparr>fl_deck := d1\<rparr>)"

definition fragment_step :: "jsval \<Rightarrow> nat \<times> nat \<Rightarrow> frag_loop \<Rightarrow> frag_loop" where
  "fragment_step index p l =
     (let f = snd p;
          a = attrs (el (doc (fl_deck l)) f) DataFragmentIndex;
          i = (case a of None \<Rightarrow> Num (int (fst p)) | Some t \<Rightarrow> jv_of_parse (parseInt10 t));
          l1 = l\<lparr>fl_max := jv_max (fl_max l) i\<rparr>
      in if jv_le i index then show_fragment (jv_same i index) f l1 else hide_fragment f l1)"

definition fragment_loop :: "jsval \<Rightarrow> nat list \<Rightarrow> deck \<Rightarrow> frag_loop" where
  "fragment_loop index fs d =
     fold (fragment_step index) (enumerate 0 fs)
       \<lparr>fl_shown = [], fl_hidden = [], fl_max = Num 0, fl_deck = d\<rparr>"

record changed_fragments =
  ch_shown :: "nat list"
  ch_hidden :: "nat list"

text \<open>\<open>update( index, fragments )\<close>\<close>

definition fragments_update :: "jsval \<Rightarrow> nat list option \<Rightarrow> deck \<Rightarrow> changed_fragments \<times> deck" where
  "fragments_update index fragments d =
     (case currentSlide d of
        None \<Rightarrow> (\<lparr>ch_shown = [], ch_hidden = []\<rparr>, d)
      | Some s \<Rightarrow>
          if \<not> cfg_fragments (cfg d) then (\<lparr>ch_shown = [], ch_hidden = []\<rparr>, d)
          else
            (let all = queryAll (doc d) s is_fragment;
                 fs = (case fragments of Some fs \<Rightarrow> fs | None \<Rightarrow> fst (fragments_sort all (doc d)));
                 d1 = (case fragments of Some fs \<Rightarrow> d | None \<Rightarrow> update_doc (sort_doc all) d)
             in if fs = [] then (\<lparr>ch_shown = [], ch_hidden = []\<rparr>, d1)
                else
                  (let visible = queryAll (doc d1) s is_visible_fragment;
                       index1 = (if index = Undef then fst (last_index visible (doc d1)) else index);
                       d2 = (if index = Undef then update_doc (sort_doc visible) d1 else d1);
                       l = fragment_loop index1 fs d2;
                       index2 = (if index1 = Undef then Num (- 1) else index1);
                       index3 = jv_max (jv_min index2 (fl_max l)) (Num (- 1))
                   in (\<lparr>ch_shown = fl_shown l, ch_hidden = fl_hidden l\<rparr>,
                       update_elem s (set_attr DataFragment (show_jsval index3)) (fl_deck l)))))"

definition is_enabled_visible_fragment :: "elem \<Rightarrow> bool" where
  "is_enabled_visible_fragment e \<longleftrightarrow> is_enabled_fragment e \<and> has_class Visible e"

text \<open>What \<open>goto\<close> does after the fragments have been updated.\<close>

definition fragments_notify :: "changed_fragments \<Rightarrow> deck \<Rightarrow> deck" where
  "fragments_notify ch d =
     (let d1 = (if ch_hidden ch \<noteq> [] then dispatchEvent (FragmentHidden (ch_hidden ch)) d else d);
          d2 = (if ch_shown ch \<noteq> [] then dispatchEvent (FragmentShown (ch_shown ch)) d1 else d1);
          d3 = progress_update (controls_update d2)
      in if cfg_fragmentInURL (cfg d3) then writeURL d3 else d3)"

text \<open>\<open>goto( index, offset )\<close>\<close>

definition fragments_goto :: "jsval \<Rightarrow> int \<Rightarrow> deck \<Rightarrow> bool \<times> deck" where
  "fragments_goto index offset d =
     (case currentSlide d of
        None \<Rightarrow> (False, d)
      | Some s \<Rightarrow>
          if \<not> cfg_fragments (cfg d) then (False, d)
          else
            (let enabled = queryAll (doc d) s is_enabled_fragment;
                 fs = fst (fragments_sort enabled (doc d));
                 d1 = update_doc (sort_doc enabled) d
             in if fs = [] then (False, d1)
                else
                  (let visible = queryAll (doc d1) s is_enabled_visible_fragment;
                       index1 =
                         (if index = Undef
                          then (case fst (last_index visible (doc d1)) of
                                  Undef \<Rightarrow> Num (- 1) | i \<Rightarrow> i)
                          else index);
                       d2 = (if index = Undef then update_doc (sort_doc visible) d1 else d1);
                       u = fragments_update (jv_add index1 offset) (Some fs) d2;
                       d3 = fragments_notify (fst u) (snd u)
                   in (ch_shown (fst u) \<noteq> [] \<or> ch_hidden (fst u) \<noteq> [], d3))))"

definition fragments_next :: "deck \<Rightarrow> bool \<times> deck" where
  "fragments_next d = fragments_goto Undef 1 d"

definition fragments_prev :: "deck \<Rightarrow> bool \<times> deck" where
  "fragments_prev d = fragments_goto Undef (- 1) d"

section \<open>Contracts\<close>

text \<open>Sorting writes the fragment indices only.\<close>

lemma sort_doc_marks: "same_marks dm (sort_doc fs dm)"
  unfolding sort_doc_def fragments_sort_def Let_def snd_conv write_groups_def write_group_def
  by (rule same_marks_fold, rule same_marks_update_all) (simp add: progress_attrs_def)

lemma sort_doc_quiet: "quiet d (update_doc (sort_doc fs) d)"
  by (rule quiet_update_doc) (rule sort_doc_marks)

interpretation sort_doc: passive_operation "update_doc (sort_doc fs)" for fs
  by unfold_locales (rule sort_doc_quiet same_timers_update_doc)+

lemma update_elem_passive:
  assumes "\<And>e. same_marks_elem e (f e)"
  shows "quiet d (update_elem i f d)" "same_timers d (update_elem i f d)"
  unfolding update_elem_def
  by (rule quiet_update_doc, rule same_marks_update_el, rule assms) (rule same_timers_update_doc)

text \<open>The three writes of the loop, as operations of the deck.\<close>

lemma same_marks_elem_add: "c \<in> progress_classes \<Longrightarrow> same_marks_elem e e' \<Longrightarrow> same_marks_elem e (add_class c e')"
  by (rule same_marks_elem_trans [OF _ same_marks_add_class])

lemma same_marks_elem_remove:
  "c \<in> progress_classes \<Longrightarrow> same_marks_elem e e' \<Longrightarrow> same_marks_elem e (remove_class c e')"
  by (rule same_marks_elem_trans [OF _ same_marks_remove_class])

lemmas mark_elem_intros = same_marks_elem_add same_marks_elem_remove same_marks_elem_refl

lemma progress_class_mem: "Visible \<in> progress_classes" "CurrentFragment \<in> progress_classes"
  by (simp_all add: progress_classes_def)

interpretation mark_shown:
  passive_operation "update_elem f (\<lambda>e. remove_class CurrentFragment (add_class Visible e))" for f
  by unfold_locales (intro update_elem_passive mark_elem_intros progress_class_mem)+

interpretation mark_hidden:
  passive_operation "update_elem f (\<lambda>e. remove_class CurrentFragment (remove_class Visible e))" for f
  by unfold_locales (intro update_elem_passive mark_elem_intros progress_class_mem)+

interpretation mark_current: passive_operation "update_elem f (add_class CurrentFragment)" for f
  by unfold_locales (intro update_elem_passive mark_elem_intros progress_class_mem)+

lemmas mark_compose = mark_shown.compose mark_hidden.compose mark_current.compose emit.compose
  dispatchEvent.compose quiet_refl

lemmas mark_compose_timers = mark_shown.compose_timers mark_hidden.compose_timers
  mark_current.compose_timers emit.compose_timers dispatchEvent.compose_timers same_timers_refl

lemma show_fragment_passive:
  "quiet (fl_deck l) (fl_deck (show_fragment b f l))"
  "same_timers (fl_deck l) (fl_deck (show_fragment b f l))"
  by (simp_all add: show_fragment_def Let_def mark_compose mark_compose_timers)

lemma hide_fragment_passive:
  "quiet (fl_deck l) (fl_deck (hide_fragment f l))"
  "same_timers (fl_deck l) (fl_deck (hide_fragment f l))"
  by (simp_all add: hide_fragment_def Let_def mark_compose mark_compose_timers)

lemma fragment_step_passive:
  "quiet (fl_deck l) (fl_deck (fragment_step index p l))"
  "same_timers (fl_deck l) (fl_deck (fragment_step index p l))"
  using show_fragment_passive [where l = "l\<lparr>fl_max := m\<rparr>" for m]
    hide_fragment_passive [where l = "l\<lparr>fl_max := m\<rparr>" for m]
  by (simp_all add: fragment_step_def Let_def)

lemma fragment_fold_passive:
  "quiet (fl_deck l) (fl_deck (fold (fragment_step index) ps l)) \<and>
   same_timers (fl_deck l) (fl_deck (fold (fragment_step index) ps l))"
proof (induction ps arbitrary: l)
  case Nil
  show ?case by simp
next
  case (Cons p ps)
  from fragment_step_passive [of l index p] Cons.IH [of "fragment_step index p l"] show ?case
    by (auto intro: quiet_trans same_timers_trans)
qed

lemma fragment_loop_passive:
  "quiet d (fl_deck (fragment_loop index fs d))" "same_timers d (fl_deck (fragment_loop index fs d))"
  using fragment_fold_passive [of "\<lparr>fl_shown = [], fl_hidden = [], fl_max = Num 0, fl_deck = d\<rparr>"]
  by (simp_all add: fragment_loop_def)

lemma mark_slide_fragment: "same_marks_elem e (set_attr DataFragment v e)"
  by (simp add: progress_attrs_def)

interpretation mark_slide_progress: passive_operation "update_elem s (set_attr DataFragment v)" for s v
  by unfold_locales (intro update_elem_passive mark_slide_fragment)+

lemma fragment_loop_compose:
  "quiet a d \<Longrightarrow> quiet a (fl_deck (fragment_loop index fs d))"
  "same_timers a d \<Longrightarrow> same_timers a (fl_deck (fragment_loop index fs d))"
  using fragment_loop_passive quiet_trans same_timers_trans by blast+

lemma fragments_update_passive:
  "quiet d (snd (fragments_update index fs d))" "same_timers d (snd (fragments_update index fs d))"
  by (simp_all add: fragments_update_def Let_def mark_slide_progress.compose sort_doc.compose
      fragment_loop_compose mark_slide_progress.compose_timers sort_doc.compose_timers
      split: option.splits)

interpretation fragments_update: passive_operation "\<lambda>d. snd (fragments_update index fs d)" for index fs
  by unfold_locales (rule fragments_update_passive)+

lemma fragments_notify_quiet: "quiet d (fragments_notify ch d)"
  by (simp add: fragments_notify_def Let_def writeURL.compose progress_update.compose
      controls_update.compose dispatchEvent.compose)

lemma fragments_notify_timers: "timers_ok d \<Longrightarrow> timers_ok (fragments_notify ch d)"
  by (simp add: fragments_notify_def Let_def writeURL_t.keeps_timers_ok)

interpretation fragments_notify: quiet_operation "fragments_notify ch" for ch
  by unfold_locales (rule fragments_notify_quiet)

interpretation fragments_notify_t: timer_operation "fragments_notify ch" for ch
  by unfold_locales (rule fragments_notify_timers)

lemma fragments_goto_quiet: "quiet d (snd (fragments_goto index offset d))"
  by (simp add: fragments_goto_def Let_def fragments_notify.compose fragments_update.compose
      sort_doc.compose split: option.splits)

lemma fragments_goto_timers: "timers_ok d \<Longrightarrow> timers_ok (snd (fragments_goto index offset d))"
  by (simp add: fragments_goto_def Let_def fragments_notify_t.keeps_timers_ok split: option.splits)

interpretation fragments_goto: quiet_operation "\<lambda>d. snd (fragments_goto index offset d)" for index offset
  by unfold_locales (rule fragments_goto_quiet)

interpretation fragments_goto_t: timer_operation "\<lambda>d. snd (fragments_goto index offset d)" for index offset
  by unfold_locales (rule fragments_goto_timers)

end
