(* ===== verification/Slides.thy ===== *)
theory Slides
  imports Layout Fragments
begin

text \<open>
  The navigation core of \<open>reveal.js\<close>: \<open>updateSlides\<close> marks one dimension of the deck with the
  classes past, present and future, \<open>updateSlidesVisibility\<close> loads what is near, and \<open>slide\<close> is the
  transition every navigation goes through.  A call that throws an exception is \<^const>\<open>None\<close>.
\<close>

section \<open>updateSlides\<close>

definition showFragmentsIn :: "nat \<Rightarrow> dom \<Rightarrow> dom" where
  "showFragmentsIn s dm =
     update_all (\<lambda>e. remove_class CurrentFragment (add_class Visible e))
       (queryAll dm s is_fragment) dm"

definition hideFragmentsIn :: "nat \<Rightarrow> dom \<Rightarrow> dom" where
  "hideFragmentsIn s dm =
     update_all (\<lambda>e. remove_class CurrentFragment (remove_class Visible e))
       (queryAll dm s is_visible_fragment) dm"

datatype slide_set = Horizontal | Vertical

definition slides_of :: "slide_set \<Rightarrow> dom \<Rightarrow> nat list" where
  "slides_of sel dm =
     (case sel of Horizontal \<Rightarrow> horizontal_slides dm | Vertical \<Rightarrow> present_vertical_slides dm)"

definition reset_slide :: "elem \<Rightarrow> elem" where
  "reset_slide e =
     set_attr AriaHidden ''true'' (set_attr Hidden []
       (remove_class Future (remove_class Present (remove_class Past e))))"

definition mark_slide :: "deck \<Rightarrow> int \<Rightarrow> bool \<Rightarrow> bool \<Rightarrow> nat \<times> nat \<Rightarrow> dom \<Rightarrow> dom" where
  "mark_slide d index loopedForwards loopedBackwards p dm =
     (let i = int (fst p);
          element = snd p;
          reverse = (cfg_rtl (cfg d) \<and> \<not> is_vertical dm element);
          dm1 = update_el element reset_slide dm;
          dm2 = (if queryAll dm1 element is_section \<noteq> [] then update_el element (add_class Stack) dm1
                 else dm1)
      in if isPrintingPDF (env d) then update_el element (add_class Present) dm2
         else if i < index then
           (let dm3 = update_el element (add_class (if reverse then Future else Past)) dm2
            in if cfg_fragments (cfg d) then showFragmentsIn element dm3 else dm3)
         else if i > index then
           (let dm3 = update_el element (add_class (if reverse then Past else Future)) dm2
            in if cfg_fragments (cfg d) then hideFragmentsIn element dm3 else dm3)
         else if cfg_fragments (cfg d) then
           (if loopedForwards then hideFragmentsIn element dm2
            else if loopedBackwards then showFragmentsIn element dm2
            else dm2)
         else dm2)"

text \<open>The index after looping and clamping, and whether it was taken around the end or the start.\<close>

definition wrap_index :: "bool \<Rightarrow> int \<Rightarrow> int \<Rightarrow> int \<times> bool \<times> bool" where
  "wrap_index loop slidesLength index =
     (if loop
      then (let r = js_rem index slidesLength
            in if r < 0 then (slidesLength + r, index \<ge> slidesLength, True)
               else (r, index \<ge> slidesLength, False))
      else (index, False, False))"

definition clamp_index :: "int \<Rightarrow> int \<Rightarrow> int" where
  "clamp_index slidesLength index = max (min index (slidesLength - 1)) 0"

definition present_slide :: "elem \<Rightarrow> elem" where
  "present_slide e = remove_attr AriaHidden (remove_attr Hidden (add_class Present e))"

definition updateSlides :: "slide_set \<Rightarrow> jsval \<Rightarrow> deck \<Rightarrow> (int \<times> deck) option" where
  "updateSlides sel index d =
     (let slides = slides_of sel (doc d); n = int (length slides)
      in if slides = [] then Some (0, d)
         else (case index of
                 Num i0 \<Rightarrow>
                   (case wrap_index (cfg_loop (cfg d)) n i0 of
                      (i1, forwards, backwards) \<Rightarrow>
                        let i = clamp_index n i1;
                            d1 = update_doc (fold (mark_slide d i forwards backwards)
                                               (enumerate 0 slides)) d;
                            slide = slides ! nat i;
                            wasPresent = has_class Present (el (doc d1) slide);
                            d2 = update_elem slide present_slide d1;
                            d3 = (if wasPresent then d2 else dispatchEvent (VisibleEvent slide) d2);
                            slideState = attrs (el (doc d3) slide) DataState;
                            d4 = (if truthy_string slideState
                                  then d3\<lparr>deckState := deckState d3 @
                                            split_on (CHR '' '') (case slideState of Some t \<Rightarrow> t
                                                                  | None \<Rightarrow> [])\<rparr>
                                  else d3)
                        in Some (i, d4))
               | _ \<Rightarrow> None))"

section \<open>Visibility\<close>

definition loadSlide :: "nat \<Rightarrow> deck \<Rightarrow> deck" where
  "loadSlide s d = emit (LoadContent s) (update_elem s (\<lambda>e. e\<lparr>displayNone := False\<rparr>) d)"

definition unloadSlide :: "nat \<Rightarrow> deck \<Rightarrow> deck" where
  "unloadSlide s d = emit (UnloadContent s) (update_elem s (\<lambda>e. e\<lparr>displayNone := True\<rparr>) d)"

definition view_distance :: "deck \<Rightarrow> int" where
  "view_distance d =
     (if isPrintingPDF (env d) then js_max_value
      else if isMobile (env d) then (if overviewActive d then 6 else cfg_mobileViewDistance (cfg d))
      else (if overviewActive d then 10 else cfg_viewDistance (cfg d)))"

definition distance_x :: "deck \<Rightarrow> int \<Rightarrow> int" where
  "distance_x d x =
     (let delta = jv_or0 (indexh d) - x;
          m = int (length (getHorizontalSlides d)) - view_distance d
      in if cfg_loop (cfg d) then (if m = 0 then 0 else \<bar>js_rem delta m\<bar>) else \<bar>delta\<bar>)"

definition distance_y :: "deck \<Rightarrow> int \<Rightarrow> jsval \<Rightarrow> int \<Rightarrow> jsval" where
  "distance_y d x oy y =
     (if x = jv_or0 (indexh d) then Num \<bar>jv_or0 (indexv d) - y\<bar>
      else (case oy of Num k \<Rightarrow> Num \<bar>y - k\<bar> | _ \<Rightarrow> NaNv))"

definition visibility_vertical :: "int \<Rightarrow> jsval \<Rightarrow> nat \<times> nat \<Rightarrow> deck \<Rightarrow> deck" where
  "visibility_vertical x oy p d =
     (if jv_lt (jv_add (distance_y d x oy (int (fst p))) (distance_x d x)) (view_distance d)
      then loadSlide (snd p) d else unloadSlide (snd p) d)"

definition visibility_horizontal :: "nat \<times> nat \<Rightarrow> deck \<Rightarrow> deck" where
  "visibility_horizontal p d =
     (let x = int (fst p);
          verticalSlides = queryAll (doc d) (snd p) is_section;
          d1 = (if distance_x d x < view_distance d then loadSlide (snd p) d
                else unloadSlide (snd p) d);
          oy = getPreviousVerticalIndex (doc d1) (Some (snd p))
      in fold (visibility_vertical x oy) (enumerate 0 verticalSlides) d1)"

definition toggle_wrapper :: "wrapper_class \<Rightarrow> bool \<Rightarrow> deck \<Rightarrow> deck" where
  "toggle_wrapper c b d =
     d\<lparr>wrapperClasses := (if b then insert c (wrapperClasses d) else wrapperClasses d - {c})\<rparr>"

definition updateSlidesVisibility :: "deck \<Rightarrow> deck" where
  "updateSlidesVisibility d =
     (if getHorizontalSlides d \<noteq> [] \<and> indexh d \<noteq> Undef
      then (let d1 = fold visibility_horizontal (enumerate 0 (getHorizontalSlides d)) d;
                d2 = toggle_wrapper HasVerticalSlides (hasVerticalSlides d1) d1
            in toggle_wrapper HasHorizontalSlides (hasHorizontalSlides d2) d2)
      else d)"

section \<open>Contracts\<close>

interpretation mark_display: passive_operation "update_elem s (\<lambda>e. e\<lparr>displayNone := b\<rparr>)" for s b
  by unfold_locales (simp_all add: update_elem_passive)

interpretation loadSlide: passive_operation "loadSlide s" for s
  by unfold_locales
    (simp_all add: loadSlide_def emit.compose mark_display.quiet emit.compose_timers mark_display.untimed)

interpretation unloadSlide: passive_operation "unloadSlide s" for s
  by unfold_locales
    (simp_all add: unloadSlide_def emit.compose mark_display.quiet emit.compose_timers mark_display.untimed)

interpretation visibility_vertical: passive_operation "visibility_vertical x oy p" for x oy p
  by unfold_locales
    (simp_all add: visibility_vertical_def loadSlide.quiet unloadSlide.quiet loadSlide.untimed
      unloadSlide.untimed)

lemma visibility_verticals_passive:
  "quiet d (fold (visibility_vertical x oy) ps d)" "same_timers d (fold (visibility_vertical x oy) ps d)"
  by (rule quiet_fold, rule visibility_vertical.quiet)
    (rule same_timers_fold, rule visibility_vertical.untimed)

interpretation visibility_verticals: passive_operation "fold (visibility_vertical x oy) ps" for x oy ps
  by unfold_locales (rule visibility_verticals_passive)+

interpretation visibility_horizontal: passive_operation "visibility_horizontal p" for p
  by unfold_locales
    (simp_all add: visibility_horizontal_def Let_def visibility_verticals.compose loadSlide.quiet
      unloadSlide.quiet visibility_verticals.compose_timers loadSlide.untimed unloadSlide.untimed)

lemma visibility_horizontals_passive:
  "quiet d (fold visibility_horizontal ps d)" "same_timers d (fold visibility_horizontal ps d)"
  by (rule quiet_fold, rule visibility_horizontal.quiet)
    (rule same_timers_fold, rule visibility_horizontal.untimed)

interpretation visibility_horizontals: passive_operation "fold visibility_horizontal ps" for ps
  by unfold_locales (rule visibility_horizontals_passive)+

lemma toggle_wrapper_quiet: "quiet d (toggle_wrapper c b d)"
  by (simp add: toggle_wrapper_def quiet_def)

interpretation toggle_wrapper: quiet_operation "toggle_wrapper c b" for c b
  by unfold_locales (rule toggle_wrapper_quiet)

lemma toggle_wrapper_timers: "c \<noteq> PausedClass \<Longrightarrow> same_timers d (toggle_wrapper c b d)"
  by (simp add: toggle_wrapper_def same_timers_def isPaused_def)

interpretation toggle_vertical: passive_operation "toggle_wrapper HasVerticalSlides b" for b
  by unfold_locales (simp add: toggle_wrapper_timers)

interpretation toggle_horizontal: passive_operation "toggle_wrapper HasHorizontalSlides b" for b
  by unfold_locales (simp add: toggle_wrapper_timers)

interpretation updateSlidesVisibility: passive_operation updateSlidesVisibility
  by unfold_locales
    (simp_all add: updateSlidesVisibility_def Let_def toggle_wrapper.compose
      visibility_horizontals.quiet toggle_horizontal.compose_timers toggle_vertical.compose_timers
      visibility_horizontals.untimed)

section \<open>Moves\<close>

text \<open>
  What the move of one index changes: the marks of the document (its shape stays), the list of
  states, and the log.
\<close>

definition same_place :: "deck \<Rightarrow> deck \<Rightarrow> bool" where
  "same_place d d' \<longleftrightarrow>
     cfg d' = cfg d \<and> env d' = env d \<and> previousSlide d' = previousSlide d \<and>
     currentSlide d' = currentSlide d \<and> overviewActive d' = overviewActive d \<and>
     viewportClasses d' = viewportClasses d \<and> same_shape (doc d) (doc d') \<and> same_timers d d'"

lemma same_place_refl [simp, intro]: "same_place d d"
  by (simp add: same_place_def)

lemma same_place_trans: "same_place a b \<Longrightarrow> same_place b c \<Longrightarrow> same_place a c"
  by (auto simp: same_place_def intro: same_shape_trans same_timers_trans)

lemma quiet_same_place: "quiet d d' \<Longrightarrow> same_timers d d' \<Longrightarrow> same_place d d'"
  by (simp add: quiet_def same_place_def same_marks_shape)

lemma showFragmentsIn_shape: "same_shape dm (showFragmentsIn s dm)"
  unfolding showFragmentsIn_def by (rule same_shape_update_all) simp

lemma hideFragmentsIn_shape: "same_shape dm (hideFragmentsIn s dm)"
  unfolding hideFragmentsIn_def by (rule same_shape_update_all) simp

lemma showFragmentsIn_marks: "same_marks dm (showFragmentsIn s dm)"
  unfolding showFragmentsIn_def
  by (rule same_marks_update_all) (intro mark_elem_intros progress_class_mem)

lemma hideFragmentsIn_marks: "same_marks dm (hideFragmentsIn s dm)"
  unfolding hideFragmentsIn_def
  by (rule same_marks_update_all) (intro mark_elem_intros progress_class_mem)

lemma reset_slide_shape: "tag (reset_slide e) = tag e \<and> has_class Fragment (reset_slide e) = has_class Fragment e"
  by (simp add: reset_slide_def)

lemma present_slide_shape:
  "tag (present_slide e) = tag e \<and> has_class Fragment (present_slide e) = has_class Fragment e"
  by (simp add: present_slide_def)

lemma add_class_shape:
  "c \<noteq> Fragment \<Longrightarrow> tag (add_class c e) = tag e \<and> has_class Fragment (add_class c e) = has_class Fragment e"
  by simp

lemma mark_slide_shape: "same_shape dm (mark_slide d i f b p dm)"
proof -
  have *: "same_shape a b \<Longrightarrow> c \<noteq> Fragment \<Longrightarrow> same_shape a (update_el s (add_class c) b)" for a b c s
    by (erule same_shape_trans) (rule same_shape_update_el, rule add_class_shape)
  have r: "same_shape dm (update_el s reset_slide dm)" for s
    by (rule same_shape_update_el) (rule reset_slide_shape)
  have s: "same_shape a b \<Longrightarrow> same_shape a (showFragmentsIn t b)"
    "same_shape a b \<Longrightarrow> same_shape a (hideFragmentsIn t b)" for a b t
    using same_shape_trans showFragmentsIn_shape hideFragmentsIn_shape by blast+
  show ?thesis by (simp add: mark_slide_def Let_def r * s)
qed

lemma update_doc_place: "same_shape (doc d) (f (doc d)) \<Longrightarrow> same_place d (update_doc f d)"
  by (simp add: same_place_def same_timers_update_doc) (simp add: update_doc_def)

lemma updateSlides_place:
  assumes "updateSlides sel index d = Some (i, d')"
  shows "same_place d d' \<and> indexh d' = indexh d \<and> indexv d' = indexv d"
proof (cases "slides_of sel (doc d) = []")
  case True
  with assms show ?thesis by (simp add: updateSlides_def)
next
  case False
  then obtain i0 where index: "index = Num i0"
    using assms by (cases index) (simp_all add: updateSlides_def Let_def)
  obtain i1 f b where w: "wrap_index (cfg_loop (cfg d)) (int (length (slides_of sel (doc d)))) i0 = (i1, f, b)"
    by (metis prod_cases3)
  let ?i = "clamp_index (int (length (slides_of sel (doc d)))) i1"
  let ?s = "slides_of sel (doc d) ! nat ?i"
  let ?d1 = "update_doc (fold (mark_slide d ?i f b) (enumerate 0 (slides_of sel (doc d)))) d"
  let ?d2 = "update_elem ?s present_slide ?d1"
  have 1: "same_place d ?d1"
    by (rule update_doc_place, rule same_shape_fold) (rule mark_slide_shape)
  have 2: "same_place ?d1 ?d2"
    unfolding update_elem_def
    by (rule update_doc_place, rule same_shape_update_el) (rule present_slide_shape)
  have 3: "same_place ?d2 (dispatchEvent ev ?d2)" for ev
    by (rule quiet_same_place) (rule dispatchEvent.quiet dispatchEvent.untimed)+
  have 4: "same_place a b \<Longrightarrow> same_place a (b\<lparr>deckState := s\<rparr>)" for a b s
    by (simp add: same_place_def same_timers_def isPaused_def)
  from 1 2 3 have 5: "same_place d ?d2" "same_place d (dispatchEvent ev ?d2)" for ev
    by (blast intro: same_place_trans)+
  have 6: "indexh ?d2 = indexh d" "indexv ?d2 = indexv d"
    by (simp_all add: update_elem_def update_doc_def)
  from False assms index w 4 5 6 show ?thesis
    by (auto simp: updateSlides_def Let_def split: if_splits)
qed

end
