(* ===== verification/Marking.thy ===== *)
theory Marking
  imports Slides
begin

text \<open>
  What \<open>updateSlides\<close> leaves in the document.  Marking one slide touches the marks of that slide only
  (the fragments inside it change their progress classes), so the loop over a dimension leaves at
  each slide the mark of its position: past before the index, present at it, future after it.
\<close>

section \<open>One slide\<close>

lemma el_showFragmentsIn_class [simp]:
  "c \<notin> progress_classes \<Longrightarrow> has_class c (el (showFragmentsIn s dm) x) = has_class c (el dm x)"
  by (rule same_marks_class) (rule showFragmentsIn_marks)

lemma el_hideFragmentsIn_class [simp]:
  "c \<notin> progress_classes \<Longrightarrow> has_class c (el (hideFragmentsIn s dm) x) = has_class c (el dm x)"
  by (rule same_marks_class) (rule hideFragmentsIn_marks)

lemma mark_slide_other:
  assumes "x \<noteq> snd p" and "c \<notin> progress_classes"
  shows "has_class c (el (mark_slide d i f b p dm) x) = has_class c (el dm x)"
  using assms by (simp add: mark_slide_def Let_def)

text \<open>The right-to-left reversal applies to horizontal slides only.\<close>

definition reversed :: "deck \<Rightarrow> dom \<Rightarrow> nat \<Rightarrow> bool" where
  "reversed d dm s \<longleftrightarrow> cfg_rtl (cfg d) \<and> \<not> is_vertical dm s"

lemma mark_classes_mem:
  "Past \<notin> progress_classes" "Present \<notin> progress_classes" "Future \<notin> progress_classes"
  "Stack \<notin> progress_classes" "Fragment \<notin> progress_classes" "Disabled \<notin> progress_classes"
  by (simp_all add: progress_classes_def)

lemma has_class_reset_slide [simp]:
  "has_class c (reset_slide e) \<longleftrightarrow> c \<notin> {Past, Present, Future} \<and> has_class c e"
  by (auto simp: reset_slide_def)

lemma mark_slide_self:
  assumes "\<not> isPrintingPDF (env d)"
  shows "has_class Past (el (mark_slide d i f b p dm) (snd p)) \<longleftrightarrow>
      (if reversed d dm (snd p) then int (fst p) > i else int (fst p) < i)"
    and "has_class Future (el (mark_slide d i f b p dm) (snd p)) \<longleftrightarrow>
      (if reversed d dm (snd p) then int (fst p) < i else int (fst p) > i)"
    and "\<not> has_class Present (el (mark_slide d i f b p dm) (snd p))"
  using assms by (auto simp: mark_slide_def Let_def reversed_def mark_classes_mem)

lemma mark_slide_stack:
  "has_class Stack (el (mark_slide d i f b p dm) (snd p)) \<longleftrightarrow>
     has_class Stack (el dm (snd p)) \<or> queryAll dm (snd p) is_section \<noteq> []"
proof -
  have "queryAll (update_el (snd p) reset_slide dm) (snd p) is_section = queryAll dm (snd p) is_section"
    by (rule same_shape_sections) (rule same_shape_update_el, rule reset_slide_shape)
  then show ?thesis by (auto simp: mark_slide_def Let_def mark_classes_mem)
qed

section \<open>The loop\<close>

text \<open>
  A loop whose step at a key changes the observation at that key only, to a value that depends on
  the tree but not on the other marks.
\<close>

lemma fold_observe_notin:
  assumes "\<And>p s. x \<noteq> snd p \<Longrightarrow> obs (f p s) x = obs s x"
  shows "x \<notin> snd ` set ps \<Longrightarrow> obs (fold f ps s) x = obs s x"
  using assms by (induction ps arbitrary: s) auto

lemma fold_observe:
  assumes other: "\<And>p s y. y \<noteq> snd p \<Longrightarrow> obs (f p s) y = obs s y"
    and keep: "\<And>p s. P s \<Longrightarrow> P (f p s)"
    and self: "\<And>p s. P s \<Longrightarrow> obs (f p s) (snd p) = g p"
  shows "distinct (map snd ps) \<Longrightarrow> P s \<Longrightarrow> p \<in> set ps \<Longrightarrow> obs (fold f ps s) (snd p) = g p"
proof (induction ps arbitrary: s)
  case Nil
  then show ?case by simp
next
  case (Cons q ps)
  show ?case
  proof (cases "p = q")
    case True
    then have "snd p \<notin> snd ` set ps" using Cons.prems(1) by auto
    then have "obs (fold f ps (f q s)) (snd p) = obs (f q s) (snd p)"
      by (intro fold_observe_notin other)
    then show ?thesis using True self [OF Cons.prems(2)] by simp
  next
    case False
    with Cons keep show ?thesis by simp
  qed
qed

definition mark_all :: "deck \<Rightarrow> int \<Rightarrow> bool \<Rightarrow> bool \<Rightarrow> nat list \<Rightarrow> dom \<Rightarrow> dom" where
  "mark_all d i f b slides dm = fold (mark_slide d i f b) (enumerate 0 slides) dm"

lemma mark_all_shape: "same_shape dm (mark_all d i f b slides dm)"
  unfolding mark_all_def by (rule same_shape_fold) (rule mark_slide_shape)

lemma mark_all_other:
  "x \<notin> set slides \<Longrightarrow> c \<notin> progress_classes \<Longrightarrow>
   has_class c (el (mark_all d i f b slides dm) x) = has_class c (el dm x)"
  unfolding mark_all_def
  by (rule fold_observe_notin [where obs = "\<lambda>s y. has_class c (el s y)"])
    (auto simp: mark_slide_other set_zip in_set_enumerate_eq)

lemma mark_all_self:
  assumes "distinct slides" and "k < length slides" and c: "c \<notin> progress_classes"
    and self: "\<And>p s. same_shape dm s \<Longrightarrow> has_class c (el (mark_slide d i f b p s) (snd p)) = g p"
  shows "has_class c (el (mark_all d i f b slides dm) (slides ! k)) = g (k, slides ! k)"
proof -
  have "has_class c (el (fold (mark_slide d i f b) (enumerate 0 slides) dm) (snd (k, slides ! k)))
      = g (k, slides ! k)"
  proof (rule fold_observe [where obs = "\<lambda>s y. has_class c (el s y)" and P = "same_shape dm"])
    show "has_class c (el (mark_slide d i f b p s) y) = has_class c (el s y)"
      if "y \<noteq> snd p" for p s y by (rule mark_slide_other [OF that c])
    show "same_shape dm (mark_slide d i f b p s)" if "same_shape dm s" for p s
      using that mark_slide_shape by (rule same_shape_trans)
    show "has_class c (el (mark_slide d i f b p s) (snd p)) = g p" if "same_shape dm s" for p s
      by (rule self [OF that])
    show "distinct (map snd (enumerate 0 slides))" using assms(1) by simp
    show "(k, slides ! k) \<in> set (enumerate 0 slides)" using assms(2) by (simp add: enumerate_mem_iff)
  qed simp
  then show ?thesis by (simp add: mark_all_def)
qed

lemma same_shape_reversed: "same_shape dm s \<Longrightarrow> reversed d s x = reversed d dm x"
  by (simp add: reversed_def same_shape_is_vertical [of dm s])

lemma mark_all_marks:
  assumes "\<not> isPrintingPDF (env d)" and "distinct slides" and "k < length slides"
  shows "has_class Past (el (mark_all d i f b slides dm) (slides ! k)) \<longleftrightarrow>
      (if reversed d dm (slides ! k) then int k > i else int k < i)"
    and "has_class Future (el (mark_all d i f b slides dm) (slides ! k)) \<longleftrightarrow>
      (if reversed d dm (slides ! k) then int k < i else int k > i)"
    and "\<not> has_class Present (el (mark_all d i f b slides dm) (slides ! k))"
proof -
  note mark = mark_slide_self [OF assms(1)] and loop = mark_all_self [OF assms(2,3)]
  have "has_class Past (el (mark_all d i f b slides dm) (slides ! k)) =
      (\<lambda>p. if reversed d dm (snd p) then int (fst p) > i else int (fst p) < i) (k, slides ! k)"
    by (rule loop, rule mark_classes_mem) (simp only: mark(1) same_shape_reversed [of dm])
  then show "has_class Past (el (mark_all d i f b slides dm) (slides ! k)) \<longleftrightarrow>
      (if reversed d dm (slides ! k) then int k > i else int k < i)" by simp
  have "has_class Future (el (mark_all d i f b slides dm) (slides ! k)) =
      (\<lambda>p. if reversed d dm (snd p) then int (fst p) < i else int (fst p) > i) (k, slides ! k)"
    by (rule loop, rule mark_classes_mem) (simp only: mark(2) same_shape_reversed [of dm])
  then show "has_class Future (el (mark_all d i f b slides dm) (slides ! k)) \<longleftrightarrow>
      (if reversed d dm (slides ! k) then int k < i else int k > i)" by simp
  have "has_class Present (el (mark_all d i f b slides dm) (slides ! k)) = (\<lambda>p. False) (k, slides ! k)"
    by (rule loop, rule mark_classes_mem) (simp add: mark(3))
  then show "\<not> has_class Present (el (mark_all d i f b slides dm) (slides ! k))" by simp
qed

section \<open>The whole update\<close>

lemma has_class_present_slide [simp]:
  "has_class c (present_slide e) \<longleftrightarrow> c = Present \<or> has_class c e"
  by (simp add: present_slide_def)

text \<open>The index \<open>updateSlides\<close> settles on, and the document it leaves.\<close>

definition settled_index :: "bool \<Rightarrow> nat \<Rightarrow> int \<Rightarrow> int" where
  "settled_index loop n i = clamp_index (int n) (fst (wrap_index loop (int n) i))"

lemma settled_index_bounds: "n > 0 \<Longrightarrow> 0 \<le> settled_index loop n i \<and> settled_index loop n i < int n"
  by (auto simp: settled_index_def clamp_index_def)

lemma updateSlides_Some:
  assumes "slides_of sel (doc d) \<noteq> []"
  shows "\<exists>f b d'. updateSlides sel (Num i) d =
      Some (settled_index (cfg_loop (cfg d)) (length (slides_of sel (doc d))) i, d') \<and>
      doc d' = (let k = settled_index (cfg_loop (cfg d)) (length (slides_of sel (doc d))) i
                in update_el (slides_of sel (doc d) ! nat k) present_slide
                     (mark_all d k f b (slides_of sel (doc d)) (doc d)))"
proof -
  obtain i1 f b where w:
    "wrap_index (cfg_loop (cfg d)) (int (length (slides_of sel (doc d)))) i = (i1, f, b)"
    by (metis prod_cases3)
  show ?thesis
    by (rule exI [of _ f], rule exI [of _ b])
      (simp add: updateSlides_def assms w Let_def settled_index_def mark_all_def update_elem_def
        update_doc_def)
qed

text \<open>The attributes the loop does not write.\<close>

definition mark_attrs :: "attr set" where
  "mark_attrs = {Hidden, AriaHidden}"

lemma attrs_reset_slide: "a \<notin> mark_attrs \<Longrightarrow> attrs (reset_slide e) a = attrs e a"
  by (simp add: reset_slide_def mark_attrs_def)

lemma attrs_present_slide: "a \<notin> mark_attrs \<Longrightarrow> attrs (present_slide e) a = attrs e a"
  by (simp add: present_slide_def mark_attrs_def)

lemma mark_slide_attrs:
  assumes "a \<notin> progress_attrs" and "a \<notin> mark_attrs"
  shows "attrs (el (mark_slide d i f b p dm) x) a = attrs (el dm x) a"
proof -
  have s: "attrs (el (showFragmentsIn t m) x) a = attrs (el m x) a"
    "attrs (el (hideFragmentsIn t m) x) a = attrs (el m x) a" for t m
    using same_marks_attr [OF showFragmentsIn_marks] same_marks_attr [OF hideFragmentsIn_marks] assms
    by simp_all
  have c: "attrs (el (update_el t (add_class k) m) x) a = attrs (el m x) a" for t k m
    by (simp add: el_update_el)
  have r: "attrs (el (update_el t reset_slide m) x) a = attrs (el m x) a" for t m
    using assms by (simp add: el_update_el attrs_reset_slide)
  show ?thesis by (simp add: mark_slide_def Let_def s c r)
qed

lemma mark_all_attrs:
  assumes "a \<notin> progress_attrs" and "a \<notin> mark_attrs"
  shows "attrs (el (mark_all d i f b slides dm) x) a = attrs (el dm x) a"
  unfolding mark_all_def
  by (rule fold_keeps [where g = "\<lambda>s. attrs (el s x) a"]) (rule mark_slide_attrs [OF assms])

text \<open>The tokens of \<open>data-state\<close> that \<open>updateSlides\<close> adds for the slide it presents.\<close>

definition state_tokens :: "dom \<Rightarrow> nat \<Rightarrow> string list" where
  "state_tokens dm s =
     (case attrs (el dm s) DataState of
        None \<Rightarrow> [] | Some t \<Rightarrow> if t = [] then [] else split_on (CHR '' '') t)"

lemma updateSlides_attr:
  assumes "updateSlides sel index d = Some (k, d')"
  shows "attrs (el (doc d') x) DataState = attrs (el (doc d) x) DataState"
    and "attrs (el (doc d') x) AId = attrs (el (doc d) x) AId"
proof -
  have keeps: "attrs (el (doc d') x) a = attrs (el (doc d) x) a"
    if a: "a \<notin> progress_attrs" "a \<notin> mark_attrs" for a
  proof (cases "slides_of sel (doc d) = []")
    case True
    with assms show ?thesis by (simp add: updateSlides_def)
  next
    case False
    then obtain i where i: "index = Num i"
      using assms by (cases index) (simp_all add: updateSlides_def Let_def)
    show ?thesis
      using updateSlides_Some [OF False, of i] assms i
      by (auto simp: Let_def el_update_el attrs_present_slide [OF a(2)] mark_all_attrs [OF a])
  qed
  show "attrs (el (doc d') x) DataState = attrs (el (doc d) x) DataState"
    "attrs (el (doc d') x) AId = attrs (el (doc d) x) AId"
    by (rule keeps; simp add: progress_attrs_def mark_attrs_def)+
qed

lemma updateSlides_deckState:
  assumes "slides_of sel (doc d) \<noteq> []" and "updateSlides sel (Num i) d = Some (k, d')"
  shows "deckState d' = deckState d @ state_tokens (doc d) (slides_of sel (doc d) ! nat k)"
proof -
  obtain i1 f b where w:
    "wrap_index (cfg_loop (cfg d)) (int (length (slides_of sel (doc d)))) i = (i1, f, b)"
    by (metis prod_cases3)
  let ?slides = "slides_of sel (doc d)"
  let ?k = "clamp_index (int (length ?slides)) i1"
  let ?d2 = "update_elem (?slides ! nat ?k) present_slide
    (update_doc (fold (mark_slide d ?k f b) (enumerate 0 ?slides)) d)"
  have mem: "DataState \<notin> progress_attrs" "DataState \<notin> mark_attrs"
    by (simp_all add: progress_attrs_def mark_attrs_def)
  have "attrs (el (doc ?d2) x) DataState = attrs (el (doc d) x) DataState" for x
    by (simp add: update_elem_def update_doc_def mark_all_def [symmetric] el_update_el
        attrs_present_slide [OF mem(2)] mark_all_attrs [OF mem])
  moreover have "deckState ?d2 = deckState d" by (simp add: update_elem_def update_doc_def)
  ultimately show ?thesis
    using assms w by (auto simp: updateSlides_def Let_def state_tokens_def truthy_string_def split: if_splits option.splits)
qed

end
