(* ===== verification/Transition.thy ===== *)
theory Transition
  imports Marking
begin

text \<open>
  \<open>slide( h, v, f )\<close> of \<open>reveal.js\<close>, the one transition of the deck.  It is written as the sequence
  of its phases, each a definition, in the order of the code; \<open>slide\<close> composes them.
\<close>

section \<open>Choosing the target\<close>

definition nth_slide :: "nat list \<Rightarrow> jsval \<Rightarrow> nat option" where
  "nth_slide hs h =
     (case h of Num i \<Rightarrow> if 0 \<le> i \<and> i < int (length hs) then Some (hs ! nat i) else None
      | _ \<Rightarrow> None)"

text \<open>With no vertical index, a stack is resumed where it was left.\<close>

definition resume_vertical :: "deck \<Rightarrow> jsval \<Rightarrow> jsval \<Rightarrow> jsval" where
  "resume_vertical d h v =
     (if v = Undef \<and> \<not> overviewActive d
      then getPreviousVerticalIndex (doc d) (nth_slide (horizontal_slides (doc d)) h)
      else v)"

text \<open>The vertical index of the stack that is left is stored on it.\<close>

definition remember_vertical :: "deck \<Rightarrow> deck" where
  "remember_vertical d =
     (case previousSlide d of
        None \<Rightarrow> d
      | Some p \<Rightarrow>
          (case parent_of (doc d) p of
             None \<Rightarrow> d
           | Some q \<Rightarrow>
               if has_class Stack (el (doc d) (nid q))
               then update_doc (setPreviousVerticalIndex (nid q) (indexv d)) d
               else d))"

section \<open>Moving the indices\<close>

definition move_indices :: "jsval \<Rightarrow> jsval \<Rightarrow> deck \<Rightarrow> deck option" where
  "move_indices h v d =
     do {
       (i, d1) \<leftarrow> updateSlides Horizontal (jv_default h (indexh d)) (d\<lparr>deckState := []\<rparr>);
       (j, d2) \<leftarrow> updateSlides Vertical (jv_default v (indexv d1)) (d1\<lparr>indexh := Num i\<rparr>);
       Some (d2\<lparr>indexv := Num j\<rparr>)
     }"

definition slide_at :: "dom \<Rightarrow> nat list \<Rightarrow> jsval \<Rightarrow> jsval \<Rightarrow> nat option" where
  "slide_at dm hs h v =
     (case nth_slide hs h of
        None \<Rightarrow> None
      | Some s \<Rightarrow>
          (case nth_slide (queryAll dm s is_section) v of Some t \<Rightarrow> Some t | None \<Rightarrow> Some s))"

definition slide_changed :: "int \<Rightarrow> int \<Rightarrow> deck \<Rightarrow> bool" where
  "slide_changed hBefore vBefore d \<longleftrightarrow> indexh d \<noteq> Num hBefore \<or> indexv d \<noteq> Num vBefore"

definition set_current :: "nat list \<Rightarrow> bool \<Rightarrow> deck \<Rightarrow> deck" where
  "set_current hs changed d =
     d\<lparr>previousSlide := (if changed then previousSlide d else None),
       currentSlide := slide_at (doc d) hs (indexh d) (indexv d)\<rparr>"

section \<open>Auto-animation and visibility\<close>

definition is_auto_animated :: "int \<Rightarrow> int \<Rightarrow> deck \<Rightarrow> bool" where
  "is_auto_animated hBefore vBefore d =
     (case (previousSlide d, currentSlide d) of
        (Some p, Some c) \<Rightarrow>
          (let pe = el (doc d) p; ce = el (doc d) c
           in has_attr DataAutoAnimate pe \<and> has_attr DataAutoAnimate ce \<and>
              attrs pe DataAutoAnimateId = attrs ce DataAutoAnimateId \<and>
              \<not> has_attr DataAutoAnimateRestart
                  (if jv_gt (indexh d) hBefore \<or> jv_gt (indexv d) vBefore then ce else pe))
      | _ \<Rightarrow> False)"

definition start_transition :: "int \<Rightarrow> int \<Rightarrow> bool \<Rightarrow> deck \<Rightarrow> bool \<times> deck" where
  "start_transition hBefore vBefore changed d =
     (if changed \<and> previousSlide d \<noteq> None \<and> currentSlide d \<noteq> None \<and> \<not> overviewActive d
      then (let aa = is_auto_animated hBefore vBefore d;
                d1 = (if aa then d\<lparr>slidesClasses := insert DisableSlideTransitions (slidesClasses d)\<rparr>
                      else d)
            in (aa, d1\<lparr>transition := Running\<rparr>))
      else (False, d))"

definition show_target :: "jsval \<Rightarrow> deck \<Rightarrow> deck" where
  "show_target f d =
     (let d1 = layout (updateSlidesVisibility d);
          d2 = (if overviewActive d1 then overview_update d1 else d1)
      in if f \<noteq> Undef then snd (fragments_goto f 0 d2) else d2)"

definition hide_previous_slide :: "elem \<Rightarrow> elem" where
  "hide_previous_slide e = set_attr AriaHidden ''true'' (remove_class Present e)"

definition leave_previous :: "deck \<Rightarrow> deck" where
  "leave_previous d =
     (case previousSlide d of
        None \<Rightarrow> d
      | Some p \<Rightarrow>
          if currentSlide d \<noteq> Some p
          then (let d1 = update_elem p hide_previous_slide d
                in if isFirstSlide d1
                   then snd (set_timeout TimResetVerticalIndices (Fin 0) d1)
                   else d1)
          else d)"

section \<open>States\<close>

text \<open>\<open>classList.add\<close> and \<open>classList.remove\<close> throw on a token that is empty or holds white space.\<close>

definition valid_token :: "string \<Rightarrow> bool" where
  "valid_token t \<longleftrightarrow> t \<noteq> [] \<and> \<not> list_ex is_ws t"

fun apply_states :: "string list \<Rightarrow> string list \<Rightarrow> deck \<Rightarrow> (string list \<times> deck) option" where
  "apply_states [] before d = Some (before, d)"
| "apply_states (s # ss) before d =
     (if s \<in> set before then apply_states ss (remove1 s before) d
      else if valid_token s
        then apply_states ss before
               (dispatchEvent (StateEvent s) (d\<lparr>viewportClasses := insert s (viewportClasses d)\<rparr>))
      else None)"

definition remove_states :: "string list \<Rightarrow> deck \<Rightarrow> deck option" where
  "remove_states before d =
     (if list_all valid_token before
      then Some (d\<lparr>viewportClasses := viewportClasses d - set before\<rparr>) else None)"

definition update_states :: "string list \<Rightarrow> deck \<Rightarrow> deck option" where
  "update_states stateBefore d =
     do { (rest, d1) \<leftarrow> apply_states (deckState d) stateBefore d; remove_states rest d1 }"

section \<open>Notifying\<close>

definition notify_changed :: "bool \<Rightarrow> deck \<Rightarrow> deck" where
  "notify_changed changed d =
     (let d1 = (if changed
                then dispatchEvent (SlideChanged (indexh d) (indexv d) (previousSlide d) (currentSlide d)) d
                else d);
          d2 = (if changed \<or> previousSlide d1 = None
                then (case currentSlide d1 of
                        None \<Rightarrow> emit (StopEmbedded (previousSlide d1)) d1
                      | Some c \<Rightarrow> emit (StartEmbedded c) (emit (StopEmbedded (previousSlide d1)) d1))
                else d1)
      in snd (set_timeout TimAnnounce (Fin 0) d2))"

definition update_controllers :: "deck \<Rightarrow> deck" where
  "update_controllers d =
     (let d1 = notes_update (controls_update (progress_update d));
          d2 = slideNumber_update (emit UpdateParallax (emit UpdateBackgrounds d1));
          d3 = snd (fragments_update Undef None d2)
      in cueAutoSlide (writeURL d3))"

definition run_auto_animate :: "bool \<Rightarrow> deck \<Rightarrow> deck" where
  "run_auto_animate aa d =
     (if aa
      then (let d1 = snd (set_timeout TimEnableTransitions (Fin 0) d)
            in (case (previousSlide d1, currentSlide d1) of
                  (Some p, Some c) \<Rightarrow> if cfg_autoAnimate (cfg d1) then emit (RunAutoAnimate p c) d1 else d1
                | _ \<Rightarrow> d1))
      else d)"

section \<open>The transition\<close>

definition slide_to :: "jsval \<Rightarrow> jsval \<Rightarrow> jsval \<Rightarrow> deck \<Rightarrow> deck option" where
  "slide_to h v f d =
     (let hs = horizontal_slides (doc d);
          v1 = resume_vertical d h v;
          d1 = remember_vertical d;
          stateBefore = deckState d1;
          hBefore = jv_or0 (indexh d1);
          vBefore = jv_or0 (indexv d1)
      in do {
        d2 \<leftarrow> move_indices h v1 d1;
        let changed = slide_changed hBefore vBefore d2;
        let d3 = set_current hs changed d2;
        let (aa, d4) = start_transition hBefore vBefore changed d3;
        let d5 = leave_previous (show_target f d4);
        d6 \<leftarrow> update_states stateBefore d5;
        Some (run_auto_animate aa (update_controllers (notify_changed changed d6)))
      })"

definition slide :: "jsval \<Rightarrow> jsval \<Rightarrow> jsval \<Rightarrow> deck \<Rightarrow> deck option" where
  "slide h v f d =
     (let th = jv_default h (indexh d);
          tv = jv_default v (indexv d);
          d1 = dispatchEvent (BeforeSlideChange th tv) d
      in if prevents (env d1) th tv then Some d1
         else (let d2 = d1\<lparr>previousSlide := currentSlide d1\<rparr>
               in if horizontal_slides (doc d2) = [] then Some d2
                  else slide_to h v f d2))"

section \<open>Contracts\<close>

interpretation remember_vertical: passive_operation remember_vertical
proof unfold_locales
  fix d :: deck
  have e: "same_marks_elem x (set_attr DataPreviousIndexv v x)" for x v
    by (simp add: progress_attrs_def)
  have m: "same_marks (doc d) (setPreviousVerticalIndex q v (doc d))" for q v
    unfolding setPreviousVerticalIndex_def by (rule same_marks_update_el) (rule e)
  have "quiet d (update_doc (setPreviousVerticalIndex q v) d)" for q v
    using m by (simp add: quiet_def update_doc_def)
  then show "quiet d (remember_vertical d)"
    by (simp add: remember_vertical_def split: option.splits)
  show "same_timers d (remember_vertical d)"
    by (simp add: remember_vertical_def same_timers_update_doc split: option.splits)
qed

interpretation show_target: quiet_operation "show_target f" for f
  by unfold_locales
    (simp add: show_target_def Let_def fragments_goto.compose overview_update.compose layout.compose
      updateSlidesVisibility.quiet)

interpretation show_target_t: timer_operation "show_target f" for f
  by unfold_locales (simp add: show_target_def Let_def fragments_goto_t.keeps_timers_ok)

interpretation notify_changed: quiet_operation "notify_changed c" for c
proof unfold_locales
  fix d :: deck
  let ?d1 = "if c then dispatchEvent (SlideChanged (indexh d) (indexv d) (previousSlide d) (currentSlide d)) d
    else d"
  have "quiet d ?d1" by (simp add: dispatchEvent.quiet)
  then show "quiet d (notify_changed c d)"
    unfolding notify_changed_def Let_def
    by (intro set_timeout.compose) (simp add: emit.compose dispatchEvent.compose split: option.splits)
qed

interpretation notify_changed_t: timer_operation "notify_changed c" for c
  by unfold_locales
    (simp add: notify_changed_def Let_def timers_ok_set is_auto_timer_def is_replace_timer_def
      split: option.splits)

interpretation update_controllers: quiet_operation update_controllers
  by unfold_locales
    (simp add: update_controllers_def Let_def cueAutoSlide.compose writeURL.compose
      fragments_update.compose slideNumber_update.compose emit.compose notes_update.compose
      controls_update.compose progress_update.quiet)

interpretation update_controllers_t: timer_operation update_controllers
  by unfold_locales
    (simp add: update_controllers_def Let_def cueAutoSlide_t.keeps_timers_ok writeURL_t.keeps_timers_ok)

interpretation run_auto_animate: quiet_operation "run_auto_animate b" for b
  by unfold_locales
    (simp add: run_auto_animate_def Let_def emit.compose set_timeout.quiet split: option.splits)

interpretation run_auto_animate_t: timer_operation "run_auto_animate b" for b
  by unfold_locales
    (simp add: run_auto_animate_def Let_def timers_ok_set is_auto_timer_def is_replace_timer_def
      split: option.splits)

text \<open>The moves and the bookkeeping between the quiet phases.\<close>

lemma move_indices_place:
  assumes "move_indices h v d = Some d'"
  shows "same_place d d'"
proof -
  obtain i d1 j d2 where
    1: "updateSlides Horizontal (jv_default h (indexh d)) (d\<lparr>deckState := []\<rparr>) = Some (i, d1)" and
    2: "updateSlides Vertical (jv_default v (indexv d1)) (d1\<lparr>indexh := Num i\<rparr>) = Some (j, d2)" and
    3: "d' = d2\<lparr>indexv := Num j\<rparr>"
    using assms by (auto simp: move_indices_def split: Option.bind_splits)
  have a: "same_place d (d\<lparr>deckState := []\<rparr>)" "same_place d1 (d1\<lparr>indexh := Num i\<rparr>)"
    "same_place d2 (d2\<lparr>indexv := Num j\<rparr>)"
    by (simp_all add: same_place_def same_timers_def isPaused_def)
  have b: "same_place (d\<lparr>deckState := []\<rparr>) d1" "same_place (d1\<lparr>indexh := Num i\<rparr>) d2"
    using updateSlides_place [OF 1] updateSlides_place [OF 2] by blast+
  from a(1) b(1) a(2) b(2) a(3) show ?thesis unfolding 3 by (blast intro: same_place_trans)
qed

text \<open>
  What the phases after the move keep: the position, the shape, and every mark but the present
  class of the slide that is left.
\<close>

definition arrived :: "deck \<Rightarrow> deck \<Rightarrow> bool" where
  "arrived d d' \<longleftrightarrow>
     cfg d' = cfg d \<and> env d' = env d \<and> indexh d' = indexh d \<and> indexv d' = indexv d \<and>
     currentSlide d' = currentSlide d \<and> previousSlide d' = previousSlide d \<and>
     deckState d' = deckState d \<and>
     overviewActive d' = overviewActive d \<and> same_shape (doc d) (doc d') \<and>
     (\<forall>x. attrs (el (doc d') x) DataState = attrs (el (doc d) x) DataState \<and>
        attrs (el (doc d') x) AId = attrs (el (doc d) x) AId) \<and>
     (\<forall>x. has_class Present (el (doc d') x) \<longrightarrow> has_class Present (el (doc d) x)) \<and>
     (\<forall>x c. c \<notin> progress_classes \<longrightarrow>
        c \<noteq> Present \<or> previousSlide d \<noteq> Some x \<or> currentSlide d = Some x \<longrightarrow>
        has_class c (el (doc d') x) = has_class c (el (doc d) x))"

lemma arrived_trans: "arrived a b \<Longrightarrow> arrived b c \<Longrightarrow> arrived a c"
  by (auto simp: arrived_def intro: same_shape_trans)

lemma quiet_arrived: "quiet d d' \<Longrightarrow> arrived d d'"
  by (simp add: quiet_def arrived_def same_marks_shape same_marks_class [of "doc d" "doc d'"]
      mark_classes_mem same_marks_attr progress_attrs_def)

lemma same_doc_arrived:
  "doc d' = doc d \<Longrightarrow> cfg d' = cfg d \<Longrightarrow> env d' = env d \<Longrightarrow> indexh d' = indexh d \<Longrightarrow>
   indexv d' = indexv d \<Longrightarrow> currentSlide d' = currentSlide d \<Longrightarrow> previousSlide d' = previousSlide d \<Longrightarrow>
   overviewActive d' = overviewActive d \<Longrightarrow> deckState d' = deckState d \<Longrightarrow> arrived d d'"
  by (simp add: arrived_def)

lemma start_transition_arrived: "arrived d (snd (start_transition h v c d))"
  by (rule same_doc_arrived) (simp_all add: start_transition_def Let_def)

lemma start_transition_timers: "timers_ok (snd (start_transition h v c d)) = timers_ok d"
  by (rule same_timers_ok) (simp add: start_transition_def Let_def same_timers_def isPaused_def)

lemma leave_previous_arrived: "arrived d (leave_previous d)"
proof (cases "previousSlide d")
  case None
  then show ?thesis by (simp add: leave_previous_def quiet_arrived)
next
  case (Some p)
  show ?thesis
  proof (cases "currentSlide d = Some p")
    case True
    with Some show ?thesis by (simp add: leave_previous_def quiet_arrived)
  next
    case False
    let ?d1 = "update_elem p hide_previous_slide d"
    have 1: "arrived d ?d1"
      using Some False
      by (auto simp: arrived_def update_elem_def update_doc_def el_update_el hide_previous_slide_def
          intro!: same_shape_update_el)
    then have 2: "arrived d (snd (set_timeout a dl ?d1))" for a dl
      by (rule arrived_trans) (rule quiet_arrived, rule set_timeout.quiet)
    from 1 2 Some False show ?thesis by (simp add: leave_previous_def Let_def)
  qed
qed

lemma leave_previous_timers: "timers_ok d \<Longrightarrow> timers_ok (leave_previous d)"
  by (simp add: leave_previous_def Let_def timers_ok_set is_auto_timer_def is_replace_timer_def
      update_elem_def same_timers_ok [OF same_timers_update_doc] split: option.splits)

lemma put_viewport_passive:
  "arrived d (d\<lparr>viewportClasses := c\<rparr>)" "same_timers d (d\<lparr>viewportClasses := c\<rparr>)"
  by (simp_all add: arrived_def same_timers_def isPaused_def)

lemma apply_states_keeps:
  "apply_states ss before d = Some (rest, d') \<Longrightarrow>
   arrived d d' \<and> same_timers d d' \<and> doc d' = doc d"
proof (induction ss arbitrary: before d)
  case Nil
  then show ?case by (simp add: quiet_arrived)
next
  case (Cons s ss)
  let ?d1 = "dispatchEvent (StateEvent s) (d\<lparr>viewportClasses := insert s (viewportClasses d)\<rparr>)"
  have 1: "arrived d ?d1"
    by (rule arrived_trans [OF put_viewport_passive(1)], rule quiet_arrived, rule dispatchEvent.quiet)
  have 2: "same_timers d ?d1"
    by (rule dispatchEvent.compose_timers) (rule put_viewport_passive)
  have 3: "doc ?d1 = doc d" by simp
  show ?case
  proof (cases "s \<in> set before")
    case True
    with Cons show ?thesis by simp
  next
    case False
    then have "apply_states ss before ?d1 = Some (rest, d')" using Cons.prems by (simp split: if_splits)
    from Cons.IH [OF this] 1 2 3 show ?thesis by (auto intro: arrived_trans same_timers_trans)
  qed
qed

lemma update_states_keeps:
  assumes "update_states before d = Some d'"
  shows "arrived d d' \<and> same_timers d d' \<and> doc d' = doc d"
proof -
  obtain rest d1 where 1: "apply_states (deckState d) before d = Some (rest, d1)"
    and 2: "d' = d1\<lparr>viewportClasses := viewportClasses d1 - set rest\<rparr>"
    using assms by (auto simp: update_states_def remove_states_def split: Option.bind_splits if_splits)
  from apply_states_keeps [OF 1] put_viewport_passive [of d1] 2 show ?thesis
    by (auto intro: arrived_trans same_timers_trans)
qed

end
