(* ===== verification/Positions.thy ===== *)
theory Positions
  imports Transition
begin

text \<open>
  Where \<open>slide\<close> lands: the phases of the transition composed.  After a call that is not cancelled,
  the indices are in range, the current slide is the slide at the indices, and the marks of the two
  dimensions are those of the indices.
\<close>

section \<open>Decomposition of a call\<close>

text \<open>The phases after the move, as one relation.\<close>

lemma slide_to_phases:
  assumes "slide_to h v f d = Some d'"
  shows "\<exists>d2. move_indices h (resume_vertical d h v) (remember_vertical d) = Some d2 \<and>
    arrived (set_current (horizontal_slides (doc d))
          (slide_changed (jv_or0 (indexh d)) (jv_or0 (indexv d)) d2) d2) d' \<and>
    (timers_ok d2 \<longrightarrow> timers_ok d')"
proof -
  let ?c = "slide_changed (jv_or0 (indexh d)) (jv_or0 (indexv d))"
  obtain d2 d6 where m: "move_indices h (resume_vertical d h v) (remember_vertical d) = Some d2"
    and u: "update_states (deckState d)
      (leave_previous (show_target f (snd (start_transition (jv_or0 (indexh d)) (jv_or0 (indexv d)) (?c d2)
        (set_current (horizontal_slides (doc d)) (?c d2) d2))))) = Some d6"
    and e: "\<exists>aa. d' = run_auto_animate aa (update_controllers (notify_changed (?c d2) d6))"
    using assms by (auto simp: slide_to_def Let_def case_prod_beta split: Option.bind_splits)
  let ?d3 = "set_current (horizontal_slides (doc d)) (?c d2) d2"
  let ?d4 = "snd (start_transition (jv_or0 (indexh d)) (jv_or0 (indexv d)) (?c d2) ?d3)"
  let ?d5 = "leave_previous (show_target f ?d4)"
  obtain aa where aa: "d' = run_auto_animate aa (update_controllers (notify_changed (?c d2) d6))"
    using e by blast
  have 1: "arrived ?d3 ?d4" by (rule start_transition_arrived)
  have 2: "arrived ?d4 ?d5"
    by (rule arrived_trans [OF quiet_arrived [OF show_target.quiet] leave_previous_arrived])
  have 3: "arrived ?d5 d6" "same_timers ?d5 d6" using update_states_keeps [OF u] by simp_all
  have 4: "arrived d6 d'"
    unfolding aa by (rule quiet_arrived)
      (intro run_auto_animate.compose update_controllers.compose notify_changed.quiet)
  have "same_timers d2 ?d3" by (simp add: set_current_def same_timers_def isPaused_def)
  then have t: "timers_ok d'" if "timers_ok d2"
    unfolding aa using that 3(2)
    by (intro run_auto_animate_t.keeps_timers_ok update_controllers_t.keeps_timers_ok
        notify_changed_t.keeps_timers_ok)
      (simp add: same_timers_ok [OF 3(2)] leave_previous_timers show_target_t.keeps_timers_ok
        start_transition_timers same_timers_ok)
  from m t 1 2 3 4 show ?thesis by (meson arrived_trans)
qed

definition start_slide :: "jsval \<Rightarrow> jsval \<Rightarrow> deck \<Rightarrow> deck" where
  "start_slide h v d =
     (dispatchEvent (BeforeSlideChange (jv_default h (indexh d)) (jv_default v (indexv d))) d)
       \<lparr>previousSlide := currentSlide d\<rparr>"

lemma slide_cases:
  assumes "slide h v f d = Some d'"
  obtains (prevented) "prevents (env d) (jv_default h (indexh d)) (jv_default v (indexv d))"
      "d' = dispatchEvent (BeforeSlideChange (jv_default h (indexh d)) (jv_default v (indexv d))) d"
    | (empty) "horizontal_slides (doc d) = []" "d' = start_slide h v d"
    | (moved) "\<not> prevents (env d) (jv_default h (indexh d)) (jv_default v (indexv d))"
      "horizontal_slides (doc d) \<noteq> []" "slide_to h v f (start_slide h v d) = Some d'"
  using assms by (auto simp: slide_def start_slide_def Let_def split: if_splits)

lemma start_slide_fields [simp]:
  "cfg (start_slide h v d) = cfg d" "env (start_slide h v d) = env d" "doc (start_slide h v d) = doc d"
  "indexh (start_slide h v d) = indexh d" "indexv (start_slide h v d) = indexv d"
  "previousSlide (start_slide h v d) = currentSlide d" "currentSlide (start_slide h v d) = currentSlide d"
  "overviewActive (start_slide h v d) = overviewActive d" "deckState (start_slide h v d) = deckState d"
  "viewportClasses (start_slide h v d) = viewportClasses d"
  by (simp_all add: start_slide_def)

lemma start_slide_timers: "same_timers d (start_slide h v d)"
  using dispatchEvent.untimed
  by (simp add: start_slide_def same_timers_def isPaused_def)

section \<open>Invariants of every call\<close>

lemma slide_keeps_timers:
  assumes "slide h v f d = Some d'" and ok: "timers_ok d"
  shows "timers_ok d'"
  using assms(1)
proof (cases rule: slide_cases)
  case prevented
  with ok show ?thesis by simp
next
  case empty
  with ok show ?thesis by (simp add: same_timers_ok [OF start_slide_timers])
next
  case moved
  obtain d2 where m: "move_indices h (resume_vertical (start_slide h v d) h v)
        (remember_vertical (start_slide h v d)) = Some d2" and t: "timers_ok d2 \<longrightarrow> timers_ok d'"
    using slide_to_phases [OF moved(3)] by blast
  have "same_timers (remember_vertical (start_slide h v d)) d2"
    using move_indices_place [OF m] by (simp add: same_place_def)
  with ok show ?thesis
    using same_timers_ok [OF start_slide_timers] by (intro t [rule_format]) (simp add: same_timers_ok)
qed

lemma slide_keeps_shape:
  assumes "slide h v f d = Some d'"
  shows "same_shape (doc d) (doc d') \<and> cfg d' = cfg d \<and> env d' = env d \<and>
    overviewActive d' = overviewActive d"
  using assms
proof (cases rule: slide_cases)
  case prevented
  then show ?thesis by simp
next
  case empty
  then show ?thesis by simp
next
  case moved
  obtain d2 where m: "move_indices h (resume_vertical (start_slide h v d) h v)
        (remember_vertical (start_slide h v d)) = Some d2"
      and a: "arrived (set_current (horizontal_slides (doc (start_slide h v d)))
        (slide_changed (jv_or0 (indexh (start_slide h v d))) (jv_or0 (indexv (start_slide h v d))) d2) d2) d'"
    using slide_to_phases [OF moved(3)] by blast
  have "same_place (remember_vertical (start_slide h v d)) d2" by (rule move_indices_place [OF m])
  moreover have "same_shape (doc d) (doc (remember_vertical (start_slide h v d)))"
    using remember_vertical.shape [of "start_slide h v d"] by simp
  ultimately show ?thesis
    using a by (auto simp: same_place_def arrived_def set_current_def intro: same_shape_trans)
qed

section \<open>Well-formed decks\<close>

text \<open>
  The documents the program is written for: elements are distinct, the slides container is not a
  section itself, and the sections inside a horizontal slide are its children.
\<close>

definition wf_doc :: "dom \<Rightarrow> bool" where
  "wf_doc dm \<longleftrightarrow>
     distinct_ids dm \<and> \<not> is_section (el dm (nid (dom_root dm))) \<and>
     list_all (\<lambda>n. queryAll_node dm n is_section = map nid (section_children dm n)) (horizontal_nodes dm)"

definition states_ok :: "dom \<Rightarrow> bool" where
  "states_ok dm \<longleftrightarrow> list_all (\<lambda>s. list_all valid_token (state_tokens dm s)) (all_slides dm)"

abbreviation forest :: "node list \<Rightarrow> node list" where
  "forest ns \<equiv> concat (map (\<lambda>n. n # descendants n) ns)"

lemma forest_mem: "n \<in> set ns \<Longrightarrow> n \<in> set (forest ns)"
  by auto

lemma forest_distinct: "distinct (map nid (forest ns)) \<Longrightarrow> distinct (map nid ns)"
proof (induction ns)
  case Nil
  show ?case by simp
next
  case (Cons n ns)
  then have "nid n \<notin> nid ` set (forest ns)" by auto
  then have "nid n \<notin> nid ` set ns" using forest_mem by blast
  with Cons show ?case by auto
qed

lemma forest_disjoint:
  "distinct (map nid (forest ns)) \<Longrightarrow> n \<in> set ns \<Longrightarrow> m \<in> set (descendants n) \<Longrightarrow> nid m \<notin> nid ` set ns"
proof (induction ns)
  case Nil
  then show ?case by simp
next
  case (Cons a ns)
  have d: "nid a \<notin> nid ` set (descendants a)" "nid a \<notin> nid ` set (forest ns)"
    "nid ` set (descendants a) \<inter> nid ` set (forest ns) = {}" "distinct (map nid (forest ns))"
    using Cons.prems(1) by auto
  show ?case
  proof (cases "n = a")
    case True
    then have x: "nid m \<in> nid ` set (descendants a)" using Cons.prems(3) by simp
    have 1: "nid m \<noteq> nid a" using x d(1) by metis
    have 2: "nid m \<notin> nid ` set (forest ns)" using x d(3) by (meson disjoint_iff)
    have "set ns \<subseteq> set (forest ns)" using forest_mem by (rule subsetI)
    then have "nid m \<notin> nid ` set ns" using 2 by (meson image_mono subsetD)
    with 1 show ?thesis by simp
  next
    case False
    then have n: "n \<in> set ns" using Cons.prems(2) by simp
    then have "m \<in> set (forest ns)" using Cons.prems(3) by auto
    with d(2) have "nid m \<noteq> nid a" by (metis imageI)
    with Cons.IH [OF d(4) n Cons.prems(3)] show ?thesis by simp
  qed
qed

lemma wf_forest: "wf_doc dm \<Longrightarrow> distinct (map nid (forest (children (dom_root dm))))"
  by (cases "dom_root dm") (simp add: wf_doc_def distinct_ids_def nodes_def)

lemma wf_horizontal_distinct: "wf_doc dm \<Longrightarrow> distinct (horizontal_slides dm)"
  using forest_distinct [OF wf_forest]
  by (auto simp: horizontal_slides_def horizontal_nodes_def section_children_def distinct_map_filter)

lemma wf_verticals:
  assumes "wf_doc dm" and "n \<in> set (horizontal_nodes dm)"
  shows "queryAll dm (nid n) is_section = map nid (section_children dm n)"
    and "distinct (queryAll dm (nid n) is_section)"
    and "set (queryAll dm (nid n) is_section) \<inter> set (horizontal_slides dm) = {}"
proof -
  have dist: "distinct_ids dm" using assms(1) by (simp add: wf_doc_def)
  have n: "n \<in> set (children (dom_root dm))"
    using assms(2) by (simp add: horizontal_nodes_def section_children_def)
  have q: "queryAll dm (nid n) is_section = queryAll_node dm n is_section"
    by (rule queryAll_horizontal [OF dist assms(2)])
  then show "queryAll dm (nid n) is_section = map nid (section_children dm n)"
    using assms by (simp add: wf_doc_def list_all_iff)
  have "distinct (map nid (descendants n))"
    using wf_forest [OF assms(1)] n
    by (auto simp: map_concat distinct_concat_iff comp_def dest!: split_list)
  then show "distinct (queryAll dm (nid n) is_section)"
    by (simp add: q queryAll_node_def)
  have "set (queryAll dm (nid n) is_section) \<subseteq> nid ` set (descendants n)"
    by (auto simp: q queryAll_node_def)
  moreover have "set (horizontal_slides dm) \<subseteq> nid ` set (children (dom_root dm))"
    by (auto simp: horizontal_slides_def horizontal_nodes_def section_children_def)
  ultimately show "set (queryAll dm (nid n) is_section) \<inter> set (horizontal_slides dm) = {}"
    using forest_disjoint [OF wf_forest [OF assms(1)] n] by blast
qed

lemma wf_parent:
  assumes "wf_doc dm" and "n \<in> set (horizontal_nodes dm)"
  shows "\<not> is_vertical dm (nid n)"
proof -
  have "nid n \<in> set (map nid (children (dom_root dm)))"
    using assms(2) by (auto simp: horizontal_nodes_def section_children_def)
  then have "parent_of dm (nid n) = Some (dom_root dm)"
    by (simp add: parent_of_def nodes_def)
  with assms(1) show ?thesis by (simp add: is_vertical_def wf_doc_def)
qed

lemma same_shape_wf: "same_shape d d' \<Longrightarrow> wf_doc d' = wf_doc d"
  by (simp add: wf_doc_def same_shape_distinct_ids [of d d'] same_shape_is_section [of d d']
      same_shape_root [of d d'] same_shape_horizontal_nodes [of d d']
      same_shape_section_children [of d d'] same_shape_queryAll_node [of d d' is_section])

section \<open>The move\<close>

definition vertical_slides :: "dom \<Rightarrow> nat \<Rightarrow> nat list" where
  "vertical_slides dm h = queryAll dm h is_section"

text \<open>The indices a request for \<open>( a, b )\<close> settles on.\<close>

definition settled_h :: "deck \<Rightarrow> int \<Rightarrow> int" where
  "settled_h d a = settled_index (cfg_loop (cfg d)) (length (getHorizontalSlides d)) a"

definition settled_stack :: "deck \<Rightarrow> int \<Rightarrow> nat list" where
  "settled_stack d a = queryAll (doc d) (getHorizontalSlides d ! nat (settled_h d a)) is_section"

definition settled_v :: "deck \<Rightarrow> int \<Rightarrow> int \<Rightarrow> int" where
  "settled_v d a b =
     (if settled_stack d a = [] then 0
      else settled_index (cfg_loop (cfg d)) (length (settled_stack d a)) b)"

lemma settled_h_bounds:
  "getHorizontalSlides d \<noteq> [] \<Longrightarrow> 0 \<le> settled_h d a \<and> settled_h d a < int (length (getHorizontalSlides d))"
  unfolding settled_h_def by (rule settled_index_bounds) simp

lemma settled_v_bounds:
  "0 \<le> settled_v d a b \<and> (settled_stack d a \<noteq> [] \<longrightarrow> settled_v d a b < int (length (settled_stack d a)))"
  using settled_index_bounds [of "length (settled_stack d a)"] by (simp add: settled_v_def)

text \<open>The marks of one dimension after its update.\<close>

definition marked :: "deck \<Rightarrow> dom \<Rightarrow> nat list \<Rightarrow> int \<Rightarrow> bool" where
  "marked d dm slides i \<longleftrightarrow>
     list_all (\<lambda>(k, s).
         (has_class Present (el dm s) \<longleftrightarrow> int k = i) \<and>
         (has_class Past (el dm s) \<longleftrightarrow> (if reversed d dm s then int k > i else int k < i)) \<and>
         (has_class Future (el dm s) \<longleftrightarrow> (if reversed d dm s then int k < i else int k > i)))
       (enumerate 0 slides)"

lemma marked_nth:
  "marked d dm slides i \<longleftrightarrow> (\<forall>k < length slides.
     (has_class Present (el dm (slides ! k)) \<longleftrightarrow> int k = i) \<and>
     (has_class Past (el dm (slides ! k)) \<longleftrightarrow> (if reversed d dm (slides ! k) then int k > i else int k < i)) \<and>
     (has_class Future (el dm (slides ! k)) \<longleftrightarrow> (if reversed d dm (slides ! k) then int k < i else int k > i)))"
  unfolding marked_def list_all_length by (auto simp: nth_enumerate_eq)

lemma updateSlides_marked:
  assumes "\<not> isPrintingPDF (env d)" and "distinct (slides_of sel (doc d))"
    and "slides_of sel (doc d) \<noteq> []"
  shows "\<exists>d'. updateSlides sel (Num i) d =
      Some (settled_index (cfg_loop (cfg d)) (length (slides_of sel (doc d))) i, d') \<and>
    marked d (doc d') (slides_of sel (doc d))
      (settled_index (cfg_loop (cfg d)) (length (slides_of sel (doc d))) i) \<and>
    same_shape (doc d) (doc d') \<and>
    (\<forall>x c. x \<notin> set (slides_of sel (doc d)) \<longrightarrow> c \<notin> progress_classes \<longrightarrow>
       has_class c (el (doc d') x) = has_class c (el (doc d) x))"
proof -
  let ?ss = "slides_of sel (doc d)"
  let ?k = "settled_index (cfg_loop (cfg d)) (length ?ss) i"
  obtain f b d' where u: "updateSlides sel (Num i) d = Some (?k, d')"
    and dc: "doc d' = update_el (?ss ! nat ?k) present_slide (mark_all d ?k f b ?ss (doc d))"
    using updateSlides_Some [OF assms(3), of i] by (auto simp: Let_def)
  have b: "0 \<le> ?k" "nat ?k < length ?ss"
    using settled_index_bounds [of "length ?ss" "cfg_loop (cfg d)" i] assms(3) by auto
  have sh: "same_shape (doc d) (doc d')" using updateSlides_place [OF u] by (simp add: same_place_def)
  have e: "has_class c (el (doc d') x) \<longleftrightarrow>
      (c = Present \<and> x = ?ss ! nat ?k) \<or> has_class c (el (mark_all d ?k f b ?ss (doc d)) x)" for c x
    by (auto simp: dc el_update_el)
  have m: "marked d (doc d') ?ss ?k"
    unfolding marked_nth
  proof (intro allI impI)
    fix k assume k: "k < length ?ss"
    have same: "?ss ! k = ?ss ! nat ?k \<longleftrightarrow> int k = ?k"
      using nth_mem_distinct_inj [OF assms(2) k b(2)] b(1) by auto
    show "(has_class Present (el (doc d') (?ss ! k)) \<longleftrightarrow> int k = ?k) \<and>
       (has_class Past (el (doc d') (?ss ! k)) \<longleftrightarrow>
          (if reversed d (doc d') (?ss ! k) then int k > ?k else int k < ?k)) \<and>
       (has_class Future (el (doc d') (?ss ! k)) \<longleftrightarrow>
          (if reversed d (doc d') (?ss ! k) then int k < ?k else int k > ?k))"
      unfolding e same_shape_reversed [OF sh] using same mark_all_marks [OF assms(1,2) k] by simp
  qed
  have "has_class c (el (doc d') x) = has_class c (el (doc d) x)"
    if "x \<notin> set ?ss" "c \<notin> progress_classes" for x c
    using that b(2) unfolding e by (auto simp: mark_all_other)
  with u m sh show ?thesis by blast
qed

lemma marked_present_verticals:
  assumes "marked d dm (horizontal_slides dm) i" and "0 \<le> i" "i < int (length (horizontal_slides dm))"
  shows "present_vertical_slides dm = map nid (section_children dm (horizontal_nodes dm ! nat i))"
proof -
  have "filter (\<lambda>n. has_class Present (el dm (nid n))) (horizontal_nodes dm) = [horizontal_nodes dm ! nat i]"
    using assms by (intro filter_single) (auto simp: marked_nth horizontal_slides_def)
  then show ?thesis by (simp add: present_vertical_slides_def)
qed

lemma same_shape_verticals: "same_shape d d' \<Longrightarrow> vertical_slides d' h = vertical_slides d h"
  unfolding vertical_slides_def by (rule same_shape_sections)

lemma reversed_cfg: "cfg d' = cfg d \<Longrightarrow> reversed d' dm s = reversed d dm s"
  by (simp add: reversed_def)

text \<open>Marks outside the slides of another dimension survive its update.\<close>

lemma marked_keeps:
  assumes "marked d dm slides i" and "same_shape dm dm'" and "cfg d' = cfg d"
    and "\<And>x c. x \<in> set slides \<Longrightarrow> c \<in> {Present, Past, Future} \<Longrightarrow>
      has_class c (el dm' x) = has_class c (el dm x)"
  shows "marked d' dm' slides i"
  using assms(1) assms(4)
  by (simp add: marked_nth same_shape_reversed [OF assms(2)] reversed_cfg [OF assms(3)])

text \<open>After the horizontal update the vertical selector finds the sections of the new slide.\<close>

lemma vertical_after_horizontal:
  assumes wf: "wf_doc (doc d)" and hs: "getHorizontalSlides d \<noteq> []"
    and pdf: "\<not> isPrintingPDF (env d)"
    and u: "updateSlides Horizontal (Num a) (d\<lparr>deckState := []\<rparr>) = Some (i, d1)"
  shows "slides_of Vertical (doc (d1\<lparr>indexh := Num k\<rparr>)) = settled_stack d a"
proof -
  let ?d0 = "d\<lparr>deckState := []\<rparr>" and ?i = "settled_h d a" and ?hs = "getHorizontalSlides d"
  have hd: "slides_of Horizontal (doc ?d0) = ?hs" by (simp add: slides_of_def getHorizontalSlides_def)
  have dist: "distinct ?hs" using wf_horizontal_distinct [OF wf] by (simp add: getHorizontalSlides_def)
  have m1: "marked ?d0 (doc d1) ?hs ?i" and sh1: "same_shape (doc d) (doc d1)"
    using updateSlides_marked [of ?d0 Horizontal a] pdf dist hs u unfolding hd
    by (auto simp: settled_h_def)
  have i: "0 \<le> ?i" "?i < int (length ?hs)" using settled_h_bounds [OF hs] by simp_all
  define n where "n = horizontal_nodes (doc d) ! nat ?i"
  have n: "n \<in> set (horizontal_nodes (doc d))" "nid n = ?hs ! nat ?i"
    using i by (simp_all add: n_def getHorizontalSlides_def horizontal_slides_def)
  have vs: "settled_stack d a = map nid (section_children (doc d) n)"
    using wf_verticals(1) [OF wf n(1)] by (simp add: settled_stack_def n(2))
  have "present_vertical_slides (doc d1) = map nid (section_children (doc d1) (horizontal_nodes (doc d1) ! nat ?i))"
    using m1 i
    by (intro marked_present_verticals [where d = ?d0])
      (simp_all add: getHorizontalSlides_def same_shape_horizontal_slides [OF sh1])
  then show ?thesis
    by (simp add: slides_of_def vs n_def same_shape_horizontal_nodes [OF sh1]
        same_shape_section_children [OF sh1])
qed

lemma move_indices_marked:
  assumes wf: "wf_doc (doc d)" and hs: "getHorizontalSlides d \<noteq> []"
    and pdf: "\<not> isPrintingPDF (env d)"
    and a: "jv_default h (indexh d) = Num a"
    and b: "settled_stack d a = [] \<or> jv_default v (indexv d) = Num b"
  shows "\<exists>d'. move_indices h v d = Some d' \<and> indexh d' = Num (settled_h d a) \<and>
    indexv d' = Num (settled_v d a b) \<and>
    marked d (doc d') (getHorizontalSlides d) (settled_h d a) \<and>
    marked d (doc d') (settled_stack d a) (settled_v d a b) \<and>
    deckState d' = state_tokens (doc d) (getHorizontalSlides d ! nat (settled_h d a)) @
      (if settled_stack d a = [] then []
       else state_tokens (doc d) (settled_stack d a ! nat (settled_v d a b)))"
proof -
  let ?d0 = "d\<lparr>deckState := []\<rparr>" and ?i = "settled_h d a" and ?hs = "getHorizontalSlides d"
  have hd: "slides_of Horizontal (doc ?d0) = ?hs" by (simp add: slides_of_def getHorizontalSlides_def)
  have dist: "distinct ?hs" using wf_horizontal_distinct [OF wf] by (simp add: getHorizontalSlides_def)
  obtain d1 where 1: "updateSlides Horizontal (Num a) ?d0 = Some (?i, d1)"
    and m1: "marked ?d0 (doc d1) ?hs ?i" and s1: "same_shape (doc ?d0) (doc d1)"
    using updateSlides_marked [of ?d0 Horizontal a] pdf dist hs unfolding hd
    by (auto simp: settled_h_def)
  have p1: "same_place ?d0 d1" "indexv d1 = indexv d" using updateSlides_place [OF 1] by simp_all
  have sh1: "same_shape (doc d) (doc d1)" and c1: "cfg d1 = cfg d" "env d1 = env d"
    using s1 p1 by (simp_all add: same_place_def)
  have ds1: "deckState d1 = state_tokens (doc d) (?hs ! nat ?i)"
    using updateSlides_deckState [OF _ 1] hs unfolding hd by simp
  have i: "0 \<le> ?i" "?i < int (length ?hs)" using settled_h_bounds [OF hs] by simp_all
  define n where "n = horizontal_nodes (doc d) ! nat ?i"
  have n: "n \<in> set (horizontal_nodes (doc d))" "nid n = ?hs ! nat ?i"
    using i by (simp_all add: n_def getHorizontalSlides_def horizontal_slides_def)
  let ?vs = "settled_stack d a"
  have vd: "slides_of Vertical (doc (d1\<lparr>indexh := Num ?i\<rparr>)) = ?vs"
    by (rule vertical_after_horizontal [OF wf hs pdf 1])
  let ?d1 = "d1\<lparr>indexh := Num ?i\<rparr>"
  have vdist: "distinct ?vs" "set ?vs \<inter> set ?hs = {}"
    using wf_verticals(2,3) [OF wf n(1)] by (simp_all add: settled_stack_def n(2) getHorizontalSlides_def)
  show ?thesis
  proof (cases "?vs = []")
    case True
    have 2: "updateSlides Vertical x ?d1 = Some (0, ?d1)" for x
      using True vd by (simp add: updateSlides_def)
    have "move_indices h v d = Some (?d1\<lparr>indexv := Num 0\<rparr>)"
      using 1 2 a by (simp add: move_indices_def)
    moreover have "marked d (doc d1) ?hs ?i"
      by (rule marked_keeps [OF m1]) simp_all
    ultimately show ?thesis using True ds1 by (simp add: settled_v_def marked_nth)
  next
    case False
    let ?j = "settled_v d a b"
    have v1: "jv_default v (indexv d1) = Num b" using b False p1(2) by simp
    obtain d2 where 2: "updateSlides Vertical (Num b) ?d1 = Some (?j, d2)"
      and m2: "marked ?d1 (doc d2) ?vs ?j" and s2: "same_shape (doc ?d1) (doc d2)"
      and o2: "\<forall>x c. x \<notin> set ?vs \<longrightarrow> c \<notin> progress_classes \<longrightarrow>
        has_class c (el (doc d2) x) = has_class c (el (doc ?d1) x)"
      using updateSlides_marked [of ?d1 Vertical b] pdf vdist(1) False c1 unfolding vd
      by (auto simp: settled_v_def)
    have p2: "indexh d2 = Num ?i" using updateSlides_place [OF 2] by simp
    have "move_indices h v d = Some (d2\<lparr>indexv := Num ?j\<rparr>)"
      using 1 2 a v1 by (simp add: move_indices_def)
    moreover have "marked d (doc d2) ?hs ?i"
    proof (rule marked_keeps [OF m1])
      show "same_shape (doc d1) (doc d2)" using s2 by simp
      show "cfg d = cfg ?d0" by simp
      show "has_class c (el (doc d2) x) = has_class c (el (doc d1) x)"
        if "x \<in> set ?hs" "c \<in> {Present, Past, Future}" for x c
        using o2 that vdist(2) mark_classes_mem by auto
    qed
    moreover have "marked d (doc d2) ?vs ?j"
      by (rule marked_keeps [OF m2]) (simp_all add: c1)
    moreover have "deckState d2 = deckState d1 @ state_tokens (doc d1) (?vs ! nat ?j)"
      using updateSlides_deckState [OF _ 2] False unfolding vd by simp
    moreover have "state_tokens (doc d1) x = state_tokens (doc d) x" for x
      using updateSlides_attr [OF 1] by (simp add: state_tokens_def)
    ultimately show ?thesis using False p2 ds1 by simp
  qed
qed

section \<open>Landing\<close>

lemma move_indices_attrs:
  assumes "move_indices h v d = Some d'"
  shows "attrs (el (doc d') x) DataState = attrs (el (doc d) x) DataState"
    and "attrs (el (doc d') x) AId = attrs (el (doc d) x) AId"
proof -
  obtain i d1 j d2 where
    1: "updateSlides Horizontal (jv_default h (indexh d)) (d\<lparr>deckState := []\<rparr>) = Some (i, d1)" and
    2: "updateSlides Vertical (jv_default v (indexv d1)) (d1\<lparr>indexh := Num i\<rparr>) = Some (j, d2)" and
    3: "d' = d2\<lparr>indexv := Num j\<rparr>"
    using assms by (auto simp: move_indices_def split: Option.bind_splits)
  from 3 updateSlides_attr [OF 1, of x] updateSlides_attr [OF 2, of x]
  show "attrs (el (doc d') x) DataState = attrs (el (doc d) x) DataState"
    and "attrs (el (doc d') x) AId = attrs (el (doc d) x) AId" by simp_all
qed

text \<open>A deck that is showing a leaf, with well-formed \<open>data-state\<close> tokens, on screen.\<close>

definition leaf_current :: "deck \<Rightarrow> bool" where
  "leaf_current d =
     (case currentSlide d of None \<Rightarrow> True | Some s \<Rightarrow> queryAll (doc d) s is_section = [])"

definition deck_ok :: "deck \<Rightarrow> bool" where
  "deck_ok d \<longleftrightarrow>
     wf_doc (doc d) \<and> getHorizontalSlides d \<noteq> [] \<and> \<not> isPrintingPDF (env d) \<and> states_ok (doc d) \<and>
     list_all valid_token (deckState d) \<and> leaf_current d"

text \<open>The position is settled: the current slide is the slide at the indices.\<close>

definition at_position :: "int \<Rightarrow> int \<Rightarrow> deck \<Rightarrow> bool" where
  "at_position i j d \<longleftrightarrow>
     indexh d = Num i \<and> indexv d = Num j \<and> currentSlide d = getSlide d i (Num j) \<and>
     currentSlide d \<noteq> None \<and>
     marked d (doc d) (getHorizontalSlides d) i \<and>
     marked d (doc d) (queryAll (doc d) (getHorizontalSlides d ! nat i) is_section) j"

lemma apply_states_Some:
  "list_all valid_token ss \<Longrightarrow> \<exists>rest d'. apply_states ss before d = Some (rest, d') \<and> set rest \<subseteq> set before"
proof (induction ss arbitrary: before d)
  case Nil
  show ?case by simp
next
  case (Cons s ss)
  show ?case
  proof (cases "s \<in> set before")
    case True
    obtain rest d' where "apply_states ss (remove1 s before) d = Some (rest, d')"
      "set rest \<subseteq> set (remove1 s before)" using Cons by (auto simp: list_all_iff) blast
    with True show ?thesis using set_remove1_subset [of s before] by auto
  next
    case False
    with Cons show ?thesis by simp
  qed
qed

lemma update_states_Some:
  assumes "list_all valid_token (deckState d)" and "list_all valid_token before"
  shows "\<exists>d'. update_states before d = Some d'"
proof -
  obtain rest d1 where "apply_states (deckState d) before d = Some (rest, d1)" "set rest \<subseteq> set before"
    using apply_states_Some [OF assms(1)] by blast
  with assms(2) have "update_states before d = remove_states rest d1" "list_all valid_token rest"
    by (auto simp: update_states_def list_all_iff)
  then show ?thesis by (simp add: remove_states_def)
qed

text \<open>Once the indices can move, the call completes.\<close>

lemma slide_to_Some:
  assumes m: "move_indices h (resume_vertical d h v) (remember_vertical d) = Some d2"
    and "list_all valid_token (deckState d2)" and "list_all valid_token (deckState d)"
  shows "\<exists>d'. slide_to h v f d = Some d'"
proof -
  let ?c = "slide_changed (jv_or0 (indexh d)) (jv_or0 (indexv d)) d2"
  let ?d3 = "set_current (horizontal_slides (doc d)) ?c d2"
  let ?d4 = "snd (start_transition (jv_or0 (indexh d)) (jv_or0 (indexv d)) ?c ?d3)"
  let ?d5 = "leave_previous (show_target f ?d4)"
  have "arrived ?d3 ?d4" by (rule start_transition_arrived)
  moreover have "arrived ?d4 ?d5"
    by (rule arrived_trans [OF quiet_arrived [OF show_target.quiet] leave_previous_arrived])
  ultimately have "deckState ?d5 = deckState d2" by (simp add: arrived_def set_current_def)
  then obtain d6 where "update_states (deckState d) ?d5 = Some d6"
    using update_states_Some [of ?d5 "deckState d"] assms by auto
  with m show ?thesis by (simp add: slide_to_def Let_def case_prod_beta)
qed

lemma slide_at_getSlide:
  assumes "0 \<le> i" "i < int (length (getHorizontalSlides d))"
    and "queryAll (doc d) (getHorizontalSlides d ! nat i) is_section \<noteq> [] \<longrightarrow>
      0 \<le> j \<and> j < int (length (queryAll (doc d) (getHorizontalSlides d ! nat i) is_section))"
  shows "slide_at (doc d) (getHorizontalSlides d) (Num i) (Num j) = getSlide d i (Num j)"
    and "getSlide d i (Num j) \<noteq> None"
  using assms by (auto simp: slide_at_def getSlide_def nth_slide_def Let_def split: option.splits)

lemma getSlide_shape:
  "same_shape (doc d) (doc d') \<Longrightarrow> getSlide d' i y = getSlide d i y"
  by (simp add: getSlide_def Let_def getHorizontalSlides_def same_shape_horizontal_slides [of "doc d" "doc d'"]
      same_shape_sections [of "doc d" "doc d'"])

lemma same_shape_getHorizontal:
  "same_shape (doc d) (doc d') \<Longrightarrow> getHorizontalSlides d' = getHorizontalSlides d"
  by (simp add: getHorizontalSlides_def same_shape_horizontal_slides [of "doc d" "doc d'"])

lemma jv_num: "jv_is_num x \<Longrightarrow> \<exists>i. x = Num i"
  by (cases x) simp_all

lemma horizontal_in_all: "set (getHorizontalSlides d) \<subseteq> set (all_slides (doc d))"
  by (auto simp: getHorizontalSlides_def horizontal_slides_def horizontal_nodes_def section_children_def
      all_slides_def queryAll_node_def dest: child_in_descendants)

lemma nodes_descendants: "n \<in> set (nodes d) \<Longrightarrow> set (descendants n) \<subseteq> set (descendants (dom_root d))"
  using descendants_trans by (auto simp: nodes_def)

lemma vertical_in_all: "set (queryAll (doc d) h is_section) \<subseteq> set (all_slides (doc d))"
proof (cases "node_of (doc d) h")
  case None
  then show ?thesis by (simp add: queryAll_def)
next
  case (Some n)
  then have "n \<in> set (nodes (doc d))" by (auto simp: node_of_def dest: find_Some_mem)
  from nodes_descendants [OF this] show ?thesis
    using Some by (auto simp: queryAll_def queryAll_node_def all_slides_def)
qed

text \<open>
  A move followed by the other phases: the marks survive, since the only slide that can lose the
  present class is the one that is left.
\<close>

lemma arrived_marked:
  assumes arr: "arrived (set_current hs c d2) d'" and m: "marked d2 (doc d2) slides k"
    and keep: "\<And>p. previousSlide (set_current hs c d2) = Some p \<Longrightarrow>
      currentSlide (set_current hs c d2) \<noteq> Some p \<Longrightarrow> p \<in> set slides \<Longrightarrow>
      \<not> has_class Present (el (doc d2) p)"
  shows "marked d' (doc d') slides k"
proof (rule marked_keeps [OF m])
  show "same_shape (doc d2) (doc d')" using arr by (simp add: arrived_def set_current_def)
  show "cfg d' = cfg d2" using arr by (simp add: arrived_def set_current_def)
  fix x c' assume x: "x \<in> set slides" and c: "c' \<in> {Present, Past, Future}"
  have cls: "c' \<notin> progress_classes" using c mark_classes_mem by auto
  show "has_class c' (el (doc d') x) = has_class c' (el (doc d2) x)"
  proof (cases "c' = Present \<and> previousSlide (set_current hs c d2) = Some x \<and>
      currentSlide (set_current hs c d2) \<noteq> Some x")
    case True
    with keep x have "\<not> has_class Present (el (doc d2) x)" by blast
    with arr True show ?thesis by (auto simp: arrived_def set_current_def)
  next
    case False
    have "doc (set_current hs c d2) = doc d2" by (simp add: set_current_def)
    with arr cls False show ?thesis unfolding arrived_def by metis
  qed
qed

text \<open>The slide at a position holds no section.\<close>

lemma leaf_getSlide:
  assumes wf: "wf_doc (doc d)" and s: "getSlide d i (Num j) = Some s"
  shows "queryAll (doc d) s is_section = []"
proof -
  let ?hs = "getHorizontalSlides d"
  have i: "0 \<le> i" "i < int (length ?hs)" using s by (auto simp: getSlide_def Let_def split: if_splits)
  define n where "n = horizontal_nodes (doc d) ! nat i"
  have n: "n \<in> set (horizontal_nodes (doc d))" "nid n = ?hs ! nat i"
    using i by (simp_all add: n_def getHorizontalSlides_def horizontal_slides_def)
  let ?vs = "queryAll (doc d) (?hs ! nat i) is_section"
  show ?thesis
  proof (cases "?vs = []")
    case True
    with s i show ?thesis by (simp add: getSlide_def Let_def)
  next
    case False
    with s i have "s \<in> set ?vs" by (auto simp: getSlide_def Let_def split: if_splits)
    then obtain m where m: "m \<in> set (children n)" "nid m = s"
      using wf_verticals(1) [OF wf n(1)] by (auto simp: n(2) section_children_def)
    have nn: "n \<in> set (nodes (doc d))" by (rule horizontal_node_in_nodes [OF n(1)])
    have mn: "m \<in> set (nodes (doc d))"
      using nodes_descendants [OF nn] child_in_descendants [OF m(1)] by (auto simp: nodes_def)
    have dist: "distinct_ids (doc d)" using wf by (simp add: wf_doc_def)
    have q: "queryAll (doc d) s is_section = queryAll_node (doc d) m is_section"
      using child_node_of [OF dist mn] m(2) by (simp add: queryAll_def)
    have "nid k \<notin> set ?vs" if "k \<in> set (descendants m)" for k
    proof -
      have "n \<in> set (children (dom_root (doc d)))"
        using n(1) by (simp add: horizontal_nodes_def section_children_def)
      then have "distinct (map nid (descendants n))"
        using wf_forest [OF wf] by (auto simp: map_concat distinct_concat_iff comp_def dest!: split_list)
      then have "distinct (map nid (forest (children n)))" by (cases n) simp
      from forest_disjoint [OF this m(1) that] show ?thesis
        using wf_verticals(1) [OF wf n(1)] by (auto simp: n(2) section_children_def)
    qed
    moreover have "nid k \<in> set ?vs" if "k \<in> set (descendants m)" "is_section (el (doc d) (nid k))" for k
    proof -
      have "k \<in> set (descendants n)" using descendants_trans [OF child_in_descendants [OF m(1)]] that(1) by blast
      then show ?thesis
        using that(2) queryAll_horizontal [OF dist n(1)] by (auto simp: n(2) [symmetric] queryAll_node_def)
    qed
    ultimately show ?thesis by (auto simp: q queryAll_node_def filter_empty_conv)
  qed
qed

lemma marked_present_mem:
  assumes "marked d dm slides i" and "p \<in> set slides" and "has_class Present (el dm p)"
  shows "p = slides ! nat i"
proof -
  obtain k where "k < length slides" "p = slides ! k" using assms(2) by (auto simp: in_set_conv_nth)
  with assms(1,3) have "int k = i" by (auto simp: marked_nth)
  with \<open>p = slides ! k\<close> show ?thesis by auto
qed

lemma slide_lands:
  assumes ok: "deck_ok d" and cont: "\<not> prevents (env d) (jv_default h (indexh d)) (jv_default v (indexv d))"
    and a: "jv_default h (indexh d) = Num a"
    and b: "settled_stack d a = [] \<or> jv_default (resume_vertical d h v) (indexv d) = Num b"
  shows "\<exists>d'. slide h v f d = Some d' \<and> at_position (settled_h d a) (settled_v d a b) d' \<and> deck_ok d'"
proof -
  let ?d0 = "start_slide h v d" and ?i = "settled_h d a" and ?j = "settled_v d a b"
  let ?e = "remember_vertical ?d0"
  let ?hs = "getHorizontalSlides d" and ?vs = "settled_stack d a"
  note ok' = ok [unfolded deck_ok_def]
  have sh0: "same_shape (doc d) (doc ?e)" using remember_vertical.shape [of ?d0] by simp
  have tok: "state_tokens (doc ?e) x = state_tokens (doc d) x" for x
    using same_marks_attr [OF remember_vertical.marks [of ?d0], of DataState x]
    by (simp add: state_tokens_def progress_attrs_def)
  have hs0: "getHorizontalSlides ?e = ?hs" by (rule same_shape_getHorizontal [OF sh0])
  have set0: "settled_h ?e x = settled_h d x" "settled_stack ?e x = settled_stack d x"
    "settled_v ?e x y = settled_v d x y" for x y
    by (simp_all add: settled_h_def settled_stack_def settled_v_def hs0)
  have res: "resume_vertical ?d0 h v = resume_vertical d h v" by (simp add: resume_vertical_def)
  obtain d2 where m: "move_indices h (resume_vertical ?d0 h v) ?e = Some d2"
    and i2: "indexh d2 = Num ?i" "indexv d2 = Num ?j"
    and mh: "marked ?e (doc d2) ?hs ?i" and mv: "marked ?e (doc d2) ?vs ?j"
    and st: "deckState d2 = state_tokens (doc d) (?hs ! nat ?i) @
      (if ?vs = [] then [] else state_tokens (doc d) (?vs ! nat ?j))"
    using move_indices_marked [of ?e h a "resume_vertical ?d0 h v" b] ok' a b
    unfolding set0 hs0 res tok by (auto simp: same_shape_wf [OF sh0])
  have i: "0 \<le> ?i" "?i < int (length ?hs)" using settled_h_bounds [of d a] ok' by simp_all
  have j: "0 \<le> ?j" "?vs \<noteq> [] \<longrightarrow> ?j < int (length ?vs)" using settled_v_bounds [of d a b] by simp_all
  have vs: "?vs = queryAll (doc d) (?hs ! nat ?i) is_section" by (simp add: settled_stack_def)
  have sec: "set ?hs \<subseteq> set (all_slides (doc d))" "set ?vs \<subseteq> set (all_slides (doc d))"
    using horizontal_in_all [of d] vertical_in_all [of d "?hs ! nat ?i"] i unfolding vs by auto
  have val2: "list_all valid_token (deckState d2)"
  proof -
    have "?hs ! nat ?i \<in> set (all_slides (doc d))" using sec(1) i by (simp add: subset_iff)
    moreover have "?vs \<noteq> [] \<longrightarrow> ?vs ! nat ?j \<in> set (all_slides (doc d))"
      using sec(2) j nth_mem [of "nat ?j" ?vs] by (auto simp: subset_iff)
    ultimately show ?thesis using ok' unfolding st by (auto simp: states_ok_def list_all_iff)
  qed
  have val0: "list_all valid_token (deckState ?d0)" using ok' by simp
  obtain d' where d': "slide_to h v f ?d0 = Some d'"
    using slide_to_Some [OF m val2 val0] by blast
  then have sl: "slide h v f d = Some d'"
    using cont ok' by (simp add: slide_def start_slide_def Let_def getHorizontalSlides_def)
  let ?c = "slide_changed (jv_or0 (indexh ?d0)) (jv_or0 (indexv ?d0)) d2"
  let ?d3 = "set_current (horizontal_slides (doc ?d0)) ?c d2"
  have arr: "arrived ?d3 d'" using slide_to_phases [OF d'] m by auto
  have pl: "same_place ?e d2" by (rule move_indices_place [OF m])
  have sh2: "same_shape (doc d) (doc d2)" using pl sh0 same_shape_trans by (auto simp: same_place_def)
  have q2: "queryAll (doc d2) x is_section = queryAll (doc d) x is_section" for x
    by (rule same_shape_sections [OF sh2])
  have hs2: "horizontal_slides (doc d) = getHorizontalSlides d2"
    using same_shape_getHorizontal [OF sh2] by (simp add: getHorizontalSlides_def)
  have cur: "currentSlide ?d3 = getSlide d ?i (Num ?j)" "getSlide d ?i (Num ?j) \<noteq> None"
    using slide_at_getSlide [of ?i d2 ?j] i j getSlide_shape [OF sh2]
    by (simp_all add: set_current_def i2 hs2 q2 same_shape_getHorizontal [OF sh2] vs [symmetric])
  have leafp: "queryAll (doc d) p is_section = []" if "previousSlide ?d3 = Some p" for p
  proof -
    have "currentSlide d = Some p" using that pl by (auto simp: set_current_def same_place_def split: if_splits)
    then show ?thesis using ok' by (simp add: leaf_current_def)
  qed
  have pos: "indexh d' = Num ?i" "indexv d' = Num ?j" "currentSlide d' = getSlide d ?i (Num ?j)"
    "same_shape (doc d) (doc d')" "cfg d' = cfg d" "env d' = env d" "deckState d' = deckState d2"
    using arr cur i2 sh2 pl by (auto simp: arrived_def set_current_def same_place_def intro: same_shape_trans)
  have c2: "cfg d2 = cfg ?e" using pl by (simp add: same_place_def)
  have mh2: "marked d2 (doc d2) ?hs ?i" "marked d2 (doc d2) ?vs ?j"
    by (rule marked_keeps [OF mh], simp_all add: c2) (rule marked_keeps [OF mv], simp_all add: c2)
  have cur3: "currentSlide ?d3 = Some (if ?vs = [] then ?hs ! nat ?i else ?vs ! nat ?j)"
    using cur i j by (auto simp: getSlide_def Let_def vs)
  have mh': "marked d' (doc d') ?hs ?i"
  proof (rule arrived_marked [OF arr mh2(1)])
    fix p assume p: "previousSlide ?d3 = Some p" "currentSlide ?d3 \<noteq> Some p" "p \<in> set ?hs"
    from p(1) have "queryAll (doc d) p is_section = []" by (rule leafp)
    with p(2) cur3 have "p \<noteq> ?hs ! nat ?i" by (auto simp: vs)
    with marked_present_mem [OF mh2(1) p(3)] show "\<not> has_class Present (el (doc d2) p)" by blast
  qed
  have mv': "marked d' (doc d') ?vs ?j"
  proof (rule arrived_marked [OF arr mh2(2)])
    fix p assume p: "previousSlide ?d3 = Some p" "currentSlide ?d3 \<noteq> Some p" "p \<in> set ?vs"
    have "?vs \<noteq> []" using p(3) by auto
    with p(2) cur3 have "p \<noteq> ?vs ! nat ?j" by auto
    with marked_present_mem [OF mh2(2) p(3)] show "\<not> has_class Present (el (doc d2) p)" by blast
  qed
  have "at_position ?i ?j d'"
    using pos mh' mv' cur(2)
    by (simp add: at_position_def getSlide_shape same_shape_getHorizontal same_shape_sections [OF pos(4)] vs [symmetric])
  moreover have "deck_ok d'"
  proof -
    have attr: "attrs (el (doc d') x) DataState = attrs (el (doc d) x) DataState" for x
      using arr move_indices_attrs(1) [OF m, of x]
        same_marks_attr [OF remember_vertical.marks [of ?d0], of DataState x]
      by (simp add: arrived_def set_current_def progress_attrs_def)
    have "all_slides (doc d') = all_slides (doc d)"
      unfolding all_slides_def same_shape_root [OF pos(4)]
      by (rule same_shape_queryAll_node [OF pos(4)]) (rule same_shape_is_section [OF pos(4)])
    then have "states_ok (doc d')" using ok' by (simp add: states_ok_def state_tokens_def attr)
    moreover have "leaf_current d'"
      using leaf_getSlide [of d ?i ?j] ok' cur(2)
      by (auto simp: leaf_current_def pos(3) same_shape_sections [OF pos(4)])
    ultimately show ?thesis
      using ok' pos val2 by (simp add: deck_ok_def same_shape_wf [OF pos(4)] same_shape_getHorizontal)
  qed
  ultimately show ?thesis using sl by blast
qed

section \<open>Settled decks\<close>

definition positioned :: "deck \<Rightarrow> bool" where
  "positioned d \<longleftrightarrow> deck_ok d \<and> (\<exists>i j. at_position i j d)"

lemma updateSlides_index:
  "slides_of sel (doc d) \<noteq> [] \<Longrightarrow> updateSlides sel x d \<noteq> None \<Longrightarrow> \<exists>i. x = Num i"
  by (cases x) (auto simp: updateSlides_def Let_def)

text \<open>A move that does not throw was given numbers, except on a slide without vertical slides.\<close>

lemma move_indices_nums:
  assumes wf: "wf_doc (doc d)" and hs: "getHorizontalSlides d \<noteq> []"
    and pdf: "\<not> isPrintingPDF (env d)" and m: "move_indices h v d = Some d'"
  shows "\<exists>a b. jv_default h (indexh d) = Num a \<and>
    (settled_stack d a = [] \<or> jv_default v (indexv d) = Num b)"
proof -
  obtain a where a: "jv_default h (indexh d) = Num a"
    using m hs updateSlides_index [of Horizontal "d\<lparr>deckState := []\<rparr>" "jv_default h (indexh d)"]
    by (auto simp: move_indices_def slides_of_def getHorizontalSlides_def split: Option.bind_splits)
  show ?thesis
  proof (cases "settled_stack d a = []")
    case True
    with a show ?thesis by blast
  next
    case False
    obtain i d1 j d2 where
      1: "updateSlides Horizontal (Num a) (d\<lparr>deckState := []\<rparr>) = Some (i, d1)" and
      2: "updateSlides Vertical (jv_default v (indexv d1)) (d1\<lparr>indexh := Num i\<rparr>) = Some (j, d2)"
      using m a by (auto simp: move_indices_def split: Option.bind_splits)
    have "slides_of Vertical (doc (d1\<lparr>indexh := Num i\<rparr>)) = settled_stack d a"
      by (rule vertical_after_horizontal [OF wf hs pdf 1])
    then obtain b where "jv_default v (indexv d1) = Num b"
      using False 2 updateSlides_index [of Vertical "d1\<lparr>indexh := Num i\<rparr>" "jv_default v (indexv d1)"]
      by auto
    moreover have "indexv d1 = indexv d" using updateSlides_place [OF 1] by simp
    ultimately show ?thesis using a by auto
  qed
qed

text \<open>Quiet operations keep a settled position, and every completed call of \<open>slide\<close> reaches one.\<close>

lemma quiet_at_position:
  assumes q: "quiet d d'" and p: "at_position i j d"
  shows "at_position i j d'"
proof -
  have m: "same_marks (doc d) (doc d')" by (rule quiet_marks [OF q])
  have sh: "same_shape (doc d) (doc d')" by (rule same_marks_shape [OF m])
  have f: "indexh d' = indexh d" "indexv d' = indexv d" "currentSlide d' = currentSlide d" "cfg d' = cfg d"
    using q by (simp_all add: quiet_def)
  have keep: "marked d' (doc d') xs k" if "marked d (doc d) xs k" for xs k
    by (rule marked_keeps [OF that sh f(4)])
      (use same_marks_class [OF m] mark_classes_mem in auto)
  from p keep show ?thesis
    unfolding at_position_def f getSlide_shape [OF sh] same_shape_getHorizontal [OF sh]
      same_shape_sections [OF sh] by blast
qed

lemma quiet_deck_ok:
  assumes q: "quiet d d'" and ok: "deck_ok d"
  shows "deck_ok d'"
proof -
  have m: "same_marks (doc d) (doc d')" by (rule quiet_marks [OF q])
  have sh: "same_shape (doc d) (doc d')" by (rule same_marks_shape [OF m])
  have "all_slides (doc d') = all_slides (doc d)"
    unfolding all_slides_def same_shape_root [OF sh]
    by (rule same_shape_queryAll_node [OF sh]) (rule same_shape_is_section [OF sh])
  then have "states_ok (doc d') = states_ok (doc d)"
    by (simp add: states_ok_def state_tokens_def same_marks_attr [OF m] progress_attrs_def)
  moreover have "leaf_current d' = leaf_current d"
    using q by (simp add: leaf_current_def quiet_def same_shape_sections [OF sh] cong: option.case_cong)
  ultimately show ?thesis
    using q ok by (simp add: deck_ok_def quiet_def same_shape_wf [OF sh] same_shape_getHorizontal [OF sh])
qed

lemma quiet_positioned: "quiet d d' \<Longrightarrow> positioned d \<Longrightarrow> positioned d'"
  unfolding positioned_def by (blast intro: quiet_at_position quiet_deck_ok)

lemma slide_nums:
  assumes ok: "deck_ok d" and s: "slide h v f d = Some d'"
    and cont: "\<not> prevents (env d) (jv_default h (indexh d)) (jv_default v (indexv d))"
  shows "\<exists>a b. jv_default h (indexh d) = Num a \<and>
    (settled_stack d a = [] \<or> jv_default (resume_vertical d h v) (indexv d) = Num b)"
proof -
  let ?e = "remember_vertical (start_slide h v d)"
  have hs: "getHorizontalSlides d \<noteq> []" using ok by (simp add: deck_ok_def)
  have sh: "same_shape (doc d) (doc ?e)" using remember_vertical.shape [of "start_slide h v d"] by simp
  have "slide_to h v f (start_slide h v d) = Some d'"
    using s cont hs by (simp add: slide_def start_slide_def Let_def getHorizontalSlides_def)
  then obtain d2 where "move_indices h (resume_vertical (start_slide h v d) h v) ?e = Some d2"
    using slide_to_phases by blast
  moreover have "resume_vertical (start_slide h v d) h v = resume_vertical d h v"
    by (simp add: resume_vertical_def)
  moreover have "settled_stack ?e a = settled_stack d a" for a
    by (simp add: settled_stack_def settled_h_def same_shape_getHorizontal [OF sh])
  ultimately show ?thesis
    using move_indices_nums [of ?e h "resume_vertical d h v" d2] ok hs
    by (auto simp: deck_ok_def same_shape_wf [OF sh] same_shape_getHorizontal [OF sh])
qed

lemma slide_settles:
  assumes ok: "deck_ok d" and s: "slide h v f d = Some d'"
    and cont: "\<not> prevents (env d) (jv_default h (indexh d)) (jv_default v (indexv d))"
  shows "positioned d'"
proof -
  obtain a b where "jv_default h (indexh d) = Num a"
    "settled_stack d a = [] \<or> jv_default (resume_vertical d h v) (indexv d) = Num b"
    using slide_nums [OF assms] by blast
  from slide_lands [OF ok cont this, of f] s show ?thesis unfolding positioned_def by auto
qed

lemma slide_positioned:
  assumes p: "positioned d" and s: "slide h v f d = Some d'"
  shows "positioned d'"
proof (cases "prevents (env d) (jv_default h (indexh d)) (jv_default v (indexv d))")
  case True
  then have "d' = dispatchEvent (BeforeSlideChange (jv_default h (indexh d)) (jv_default v (indexv d))) d"
    using s by (simp add: slide_def Let_def)
  with p dispatchEvent.quiet quiet_positioned show ?thesis by blast
next
  case False
  with p s slide_settles show ?thesis by (auto simp: positioned_def)
qed

end
