(* ===== verification/FragmentLaws.thy ===== *)
theory FragmentLaws
  imports Fragments "HOL-Library.Multiset"
begin

text \<open>
  What the fragments controller promises: \<open>sort\<close> numbers the groups of fragments from zero without
  gaps and is stable under repetition, and \<open>next\<close> and \<open>prev\<close> move through the groups one at a time.
\<close>

section \<open>Numbered fragments\<close>

text \<open>A fragment has the index \<open>k\<close>, written the way \<open>sort\<close> writes it.\<close>

definition has_number :: "dom \<Rightarrow> nat \<Rightarrow> nat \<Rightarrow> bool" where
  "has_number dm f k \<longleftrightarrow> attrs (el dm f) DataFragmentIndex = Some (show_nat k)"

text \<open>The fragments carry the numbers below \<open>n\<close>, each at least once.\<close>

definition numbered :: "nat list \<Rightarrow> nat \<Rightarrow> dom \<Rightarrow> bool" where
  "numbered fs n dm \<longleftrightarrow>
     list_all (\<lambda>f. list_ex (has_number dm f) [0..<n]) fs \<and>
     list_all (\<lambda>k. list_ex (\<lambda>f. has_number dm f k) fs) [0..<n]"

text \<open>Every index that is present can be parsed and is a key of an array.\<close>

definition sortable :: "nat list \<Rightarrow> dom \<Rightarrow> bool" where
  "sortable fs dm \<longleftrightarrow>
     distinct fs \<and>
     list_all (\<lambda>f. \<not> has_attr DataFragmentIndex (el dm f) \<or>
       (case frag_index dm f of None \<Rightarrow> False | Some k \<Rightarrow> is_array_index k)) fs"

lemma show_nat_inject [simp]: "show_nat a = show_nat b \<longleftrightarrow> a = b"
  by (metis digits_val_show_nat of_nat_eq_iff)

lemma has_number_unique: "has_number dm f a \<Longrightarrow> has_number dm f b \<Longrightarrow> a = b"
  by (simp add: has_number_def)

lemma has_number_index: "has_number dm f k \<Longrightarrow> frag_index dm f = Some (int k)"
  by (simp add: has_number_def frag_index_def)

lemma numbered_iff:
  "numbered fs n dm \<longleftrightarrow>
     (\<forall>f \<in> set fs. \<exists>k < n. has_number dm f k) \<and> (\<forall>k < n. \<exists>f \<in> set fs. has_number dm f k)"
  unfolding numbered_def list_all_iff list_ex_iff by (simp add: Ball_def Bex_def)

lemma numbered_cong: "set fs = set gs \<Longrightarrow> numbered fs n dm = numbered gs n dm"
  by (simp add: numbered_iff)

section \<open>Writing the groups\<close>

lemma write_group_el:
  "el (write_group (k, g) dm) f =
     (if f \<in> set g then set_attr DataFragmentIndex (show_nat k) (el dm f) else el dm f)"
  by (simp add: write_group_def el_update_all show_int_nonneg set_attr_def)

lemma concat_mem_nth: "f \<in> set (concat gs) \<longleftrightarrow> (\<exists>k < length gs. f \<in> set (gs ! k))"
  using in_set_conv_nth [of _ gs] by (simp add: Bex_def) metis

lemma write_groups_notin:
  "f \<notin> set (concat gs) \<Longrightarrow> el (fold write_group (enumerate m gs) dm) f = el dm f"
  by (induction gs arbitrary: m dm) (simp_all add: write_group_el)

lemma write_groups_in:
  assumes "distinct (concat gs)" and "k < length gs" and "f \<in> set (gs ! k)"
  shows "el (fold write_group (enumerate m gs) dm) f =
    set_attr DataFragmentIndex (show_nat (m + k)) (el dm f)"
  using assms
proof (induction gs arbitrary: m k dm)
  case Nil
  then show ?case by simp
next
  case (Cons g gs)
  show ?case
  proof (cases k)
    case 0
    with Cons.prems have "f \<in> set g" "f \<notin> set (concat gs)" by auto
    with 0 show ?thesis by (simp add: write_groups_notin write_group_el)
  next
    case (Suc j)
    with Cons.prems have j: "distinct (concat gs)" "j < length gs" "f \<in> set (gs ! j)" by auto
    then have "f \<in> set (concat gs)" unfolding concat_mem_nth by blast
    with Cons.prems have "f \<notin> set g" by auto
    with Suc show ?thesis by (simp add: Cons.IH [OF j] write_group_el)
  qed
qed

lemma write_groups_number:
  assumes "distinct (concat gs)" and "k < length gs" and "f \<in> set (gs ! k)"
  shows "has_number (write_groups gs dm) f k"
  using write_groups_in [OF assms, of 0] by (simp add: has_number_def write_groups_def)

lemma write_groups_numbered:
  assumes "distinct (concat gs)" and "[] \<notin> set gs"
  shows "numbered (concat gs) (length gs) (write_groups gs dm)"
proof -
  have "\<exists>f \<in> set (concat gs). has_number (write_groups gs dm) f k" if k: "k < length gs" for k
  proof -
    have "gs ! k \<noteq> []" using assms(2) k nth_mem [of k gs] by metis
    then obtain f where f: "f \<in> set (gs ! k)" by (cases "gs ! k") auto
    with k have "f \<in> set (concat gs)" unfolding concat_mem_nth by blast
    with write_groups_number [OF assms(1) k f] show ?thesis by blast
  qed
  then show ?thesis
    unfolding numbered_iff using write_groups_number [OF assms(1)] by (meson concat_mem_nth)
qed

section \<open>The groups\<close>

lemma mset_concat_filter:
  "distinct ks \<Longrightarrow>
    mset (concat (map (\<lambda>k. filter (\<lambda>x. g x = Some k) xs) ks)) =
    mset (filter (\<lambda>x. \<exists>k \<in> set ks. g x = Some k) xs)"
proof (induction ks)
  case Nil
  show ?case by simp
next
  case (Cons k ks)
  have "mset (filter (\<lambda>x. \<exists>k' \<in> set (k # ks). g x = Some k') ys) =
      mset (filter (\<lambda>x. g x = Some k) ys) + mset (filter (\<lambda>x. \<exists>k' \<in> set ks. g x = Some k') ys)" for ys
    using Cons.prems by (induction ys) auto
  with Cons show ?case by simp
qed

lemma set_explicit_indices:
  "set (explicit_indices dm fs) = {k. is_array_index k \<and> (\<exists>f \<in> set fs. frag_index dm f = Some k)}"
  by (force simp: explicit_indices_def List.map_filter_def)

lemma has_index_attr: "frag_index dm f = Some k \<Longrightarrow> has_attr DataFragmentIndex (el dm f)"
  by (auto simp: frag_index_def has_attr_def split: Option.bind_splits)

lemma sort_permutes:
  assumes "sortable fs dm"
  shows "mset (concat (fragment_groups dm fs)) = mset fs"
proof -
  let ?I = "\<lambda>f. \<exists>k \<in> set (sort (remdups (explicit_indices dm fs))). frag_index dm f = Some k"
  have "?I f \<longleftrightarrow> has_attr DataFragmentIndex (el dm f)" if "f \<in> set fs" for f
    using assms that has_index_attr
    by (cases "frag_index dm f") (auto simp: set_explicit_indices sortable_def list_all_iff)
  then have "filter ?I fs = filter (\<lambda>f. has_attr DataFragmentIndex (el dm f)) fs"
    by (rule filter_cong [OF refl])
  then have "mset (concat (ordered_groups dm fs)) =
      mset (filter (\<lambda>f. has_attr DataFragmentIndex (el dm f)) fs)"
    unfolding ordered_groups_def by (subst mset_concat_filter) simp_all
  moreover have "concat (unordered_groups dm fs) =
      filter (\<lambda>f. \<not> has_attr DataFragmentIndex (el dm f)) fs"
    by (simp add: unordered_groups_def concat_map_singleton)
  ultimately show ?thesis
    using multiset_partition [of "mset fs" "\<lambda>f. has_attr DataFragmentIndex (el dm f)"]
    by (simp add: fragment_groups_def)
qed

lemma sort_distinct: "sortable fs dm \<Longrightarrow> distinct (concat (fragment_groups dm fs))"
  using sort_permutes [of fs dm] by (metis mset_eq_imp_distinct_iff sortable_def)

lemma sort_set: "sortable fs dm \<Longrightarrow> set (concat (fragment_groups dm fs)) = set fs"
  using sort_permutes [of fs dm] by (metis mset_eq_setD)

lemma groups_nonempty: "[] \<notin> set (fragment_groups dm fs)"
  by (auto simp: fragment_groups_def ordered_groups_def unordered_groups_def set_explicit_indices
      filter_empty_conv dest!: sym [of "[]"])

lemma sort_doc_eq: "sort_doc fs dm = write_groups (fragment_groups dm fs) dm"
  by (simp add: sort_doc_def fragments_sort_def Let_def)

lemma sort_fst: "fst (fragments_sort fs dm) = concat (fragment_groups dm fs)"
  by (simp add: fragments_sort_def Let_def)

lemma sort_numbers:
  assumes "sortable fs dm"
  shows "numbered fs (length (fragment_groups dm fs)) (sort_doc fs dm)"
  using write_groups_numbered [OF sort_distinct [OF assms] groups_nonempty]
  by (simp only: sort_doc_eq numbered_cong [OF sort_set [OF assms]])

section \<open>Sorting numbered fragments\<close>

lemma numbered_index:
  assumes "numbered fs n dm" and "f \<in> set fs"
  shows "frag_index dm f = Some k \<longleftrightarrow> (\<exists>j < n. has_number dm f j \<and> k = int j)"
  using assms has_number_index [of dm f] has_number_unique [of dm f] unfolding numbered_iff by fastforce

lemma numbered_explicit:
  assumes "numbered fs n dm" and "n < 2 ^ 32"
  shows "sort (remdups (explicit_indices dm fs)) = map int [0..<n]"
proof (rule sorted_distinct_set_unique)
  have "is_array_index (int j)" if "j < n" for j
    using that assms(2) by (simp add: is_array_index_def)
  then have "set (explicit_indices dm fs) = {k. \<exists>f \<in> set fs. \<exists>j < n. has_number dm f j \<and> k = int j}"
    using numbered_index [OF assms(1)] by (auto simp: set_explicit_indices)
  also have "\<dots> = int ` {0..<n}"
    using assms(1) unfolding numbered_iff by (auto simp: image_iff)
  finally show "set (sort (remdups (explicit_indices dm fs))) = set (map int [0..<n])" by simp
qed (simp_all add: distinct_map sorted_wrt_map)

lemma numbered_groups:
  assumes "numbered fs n dm" and "n < 2 ^ 32"
  shows "fragment_groups dm fs = map (\<lambda>k. filter (\<lambda>f. has_number dm f k) fs) [0..<n]"
proof -
  have "\<exists>k. has_number dm f k" if "f \<in> set fs" for f
    using assms(1) that unfolding numbered_iff by blast
  then have "unordered_groups dm fs = []"
    by (auto simp: unordered_groups_def filter_empty_conv has_attr_def has_number_def)
  moreover have "(frag_index dm f = Some (int k)) = has_number dm f k" if "f \<in> set fs" "k < n" for f k
    using numbered_index [OF assms(1) that(1)] that(2) by auto
  ultimately show ?thesis
    by (auto simp: fragment_groups_def ordered_groups_def numbered_explicit [OF assms] comp_def
        intro!: filter_cong)
qed

lemma numbered_sortable:
  assumes "numbered fs n dm" and "n < 2 ^ 32" and "distinct fs"
  shows "sortable fs dm"
proof -
  have "\<exists>k. frag_index dm f = Some k \<and> is_array_index k" if "f \<in> set fs" for f
    using assms(1,2) that has_number_index unfolding numbered_iff is_array_index_def by fastforce
  then show ?thesis
    using assms(3) unfolding sortable_def list_all_iff by fastforce
qed

text \<open>Sorting fragments that are numbered already changes nothing.\<close>

lemma sort_numbered:
  assumes n: "numbered fs n dm" "n < 2 ^ 32" and d: "distinct fs"
  shows "sort_doc fs dm = dm"
proof -
  let ?gs = "fragment_groups dm fs"
  have s: "sortable fs dm" by (rule numbered_sortable [OF n d])
  have "el (write_groups ?gs dm) f = el dm f" for f
  proof (cases "f \<in> set (concat ?gs)")
    case False
    then show ?thesis by (simp add: write_groups_def write_groups_notin)
  next
    case True
    then obtain k where k: "k < length ?gs" "f \<in> set (?gs ! k)" unfolding concat_mem_nth by blast
    then have "has_number dm f k" by (simp add: numbered_groups [OF n])
    then have "set_attr DataFragmentIndex (show_nat k) (el dm f) = el dm f"
      by (simp add: set_attr_def has_number_def fun_upd_idem)
    with write_groups_in [OF sort_distinct [OF s] k, of 0 dm] show ?thesis
      by (simp add: write_groups_def)
  qed
  moreover have "dom_root (write_groups ?gs dm) = dom_root dm"
    unfolding write_groups_def by (rule root_fold) (simp add: write_group_def)
  ultimately have "write_groups ?gs dm = dm" by (intro dom.equality ext) simp_all
  then show ?thesis by (simp add: sort_doc_eq)
qed

end
