(* ===== verification/MediaFlow.thy ===== *)
theory MediaFlow
  imports Positions FragmentLaws
begin

text \<open>
  The calls of the media controller in the log of the deck: which operations make none (a contract of
  its own), what the fragments make of them, and the hand-over that \<open>slide\<close> makes, which stops the
  slide it leaves before it starts the slide it shows.
\<close>

section \<open>The calls\<close>

definition is_media_call :: "eff \<Rightarrow> bool" where
  "is_media_call x = (case x of StartEmbedded s \<Rightarrow> True | StopEmbedded s \<Rightarrow> True | _ \<Rightarrow> False)"

definition media_calls :: "deck \<Rightarrow> eff list" where
  "media_calls d = filter is_media_call (log d)"

lemma media_calls_log: "log d' = log d \<Longrightarrow> media_calls d' = media_calls d"
  by (simp add: media_calls_def)

lemma media_calls_emit [simp]:
  "media_calls (emit x d) = media_calls d @ (if is_media_call x then [x] else [])"
  by (simp add: media_calls_def emit_def)

lemma log_emit: "log (emit x d) = log d @ [x]"
  by (simp add: emit_def)

locale silent_operation =
  fixes oper :: "deck \<Rightarrow> deck"
  assumes silent: "media_calls (oper d) = media_calls d"
begin

lemma compose_silent: "media_calls d = m \<Longrightarrow> media_calls (oper d) = m"
  by (simp add: silent)

end

lemma media_calls_fold:
  assumes "\<And>x d. media_calls (f x d) = media_calls d"
  shows "media_calls (fold f xs d) = media_calls d"
  by (induction xs arbitrary: d) (simp_all add: assms)

lemma media_calls_update_doc [simp]: "media_calls (update_doc f d) = media_calls d"
  by (simp add: media_calls_def update_doc_def)

lemma media_calls_update_elem [simp]: "media_calls (update_elem i f d) = media_calls d"
  by (simp add: update_elem_def)

lemma media_calls_update_ui [simp]: "media_calls (update_ui f d) = media_calls d"
  by (simp add: media_calls_def update_ui_def)

lemma media_calls_clear_timeout [simp]: "media_calls (clear_timeout i d) = media_calls d"
  by (simp add: media_calls_def clear_timeout_def)

lemma media_calls_set_timeout [simp]: "media_calls (snd (set_timeout a dl d)) = media_calls d"
  by (simp add: media_calls_def set_timeout_def)

lemma media_calls_fields [simp]:
  "media_calls (d\<lparr>deckState := a1\<rparr>) = media_calls d"
  "media_calls (d\<lparr>indexh := a2\<rparr>) = media_calls d"
  "media_calls (d\<lparr>indexv := a2\<rparr>) = media_calls d"
  "media_calls (d\<lparr>previousSlide := a3\<rparr>) = media_calls d"
  "media_calls (d\<lparr>currentSlide := a3\<rparr>) = media_calls d"
  "media_calls (d\<lparr>viewportClasses := a4\<rparr>) = media_calls d"
  "media_calls (d\<lparr>slidesClasses := a5\<rparr>) = media_calls d"
  "media_calls (d\<lparr>transition := a6\<rparr>) = media_calls d"
  "media_calls (d\<lparr>wrapperClasses := a7\<rparr>) = media_calls d"
  "media_calls (d\<lparr>autoSlide := a8\<rparr>) = media_calls d"
  "media_calls (d\<lparr>autoSlidePlayer := a9\<rparr>) = media_calls d"
  "media_calls (d\<lparr>autoSlideTimeout := a10\<rparr>) = media_calls d"
  "media_calls (d\<lparr>autoSlideStartTime := a10\<rparr>) = media_calls d"
  "media_calls (d\<lparr>slidesSize := a11\<rparr>) = media_calls d"
  "media_calls (d\<lparr>scale := a12\<rparr>) = media_calls d"
  "media_calls (d\<lparr>layoutTransform := a13\<rparr>) = media_calls d"
  "media_calls (d\<lparr>overviewTransform := a14\<rparr>) = media_calls d"
  "media_calls (d\<lparr>urlHash := a15\<rparr>) = media_calls d"
  "media_calls (d\<lparr>historyStack := a16\<rparr>) = media_calls d"
  "media_calls (d\<lparr>pendingHashChanges := a17\<rparr>) = media_calls d"
  "media_calls (d\<lparr>replaceStateTimestamp := a10\<rparr>) = media_calls d"
  "media_calls (d\<lparr>replaceStateTimeout := a10\<rparr>) = media_calls d"
  by (simp_all add: media_calls_def)

interpretation dispatchEvent: silent_operation "dispatchEvent ev" for ev
  by unfold_locales
    (simp add: dispatchEvent_def dispatchPostMessage_def Let_def is_media_call_def)

section \<open>Operations without media\<close>

lemma displays_log: "only_ui f \<Longrightarrow> media_calls (f d) = media_calls d"
  unfolding only_ui_def by (elim allE [of _ d] exE) (simp add: media_calls_def)

lemmas displays_silent [simp] = only_ui_displays [THEN displays_log]

interpretation overview_update: silent_operation overview_update
  by unfold_locales (simp add: overview_update_def Let_def)

interpretation layout: silent_operation layout
  by unfold_locales
    (simp add: layout_def layout_scale_def Let_def is_media_call_def overview_update.silent
      dispatchEvent.silent)

interpretation writeURL: silent_operation writeURL
  by unfold_locales
    (simp add: writeURL_def Let_def assign_hash_def debounced_eq replaceState_def)

interpretation cueAutoSlide: silent_operation cueAutoSlide
  by unfold_locales
    (simp add: cueAutoSlide_eq Let_def cancelAutoSlide_def start_auto_def set_player_def
      split: option.splits auto_slide.splits)

interpretation visibility_vertical: silent_operation "visibility_vertical x oy p" for x oy p
  by unfold_locales (simp add: visibility_vertical_def loadSlide_def unloadSlide_def is_media_call_def)

interpretation visibility_horizontal: silent_operation "visibility_horizontal p" for p
  by unfold_locales
    (simp add: visibility_horizontal_def Let_def loadSlide_def unloadSlide_def is_media_call_def
      media_calls_fold visibility_vertical.silent)

interpretation updateSlidesVisibility: silent_operation updateSlidesVisibility
  by unfold_locales
    (simp add: updateSlidesVisibility_def Let_def toggle_wrapper_def media_calls_fold
      visibility_horizontal.silent)

interpretation remember_vertical: silent_operation remember_vertical
  by unfold_locales (simp add: remember_vertical_def split: option.splits)

interpretation leave_previous: silent_operation leave_previous
  by unfold_locales (simp add: leave_previous_def Let_def split: option.splits)

interpretation run_auto_animate: silent_operation "run_auto_animate b" for b
  by unfold_locales
    (simp add: run_auto_animate_def Let_def is_media_call_def split: option.splits)

interpretation start_transition: silent_operation "\<lambda>d. snd (start_transition h v c d)" for h v c
  by unfold_locales (simp add: start_transition_def Let_def)

interpretation set_current: silent_operation "set_current hs c" for hs c
  by unfold_locales (simp add: set_current_def)

interpretation start_slide: silent_operation "start_slide h v" for h v
  by unfold_locales (simp add: start_slide_def dispatchEvent.silent)

lemma updateSlides_silent:
  assumes "updateSlides sel x d = Some (i, d')"
  shows "media_calls d' = media_calls d"
  using assms
  by (cases x)
    (auto simp: updateSlides_def Let_def dispatchEvent.silent split: if_splits prod.splits)

lemma move_indices_silent: "move_indices h v d = Some d' \<Longrightarrow> media_calls d' = media_calls d"
  by (auto simp: move_indices_def split: Option.bind_splits dest!: updateSlides_silent)

lemma apply_states_silent:
  "apply_states ss before d = Some (rest, d') \<Longrightarrow> media_calls d' = media_calls d"
proof (induction ss arbitrary: before d)
  case Nil
  then show ?case by simp
next
  case (Cons s ss)
  show ?case
    using Cons.prems Cons.IH [of "remove1 s before" d]
      Cons.IH [of before "dispatchEvent (StateEvent s) (d\<lparr>viewportClasses := insert s (viewportClasses d)\<rparr>)"]
    by (simp add: dispatchEvent.silent split: if_splits)
qed

lemma update_states_silent: "update_states before d = Some d' \<Longrightarrow> media_calls d' = media_calls d"
  by (auto simp: update_states_def remove_states_def split: Option.bind_splits if_splits
      dest!: apply_states_silent)

section \<open>Fragments\<close>

text \<open>The calls about the elements of a set.\<close>

fun about :: "nat set \<Rightarrow> eff \<Rightarrow> bool" where
  "about A (StartEmbedded f) = (f \<in> A)"
| "about A (StopEmbedded (Some f)) = (f \<in> A)"
| "about A _ = False"

definition grows :: "nat set \<Rightarrow> deck \<Rightarrow> deck \<Rightarrow> bool" where
  "grows A d d' \<longleftrightarrow> (\<exists>new. media_calls d' = media_calls d @ new \<and> list_all (about A) new)"

lemma grows_silent: "media_calls d' = media_calls d \<Longrightarrow> grows A d d'"
  by (simp add: grows_def)

lemma grows_trans: "grows A a b \<Longrightarrow> grows A b c \<Longrightarrow> grows A a c"
  unfolding grows_def by (elim exE conjE) (simp add: exI [of _ "x @ y" for x y])

lemma grows_then: "grows A a b \<Longrightarrow> media_calls c = media_calls b \<Longrightarrow> grows A a c"
  by (simp add: grows_def)

lemma grows_call: "media_calls d' = media_calls d @ [x] \<Longrightarrow> about A x \<Longrightarrow> grows A d d'"
  by (simp add: grows_def)

lemma show_fragment_grows: "f \<in> A \<Longrightarrow> grows A (fl_deck l) (fl_deck (show_fragment b f l))"
  by (simp add: show_fragment_def Let_def grows_def is_media_call_def dispatchEvent.silent)

lemma hide_fragment_grows: "f \<in> A \<Longrightarrow> grows A (fl_deck l) (fl_deck (hide_fragment f l))"
  by (simp add: hide_fragment_def Let_def grows_def is_media_call_def dispatchEvent.silent)

lemma fragment_step_grows:
  "snd p \<in> A \<Longrightarrow> grows A (fl_deck l) (fl_deck (fragment_step index p l))"
  using show_fragment_grows [where l = "l\<lparr>fl_max := m\<rparr>" for m]
    hide_fragment_grows [where l = "l\<lparr>fl_max := m\<rparr>" for m]
  by (simp add: fragment_step_def Let_def)

lemma fragment_loop_grows:
  assumes "set fs \<subseteq> A"
  shows "grows A d (fl_deck (fragment_loop index fs d))"
proof -
  have "grows A (fl_deck l) (fl_deck (fold (fragment_step index) ps l))" if "snd ` set ps \<subseteq> A" for ps l
    using that
  proof (induction ps arbitrary: l)
    case Nil
    show ?case by (simp add: grows_silent)
  next
    case (Cons p ps)
    from Cons.prems have "grows A (fl_deck l) (fl_deck (fragment_step index p l))"
      by (intro fragment_step_grows) simp
    with Cons.IH [of "fragment_step index p l"] Cons.prems show ?case by (auto intro: grows_trans)
  qed
  from this [of "enumerate 0 fs" "\<lparr>fl_shown = [], fl_hidden = [], fl_max = Num 0, fl_deck = d\<rparr>"]
  show ?thesis using assms by (simp add: fragment_loop_def) (metis set_map map_snd_enumerate)
qed

lemma sort_subset: "set (fst (fragments_sort fs dm)) \<subseteq> set fs"
  by (auto simp: sort_fst fragment_groups_def ordered_groups_def unordered_groups_def)

definition fragments_below :: "dom \<Rightarrow> nat option \<Rightarrow> nat set" where
  "fragments_below dm s = (case s of None \<Rightarrow> {} | Some c \<Rightarrow> set (queryAll dm c is_fragment))"

lemma fragments_update_grows:
  assumes "\<And>fs'. fs = Some fs' \<Longrightarrow> set fs' \<subseteq> fragments_below (doc d) (currentSlide d)"
  shows "grows (fragments_below (doc d) (currentSlide d)) d (snd (fragments_update index fs d))"
proof (cases "currentSlide d = None \<or> \<not> cfg_fragments (cfg d)")
  case True
  then show ?thesis by (auto simp: fragments_update_def grows_silent split: option.split)
next
  case False
  then obtain s where s: "currentSlide d = Some s" and on: "cfg_fragments (cfg d)" by auto
  let ?A = "fragments_below (doc d) (currentSlide d)" and ?all = "queryAll (doc d) s is_fragment"
  let ?fs = "case fs of Some fs \<Rightarrow> fs | None \<Rightarrow> fst (fragments_sort ?all (doc d))"
  have sub: "set ?fs \<subseteq> ?A"
    using assms sort_subset [of ?all "doc d"] by (simp add: fragments_below_def s split: option.split)
  have loop: "grows ?A d (fl_deck (fragment_loop i ?fs e))" if "media_calls e = media_calls d" for e i
    using grows_trans [OF grows_silent [OF that] fragment_loop_grows [OF sub]] .
  have "grows ?A d (update_elem i g (fl_deck (fragment_loop k ?fs e)))" if "media_calls e = media_calls d" for e i g k
    by (rule grows_then [OF loop [OF that]]) simp
  then show ?thesis
    by (cases fs) (simp_all add: fragments_update_def s on Let_def grows_silent)
qed

lemma fragments_notify_silent: "media_calls (fragments_notify ch d) = media_calls d"
  by (simp add: fragments_notify_def Let_def writeURL.silent dispatchEvent.silent)

lemma fragments_goto_grows:
  "grows (fragments_below (doc d) (currentSlide d)) d (snd (fragments_goto index offset d))"
proof (cases "currentSlide d = None \<or> \<not> cfg_fragments (cfg d)")
  case True
  then show ?thesis by (auto simp: fragments_goto_def grows_silent split: option.split)
next
  case False
  then obtain s where s: "currentSlide d = Some s" and on: "cfg_fragments (cfg d)" by auto
  let ?A = "fragments_below (doc d) (currentSlide d)"
  let ?en = "queryAll (doc d) s is_enabled_fragment"
  let ?fs = "fst (fragments_sort ?en (doc d))"
  have sub: "set ?fs \<subseteq> ?A"
    using sort_subset [of ?en "doc d"]
    by (auto simp: fragments_below_def s is_enabled_fragment_def is_fragment_def queryAll_def queryAll_node_def
        split: option.splits)
  have step: "grows ?A d (snd (fragments_update i (Some ?fs) e))"
    if "media_calls e = media_calls d" "quiet d e" for e i
  proof -
    have eq: "fragments_below (doc e) (currentSlide e) = ?A"
      using that(2) same_shape_fragments [OF same_marks_shape [OF quiet_marks [OF that(2)]]]
      by (simp add: fragments_below_def quiet_def is_fragment_def cong: option.case_cong)
    have "grows ?A e (snd (fragments_update i (Some ?fs) e))"
      using fragments_update_grows [of "Some ?fs" e i] sub by (simp add: eq)
    with grows_silent [OF that(1)] show ?thesis by (rule grows_trans)
  qed
  have "grows ?A d (fragments_notify ch (snd (fragments_update i (Some ?fs) e)))"
    if "media_calls e = media_calls d" "quiet d e" for e i ch
    by (rule grows_then [OF step [OF that]]) (rule fragments_notify_silent)
  then show ?thesis
    by (simp add: fragments_goto_def s on Let_def grows_silent sort_doc.compose)
qed


lemma fragments_below_shape:
  "same_shape dm dm' \<Longrightarrow> fragments_below dm' s = fragments_below dm s"
  using same_shape_fragments [of dm dm'] by (simp add: fragments_below_def is_fragment_def split: option.split)

lemma show_target_grows:
  "grows (fragments_below (doc d) (currentSlide d)) d (show_target f d)"
proof -
  let ?d1 = "layout (updateSlidesVisibility d)"
  let ?d2 = "if overviewActive ?d1 then overview_update ?d1 else ?d1"
  have q: "quiet d ?d2"
    by (simp add: overview_update.compose layout.compose updateSlidesVisibility.quiet)
  have m: "media_calls ?d2 = media_calls d"
    by (simp add: overview_update.silent layout.silent updateSlidesVisibility.silent)
  have "fragments_below (doc ?d2) (currentSlide ?d2) = fragments_below (doc d) (currentSlide d)"
    using q fragments_below_shape [OF same_marks_shape [OF quiet_marks [OF q]]] by (simp add: quiet_def)
  then have "grows (fragments_below (doc d) (currentSlide d)) ?d2 (snd (fragments_goto f 0 ?d2))"
    using fragments_goto_grows [of ?d2 f 0] by simp
  with grows_silent [OF m] have "grows (fragments_below (doc d) (currentSlide d)) d (snd (fragments_goto f 0 ?d2))"
    by (rule grows_trans)
  with grows_silent [OF m] show ?thesis by (simp add: show_target_def Let_def)
qed

lemma update_controllers_grows:
  "grows (fragments_below (doc d) (currentSlide d)) d (update_controllers d)"
proof -
  let ?d1 = "notes_update (controls_update (progress_update d))"
  let ?d2 = "slideNumber_update (emit UpdateParallax (emit UpdateBackgrounds ?d1))"
  have q: "quiet d ?d2"
    by (simp add: slideNumber_update.compose emit.compose notes_update.compose controls_update.compose
        progress_update.quiet)
  have m: "media_calls ?d2 = media_calls d" by (simp add: is_media_call_def)
  have "fragments_below (doc ?d2) (currentSlide ?d2) = fragments_below (doc d) (currentSlide d)"
    using q fragments_below_shape [OF same_marks_shape [OF quiet_marks [OF q]]] by (simp add: quiet_def)
  then have "grows (fragments_below (doc d) (currentSlide d)) ?d2 (snd (fragments_update Undef None ?d2))"
    using fragments_update_grows [of None ?d2 Undef] by simp
  with grows_silent [OF m] have "grows (fragments_below (doc d) (currentSlide d)) d (snd (fragments_update Undef None ?d2))"
    by (rule grows_trans)
  then show ?thesis
    by (rule grows_then) (simp add: update_controllers_def Let_def cueAutoSlide.silent writeURL.silent)
qed

section \<open>The hand-over\<close>

definition handover :: "nat option \<Rightarrow> nat option \<Rightarrow> eff list" where
  "handover p c = StopEmbedded p # (case c of None \<Rightarrow> [] | Some s \<Rightarrow> [StartEmbedded s])"

lemma notify_calls:
  "changed \<or> previousSlide d = None \<Longrightarrow>
   media_calls (notify_changed changed d) = media_calls d @ handover (previousSlide d) (currentSlide d)"
  by (cases "currentSlide d")
    (auto simp: notify_changed_def Let_def handover_def is_media_call_def dispatchEvent.silent)

lemma arrived_fields:
  "arrived a b \<Longrightarrow> indexh b = indexh a \<and> indexv b = indexv a \<and> currentSlide b = currentSlide a \<and>
     previousSlide b = previousSlide a"
  by (simp add: arrived_def)

lemma slide_changed_fields:
  "indexh b = indexh a \<Longrightarrow> indexv b = indexv a \<Longrightarrow> slide_changed h v b = slide_changed h v a"
  by (simp add: slide_changed_def)

lemma slide_to_calls:
  assumes "slide_to h v f d = Some d'"
  shows "\<exists>before after. list_all (about (fragments_below (doc d') (currentSlide d'))) (before @ after) \<and>
    media_calls d' = media_calls d @ before
      @ handover (if slide_changed (jv_or0 (indexh d)) (jv_or0 (indexv d)) d' then previousSlide d else None)
          (currentSlide d') @ after"
proof -
  let ?h = "jv_or0 (indexh d)" and ?v = "jv_or0 (indexv d)"
  obtain d2 d6 aa where m: "move_indices h (resume_vertical d h v) (remember_vertical d) = Some d2"
    and u: "update_states (deckState d)
      (leave_previous (show_target f (snd (start_transition ?h ?v (slide_changed ?h ?v d2)
        (set_current (horizontal_slides (doc d)) (slide_changed ?h ?v d2) d2))))) = Some d6"
    and e: "d' = run_auto_animate aa (update_controllers (notify_changed (slide_changed ?h ?v d2) d6))"
    using assms by (auto simp: slide_to_def Let_def case_prod_beta split: Option.bind_splits)
  let ?c = "slide_changed ?h ?v d2"
  let ?d3 = "set_current (horizontal_slides (doc d)) ?c d2"
  let ?d4 = "snd (start_transition ?h ?v ?c ?d3)"
  let ?d5 = "leave_previous (show_target f ?d4)"
  let ?d7 = "notify_changed ?c d6"
  let ?A = "fragments_below (doc d') (currentSlide d')"
  have a4: "arrived ?d4 ?d5"
    by (rule arrived_trans [OF quiet_arrived [OF show_target.quiet] leave_previous_arrived])
  have a6: "arrived ?d4 d6" "arrived ?d3 d6"
    using a4 update_states_keeps [OF u] start_transition_arrived by (blast intro: arrived_trans)+
  have a7: "arrived d6 ?d7" "arrived ?d7 d'"
    unfolding e by (rule quiet_arrived, rule notify_changed.quiet)
      (rule quiet_arrived, intro run_auto_animate.compose update_controllers.quiet)
  have A: "fragments_below (doc x) (currentSlide x) = ?A" if "arrived x d'" for x
    using that fragments_below_shape [of "doc x" "doc d'"] by (simp add: arrived_def)
  have "arrived ?d3 d'" using a6(2) a7 by (blast intro: arrived_trans)
  from arrived_fields [OF this] have i: "slide_changed ?h ?v d' = ?c"
    by (intro slide_changed_fields) (simp_all add: set_current_def)
  have cur: "currentSlide d' = currentSlide d6"
    using arrived_fields [OF a7(1)] arrived_fields [OF a7(2)] by simp
  have "previousSlide d2 = previousSlide d"
    using move_indices_place [OF m] by (simp add: same_place_def)
  with arrived_fields [OF a6(2)] have p: "previousSlide d6 = (if ?c then previousSlide d else None)"
    by (simp add: set_current_def)
  have m3: "media_calls ?d3 = media_calls d"
    by (simp add: set_current.silent move_indices_silent [OF m] remember_vertical.silent)
  have a8: "arrived ?d4 d'" by (rule arrived_trans [OF a6(1) arrived_trans [OF a7]])
  have "grows ?A ?d4 (show_target f ?d4)"
    using show_target_grows [of ?d4 f] by (simp only: A [OF a8])
  then obtain before where b: "media_calls d6 = media_calls d @ before" "list_all (about ?A) before"
    unfolding grows_def update_states_silent [OF u] leave_previous.silent start_transition.silent m3
    by blast
  have "grows ?A ?d7 (update_controllers ?d7)"
    using update_controllers_grows [of ?d7] by (simp only: A [OF a7(2)])
  then obtain after where t: "media_calls d' = media_calls ?d7 @ after" "list_all (about ?A) after"
    unfolding grows_def e run_auto_animate.silent by blast
  have "media_calls ?d7 = media_calls d6 @ handover (previousSlide d6) (currentSlide d6)"
    by (rule notify_calls) (simp add: p)
  with b t show ?thesis
    by (intro exI [of _ before] exI [of _ after]) (simp add: i p cur)
qed

lemma slide_calls:
  assumes "slide h v f d = Some d'" and "getHorizontalSlides d \<noteq> []"
    and "\<not> prevents (env d) (jv_default h (indexh d)) (jv_default v (indexv d))"
  shows "\<exists>before after. list_all (about (fragments_below (doc d') (currentSlide d'))) (before @ after) \<and>
    media_calls d' = media_calls d @ before
      @ handover (if slide_changed (jv_or0 (indexh d)) (jv_or0 (indexv d)) d' then currentSlide d else None)
          (currentSlide d') @ after"
  using assms(1)
proof (cases rule: slide_cases)
  case moved
  from slide_to_calls [OF this(3)] show ?thesis by (simp only: start_slide.silent start_slide_fields)
qed (use assms(2,3) in \<open>auto simp: getHorizontalSlides_def\<close>)

text \<open>On a settled deck the indices change exactly when the slide does.\<close>

lemma same_indices_same_slide:
  assumes "positioned d" and "slide h v f d = Some d'"
    and "\<not> slide_changed (jv_or0 (indexh d)) (jv_or0 (indexv d)) d'"
  shows "currentSlide d' = currentSlide d"
proof -
  obtain i j where p: "at_position i j d" using assms(1) by (auto simp: positioned_def)
  obtain i' j' where p': "at_position i' j' d'"
    using slide_positioned [OF assms(1,2)] by (auto simp: positioned_def)
  have "same_shape (doc d) (doc d')" using slide_keeps_shape [OF assms(2)] by blast
  then have "getSlide d' i (Num j) = getSlide d i (Num j)" by (rule getSlide_shape)
  with p p' assms(3) show ?thesis by (auto simp: at_position_def slide_changed_def)
qed

lemma slide_handover:
  assumes d: "positioned d" and s: "slide h v f d = Some d'"
    and c: "\<not> prevents (env d) (jv_default h (indexh d)) (jv_default v (indexv d))"
    and ne: "currentSlide d' \<noteq> currentSlide d"
  shows "\<exists>before after. list_all (about (fragments_below (doc d') (currentSlide d'))) (before @ after) \<and>
    media_calls d' = media_calls d @ before @ handover (currentSlide d) (currentSlide d') @ after"
  using slide_calls [OF s _ c] same_indices_same_slide [OF d s] d ne
  by (auto simp: positioned_def deck_ok_def split: if_splits)

end
