(* ===== verification/Colors.thy ===== *)
theory Colors
  imports JsStrings JsNum
begin

text \<open>
  The colour utilities, js/utils/color.js.  The four regular expressions of \<open>colorToRgb\<close> are
  written as scanners over the string: each is anchored at both ends and the classes that follow
  one another are disjoint, so the greedy match is the only one.  The one class that is not
  disjoint from its neighbours is the \<open>.\<close> of the alpha group, \<open>[\d]*.[\d]+\<close>, which also accepts
  a character that is no decimal point; \<open>dot_char\<close> says what it matches in the bytes of the
  string.  Numbers are exact (the rounding of a float is not modelled).
\<close>

section \<open>Numbers in strings\<close>

definition scan_digits :: "string \<Rightarrow> (string \<times> string) option" where
  "scan_digits s =
     (let ds = takeWhile is_digit s in if ds = [] then None else Some (ds, dropWhile is_digit s))"

definition expect :: "char \<Rightarrow> string \<Rightarrow> string option" where
  "expect c s = (case s of [] \<Rightarrow> None | x # xs \<Rightarrow> if x = c then Some xs else None)"

definition skip_ws :: "string \<Rightarrow> string" where
  "skip_ws s = dropWhile is_ws s"

definition lower_char :: "char \<Rightarrow> char" where
  "lower_char c =
     (let n = of_char c :: nat in if 65 \<le> n \<and> n \<le> 90 then char_of (n + 32) else c)"

definition expect_word :: "string \<Rightarrow> string \<Rightarrow> string option" where
  "expect_word w s =
     (if map lower_char (take (length w) s) = w then Some (drop (length w) s) else None)"

text \<open>
  \<open>parseFloat\<close>: white space, a sign, then \<open>Infinity\<close> or the longest decimal literal (digits, an
  optional fraction, an optional exponent); \<open>NaN\<close> when there is none.
\<close>

definition exponent_of :: "string \<Rightarrow> int" where
  "exponent_of s =
     (case s of
        c # t \<Rightarrow>
          if c \<in> {CHR ''e'', CHR ''E''}
          then (case parse_signed t of None \<Rightarrow> 0 | Some e \<Rightarrow> e)
          else 0
      | [] \<Rightarrow> 0)"

definition scale10 :: "rat \<Rightarrow> int \<Rightarrow> rat" where
  "scale10 q e = (if e < 0 then q / 10 ^ nat (- e) else q * 10 ^ nat e)"

definition parse_decimal :: "string \<Rightarrow> jsnum" where
  "parse_decimal s =
     (let whole = takeWhile is_digit s;
          rest = dropWhile is_digit s;
          frac = (case rest of c # t \<Rightarrow> if c = CHR ''.'' then takeWhile is_digit t else [] | [] \<Rightarrow> []);
          rest' = (case rest of c # t \<Rightarrow> if c = CHR ''.'' then dropWhile is_digit t else rest | [] \<Rightarrow> [])
      in if whole = [] \<and> frac = [] then NaN
         else Fin (scale10 (of_int (digits_val (whole @ frac))) (exponent_of rest' - int (length frac))))"

definition parse_infinity :: "string \<Rightarrow> jsnum" where
  "parse_infinity s = (if take 8 s = ''Infinity'' then PInf else parse_decimal s)"

definition parseFloat :: "string \<Rightarrow> jsnum" where
  "parseFloat s =
     (case dropWhile is_ws s of
        [] \<Rightarrow> NaN
      | c # t \<Rightarrow>
          if c = CHR ''-'' then js_neg (parse_infinity t)
          else if c = CHR ''+'' then parse_infinity t
          else parse_infinity (c # t))"

definition parseInt16 :: "string \<Rightarrow> int" where
  "parseInt16 s = foldl (\<lambda>n c. 16 * n + (case hex_val c of None \<Rightarrow> 0 | Some d \<Rightarrow> int d)) 0 s"

section \<open>colorToRgb\<close>

record rgb_color =
  red :: int
  green :: int
  blue :: int
  alpha :: "jsnum option"

definition is_hex :: "char \<Rightarrow> bool" where
  "is_hex c \<longleftrightarrow> hex_val c \<noteq> None"

text \<open>\<open>/^#([0-9a-f]{n})$/i\<close>\<close>

definition match_hex :: "nat \<Rightarrow> string \<Rightarrow> string option" where
  "match_hex n s =
     do { ds \<leftarrow> expect (CHR ''#'') s;
          if length ds = n \<and> list_all is_hex ds then Some ds else None }"

text \<open>\<open>(\d+)\s*\<close> after optional white space: the digits and what follows them.\<close>

definition match_component :: "string \<Rightarrow> (string \<times> string) option" where
  "match_component s = map_option (\<lambda>(ds, t). (ds, skip_ws t)) (scan_digits (skip_ws s))"

text \<open>The word, an opening parenthesis and the three components, as both functions have them.\<close>

definition match_triple :: "string \<Rightarrow> string \<Rightarrow> (string \<times> string \<times> string \<times> string) option" where
  "match_triple w s =
     do { s1 \<leftarrow> expect_word w s;
          s2 \<leftarrow> expect (CHR ''('') (skip_ws s1);
          (r, s3) \<leftarrow> match_component s2;
          s4 \<leftarrow> expect (CHR '','') s3;
          (g, s5) \<leftarrow> match_component s4;
          s6 \<leftarrow> expect (CHR '','') s5;
          (b, s7) \<leftarrow> match_component s6;
          Some (r, g, b, s7) }"

definition match_rgb :: "string \<Rightarrow> (string \<times> string \<times> string) option" where
  "match_rgb s =
     do { (r, g, b, t) \<leftarrow> match_triple ''rgb'' s;
          if t = '')'' then Some (r, g, b) else None }"

text \<open>
  The strings a single \<open>.\<close> matches: a character that is no line terminator, in UTF-8 one byte, or
  the two or three bytes of a character of the basic plane other than U+2028 and U+2029.
\<close>

definition cont_byte :: "char \<Rightarrow> bool" where
  "cont_byte c \<longleftrightarrow> 128 \<le> (of_char c :: nat) \<and> (of_char c :: nat) < 192"

definition dot_char :: "string \<Rightarrow> bool" where
  "dot_char s =
     (case s of
        [c] \<Rightarrow> (of_char c :: nat) < 128 \<and> c \<noteq> CHR 0x0A \<and> c \<noteq> CHR 0x0D
      | [c, d] \<Rightarrow> 194 \<le> (of_char c :: nat) \<and> (of_char c :: nat) < 224 \<and> cont_byte d
      | [c, d, e] \<Rightarrow>
          224 \<le> (of_char c :: nat) \<and> (of_char c :: nat) < 240 \<and> cont_byte d \<and> cont_byte e
          \<and> \<not> (c = CHR 0xE2 \<and> d = CHR 0x80 \<and> e \<in> {CHR 0xA8, CHR 0xA9})
      | _ \<Rightarrow> False)"

definition is_alpha_group :: "string \<Rightarrow> bool" where
  "is_alpha_group s \<longleftrightarrow>
     (let rest = dropWhile is_digit s;
          frac = rev (takeWhile is_digit (rev rest));
          middle = take (length rest - length frac) rest
      in if rest = [] then s \<noteq> [] else dot_char middle \<and> frac \<noteq> [])"

text \<open>The alpha value ends in a digit, so the white space before the closing parenthesis is not part of it.\<close>

definition match_alpha :: "string \<Rightarrow> string option" where
  "match_alpha s =
     (case rev s of
        c # t \<Rightarrow>
          let group = rev (dropWhile is_ws t)
          in if c = CHR '')'' \<and> is_alpha_group group then Some group else None
      | [] \<Rightarrow> None)"

definition match_rgba :: "string \<Rightarrow> (string \<times> string \<times> string \<times> string) option" where
  "match_rgba s =
     do { (r, g, b, t) \<leftarrow> match_triple ''rgba'' s;
          u \<leftarrow> expect (CHR '','') t;
          al \<leftarrow> match_alpha (skip_ws u);
          Some (r, g, b, al) }"

definition colorToRgb :: "string \<Rightarrow> rgb_color option" where
  "colorToRgb color =
     (case match_hex 3 color of
        Some hex3 \<Rightarrow>
          Some \<lparr>red = parseInt16 [hex3 ! 0] * 17, green = parseInt16 [hex3 ! 1] * 17,
                blue = parseInt16 [hex3 ! 2] * 17, alpha = None\<rparr>
      | None \<Rightarrow>
     (case match_hex 6 color of
        Some hex6 \<Rightarrow>
          Some \<lparr>red = parseInt16 (take 2 hex6), green = parseInt16 (take 2 (drop 2 hex6)),
                blue = parseInt16 (take 2 (drop 4 hex6)), alpha = None\<rparr>
      | None \<Rightarrow>
     (case match_rgb color of
        Some (r, g, b) \<Rightarrow>
          Some \<lparr>red = digits_val r, green = digits_val g, blue = digits_val b, alpha = None\<rparr>
      | None \<Rightarrow>
     (case match_rgba color of
        Some (r, g, b, al) \<Rightarrow>
          Some \<lparr>red = digits_val r, green = digits_val g, blue = digits_val b,
                alpha = Some (parseFloat al)\<rparr>
      | None \<Rightarrow> None))))"

text \<open>\<open>colorBrightness\<close> on a colour object (or \<open>null\<close>) and on a string.\<close>

definition brightness_of :: "rgb_color option \<Rightarrow> rat option" where
  "brightness_of color =
     map_option (\<lambda>c. of_int (red c * 299 + green c * 587 + blue c * 114) / 1000) color"

definition colorBrightness :: "string \<Rightarrow> rat option" where
  "colorBrightness color = brightness_of (colorToRgb color)"
section \<open>Facts\<close>

lemma hex_val_less: "hex_val c = Some d \<Longrightarrow> d < 16"
  by (auto simp: hex_val_def Let_def split: if_splits)

lemma parseInt16_bounds: "0 \<le> parseInt16 [c] \<and> parseInt16 [c] < 16"
  using hex_val_less [of c] by (auto simp: parseInt16_def split: option.splits)

lemma parseInt16_double: "parseInt16 [c, c] = parseInt16 [c] * 17"
  by (auto simp: parseInt16_def split: option.splits)

lemma parseInt16_pair: "parseInt16 [c, d] = 16 * parseInt16 [c] + parseInt16 [d]"
  by (simp add: parseInt16_def)

lemma match_hex_eq: "match_hex n (CHR ''#'' # ds) = (if length ds = n \<and> list_all is_hex ds then Some ds else None)"
  by (simp add: match_hex_def expect_def)

lemma hash_no_word: "match_triple (x # w) (CHR ''#'' # s) = None" if "x \<noteq> CHR ''#''"
  using that by (simp add: match_triple_def expect_word_def lower_char_def)

lemma hash_only_hex [simp]:
  "match_rgb (CHR ''#'' # s) = None" "match_rgba (CHR ''#'' # s) = None"
  by (simp_all add: match_rgb_def match_rgba_def hash_no_word)

text \<open>The three-digit notation stands for the six-digit one with every digit doubled.\<close>

lemma hex3_doubled:
  "colorToRgb [CHR ''#'', a, b, c] = colorToRgb [CHR ''#'', a, a, b, b, c, c]"
  by (simp add: colorToRgb_def match_hex_eq parseInt16_double)

lemma two_hex_bounds: "0 \<le> parseInt16 [c, d] \<and> parseInt16 [c, d] \<le> 255"
  using parseInt16_bounds [of c] parseInt16_bounds [of d] by (simp add: parseInt16_pair)

text \<open>Every colour read from a hexadecimal notation has its components in a byte.\<close>

definition byte_color :: "rgb_color \<Rightarrow> bool" where
  "byte_color c \<longleftrightarrow> red c \<in> {0..255} \<and> green c \<in> {0..255} \<and> blue c \<in> {0..255}"

lemma hex_color_bytes:
  assumes "colorToRgb (CHR ''#'' # s) = Some c"
  shows "byte_color c \<and> alpha c = None"
proof -
  consider (three) x y z where "s = [x, y, z]" | (six) x1 x2 y1 y2 z1 z2 where "s = [x1, x2, y1, y2, z1, z2]"
    using assms unfolding colorToRgb_def match_hex_eq hash_only_hex
    by (auto simp: length_Suc_conv eval_nat_numeral split: if_splits)
  then show ?thesis
  proof cases
    case three
    then show ?thesis
      using assms two_hex_bounds [of x x] two_hex_bounds [of y y] two_hex_bounds [of z z]
      by (auto simp: colorToRgb_def match_hex_eq parseInt16_double byte_color_def split: if_splits)
  next
    case six
    then show ?thesis
      using assms two_hex_bounds [of x1 x2] two_hex_bounds [of y1 y2] two_hex_bounds [of z1 z2]
      by (auto simp: colorToRgb_def match_hex_eq byte_color_def split: if_splits)
  qed
qed

lemma brightness_bounds:
  assumes "byte_color c"
  shows "\<exists>q. brightness_of (Some c) = Some q \<and> 0 \<le> q \<and> q \<le> 255"
proof -
  let ?n = "red c * 299 + green c * 587 + blue c * 114"
  have "0 \<le> ?n" "?n \<le> 255000" using assms by (auto simp: byte_color_def)
  then have "(0::rat) \<le> of_int ?n" "(of_int ?n :: rat) \<le> of_int 255000"
    by (simp_all only: of_int_0_le_iff of_int_le_iff)
  then show ?thesis
    by (intro exI [of _ "of_int ?n / 1000"]) (simp add: brightness_of_def)
qed

text \<open>Reading back a component that was printed.\<close>

lemma skip_ws_digit [simp]: "is_digit c \<Longrightarrow> skip_ws (c # s) = c # s"
  using digit_not_special [of c] by (simp add: skip_ws_def)

lemma skip_ws_show_nat [simp]: "skip_ws (show_nat n @ s) = show_nat n @ s"
  using show_nat_hd [of n] by auto

lemma match_component_show_nat:
  assumes "\<not> is_digit x" and "\<not> is_ws x"
  shows "match_component (show_nat n @ x # s) = Some (show_nat n, x # s)"
proof -
  have "takeWhile is_digit (show_nat n @ x # s) = show_nat n"
    using assms takeWhile_digits_append [OF show_nat_digits, of "x # s" n] by simp
  moreover have "dropWhile is_digit (show_nat n @ x # s) = x # s"
    using assms show_nat_digits [of n] by (simp add: dropWhile_append list_all_iff)
  ultimately show ?thesis
    using assms by (simp add: match_component_def scan_digits_def Let_def skip_ws_def [of "x # s"])
qed

definition show_rgb :: "nat \<Rightarrow> nat \<Rightarrow> nat \<Rightarrow> string" where
  "show_rgb r g b = ''rgb('' @ show_nat r @ '','' @ show_nat g @ '','' @ show_nat b @ '')''"

lemma colorToRgb_show_rgb:
  "colorToRgb (show_rgb r g b) =
     Some \<lparr>red = int r, green = int g, blue = int b, alpha = None\<rparr>"
proof -
  have sep: "\<not> is_digit (CHR '','')" "\<not> is_ws (CHR '','')" "\<not> is_digit (CHR '')'')" "\<not> is_ws (CHR '')'')"
    "\<not> is_ws (CHR ''('')"
    by (simp_all add: is_digit_def is_ws_def)
  have "match_rgb (show_rgb r g b) = Some (show_nat r, show_nat g, show_nat b)"
    by (simp add: match_rgb_def match_triple_def expect_word_def lower_char_def show_rgb_def expect_def
        skip_ws_def [of "CHR ''('' # _"] sep match_component_show_nat)
  moreover have "match_hex n (show_rgb r g b) = None" for n
    by (simp add: match_hex_def expect_def show_rgb_def)
  ultimately show ?thesis by (simp add: colorToRgb_def digits_val_show_nat)
qed

text \<open>
  The short hexadecimal notation stands for the long one with every digit doubled: both give the same
  colour, its components are bytes, and its brightness is on the scale from 0 to 255.
\<close>

lemma hex_colors:
  assumes "colorToRgb [CHR ''#'', a, b, c] = Some col"
  shows "colorToRgb [CHR ''#'', a, a, b, b, c, c] = Some col \<and> byte_color col \<and>
    (\<exists>q. colorBrightness [CHR ''#'', a, b, c] = Some q \<and> 0 \<le> q \<and> q \<le> 255)"
  using assms hex_color_bytes [OF assms] brightness_bounds hex3_doubled [of a b c]
  by (auto simp: colorBrightness_def)

end
