(* ===== verification/Regex.thy ===== *)
theory Regex
  imports JsStrings
begin

text \<open>
  Regular expressions of JavaScript, as far as the program builds them at run time: a pattern is
  a tree (the syntax of a pattern in a string is not parsed), and \<open>match_at\<close> lists the ends of its
  matches from a position in the order in which the backtracking matcher tries them, so that the
  first one is the match.  \<open>exec\<close> is \<open>RegExp.prototype.exec\<close> with the flag \<open>g\<close>, from \<open>lastIndex\<close>.
  Groups and look-around are not modelled.
\<close>

datatype regex =
    REmpty
  | RClass "char \<Rightarrow> bool"
  | RSeq regex regex
  | RAlt regex regex
  | RStar regex
  | RLazyStar regex
  | RBol
  | REol

definition is_newline :: "char \<Rightarrow> bool" where
  "is_newline c \<longleftrightarrow> c = CHR 0x0A \<or> c = CHR 0x0D"

text \<open>The flag \<open>m\<close> lets \<open>^\<close> and \<open>$\<close> match at line breaks.  An iteration of \<open>*\<close> has to advance.\<close>

function match_at :: "bool \<Rightarrow> string \<Rightarrow> regex \<Rightarrow> nat \<Rightarrow> nat list" where
  "match_at multi s REmpty i = [i]"
| "match_at multi s (RClass P) i = (if i < length s \<and> P (s ! i) then [Suc i] else [])"
| "match_at multi s (RSeq a b) i =
     concat (map (\<lambda>j. if i \<le> j then match_at multi s b j else []) (match_at multi s a i))"
| "match_at multi s (RAlt a b) i = match_at multi s a i @ match_at multi s b i"
| "match_at multi s (RStar a) i =
     concat (map (\<lambda>j. if i < j \<and> j \<le> length s then match_at multi s (RStar a) j else [])
       (match_at multi s a i)) @ [i]"
| "match_at multi s (RLazyStar a) i =
     i # concat (map (\<lambda>j. if i < j \<and> j \<le> length s then match_at multi s (RLazyStar a) j else [])
       (match_at multi s a i))"
| "match_at multi s RBol i = (if i = 0 \<or> multi \<and> is_newline (s ! (i - 1)) then [i] else [])"
| "match_at multi s REol i = (if i = length s \<or> multi \<and> i < length s \<and> is_newline (s ! i) then [i] else [])"
  by pat_completeness auto

termination
  by (relation "measures [\<lambda>(multi, s, r, i). length s - i, \<lambda>(multi, s, r, i). size r]") auto

definition substring :: "string \<Rightarrow> nat \<Rightarrow> nat \<Rightarrow> string" where
  "substring s i j = take (j - i) (drop i s)"

definition exec :: "bool \<Rightarrow> regex \<Rightarrow> string \<Rightarrow> nat \<Rightarrow> (nat \<times> nat) option" where
  "exec multi r s lastIndex =
     map_option (\<lambda>i. (i, hd (match_at multi s r i)))
       (List.find (\<lambda>i. match_at multi s r i \<noteq> []) [lastIndex..<Suc (length s)])"

definition test :: "regex \<Rightarrow> string \<Rightarrow> bool" where
  "test r s \<longleftrightarrow> exec False r s 0 \<noteq> None"

text \<open>\<open>RegExp\<close> helpers: a literal word, an optional part, and the flag \<open>i\<close>.\<close>

fun word :: "string \<Rightarrow> regex" where
  "word [] = REmpty"
| "word (c # s) = RSeq (RClass ((=) c)) (word s)"

definition optional :: "regex \<Rightarrow> regex" where
  "optional r = RAlt r REmpty"

definition swap_case :: "char \<Rightarrow> char" where
  "swap_case c =
     (let n = of_char c :: nat
      in if 65 \<le> n \<and> n \<le> 90 then char_of (n + 32)
         else if 97 \<le> n \<and> n \<le> 122 then char_of (n - 32) else c)"

fun ignore_case :: "regex \<Rightarrow> regex" where
  "ignore_case (RClass P) = RClass (\<lambda>c. P c \<or> P (swap_case c))"
| "ignore_case (RSeq a b) = RSeq (ignore_case a) (ignore_case b)"
| "ignore_case (RAlt a b) = RAlt (ignore_case a) (ignore_case b)"
| "ignore_case (RStar a) = RStar (ignore_case a)"
| "ignore_case (RLazyStar a) = RLazyStar (ignore_case a)"
| "ignore_case r = r"

text \<open>
  \<open>String.prototype.split\<close>: \<open>p\<close> is where the current part begins, \<open>q\<close> where a separator is tried;
  a separator that would end where the part begins is passed over.
\<close>

function split_loop :: "bool \<Rightarrow> regex \<Rightarrow> string \<Rightarrow> nat \<Rightarrow> nat \<Rightarrow> string list" where
  "split_loop multi r s p q =
     (if q < length s
      then (case match_at multi s r q of
              [] \<Rightarrow> split_loop multi r s p (Suc q)
            | e # _ \<Rightarrow>
                if e = p \<or> \<not> (q \<le> e) then split_loop multi r s p (Suc q)
                else substring s p q # (if q < e then split_loop multi r s e e
                                        else split_loop multi r s e (Suc e)))
      else [drop p s])"
  by pat_completeness auto

termination
  by (relation "measure (\<lambda>(multi, r, s, p, q). length s - q)") auto

definition split_regex :: "bool \<Rightarrow> regex \<Rightarrow> string \<Rightarrow> string list" where
  "split_regex multi r s =
     (if s = [] then (if match_at multi s r 0 = [] then [[]] else [])
      else split_loop multi r s 0 0)"

text \<open>\<open>replace\<close> with the flag \<open>g\<close> of a pattern that does not match the empty string.\<close>

function replace_from :: "regex \<Rightarrow> string \<Rightarrow> string \<Rightarrow> nat \<Rightarrow> string" where
  "replace_from r rep s i =
     (if i < length s
      then (case match_at False s r i of
              e # _ \<Rightarrow> if i < e then rep @ replace_from r rep s e
                       else s ! i # replace_from r rep s (Suc i)
            | [] \<Rightarrow> s ! i # replace_from r rep s (Suc i))
      else [])"
  by pat_completeness auto

termination
  by (relation "measure (\<lambda>(r, rep, s, i). length s - i)") auto

definition replace_all :: "regex \<Rightarrow> string \<Rightarrow> string \<Rightarrow> string" where
  "replace_all r rep s = replace_from r rep s 0"

declare match_at.simps(5,6) [simp del] split_loop.simps [simp del] replace_from.simps [simp del]

section \<open>Facts\<close>

lemma match_at_bounds:
  "j \<in> set (match_at multi s r i) \<Longrightarrow> i \<le> length s \<Longrightarrow> i \<le> j \<and> j \<le> length s"
proof (induction multi s r i arbitrary: j rule: match_at.induct)
  case (3 multi s a b i)
  from "3.prems"(1) obtain k where k: "k \<in> set (match_at multi s a i)" "i \<le> k" "j \<in> set (match_at multi s b k)"
    by (auto split: if_splits)
  from "3.IH"(1) [OF k(1) "3.prems"(2)] "3.IH"(2) [OF k] show ?case by simp
next
  case (5 multi s a i)
  from "5.prems"(1) consider "j = i"
    | k where "k \<in> set (match_at multi s a i)" "i < k \<and> k \<le> length s" "j \<in> set (match_at multi s (RStar a) k)"
    by (auto simp: match_at.simps(5) [of multi s a i] split: if_splits)
  then show ?case
  proof cases
    case (2 k)
    from "5.IH"(2) [OF 2] 2(2) show ?thesis by simp
  qed (use "5.prems" in simp)
next
  case (6 multi s a i)
  from "6.prems"(1) consider "j = i"
    | k where "k \<in> set (match_at multi s a i)" "i < k \<and> k \<le> length s" "j \<in> set (match_at multi s (RLazyStar a) k)"
    by (auto simp: match_at.simps(6) [of multi s a i] split: if_splits)
  then show ?case
  proof cases
    case (2 k)
    from "6.IH"(2) [OF 2] 2(2) show ?thesis by simp
  qed (use "6.prems" in simp)
qed (auto split: if_splits)

text \<open>Whether a pattern can match the empty string (\<open>^\<close> and \<open>$\<close> can).\<close>

fun nullable :: "regex \<Rightarrow> bool" where
  "nullable REmpty = True"
| "nullable (RClass P) = False"
| "nullable (RSeq a b) = (nullable a \<and> nullable b)"
| "nullable (RAlt a b) = (nullable a \<or> nullable b)"
| "nullable (RStar a) = True"
| "nullable (RLazyStar a) = True"
| "nullable RBol = True"
| "nullable REol = True"

lemma match_at_advances:
  "j \<in> set (match_at multi s r i) \<Longrightarrow> i \<le> length s \<Longrightarrow> \<not> nullable r \<Longrightarrow> i < j"
proof (induction r arbitrary: i j)
  case (RSeq a b)
  then obtain k where k: "k \<in> set (match_at multi s a i)" "i \<le> k" "j \<in> set (match_at multi s b k)"
    by (auto split: if_splits)
  have "k \<le> j" "k \<le> length s"
    using match_at_bounds [OF k(1) RSeq.prems(2)] match_at_bounds [OF k(3)] by simp_all
  with RSeq.IH(1) [OF k(1) RSeq.prems(2)] RSeq.IH(2) [OF k(3)] k(2) RSeq.prems(3) show ?case by auto
qed (auto split: if_splits)

lemma exec_Some:
  assumes "exec multi r s l = Some (i, e)"
  shows "l \<le> i \<and> i \<le> e \<and> e \<le> length s \<and> e \<in> set (match_at multi s r i)"
proof -
  from assms have f: "List.find (\<lambda>i. match_at multi s r i \<noteq> []) [l..<Suc (length s)] = Some i"
    and e: "e = hd (match_at multi s r i)"
    by (auto simp: exec_def)
  from f have "match_at multi s r i \<noteq> []" "i \<in> set [l..<Suc (length s)]"
    by (auto simp: find_Some_iff simp del: upt_Suc intro!: nth_mem)
  then show ?thesis using e match_at_bounds [of e multi s r i] by (auto simp del: upt_Suc)
qed

lemma exec_advances:
  assumes "exec multi r s l = Some (i, e)" and "\<not> nullable r"
  shows "l < e"
  using exec_Some [OF assms(1)] match_at_advances [of e multi s r i] assms(2) by auto

lemma exec_here:
  assumes "match_at multi s r l = e # es" and "l \<le> length s"
  shows "exec multi r s l = Some (l, e)"
proof -
  have "[l..<Suc (length s)] = l # [Suc l..<Suc (length s)]" using assms(2) by (simp add: upt_conv_Cons)
  with assms(1) show ?thesis by (simp add: exec_def)
qed

end
