(* ===== verification/Backgrounds.thy ===== *)
theory Backgrounds
  imports Deck Colors Regex
begin

text \<open>
  The backgrounds of the slides, js/controllers/backgrounds.js: one element per slide, in columns that
  mirror the slides.  The elements live at addresses of their own (\<open>bgs\<close>), since the controller
  keeps a reference to the background it showed last even when all of them are created anew.  The
  configured options of the parallax background and the colours the browser computes are
  arguments.  What \<open>update\<close> asks of the media controller is recorded in \<open>bg_calls\<close>.
\<close>

section \<open>State\<close>

text \<open>A video or a frame that has been put into the content element.\<close>

datatype bg_child =
    BgVideo bool bool bool string
      \<comment> \<open>\<open>loop\<close>, \<open>muted\<close>, \<open>playsinline\<close> and the mark-up of its sources\<close>
  | BgIframe string "string option"
      \<comment> \<open>\<open>data-src\<close> and \<open>src\<close>\<close>

record background =
  bg_slide :: nat
  bg_classes :: "cls set"
  bg_loaded :: bool
  bg_hash :: "string option"
  bg_size :: "string option"
  bg_transition :: "string option"
  bg_preload :: bool
  bg_display :: string
  style_background :: string
  style_color :: string
  style_image :: string
  content_size :: string
  content_repeat :: string
  content_position :: string
  content_image :: string
  content_opacity :: string
  content_children :: "bg_child list"

definition blank_background :: "nat \<Rightarrow> background" where
  "blank_background s =
     \<lparr>bg_slide = s, bg_classes = {}, bg_loaded = False, bg_hash = None, bg_size = None,
      bg_transition = None, bg_preload = False, bg_display = [], style_background = [], style_color = [],
      style_image = [], content_size = [], content_repeat = [], content_position = [],
      content_image = [], content_opacity = [], content_children = []\<rparr>"

datatype bg_call = StopBackground nat | StartBackground nat | RestartGif nat

record backgrounds =
  bgs :: "nat \<Rightarrow> background"
  bg_columns :: "(nat \<times> nat list) list"
  bg_fresh :: nat
  slideBackground :: "nat \<Rightarrow> nat option"
  previousBackground :: "nat option"
  bg_noTransition :: bool
  bg_removals :: nat
    \<comment> \<open>pending timeouts that remove the class \<open>no-transition\<close>\<close>
  parallax_image :: string
  parallax_size :: string
  parallax_repeat :: string
  parallax_position :: string
  parallax_pending :: bool
  bg_calls :: "bg_call list"

text \<open>The state before the first creation.\<close>

definition no_backgrounds :: backgrounds where
  "no_backgrounds =
     \<lparr>bgs = blank_background, bg_columns = [], bg_fresh = 0, slideBackground = (\<lambda>_. None),
      previousBackground = None, bg_noTransition = False, bg_removals = 0, parallax_image = [],
      parallax_size = [], parallax_repeat = [], parallax_position = [], parallax_pending = False,
      bg_calls = []\<rparr>"

definition update_bg :: "nat \<Rightarrow> (background \<Rightarrow> background) \<Rightarrow> backgrounds \<Rightarrow> backgrounds" where
  "update_bg a f b = b\<lparr>bgs := (bgs b)(a := f (bgs b a))\<rparr>"

section \<open>sync\<close>

text \<open>
  The hash is a chain of \<open>+\<close> over attributes that may be \<open>null\<close>: until the first string it is a sum
  of numbers, \<open>null + null\<close> is 0.
\<close>

datatype hash_value = HNull | HNum int | HStr string

fun hash_plus :: "hash_value \<Rightarrow> string option \<Rightarrow> hash_value" where
  "hash_plus HNull None = HNum 0"
| "hash_plus HNull (Some s) = HStr (''null'' @ s)"
| "hash_plus (HNum n) None = HNum n"
| "hash_plus (HNum n) (Some s) = HStr (show_int n @ s)"
| "hash_plus (HStr t) None = HStr (t @ ''null'')"
| "hash_plus (HStr t) (Some s) = HStr (t @ s)"

definition show_hash :: "hash_value \<Rightarrow> string" where
  "show_hash h = (case h of HNull \<Rightarrow> ''null'' | HNum n \<Rightarrow> show_int n | HStr s \<Rightarrow> s)"

definition background_hash :: "(attr \<Rightarrow> string option) \<Rightarrow> string" where
  "background_hash data =
     show_hash (foldl (\<lambda>h a. hash_plus h (data a))
       (case data DataBackground of None \<Rightarrow> HNull | Some s \<Rightarrow> HStr s)
       [DataBackgroundSize, DataBackgroundImage, DataBackgroundVideo, DataBackgroundIframe,
        DataBackgroundColor, DataBackgroundGradient, DataBackgroundRepeat, DataBackgroundPosition,
        DataBackgroundTransition, DataBackgroundOpacity])"

text \<open>\<open>/^(http|file|\/\/)/gi\<close> and \<open>/\.(svg|png|jpg|jpeg|gif|bmp|webp)([?#\s]|$)/gi\<close>\<close>

definition url_regex :: regex where
  "url_regex = ignore_case (RSeq RBol (RAlt (word ''http'') (RAlt (word ''file'') (word ''//''))))"

fun alternatives :: "string list \<Rightarrow> regex" where
  "alternatives [] = RClass (\<lambda>_. False)"
| "alternatives (w # ws) = RAlt (word w) (alternatives ws)"

definition image_regex :: regex where
  "image_regex =
     ignore_case (RSeq (word ''.'')
       (RSeq (alternatives [''svg'', ''png'', ''jpg'', ''jpeg'', ''gif'', ''bmp'', ''webp''])
         (RAlt (RClass (\<lambda>c. c \<in> set ''?#'' \<or> is_ws c)) REol)))"

definition is_image_url :: "string \<Rightarrow> bool" where
  "is_image_url s \<longleftrightarrow> test url_regex s \<or> test image_regex s"

text \<open>The visual properties of the two background elements, from the attributes of the slide.\<close>

definition style_bg :: "(attr \<Rightarrow> string option) \<Rightarrow> background \<Rightarrow> background" where
  "style_bg data bg =
     bg\<lparr>bg_loaded := False,
        bg_hash :=
          (if truthy_string (data DataBackground) \<or> truthy_string (data DataBackgroundColor)
              \<or> truthy_string (data DataBackgroundGradient) \<or> truthy_string (data DataBackgroundImage)
              \<or> truthy_string (data DataBackgroundVideo) \<or> truthy_string (data DataBackgroundIframe)
           then Some (background_hash data) else None),
        bg_size := (if truthy_string (data DataBackgroundSize) then data DataBackgroundSize else None),
        bg_transition :=
          (if truthy_string (data DataBackgroundTransition) then data DataBackgroundTransition else None),
        bg_preload := (bg_preload bg \<or> data DataPreload \<noteq> None),
        style_background :=
          (if truthy_string (data DataBackground) \<and> \<not> is_image_url (or_empty (data DataBackground))
           then or_empty (data DataBackground) else style_background bg),
        style_color := or_empty (data DataBackgroundColor),
        style_image :=
          (if truthy_string (data DataBackgroundGradient) then or_empty (data DataBackgroundGradient)
           else style_image bg),
        content_size := or_empty (data DataBackgroundSize),
        content_repeat := or_empty (data DataBackgroundRepeat),
        content_position := or_empty (data DataBackgroundPosition),
        content_image := [],
        content_opacity := or_empty (data DataBackgroundOpacity),
        content_children := []\<rparr>"

text \<open>The colour that decides between a light and a dark background.\<close>

definition contrast_color :: "string option \<Rightarrow> string option \<Rightarrow> string option" where
  "contrast_color color computed =
     (if \<not> truthy_string color \<or> colorToRgb (or_empty color) = None
      then (if truthy_string computed then computed else color)
      else color)"

definition contrast_class :: "string option \<Rightarrow> cls option" where
  "contrast_class color =
     (if truthy_string color
      then (case colorToRgb (or_empty color) of
              Some rgb \<Rightarrow>
                if alpha rgb = Some (Fin 0) then None
                else (case colorBrightness (or_empty color) of
                        Some q \<Rightarrow> Some (if q < 128 then HasDarkBackground else HasLightBackground)
                      | None \<Rightarrow> None)
            | None \<Rightarrow> None)
      else None)"

definition contrast_slide :: "(attr \<Rightarrow> string option) \<Rightarrow> string option \<Rightarrow> elem \<Rightarrow> elem" where
  "contrast_slide data computed e =
     (let e1 = remove_class HasLightBackground (remove_class HasDarkBackground e);
          e2 = (if truthy_string (data DataBackground) \<and> is_image_url (or_empty (data DataBackground))
                then set_attr DataBackgroundImage (or_empty (data DataBackground)) e1 else e1)
      in case contrast_class (contrast_color (data DataBackgroundColor) computed) of
           Some c \<Rightarrow> add_class c e2
         | None \<Rightarrow> e2)"

definition backgrounds_sync ::
  "(background \<Rightarrow> string option) \<Rightarrow> nat \<Rightarrow> deck \<times> backgrounds \<Rightarrow> deck \<times> backgrounds" where
  "backgrounds_sync computed s db =
     (case db of
        (d, b) \<Rightarrow>
          (case slideBackground b s of
             None \<Rightarrow> (d, b)
           | Some a \<Rightarrow>
               (let data = attrs (el (doc d) s);
                    b' = update_bg a (style_bg data) b
                in (d\<lparr>doc := update_el s (contrast_slide data (computed (bgs b' a))) (doc d)\<rparr>, b'))))"

section \<open>create\<close>

text \<open>A slide carries one of the three classes at most, so removing the first one removes all.\<close>

definition background_classes :: "cls set \<Rightarrow> cls set" where
  "background_classes cs = cs - {Past, Present, Future}"

text \<open>\<open>createBackground\<close>: the container is a new column, or the column of a stack.\<close>

definition append_background :: "nat option \<Rightarrow> nat \<Rightarrow> (nat \<times> nat list) list \<Rightarrow> (nat \<times> nat list) list" where
  "append_background container a cols =
     (case container of
        None \<Rightarrow> cols @ [(a, [])]
      | Some c \<Rightarrow> map (\<lambda>(m, vs). if m = c then (m, vs @ [a]) else (m, vs)) cols)"

definition createBackground ::
  "(background \<Rightarrow> string option) \<Rightarrow> nat \<Rightarrow> nat option \<Rightarrow> deck \<times> backgrounds \<Rightarrow> nat \<times> deck \<times> backgrounds" where
  "createBackground computed s container db =
     (case db of
        (d, b) \<Rightarrow>
          (let a = bg_fresh b;
               bg = (blank_background s)\<lparr>bg_classes := background_classes (classes (el (doc d) s))\<rparr>;
               b' = b\<lparr>bgs := (bgs b)(a := bg), bg_fresh := Suc a,
                      bg_columns := append_background container a (bg_columns b),
                      slideBackground := (slideBackground b)(s \<mapsto> a)\<rparr>
           in (a, backgrounds_sync computed s (d, b'))))"

definition create_vertical ::
  "(background \<Rightarrow> string option) \<Rightarrow> nat \<Rightarrow> nat \<Rightarrow> deck \<times> backgrounds \<Rightarrow> deck \<times> backgrounds" where
  "create_vertical computed stack v db =
     (case snd (createBackground computed v (Some stack) db) of
        (d, b) \<Rightarrow> (d, update_bg stack (\<lambda>bg. bg\<lparr>bg_classes := insert Stack (bg_classes bg)\<rparr>) b))"

definition create_horizontal ::
  "(background \<Rightarrow> string option) \<Rightarrow> nat \<Rightarrow> deck \<times> backgrounds \<Rightarrow> deck \<times> backgrounds" where
  "create_horizontal computed h db =
     (case createBackground computed h None db of
        (stack, db') \<Rightarrow> fold (create_vertical computed stack) (queryAll (doc (fst db')) h is_section) db')"

definition parallax_setup :: "content_config \<Rightarrow> deck \<times> backgrounds \<Rightarrow> deck \<times> backgrounds" where
  "parallax_setup cc db =
     (case db of
        (d, b) \<Rightarrow>
          if cfg_parallaxBackgroundImage cc \<noteq> []
          then (d, b\<lparr>parallax_image := ''url('' @ [CHR 0x22] @ cfg_parallaxBackgroundImage cc @ [CHR 0x22] @ '')'',
                     parallax_size := cfg_parallaxBackgroundSize cc,
                     parallax_repeat := cfg_parallaxBackgroundRepeat cc,
                     parallax_position := cfg_parallaxBackgroundPosition cc,
                     parallax_pending := True\<rparr>)
          else (d\<lparr>wrapperClasses := wrapperClasses d - {HasParallaxBackground}\<rparr>,
                b\<lparr>parallax_image := []\<rparr>))"

definition backgrounds_create ::
  "content_config \<Rightarrow> (background \<Rightarrow> string option) \<Rightarrow> deck \<times> backgrounds \<Rightarrow> deck \<times> backgrounds" where
  "backgrounds_create cc computed db =
     (case db of
        (d, b) \<Rightarrow>
          parallax_setup cc
            (fold (create_horizontal computed) (getHorizontalSlides d)
               (d, b\<lparr>bg_columns := [], bg_noTransition := True\<rparr>)))"

text \<open>The two timeouts of the controller.\<close>

definition parallax_timeout :: "deck \<times> backgrounds \<Rightarrow> deck \<times> backgrounds" where
  "parallax_timeout db =
     (case db of
        (d, b) \<Rightarrow>
          (d\<lparr>wrapperClasses := insert HasParallaxBackground (wrapperClasses d)\<rparr>,
           b\<lparr>parallax_pending := False\<rparr>))"

definition transition_timeout :: "backgrounds \<Rightarrow> backgrounds" where
  "transition_timeout b = b\<lparr>bg_noTransition := False, bg_removals := bg_removals b - 1\<rparr>"

section \<open>update\<close>

text \<open>
  The class for position \<open>k\<close> when \<open>i\<close> is the current index.  Both comparisons are false when \<open>i\<close> is
  not a number.
\<close>

definition place_class :: "cls \<Rightarrow> cls \<Rightarrow> nat \<Rightarrow> jsval \<Rightarrow> cls" where
  "place_class past future k i =
     (if jv_gt i (int k) then past else if jv_lt i (int k) then future else Present)"

definition place_background :: "cls \<Rightarrow> background \<Rightarrow> background" where
  "place_background c bg = bg\<lparr>bg_classes := insert c (bg_classes bg - {Past, Present, Future})\<rparr>"

definition place_row ::
  "jsval \<Rightarrow> bool \<Rightarrow> nat \<times> nat \<Rightarrow> nat option \<times> backgrounds \<Rightarrow> nat option \<times> backgrounds" where
  "place_row v isPresent va cb =
     (let c = place_class Past Future (fst va) v
      in (if c = Present \<and> isPresent then Some (snd va) else fst cb,
          update_bg (snd va) (place_background c) (snd cb)))"

definition place_column ::
  "bool \<Rightarrow> bool \<Rightarrow> indices \<Rightarrow> nat \<times> nat \<times> nat list \<Rightarrow> nat option \<times> backgrounds \<Rightarrow> nat option \<times> backgrounds" where
  "place_column rtl includeAll i col cb =
     (case col of
        (h, m, vs) \<Rightarrow>
          (let past = (if rtl then Future else Past);
               future = (if rtl then Past else Future);
               c = place_class past future h (ih i);
               cb' = (if c = Present then Some m else fst cb, update_bg m (place_background c) (snd cb))
           in if includeAll \<or> ih i = Num (int h)
              then fold (place_row (iv i) (ih i = Num (int h))) (enumerate 0 vs) cb'
              else cb'))"

definition place_all :: "bool \<Rightarrow> bool \<Rightarrow> indices \<Rightarrow> backgrounds \<Rightarrow> nat option \<times> backgrounds" where
  "place_all rtl includeAll i b =
     fold (place_column rtl includeAll i) (enumerate 0 (bg_columns b)) (None, b)"

definition call_bg :: "bg_call \<Rightarrow> backgrounds \<Rightarrow> backgrounds" where
  "call_bg c b = b\<lparr>bg_calls := bg_calls b @ [c]\<rparr>"

text \<open>Starting the content of the new background, and keeping identical backgrounds from flickering.\<close>

definition gif_regex :: regex where
  "gif_regex = ignore_case (word ''.gif'')"

definition show_background :: "nat \<Rightarrow> backgrounds \<Rightarrow> backgrounds" where
  "show_background cur b =
     (let b1 = call_bg (StartBackground cur) b;
          b2 = (if test gif_regex (content_image (bgs b1 cur)) then call_bg (RestartGif cur) b1 else b1);
          previousHash = Option.bind (previousBackground b2) (\<lambda>p. bg_hash (bgs b2 p));
          currentHash = bg_hash (bgs b2 cur);
          b3 = (if truthy_string currentHash \<and> currentHash = previousHash \<and> previousBackground b2 \<noteq> Some cur
                then b2\<lparr>bg_noTransition := True\<rparr> else b2)
      in b3\<lparr>previousBackground := Some cur\<rparr>)"

definition bubble_class :: "cls \<Rightarrow> wrapper_class \<Rightarrow> nat \<Rightarrow> deck \<Rightarrow> deck" where
  "bubble_class c w s d =
     (if has_class c (el (doc d) s) then d\<lparr>wrapperClasses := insert w (wrapperClasses d)\<rparr>
      else d\<lparr>wrapperClasses := wrapperClasses d - {w}\<rparr>)"

definition backgrounds_update :: "bool \<Rightarrow> deck \<times> backgrounds \<Rightarrow> deck \<times> backgrounds" where
  "backgrounds_update includeAll db =
     (case db of
        (d, b) \<Rightarrow>
          (case place_all (cfg_rtl (cfg d)) includeAll (getIndices d None) b of
             (current, b1) \<Rightarrow>
               (let b2 = (case previousBackground b1 of
                            Some p \<Rightarrow> call_bg (StopBackground p) b1 | None \<Rightarrow> b1);
                    b3 = (case current of Some c \<Rightarrow> show_background c b2 | None \<Rightarrow> b2);
                    d' = (case currentSlide d of
                            Some s \<Rightarrow> bubble_class HasDarkBackground WrapperDarkBackground s
                              (bubble_class HasLightBackground WrapperLightBackground s d)
                          | None \<Rightarrow> d)
                in (d', b3\<lparr>bg_removals := Suc (bg_removals b3)\<rparr>))))"

section \<open>The parallax background\<close>

definition index_num :: "jsval \<Rightarrow> jsnum" where
  "index_num v = (case v of Num i \<Rightarrow> js_of_int i | _ \<Rightarrow> NaN)"

definition parse_num :: "string \<Rightarrow> jsnum" where
  "parse_num s = index_num (jv_of_parse (parseInt10 s))"

definition background_dims :: "string \<Rightarrow> jsnum \<times> jsnum" where
  "background_dims sizes =
     (let parts = split_on (CHR '' '') sizes
      in if length parts = 1 then (parse_num (parts ! 0), parse_num (parts ! 0))
         else (parse_num (parts ! 0), parse_num (parts ! 1)))"

text \<open>The horizontal and the vertical position, from the size of the element in the page.\<close>

definition horizontal_multiplier :: "rat option \<Rightarrow> jsnum \<Rightarrow> rat \<Rightarrow> nat \<Rightarrow> jsnum" where
  "horizontal_multiplier configured backgroundWidth slideWidth count =
     (case configured of
        Some q \<Rightarrow> Fin q
      | None \<Rightarrow>
          if count > 1 then js_div (js_sub backgroundWidth (Fin slideWidth)) (Fin (of_nat count - 1))
          else Fin 0)"

definition vertical_multiplier :: "rat option \<Rightarrow> jsnum \<Rightarrow> rat \<Rightarrow> nat \<Rightarrow> jsnum" where
  "vertical_multiplier configured backgroundHeight slideHeight count =
     (case configured of
        Some q \<Rightarrow> Fin q
      | None \<Rightarrow> js_div (js_sub backgroundHeight (Fin slideHeight)) (Fin (of_nat count - 1)))"

definition updateParallax ::
  "content_config \<Rightarrow> rat \<Rightarrow> rat \<Rightarrow> deck \<Rightarrow> backgrounds \<Rightarrow> (jsnum \<times> jsnum) option" where
  "updateParallax cc slideWidth slideHeight d b =
     (if cfg_parallaxBackgroundImage cc = [] then None
      else
        (let i = getIndices d None;
             (w, h) = background_dims (parallax_size b);
             verticalCount = length (getVerticalSlides d);
             horizontalOffset =
               js_mul (js_mul (horizontal_multiplier (cfg_parallaxBackgroundHorizontal cc) w slideWidth
                 (length (getHorizontalSlides d))) (index_num (ih i))) (Fin (- 1));
             verticalOffset =
               (if verticalCount > 0
                then js_mul (vertical_multiplier (cfg_parallaxBackgroundVertical cc) h slideHeight verticalCount)
                  (index_num (iv i))
                else Fin 0)
         in Some (horizontalOffset, js_neg verticalOffset)))"

end
