(* ===== verification/Queries.thy ===== *)
theory Queries
  imports Colors
begin

text \<open>
  Reading values from strings, js/utils/util.js: \<open>deserialize\<close>, \<open>getQueryHash\<close> (the options a
  presentation takes from its own address) and \<open>getMimeTypeFromFile\<close>.  The scan of the query
  string is the global match of \<open>/[A-Z0-9]+?=([\w\.%-]*)/gi\<close>: the run of letters and digits in
  front of an equals sign, and the run of value characters behind it.  A code unit that
  \<open>unescape\<close> produces is kept as its UTF-8 bytes (the two halves of a surrogate pair one by one).
\<close>

datatype js_value = JNull | JBool bool | JNumber jsnum | JString string

definition is_alnum :: "char \<Rightarrow> bool" where
  "is_alnum c \<longleftrightarrow>
     (let n = of_char c :: nat
      in 48 \<le> n \<and> n \<le> 57 \<or> 65 \<le> n \<and> n \<le> 90 \<or> 97 \<le> n \<and> n \<le> 122)"

definition is_value_char :: "char \<Rightarrow> bool" where
  "is_value_char c \<longleftrightarrow> is_alnum c \<or> c \<in> set ''_.%-''"

text \<open>\<open>/^-?[\d\.]+$/\<close>\<close>

definition is_numeric :: "string \<Rightarrow> bool" where
  "is_numeric s \<longleftrightarrow>
     (let t = (case s of c # r \<Rightarrow> if c = CHR ''-'' then r else s | [] \<Rightarrow> [])
      in t \<noteq> [] \<and> list_all (\<lambda>c. is_digit c \<or> c = CHR ''.'') t)"

definition deserialize_string :: "string \<Rightarrow> js_value" where
  "deserialize_string s =
     (if s = ''null'' then JNull
      else if s = ''true'' then JBool True
      else if s = ''false'' then JBool False
      else if is_numeric s then JNumber (parseFloat s)
      else JString s)"

definition deserialize :: "js_value \<Rightarrow> js_value" where
  "deserialize v = (case v of JString s \<Rightarrow> deserialize_string s | _ \<Rightarrow> v)"

section \<open>unescape\<close>

definition utf8_unit :: "nat \<Rightarrow> string" where
  "utf8_unit n =
     (if n < 128 then [char_of n]
      else if n < 2048 then [char_of (192 + n div 64), char_of (128 + n mod 64)]
      else [char_of (224 + n div 4096), char_of (128 + n div 64 mod 64), char_of (128 + n mod 64)])"

definition hex_number :: "nat \<Rightarrow> string \<Rightarrow> nat option" where
  "hex_number k s =
     (let ds = take k s
      in if length ds = k \<and> list_all is_hex ds then Some (nat (parseInt16 ds)) else None)"

text \<open>The escape that follows a percent sign: its code unit and its length.\<close>

definition escape_at :: "string \<Rightarrow> (nat \<times> nat) option" where
  "escape_at s =
     (case (if take 1 s = ''u'' then hex_number 4 (drop 1 s) else None) of
        Some n \<Rightarrow> Some (n, 5)
      | None \<Rightarrow> map_option (\<lambda>n. (n, 2)) (hex_number 2 s))"

fun unescape :: "string \<Rightarrow> string" where
  "unescape [] = []"
| "unescape (c # s) =
     (if c = CHR 0x25
      then (case escape_at s of
              Some (n, k) \<Rightarrow> utf8_unit n @ unescape (drop k s)
            | None \<Rightarrow> c # unescape s)
      else c # unescape s)"

section \<open>getQueryHash\<close>

function query_pairs :: "string \<Rightarrow> string \<Rightarrow> (string \<times> string) list" where
  "query_pairs name [] = []"
| "query_pairs name (c # s) =
     (if c = CHR ''='' \<and> name \<noteq> []
      then (name, takeWhile is_value_char s) # query_pairs [] (dropWhile is_value_char s)
      else query_pairs (if is_alnum c then name @ [c] else []) s)"
  by pat_completeness auto

termination
  by (relation "measure (\<lambda>(name, s). length s)") (auto simp: le_imp_less_Suc length_dropWhile_le)

definition query_object :: "string \<Rightarrow> string \<Rightarrow> string option" where
  "query_object search = fold (\<lambda>(k, v) q. q(k \<mapsto> v)) (query_pairs [] search) Map.empty"

definition getQueryHash :: "string \<Rightarrow> string \<Rightarrow> js_value option" where
  "getQueryHash search =
     (let query = map_option (\<lambda>v. deserialize (JString (unescape v))) \<circ> query_object search
      in if query ''dependencies'' \<noteq> None then query(''dependencies'' := None) else query)"

section \<open>getMimeTypeFromFile\<close>

definition fileExtensionToMimeMap :: "string \<Rightarrow> string option" where
  "fileExtensionToMimeMap =
     [''mp4'' \<mapsto> ''video/mp4'', ''m4a'' \<mapsto> ''video/mp4'', ''ogv'' \<mapsto> ''video/ogg'',
      ''mpeg'' \<mapsto> ''video/mpeg'', ''webm'' \<mapsto> ''video/webm'']"

definition getMimeTypeFromFile :: "string \<Rightarrow> string option" where
  "getMimeTypeFromFile filename = fileExtensionToMimeMap (last (split_on (CHR ''.'') filename))"

section \<open>Facts\<close>

lemma fold_map_upd: "fold (\<lambda>(k, v) q. q(k \<mapsto> v)) kvs m = m ++ map_of (rev kvs)"
  by (induction kvs arbitrary: m) (auto simp: fun_eq_iff map_add_def split: option.splits)

lemma query_object_eq: "query_object search = map_of (rev (query_pairs [] search))"
  by (simp add: query_object_def fold_map_upd)

lemma no_dependencies: "getQueryHash search ''dependencies'' = None"
  by (auto simp: getQueryHash_def Let_def)

lemma getQueryHash_eq:
  "getQueryHash search k =
     (if k = ''dependencies'' then None
      else map_option (\<lambda>v. deserialize_string (unescape v)) (query_object search k))"
  by (auto simp: getQueryHash_def Let_def deserialize_def)

text \<open>A query string built from names and values is read back pair by pair.\<close>

definition show_pair :: "string \<times> string \<Rightarrow> string" where
  "show_pair kv = fst kv @ ''='' @ snd kv"

definition show_query :: "(string \<times> string) list \<Rightarrow> string" where
  "show_query kvs = ''?'' @ join_with ''&'' (map show_pair kvs)"

definition query_pair :: "string \<times> string \<Rightarrow> bool" where
  "query_pair kv \<longleftrightarrow> fst kv \<noteq> [] \<and> list_all is_alnum (fst kv) \<and> list_all is_value_char (snd kv)"

lemma query_pairs_name:
  "list_all is_alnum k \<Longrightarrow> query_pairs name (k @ s) = query_pairs (name @ k) s"
proof (induction k arbitrary: name)
  case Nil
  show ?case by simp
next
  case (Cons c k)
  then have "c \<noteq> CHR ''=''" by (auto simp: is_alnum_def)
  with Cons show ?case by simp
qed

lemma query_pairs_pair:
  assumes "query_pair kv" and "rest = [] \<or> \<not> is_value_char (hd rest)"
  shows "query_pairs [] (show_pair kv @ rest) = kv # query_pairs [] rest"
proof -
  have "takeWhile is_value_char (snd kv @ rest) = snd kv" "dropWhile is_value_char (snd kv @ rest) = rest"
    using assms by (cases rest; auto simp: query_pair_def list_all_iff takeWhile_tail dropWhile_append
        takeWhile_eq_all_conv [THEN iffD2] dropWhile_eq_Nil_conv [THEN iffD2] takeWhile_append2)+
  with assms(1) show ?thesis
    by (auto simp: show_pair_def query_pair_def query_pairs_name)
qed

lemma query_pairs_join:
  "list_all query_pair kvs \<Longrightarrow> query_pairs [] (join_with ''&'' (map show_pair kvs)) = kvs"
proof (induction kvs rule: induct_list012)
  case (2 kv)
  then show ?case using query_pairs_pair [of kv "[]"] by simp
next
  case (3 kv kv' kvs)
  have amp: "\<not> is_value_char (CHR ''&'')" "\<not> is_alnum (CHR ''&'')"
    by (simp_all add: is_value_char_def is_alnum_def)
  with 3 query_pairs_pair [of kv "''&'' @ _"] show ?case by simp
qed simp

lemma query_round_trip:
  assumes "list_all query_pair kvs"
  shows "query_object (show_query kvs) = map_of (rev kvs)"
proof -
  have "\<not> is_alnum (CHR ''?'')" by (simp add: is_alnum_def)
  with assms show ?thesis by (simp add: query_object_eq show_query_def query_pairs_join)
qed

lemma unescape_plain: "CHR 0x25 \<notin> set s \<Longrightarrow> unescape s = s"
  by (induction s) auto

text \<open>
  A query of names and values is read back pair by pair, the last value of a name wins, and no query
  sets the dependencies.
\<close>

lemma query_options:
  assumes "list_all query_pair kvs"
  shows "getQueryHash (show_query kvs) k =
    (if k = ''dependencies'' then None
     else map_option (\<lambda>v. deserialize_string (unescape v)) (map_of (rev kvs) k))"
  by (simp add: getQueryHash_eq query_round_trip [OF assms])

end
