(* ===== verification/SlideContent.thy ===== *)
theory SlideContent
  imports Backgrounds Queries
begin

text \<open>
  The media of the slides, js/controllers/slidecontent.js: lazy loading, unloading and playback.  The
  state is the document with the listeners the controller installs on media elements; what it asks
  of the elements themselves (\<open>play\<close>, \<open>pause\<close>, \<open>postMessage\<close>, \<open>load\<close>) is recorded in order.  Facts only
  the browser knows (\<open>readyState\<close>, \<open>contentWindow\<close>) are arguments.
\<close>

section \<open>State\<close>

datatype content_call =
    MediaLoad nat
  | FitTextIn nat
  | ReloadImage nat
  | PlayMedia nat
  | RewindMedia nat
  | PauseMedia nat
  | PostFrame nat string

record content =
  cdoc :: dom
  loadeddata :: "nat set"
    \<comment> \<open>media with a listener that starts them once they have loaded\<close>
  frame_load :: "nat set"
    \<comment> \<open>frames with a listener that starts them once they have loaded\<close>
  play_caught :: "nat set"
    \<comment> \<open>media whose pending \<open>play()\<close> has a handler for its rejection\<close>
  play_listeners :: "nat set"
    \<comment> \<open>media that hide their controls when they play\<close>
  with_controls :: "nat set"
  content_calls :: "content_call list"

record content_env =
  ready :: "nat \<Rightarrow> bool"
    \<comment> \<open>\<open>readyState > 1\<close>\<close>
  has_window :: "nat \<Rightarrow> bool"
    \<comment> \<open>\<open>contentWindow\<close> is there\<close>
  catchable :: bool
    \<comment> \<open>\<open>play()\<close> returns a promise\<close>
  mobile :: bool
  speaker_notes :: bool

definition ask :: "content_call \<Rightarrow> content \<Rightarrow> content" where
  "ask x c = c\<lparr>content_calls := content_calls c @ [x]\<rparr>"

definition on_doc :: "(dom \<Rightarrow> dom) \<Rightarrow> content \<Rightarrow> content" where
  "on_doc f c = c\<lparr>cdoc := f (cdoc c)\<rparr>"

definition is_av :: "elem \<Rightarrow> bool" where
  "is_av e \<longleftrightarrow> tag e \<in> {Video, Audio}"

definition is_iframe :: "elem \<Rightarrow> bool" where
  "is_iframe e \<longleftrightarrow> tag e = Iframe"

section \<open>load\<close>

definition shouldPreload :: "content_config \<Rightarrow> elem \<Rightarrow> bool" where
  "shouldPreload cc e =
     (case cfg_preloadIframes cc of Some b \<Rightarrow> b | None \<Rightarrow> has_attr DataPreload e)"

text \<open>Moving \<open>data-src\<close> to \<open>src\<close>, and back.\<close>

definition load_src :: "elem \<Rightarrow> elem" where
  "load_src e =
     (case attrs e DataSrc of
        Some v \<Rightarrow> remove_attr DataSrc (set_attr DataLazyLoaded [] (set_attr Src v e))
      | None \<Rightarrow> e)"

definition unload_src :: "elem \<Rightarrow> elem" where
  "unload_src e =
     (case attrs e Src of Some v \<Rightarrow> remove_attr Src (set_attr DataSrc v e) | None \<Rightarrow> e)"

definition load_lazy :: "content_config \<Rightarrow> nat \<Rightarrow> dom \<Rightarrow> dom" where
  "load_lazy cc s dm =
     update_all load_src
       (queryAll dm s (\<lambda>e. tag e \<in> {Img, Video, Audio, Iframe} \<and> has_attr DataSrc e
          \<and> (tag e \<noteq> Iframe \<or> shouldPreload cc e))) dm"

definition load_sources :: "bool \<Rightarrow> nat \<Rightarrow> content \<Rightarrow> content" where
  "load_sources mob media c =
     (let sources = queryAll (cdoc c) media (\<lambda>e. tag e = Source \<and> has_attr DataSrc e);
          c1 = on_doc (update_all load_src sources) c;
          c2 = (if mob \<and> tag (el (cdoc c) media) = Video
                then on_doc (update_el media (set_attr Playsinline [])) c1 else c1)
      in if sources \<noteq> [] then ask (MediaLoad media) c2 else c2)"

text \<open>The background of the slide.\<close>

definition data_regex :: regex where
  "data_regex = RSeq RBol (word ''data:'')"

definition css_url :: "string \<Rightarrow> string" where
  "css_url u = ''url('' @ u @ '')''"

definition background_image_style :: "string \<Rightarrow> string" where
  "background_image_style images =
     (if test data_regex (js_trim images) then css_url (js_trim images)
      else join_with '','' (map (\<lambda>b. css_url (encodeURI (js_trim b))) (split_on (CHR '','') images)))"

definition quoted :: "string \<Rightarrow> string" where
  "quoted s = CHR 0x22 # s @ [CHR 0x22]"

definition source_markup :: "string \<Rightarrow> string" where
  "source_markup source =
     (case getMimeTypeFromFile source of
        Some t \<Rightarrow> (if t \<noteq> [] then ''<source src='' @ quoted source @ '' type='' @ quoted t @ ''>''
                   else ''<source src='' @ quoted source @ ''>'')
      | None \<Rightarrow> ''<source src='' @ quoted source @ ''>'')"

definition background_video :: "bool \<Rightarrow> bool \<Rightarrow> bool \<Rightarrow> string \<Rightarrow> bg_child" where
  "background_video mob loop muted video =
     BgVideo loop (muted \<or> mob) mob (concat (map source_markup (split_on (CHR '','') video)))"

definition load_background_media ::
  "bool \<Rightarrow> bool \<Rightarrow> bool \<Rightarrow> (attr \<Rightarrow> string option) \<Rightarrow> background \<Rightarrow> background" where
  "load_background_media mob isSpeaker excludeIframes data bg =
     (if truthy_string (data DataBackgroundImage)
      then bg\<lparr>content_image := background_image_style (or_empty (data DataBackgroundImage))\<rparr>
      else if truthy_string (data DataBackgroundVideo) \<and> \<not> isSpeaker
      then bg\<lparr>content_children := content_children bg @
              [background_video mob (data DataBackgroundVideoLoop \<noteq> None)
                 (data DataBackgroundVideoMuted \<noteq> None) (or_empty (data DataBackgroundVideo))]\<rparr>
      else if truthy_string (data DataBackgroundIframe) \<and> \<not> excludeIframes
      then bg\<lparr>content_children := content_children bg @ [BgIframe (or_empty (data DataBackgroundIframe)) None]\<rparr>
      else bg)"

definition autoplay_regex :: regex where
  "autoplay_regex =
     ignore_case (RSeq (word ''autoplay='') (RAlt (word ''1'') (RAlt (word ''true'') (word ''yes''))))"

text \<open>The first frame is the only one the code loads.\<close>

fun preload_first :: "string option \<Rightarrow> bg_child list \<Rightarrow> bg_child list" where
  "preload_first v [] = []"
| "preload_first v (BgVideo a b c d # cs) = BgVideo a b c d # preload_first v cs"
| "preload_first v (BgIframe d src # cs) =
     BgIframe d (if src \<noteq> v then Some (or_null v) else src) # cs"

definition load_background ::
  "content_config \<Rightarrow> bool \<Rightarrow> bool \<Rightarrow> bool \<Rightarrow> (attr \<Rightarrow> string option) \<Rightarrow> background \<Rightarrow> background" where
  "load_background cc mob isSpeaker excludeIframes data bg =
     (let bg1 = bg\<lparr>bg_display := ''block''\<rparr>;
          bg2 = (if bg_loaded bg1 then bg1
                 else load_background_media mob isSpeaker excludeIframes data (bg1\<lparr>bg_loaded := True\<rparr>));
          preload = (case cfg_preloadIframes cc of Some b \<Rightarrow> b | None \<Rightarrow> bg_preload bg2)
      in if preload \<and> \<not> test autoplay_regex (or_null (data DataBackgroundIframe))
         then bg2\<lparr>content_children := preload_first (data DataBackgroundIframe) (content_children bg2)\<rparr>
         else bg2)"

definition content_layout :: "nat \<Rightarrow> content \<Rightarrow> content" where
  "content_layout s c = fold (\<lambda>f. ask (FitTextIn f)) (queryAll (cdoc c) s (has_class FitText)) c"

definition content_load ::
  "content_config \<Rightarrow> content_env \<Rightarrow> bool \<Rightarrow> nat \<Rightarrow> content \<times> backgrounds \<Rightarrow> content \<times> backgrounds" where
  "content_load cc ce excludeIframes s cb =
     (case cb of
        (c, b) \<Rightarrow>
          (let c1 = on_doc (update_el s (\<lambda>e. e\<lparr>displayNone := (cfg_display cc = ''none'')\<rparr>)) c;
               c2 = on_doc (load_lazy cc s) c1;
               c3 = fold (load_sources (mobile ce)) (queryAll (cdoc c2) s is_av) c2;
               b' = (case slideBackground b s of
                       None \<Rightarrow> b
                     | Some a \<Rightarrow> update_bg a (load_background cc (mobile ce) (speaker_notes ce) excludeIframes
                                               (attrs (el (cdoc c3) s))) b)
           in (content_layout s c3, b')))"

section \<open>unload\<close>

definition unload_frame :: "bg_child \<Rightarrow> bg_child" where
  "unload_frame x = (case x of BgIframe d src \<Rightarrow> BgIframe d None | BgVideo _ _ _ _ \<Rightarrow> x)"

definition unload_frames :: "background \<Rightarrow> background" where
  "unload_frames bg = bg\<lparr>content_children := map unload_frame (content_children bg)\<rparr>"

text \<open>The element of a stack contains the elements of its vertical slides.\<close>

definition background_tree :: "backgrounds \<Rightarrow> nat \<Rightarrow> nat list" where
  "background_tree b a = a # concat (map (\<lambda>(m, vs). if m = a then vs else []) (bg_columns b))"

definition unload_background :: "nat \<Rightarrow> backgrounds \<Rightarrow> backgrounds" where
  "unload_background a b =
     fold (\<lambda>x. update_bg x unload_frames) (background_tree b a)
       (update_bg a (\<lambda>bg. bg\<lparr>bg_display := ''none''\<rparr>) b)"

definition unload_media :: "nat \<Rightarrow> dom \<Rightarrow> dom" where
  "unload_media s dm =
     update_all unload_src
       (queryAll dm s (\<lambda>e. tag e \<in> {Video, Audio, Iframe} \<and> has_attr DataLazyLoaded e \<and> has_attr Src e)) dm"

definition unload_sources :: "nat \<Rightarrow> dom \<Rightarrow> dom" where
  "unload_sources s dm =
     update_all unload_src
       (queryIds dm s (\<lambda>i. tag (el dm i) = Source \<and> has_attr Src (el dm i)
          \<and> (has_ancestor dm (\<lambda>e. tag e = Video \<and> has_attr DataLazyLoaded e) i \<or> has_ancestor dm (\<lambda>e. tag e = Audio) i))) dm"

definition content_unload :: "nat \<Rightarrow> content \<times> backgrounds \<Rightarrow> content \<times> backgrounds" where
  "content_unload s cb =
     (case cb of
        (c, b) \<Rightarrow>
          (on_doc (\<lambda>dm. unload_sources s (unload_media s (update_el s (\<lambda>e. e\<lparr>displayNone := True\<rparr>) dm))) c,
           (case slideBackground b s of None \<Rightarrow> b | Some a \<Rightarrow> unload_background a b)))"

section \<open>formatEmbeddedContent\<close>

definition append_param :: "attr \<Rightarrow> string \<Rightarrow> elem \<Rightarrow> elem" where
  "append_param a param e =
     (let src = or_empty (attrs e a)
      in if src \<noteq> [] \<and> \<not> contains_substring param src
         then set_attr a (src @ (if CHR ''?'' \<in> set src then ''&'' else ''?'') @ param) e
         else e)"

definition appendParamToIframeSource :: "attr \<Rightarrow> string \<Rightarrow> string \<Rightarrow> dom \<Rightarrow> dom" where
  "appendParamToIframeSource a sourceURL param dm =
     update_all (append_param a param)
       (queryAll_node dm (dom_root dm)
         (\<lambda>e. is_iframe e \<and> has_attr a e \<and> contains_substring sourceURL (or_empty (attrs e a)))) dm"

definition formatEmbeddedContent :: "content \<Rightarrow> content" where
  "formatEmbeddedContent =
     on_doc (appendParamToIframeSource DataSrc ''player.vimeo.com/'' ''api=1''
       \<circ> appendParamToIframeSource Src ''player.vimeo.com/'' ''api=1''
       \<circ> appendParamToIframeSource DataSrc ''youtube.com/embed/'' ''enablejsapi=1''
       \<circ> appendParamToIframeSource Src ''youtube.com/embed/'' ''enablejsapi=1'')"

section \<open>Playback\<close>

text \<open>Content of a fragment that has not been shown.\<close>

definition in_hidden_fragment :: "dom \<Rightarrow> nat \<Rightarrow> bool" where
  "in_hidden_fragment dm i \<longleftrightarrow>
     closest dm i (has_class Fragment) \<noteq> None
     \<and> closest dm i (\<lambda>e. has_class Fragment e \<and> has_class Visible e) = None"

definition autoplays :: "content_config \<Rightarrow> dom \<Rightarrow> nat \<Rightarrow> bool" where
  "autoplays cc dm i =
     (case cfg_autoPlayMedia cc of
        Some b \<Rightarrow> b
      | None \<Rightarrow> has_attr DataAutoplay (el dm i) \<or> closest dm i (has_class SlideBackgroundClass) \<noteq> None)"

text \<open>An element of the tree is attached; it is visible inside of a present slide.\<close>

definition is_attached :: "dom \<Rightarrow> nat \<Rightarrow> bool" where
  "is_attached dm i \<longleftrightarrow> element_path dm i \<noteq> []"

definition startEmbeddedMedia :: "nat \<Rightarrow> content \<Rightarrow> content" where
  "startEmbeddedMedia i c =
     (let c1 = (if is_attached (cdoc c) i \<and> closest (cdoc c) i (has_class Present) \<noteq> None
                then ask (PlayMedia i) (ask (RewindMedia i) c) else c)
      in c1\<lparr>loadeddata := loadeddata c1 - {i}\<rparr>)"

definition start_message :: "content_config \<Rightarrow> dom \<Rightarrow> nat \<Rightarrow> string" where
  "start_message cc dm i =
     (let src = or_null (attrs (el dm i) Src)
      in if contains_substring ''youtube.com/embed/'' src \<and> autoplays cc dm i
         then ''{'' @ quoted ''event'' @ '':'' @ quoted ''command'' @ '','' @ quoted ''func'' @ '':''
                @ quoted ''playVideo'' @ '','' @ quoted ''args'' @ '':'' @ quoted [] @ ''}''
         else if contains_substring ''player.vimeo.com/'' src \<and> autoplays cc dm i
         then ''{'' @ quoted ''method'' @ '':'' @ quoted ''play'' @ ''}''
         else ''slide:start'')"

definition startEmbeddedIframe :: "content_config \<Rightarrow> content_env \<Rightarrow> nat \<Rightarrow> content \<Rightarrow> content" where
  "startEmbeddedIframe cc ce i c =
     (if has_window ce i \<and> is_attached (cdoc c) i \<and> closest (cdoc c) i (has_class Present) \<noteq> None
      then ask (PostFrame i (start_message cc (cdoc c) i)) c else c)"

definition start_av :: "content_config \<Rightarrow> content_env \<Rightarrow> nat \<Rightarrow> content \<Rightarrow> content" where
  "start_av cc ce i c =
     (if in_hidden_fragment (cdoc c) i \<or> \<not> autoplays cc (cdoc c) i then c
      else if ready ce i then startEmbeddedMedia i c
      else if mobile ce
      then (let c1 = ask (PlayMedia i) c
            in if catchable ce \<and> i \<notin> with_controls c1
               then c1\<lparr>play_caught := insert i (play_caught c1)\<rparr> else c1)
      else c\<lparr>loadeddata := insert i (loadeddata c)\<rparr>)"

definition start_frame :: "content_config \<Rightarrow> content_env \<Rightarrow> nat \<Rightarrow> content \<Rightarrow> content" where
  "start_frame cc ce i c =
     (if in_hidden_fragment (cdoc c) i then c else startEmbeddedIframe cc ce i c)"

definition start_lazy_frame :: "nat \<Rightarrow> content \<Rightarrow> content" where
  "start_lazy_frame i c =
     (let e = el (cdoc c) i
      in if in_hidden_fragment (cdoc c) i \<or> attrs e Src = attrs e DataSrc then c
         else on_doc (update_el i (set_attr Src (or_null (attrs e DataSrc))))
           (c\<lparr>frame_load := insert i (frame_load c)\<rparr>))"

definition ends_with :: "string \<Rightarrow> string \<Rightarrow> bool" where
  "ends_with w s \<longleftrightarrow> length w \<le> length s \<and> drop (length s - length w) s = w"

definition startEmbeddedContent ::
  "content_config \<Rightarrow> content_env \<Rightarrow> nat option \<Rightarrow> content \<Rightarrow> content" where
  "startEmbeddedContent cc ce element c =
     (case element of
        None \<Rightarrow> c
      | Some s \<Rightarrow>
          if speaker_notes ce then c
          else
            (let c1 = fold (\<lambda>i. ask (ReloadImage i))
                   (queryAll (cdoc c) s (\<lambda>e. tag e = Img \<and> has_attr Src e \<and> ends_with ''.gif'' (or_empty (attrs e Src)))) c;
                 c2 = fold (start_av cc ce) (queryAll (cdoc c1) s is_av) c1;
                 c3 = fold (start_frame cc ce) (queryAll (cdoc c2) s (\<lambda>e. is_iframe e \<and> has_attr Src e)) c2
             in fold start_lazy_frame (queryAll (cdoc c3) s (\<lambda>e. is_iframe e \<and> has_attr DataSrc e)) c3))"

text \<open>The events the installed listeners wait for.\<close>

definition media_loaded :: "nat \<Rightarrow> content \<Rightarrow> content" where
  "media_loaded i c = (if i \<in> loadeddata c then startEmbeddedMedia i c else c)"

definition frame_loaded :: "content_config \<Rightarrow> content_env \<Rightarrow> nat \<Rightarrow> content \<Rightarrow> content" where
  "frame_loaded cc ce i c = (if i \<in> frame_load c then startEmbeddedIframe cc ce i c else c)"

definition play_rejected :: "nat \<Rightarrow> content \<Rightarrow> content" where
  "play_rejected i c =
     (if i \<in> play_caught c
      then c\<lparr>play_caught := play_caught c - {i}, with_controls := insert i (with_controls c),
             play_listeners := insert i (play_listeners c)\<rparr>
      else c)"

definition play_started :: "nat \<Rightarrow> content \<Rightarrow> content" where
  "play_started i c =
     (if i \<in> play_listeners c then c\<lparr>with_controls := with_controls c - {i}\<rparr> else c)"

section \<open>stopEmbeddedContent\<close>

definition stop_av :: "nat \<Rightarrow> content \<Rightarrow> content" where
  "stop_av i c =
     (if has_attr DataIgnore (el (cdoc c) i) then c
      else ask (PauseMedia i) (on_doc (update_el i (set_attr DataPausedByReveal [])) c))"

definition stop_frame :: "content_env \<Rightarrow> nat \<Rightarrow> content \<Rightarrow> content" where
  "stop_frame ce i c =
     (let c1 = (if has_window ce i then ask (PostFrame i ''slide:stop'') c else c)
      in c1\<lparr>frame_load := frame_load c1 - {i}\<rparr>)"

definition pause_frame :: "content_env \<Rightarrow> string \<Rightarrow> nat \<Rightarrow> content \<Rightarrow> content" where
  "pause_frame ce msg i c =
     (if has_attr DataIgnore (el (cdoc c) i) \<or> \<not> has_window ce i then c else ask (PostFrame i msg) c)"

definition frames_of :: "string \<Rightarrow> elem \<Rightarrow> bool" where
  "frames_of url e \<longleftrightarrow> is_iframe e \<and> has_attr Src e \<and> contains_substring url (or_empty (attrs e Src))"

definition pause_video_message :: string where
  "pause_video_message =
     ''{'' @ quoted ''event'' @ '':'' @ quoted ''command'' @ '','' @ quoted ''func'' @ '':''
       @ quoted ''pauseVideo'' @ '','' @ quoted ''args'' @ '':'' @ quoted [] @ ''}''"

definition pause_message :: string where
  "pause_message = ''{'' @ quoted ''method'' @ '':'' @ quoted ''pause'' @ ''}''"

definition stopEmbeddedContent ::
  "content_env \<Rightarrow> bool \<Rightarrow> nat option \<Rightarrow> content \<Rightarrow> content" where
  "stopEmbeddedContent ce unloadIframes element c =
     (case element of
        None \<Rightarrow> c
      | Some s \<Rightarrow>
          if \<not> is_attached (cdoc c) s then c
          else
            (let c1 = fold stop_av (queryAll (cdoc c) s is_av) c;
                 c2 = fold (stop_frame ce) (queryAll (cdoc c1) s is_iframe) c1;
                 c3 = fold (pause_frame ce pause_video_message)
                   (queryAll (cdoc c2) s (frames_of ''youtube.com/embed/'')) c2;
                 c4 = fold (pause_frame ce pause_message)
                   (queryAll (cdoc c3) s (frames_of ''player.vimeo.com/'')) c3
             in if unloadIframes
                then on_doc (\<lambda>dm. update_all (remove_attr Src)
                       (queryAll dm s (\<lambda>e. is_iframe e \<and> has_attr DataSrc e)) dm) c4
                else c4))"

end
