(* ===== verification/Places.thy ===== *)
theory Places
  imports Positions
begin

text \<open>
  The queries that read the position back from the document: the parent of a vertical slide is its
  stack, \<open>getIndices\<close> of the slide at a position gives that position, and \<open>getSlidePastCount\<close> counts
  the slides that come first in document order.
\<close>

section \<open>Parents\<close>

lemma index_of_nth:
  assumes "distinct xs" and "k < length xs"
  shows "index_of xs (xs ! k) = int k"
proof -
  have "takeWhile (\<lambda>y. y \<noteq> xs ! k) xs = take k xs"
    using assms by (intro takeWhile_eq_take_P_nth) (auto simp: nth_eq_iff_index_eq)
  with assms(2) show ?thesis by (simp add: index_of_def Let_def)
qed

text \<open>In a tree of distinct elements an element is the child of one node only.\<close>

lemma forest_subtree:
  assumes "distinct (map nid (forest ns))" and "n \<in> set ns"
  shows "distinct (map nid (n # descendants n))"
  using assms by (auto simp: map_concat distinct_concat_iff comp_def dest!: split_list)

lemma forest_apart:
  assumes "distinct (map nid (forest ns))" and "a \<in> set ns" "b \<in> set ns"
    and "p \<in> set (a # descendants a)" "q \<in> set (b # descendants b)" "nid p = nid q"
  shows "a = b"
  using assms
proof (induction ns)
  case Nil
  then show ?case by simp
next
  case (Cons c ns)
  have d: "nid ` set (c # descendants c) \<inter> nid ` set (forest ns) = {}" "distinct (map nid (forest ns))"
    using Cons.prems(1) by auto
  have sub: "nid x \<in> nid ` set (forest ns)" if "x \<in> set (y # descendants y)" "y \<in> set ns" for x y
    using that by auto
  show ?case
    using Cons.IH [OF d(2)] Cons.prems(2-6) sub [of p a] sub [of q b] d(1) by (auto simp del: map_concat)
qed

lemma children_child: "m \<in> set (children n) \<Longrightarrow> m \<in> set (n # descendants n)"
  using child_in_descendants by simp

lemma unique_parent:
  assumes "distinct (map nid (n # descendants n))"
    and "p \<in> set (n # descendants n)" "q \<in> set (n # descendants n)"
    and "m \<in> set (children p)" "m' \<in> set (children q)" "nid m = nid m'"
  shows "p = q"
  using assms
proof (induction n rule: descendants.induct)
  case (1 i ns)
  have d: "distinct (map nid (forest ns))" using "1.prems"(1) by simp
  have top: False if "m1 \<in> set ns" "c \<in> set ns" "r \<in> set (c # descendants c)" "m2 \<in> set (children r)"
    "nid m1 = nid m2" for m1 m2 c r
  proof -
    have "m2 \<in> set (descendants c)"
      using that(3,4) child_in_descendants descendants_trans by (metis set_ConsD subsetD)
    from forest_disjoint [OF d that(2) this] that(1,5) show False by (metis imageI)
  qed
  have inside: "\<exists>c \<in> set ns. r \<in> set (c # descendants c)" if "r \<in> set (descendants (Node i ns))" for r
    using that by auto
  have root: "children (Node i ns) = ns" by simp
  consider "p = Node i ns" "q = Node i ns" | "p = Node i ns" "q \<in> set (descendants (Node i ns))"
    | "q = Node i ns" "p \<in> set (descendants (Node i ns))"
    | "p \<in> set (descendants (Node i ns))" "q \<in> set (descendants (Node i ns))"
    using "1.prems"(2,3) by auto
  then show ?case
  proof cases
    case 2
    then show ?thesis using inside [of q] top "1.prems"(4-6) root by metis
  next
    case 3
    then show ?thesis using inside [of p] top "1.prems"(4-6) root by metis
  next
    case 4
    obtain a b where ab: "a \<in> set ns" "p \<in> set (a # descendants a)" "b \<in> set ns" "q \<in> set (b # descendants b)"
      using inside [OF 4(1)] inside [OF 4(2)] by blast
    have "m \<in> set (a # descendants a)" "m' \<in> set (b # descendants b)"
      using ab "1.prems"(4,5) child_in_descendants descendants_trans by (metis list.set_intros(2) set_ConsD subsetD)+
    with ab have "a = b" using forest_apart [OF d] "1.prems"(6) by blast
    with ab "1.IH" [of a] forest_subtree [OF d ab(1)] "1.prems"(4-6) show ?thesis by blast
  qed simp
qed

lemma parent_of_child:
  assumes "distinct_ids dm" and "p \<in> set (nodes dm)" and "m \<in> set (children p)"
  shows "parent_of dm (nid m) = Some p"
  unfolding parent_of_def
proof (rule find_unique)
  show "p \<in> set (nodes dm)" by (rule assms(2))
  show "nid m \<in> set (map nid (children p))" using assms(3) by simp
  fix q assume q: "q \<in> set (nodes dm)" "nid m \<in> set (map nid (children q))"
  then obtain m' where "m' \<in> set (children q)" "nid m' = nid m" by auto
  with q(1) assms unique_parent [of "dom_root dm" q p m' m] show "q = p"
    by (auto simp: nodes_def distinct_ids_def)
qed

lemma wf_vertical_parent:
  assumes wf: "wf_doc dm" and n: "n \<in> set (horizontal_nodes dm)"
    and s: "s \<in> set (queryAll dm (nid n) is_section)"
  shows "parent_of dm s = Some n" and "is_vertical dm s"
proof -
  obtain m where m: "m \<in> set (children n)" "nid m = s"
    using s wf_verticals(1) [OF wf n] by (auto simp: section_children_def)
  with parent_of_child [OF _ horizontal_node_in_nodes [OF n] m(1)] wf
  show p: "parent_of dm s = Some n" by (simp add: wf_doc_def)
  show "is_vertical dm s"
    using n by (simp add: is_vertical_def p horizontal_nodes_def section_children_def)
qed

section \<open>Indices of a slide\<close>

text \<open>\<open>getIndices\<close> inverts \<open>getSlide\<close>.\<close>

lemma getIndices_getSlide:
  assumes wf: "wf_doc (doc d)" and s: "getSlide d i (Num j) = Some s"
  shows "getIndices d (Some s) =
    \<lparr>ih = Num i,
     iv = (if queryAll (doc d) (getHorizontalSlides d ! nat i) is_section = [] then Undef else Num j),
     ifr = Undef\<rparr>"
proof -
  let ?hs = "getHorizontalSlides d"
  have i: "0 \<le> i" "i < int (length ?hs)" using s by (auto simp: getSlide_def Let_def split: if_splits)
  define n where "n = horizontal_nodes (doc d) ! nat i"
  have n: "n \<in> set (horizontal_nodes (doc d))" "nid n = ?hs ! nat i"
    using i by (simp_all add: n_def getHorizontalSlides_def horizontal_slides_def)
  have hs: "index_of ?hs (?hs ! nat i) = i"
    using index_of_nth [of ?hs "nat i"] i wf_horizontal_distinct [OF wf] by (simp add: getHorizontalSlides_def)
  let ?vs = "queryAll (doc d) (?hs ! nat i) is_section"
  show ?thesis
  proof (cases "?vs = []")
    case True
    with s i have "s = ?hs ! nat i" by (simp add: getSlide_def Let_def)
    moreover have "\<not> isVerticalSlide d (?hs ! nat i)"
      using wf_parent [OF wf n(1)] by (simp add: isVerticalSlide_def n(2))
    ultimately show ?thesis using True i by (simp add: getIndices_def Let_def hs)
  next
    case False
    with s i have j: "0 \<le> j" "j < int (length ?vs)" "s = ?vs ! nat j"
      by (auto simp: getSlide_def Let_def split: if_splits)
    then have "s \<in> set (queryAll (doc d) (nid n) is_section)" by (simp add: n(2))
    note p = wf_vertical_parent [OF wf n(1) this]
    have "index_of ?vs s = j"
      using index_of_nth [of ?vs "nat j"] wf_verticals(2) [OF wf n(1)] j by (simp add: n(2))
    with False p i j show ?thesis
      by (simp add: getIndices_def isVerticalSlide_def Let_def hs n(2))
  qed
qed
section \<open>Counting slides\<close>

definition is_counted :: "elem \<Rightarrow> bool" where
  "is_counted e \<longleftrightarrow> \<not> has_class Stack e \<and> \<not> is_uncounted e"

text \<open>
  The documents whose only sections are horizontal slides and the sections in them, and whose class
  \<open>stack\<close> is where \<open>updateSlides\<close> puts it.
\<close>

definition tidy :: "dom \<Rightarrow> bool" where
  "tidy dm \<longleftrightarrow>
     all_slides dm = concat (map (\<lambda>h. h # queryAll dm h is_section) (horizontal_slides dm)) \<and>
     list_all (\<lambda>h. (has_class Stack (el dm h) \<longleftrightarrow> queryAll dm h is_section \<noteq> []) \<and>
       list_all (\<lambda>v. \<not> has_class Stack (el dm v)) (queryAll dm h is_section)) (horizontal_slides dm)"

text \<open>The specification of \<open>getSlidePastCount\<close>: the counted slides before \<open>s\<close> in document order.\<close>

definition slides_before :: "dom \<Rightarrow> nat \<Rightarrow> nat list" where
  "slides_before dm s = filter (\<lambda>i. is_counted (el dm i)) (takeWhile (\<lambda>i. i \<noteq> s) (all_slides dm))"

lemma past_count_verticals_eq:
  "past_count_verticals dm (Some s) vs n =
     (n + length (filter (\<lambda>v. \<not> is_uncounted (el dm v)) (takeWhile (\<lambda>i. i \<noteq> s) vs)), s \<in> set vs)"
  by (induction vs arbitrary: n) auto

lemma past_count_loop_eq:
  assumes "queryAll dm s is_section = []"
    and "\<And>h. h \<in> set hs \<Longrightarrow> has_class Stack (el dm h) \<longleftrightarrow> queryAll dm h is_section \<noteq> []"
    and "\<And>h v. h \<in> set hs \<Longrightarrow> v \<in> set (queryAll dm h is_section) \<Longrightarrow> \<not> has_class Stack (el dm v)"
  shows "past_count_loop dm (Some s) hs n =
    n + length (filter (\<lambda>i. is_counted (el dm i))
          (takeWhile (\<lambda>i. i \<noteq> s) (concat (map (\<lambda>h. h # queryAll dm h is_section) hs))))"
  using assms(2,3)
proof (induction hs arbitrary: n)
  case Nil
  show ?case by simp
next
  case (Cons h hs)
  let ?vs = "queryAll dm h is_section"
  have v: "filter (\<lambda>i. is_counted (el dm i)) (takeWhile P ?vs) =
      filter (\<lambda>v. \<not> is_uncounted (el dm v)) (takeWhile P ?vs)" for P
    using Cons.prems(2) [of h] by (intro filter_cong) (auto simp: is_counted_def dest: set_takeWhileD)
  have ih: "past_count_loop dm (Some s) hs m = m + length (filter (\<lambda>i. is_counted (el dm i))
      (takeWhile (\<lambda>i. i \<noteq> s) (concat (map (\<lambda>h. h # queryAll dm h is_section) hs))))" for m
    using Cons.prems by (intro Cons.IH) auto
  have st: "has_class Stack (el dm h) \<longleftrightarrow> ?vs \<noteq> []" using Cons.prems(1) by simp
  consider "s \<in> set ?vs" | "s \<notin> set ?vs" "s = h" | "s \<notin> set ?vs" "s \<noteq> h" by blast
  then show ?case
  proof cases
    case 1
    then have "?vs \<noteq> []" "h \<noteq> s" using assms(1) by auto
    moreover from this have "\<not> is_counted (el dm h)" using st by (simp add: is_counted_def)
    ultimately show ?thesis using 1 by (simp add: past_count_verticals_eq v takeWhile_append1)
  next
    case 2
    with assms(1) show ?thesis by (simp add: past_count_verticals_eq)
  next
    case 3
    then have "takeWhile (\<lambda>i. i \<noteq> s) (h # ?vs @ r) = h # ?vs @ takeWhile (\<lambda>i. i \<noteq> s) r" for r
      by (simp, subst takeWhile_append2) auto
    moreover have tw: "takeWhile (\<lambda>i. i \<noteq> s) ?vs = ?vs"
      using 3 by (intro takeWhile_eq_all_conv [THEN iffD2]) auto
    have "past_count_verticals dm (Some s) ?vs n = (n + length (filter (\<lambda>i. is_counted (el dm i)) ?vs), False)"
      using v [of "\<lambda>i. i \<noteq> s"] 3 unfolding past_count_verticals_eq tw by simp
    ultimately show ?thesis using 3 st by (simp add: ih is_counted_def)
  qed
qed

lemma past_count_before:
  assumes "tidy (doc d)" and "queryAll (doc d) s is_section = []"
  shows "getSlidePastCount d (Some s) = length (slides_before (doc d) s)"
  using assms past_count_loop_eq [of "doc d" s "getHorizontalSlides d" 0]
  by (simp add: getSlidePastCount_def tidy_def slides_before_def list_all_iff getHorizontalSlides_def)

text \<open>A counted slide is not among the slides before it.\<close>

lemma slides_before_less:
  assumes "s \<in> set (getSlides d)"
  shows "length (slides_before (doc d) s) < getTotalSlides d"
proof -
  let ?f = "filter (\<lambda>i. is_counted (el (doc d) i))"
  have g: "getSlides d = ?f (all_slides (doc d))"
    by (simp add: getSlides_def is_counted_def)
  have "s \<in> set xs \<Longrightarrow> s \<in> set (dropWhile (\<lambda>i. i \<noteq> s) xs)" for xs by (induction xs) auto
  then have "s \<in> set (dropWhile (\<lambda>i. i \<noteq> s) (all_slides (doc d)))" "is_counted (el (doc d) s)"
    using assms unfolding g by auto
  then have "0 < length (?f (dropWhile (\<lambda>i. i \<noteq> s) (all_slides (doc d))))"
    by (auto simp: filter_empty_conv)
  moreover have "length (getSlides d) = length (slides_before (doc d) s) +
      length (?f (dropWhile (\<lambda>i. i \<noteq> s) (all_slides (doc d))))"
    unfolding g slides_before_def length_append [symmetric] filter_append [symmetric] by simp
  ultimately show ?thesis by (simp add: getTotalSlides_def)
qed

section \<open>Progress\<close>

text \<open>With at least two counted slides the progress is a number between 0 and 1.\<close>

lemma progress_Fin:
  assumes "2 \<le> getTotalSlides d"
  shows "\<exists>q. getProgress d = Fin q \<and> 0 \<le> q \<and> q \<le> 1"
proof -
  let ?t = "of_nat (getTotalSlides d) - 1 :: rat"
  have t: "0 < ?t" using assms by simp
  have "\<exists>q. js_min (js_div (Fin p) (Fin ?t)) (Fin 1) = Fin q \<and> 0 \<le> q \<and> q \<le> 1" if "0 \<le> p" for p
    using t that by (auto simp: js_min_Fin)
  then show ?thesis
    unfolding getProgress_def Let_def by (auto split: option.splits)
qed

end
