(* ===== verification/Subtrees.thy ===== *)
theory Subtrees
  imports Places
begin

text \<open>
  Elements below an element: membership in the queries, and that the ancestors of an element below
  a slide lie below the slide, or are the slide or an ancestor of it.
\<close>

definition below :: "dom \<Rightarrow> nat \<Rightarrow> nat \<Rightarrow> bool" where
  "below dm s x \<longleftrightarrow> x \<in> set (queryAll dm s (\<lambda>_. True))"

lemma queryAll_below: "x \<in> set (queryAll dm s P) \<longleftrightarrow> below dm s x \<and> P (el dm x)"
  by (auto simp: below_def queryAll_def queryAll_node_def split: option.splits)

lemma queryIds_below: "x \<in> set (queryIds dm s Q) \<longleftrightarrow> below dm s x \<and> Q x"
  by (auto simp: below_def queryIds_def)

lemma below_root: "dom_root dm' = dom_root dm \<Longrightarrow> below dm' s x = below dm s x"
  using node_of_root [of dm' dm s] by (simp add: below_def queryAll_def queryAll_node_def)

lemma path_root: "dom_root dm' = dom_root dm \<Longrightarrow> element_path dm' x = element_path dm x"
  using nodes_root [of dm' dm] by (simp add: element_path_def)

lemma below_node:
  "below dm s x \<longleftrightarrow> (\<exists>n. node_of dm s = Some n \<and> x \<in> nid ` set (descendants n))"
  by (cases "node_of dm s") (auto simp: below_def queryAll_def queryAll_node_def)

lemma subtrees_compare:
  assumes "distinct (map nid (n # descendants n))"
    and "p \<in> set (n # descendants n)" "q \<in> set (n # descendants n)"
    and "x \<in> nid ` set (descendants p)" "x \<in> nid ` set (descendants q)"
  shows "p = q \<or> p \<in> set (descendants q) \<or> q \<in> set (descendants p)"
  using assms
proof (induction n rule: descendants.induct)
  case (1 i ns)
  have d: "distinct (map nid (forest ns))" using "1.prems"(1) by simp
  show ?case
  proof (cases "p = Node i ns \<or> q = Node i ns")
    case True
    with "1.prems"(2,3) show ?thesis by auto
  next
    case False
    then obtain a b where ab: "a \<in> set ns" "p \<in> set (a # descendants a)" "b \<in> set ns" "q \<in> set (b # descendants b)"
      using "1.prems"(2,3) by auto
    obtain u v where uv: "u \<in> set (descendants p)" "nid u = x" "v \<in> set (descendants q)" "nid v = x"
      using "1.prems"(4,5) by auto
    have "u \<in> set (a # descendants a)" "v \<in> set (b # descendants b)"
      using ab uv descendants_trans by (metis list.set_intros(2) set_ConsD subsetD)+
    then have "a = b" using forest_apart [OF d ab(1,3)] uv by metis
    with ab "1.IH" [of a] forest_subtree [OF d ab(1)] "1.prems"(4,5) show ?thesis by blast
  qed
qed

text \<open>An ancestor of an element below \<open>s\<close> is below \<open>s\<close> itself, or \<open>s\<close> or an ancestor of it.\<close>

lemma ancestor_below:
  assumes d: "distinct_ids dm" and x: "below dm s x" and a: "a \<in> set (element_path dm x)" "a \<noteq> x"
  shows "a \<in> set (element_path dm s) \<or> below dm s a \<and> below dm a x"
proof -
  obtain n where n: "node_of dm s = Some n" "x \<in> nid ` set (descendants n)"
    using x by (auto simp: below_node)
  then have nm: "n \<in> set (nodes dm)" "nid n = s"
    by (auto simp: node_of_def dest: find_Some_mem)
  obtain m where m: "m \<in> set (nodes dm)" "nid m = a" "x \<in> nid ` set (descendants m)"
    using a by (auto simp: element_path_def)
  then have am: "node_of dm a = Some m" using child_node_of [OF d, of m] by simp
  have "m = n \<or> m \<in> set (descendants n) \<or> n \<in> set (descendants m)"
    using subtrees_compare [of "dom_root dm" m n x] d nm m n(2) by (auto simp: distinct_ids_def nodes_def)
  then show ?thesis
  proof (elim disjE)
    assume "m = n"
    with nm m show ?thesis by (auto simp: element_path_def)
  next
    assume "m \<in> set (descendants n)"
    with n am m show ?thesis by (auto simp: below_node)
  next
    assume "n \<in> set (descendants m)"
    with nm m show ?thesis by (auto simp: element_path_def)
  qed
qed

end
