(* ===== verification/ContentLaws.thy ===== *)
theory ContentLaws
  imports SlideContent Subtrees
begin

text \<open>
  Lazy loading and unloading: what \<open>load\<close> and \<open>unload\<close> do to each element, that they undo each other,
  and what playback may start and has to stop.
\<close>

section \<open>What the program reads of a medium\<close>

record media =
  m_tag :: tag
  m_preload :: "string option"
  m_src :: "string option"
  m_data :: "string option"
  m_lazy :: "string option"

definition media_of :: "elem \<Rightarrow> media" where
  "media_of e = \<lparr>m_tag = tag e, m_preload = attrs e DataPreload, m_src = attrs e Src,
     m_data = attrs e DataSrc, m_lazy = attrs e DataLazyLoaded\<rparr>"

definition media_at :: "dom \<Rightarrow> nat \<Rightarrow> media" where
  "media_at dm x = media_of (el dm x)"

lemma media_at_sel [simp]:
  "m_tag (media_at dm x) = tag (el dm x)" "m_src (media_at dm x) = attrs (el dm x) Src"
  "m_data (media_at dm x) = attrs (el dm x) DataSrc" "m_lazy (media_at dm x) = attrs (el dm x) DataLazyLoaded"
  "m_preload (media_at dm x) = attrs (el dm x) DataPreload"
  by (simp_all add: media_at_def media_of_def)

definition loaded :: "media \<Rightarrow> media" where
  "loaded m = (case m_data m of Some v \<Rightarrow> m\<lparr>m_src := Some v, m_data := None, m_lazy := Some []\<rparr> | None \<Rightarrow> m)"

definition unloaded :: "media \<Rightarrow> media" where
  "unloaded m = (case m_src m of Some v \<Rightarrow> m\<lparr>m_src := None, m_data := Some v\<rparr> | None \<Rightarrow> m)"

lemma media_load_src [simp]: "media_of (load_src e) = loaded (media_of e)"
  by (auto simp: media_of_def load_src_def loaded_def split: option.splits)

lemma media_unload_src [simp]: "media_of (unload_src e) = unloaded (media_of e)"
  by (auto simp: media_of_def unload_src_def unloaded_def split: option.splits)

lemma load_src_idem: "load_src (load_src e) = load_src e"
  by (auto simp: load_src_def split: option.splits)

lemma unload_src_idem: "unload_src (unload_src e) = unload_src e"
  by (auto simp: unload_src_def split: option.splits)

lemma loaded_idem [simp]: "loaded (loaded m) = loaded m"
  by (auto simp: loaded_def split: option.splits)

lemma loaded_no_data: "m_data (loaded m) = None"
  by (auto simp: loaded_def split: option.splits)

lemma reload: "m_data m = None \<Longrightarrow> m_src (loaded (unloaded m)) = m_src m \<and> m_data (loaded (unloaded m)) = None"
  by (auto simp: loaded_def unloaded_def split: option.splits)

lemma media_tags [simp]: "m_tag (loaded m) = m_tag m" "m_tag (unloaded m) = m_tag m"
  "m_preload (loaded m) = m_preload m" "m_preload (unloaded m) = m_preload m"
  "m_lazy (unloaded m) = m_lazy m"
  by (auto simp: loaded_def unloaded_def split: option.splits)

section \<open>load\<close>

text \<open>The elements whose source \<open>load\<close> sets.\<close>

definition loads :: "content_config \<Rightarrow> dom \<Rightarrow> nat \<Rightarrow> nat \<Rightarrow> bool" where
  "loads cc dm s x \<longleftrightarrow>
     below dm s x \<and> (tag (el dm x) \<in> {Img, Video, Audio} \<or> tag (el dm x) = Iframe \<and> shouldPreload cc (el dm x))
     \<or> tag (el dm x) = Source \<and> (\<exists>m. below dm s m \<and> is_av (el dm m) \<and> below dm m x)"

lemma load_lazy_root [simp]: "dom_root (load_lazy cc s dm) = dom_root dm"
  by (simp add: load_lazy_def)

lemma media_load_lazy:
  "media_at (load_lazy cc s dm) x =
     (if below dm s x \<and> (tag (el dm x) \<in> {Img, Video, Audio} \<or> tag (el dm x) = Iframe \<and> shouldPreload cc (el dm x))
      then loaded (media_at dm x) else media_at dm x)"
proof (cases "attrs (el dm x) DataSrc")
  case None
  then have "loaded (media_at dm x) = media_at dm x" by (simp add: media_at_def loaded_def media_of_def)
  with None show ?thesis
    by (simp add: load_lazy_def el_update_all [OF load_src_idem] queryAll_below has_attr_def media_at_def)
next
  case (Some v)
  then show ?thesis
    by (auto simp: load_lazy_def el_update_all [OF load_src_idem] queryAll_below has_attr_def media_at_def)
qed

lemma load_sources_root [simp]: "dom_root (cdoc (load_sources mob m c)) = dom_root (cdoc c)"
  by (simp add: load_sources_def Let_def on_doc_def ask_def)

lemma media_playsinline [simp]: "media_of (set_attr Playsinline [] e) = media_of e"
  by (simp add: media_of_def)

lemma media_load_sources:
  "media_at (cdoc (load_sources mob m c)) x =
     (if below (cdoc c) m x \<and> tag (el (cdoc c) x) = Source then loaded (media_at (cdoc c) x)
      else media_at (cdoc c) x)"
proof -
  let ?src = "queryAll (cdoc c) m (\<lambda>e. tag e = Source \<and> has_attr DataSrc e)"
  have upd: "media_at (update_all load_src ?src (cdoc c)) x =
      (if below (cdoc c) m x \<and> tag (el (cdoc c) x) = Source then loaded (media_at (cdoc c) x)
       else media_at (cdoc c) x)"
  proof (cases "attrs (el (cdoc c) x) DataSrc")
    case None
    then have "loaded (media_at (cdoc c) x) = media_at (cdoc c) x"
      by (simp add: media_at_def loaded_def media_of_def)
    with None show ?thesis
      by (simp add: el_update_all [OF load_src_idem] queryAll_below has_attr_def media_at_def)
  next
    case (Some v)
    then show ?thesis
      by (auto simp: el_update_all [OF load_src_idem] queryAll_below has_attr_def media_at_def)
  qed
  have "media_at (update_el m (set_attr Playsinline []) dm) x = media_at dm x" for dm
    by (simp add: media_at_def el_update_el)
  moreover have "cdoc (load_sources mob m c) =
      (if mob \<and> tag (el (cdoc c) m) = Video
       then update_el m (set_attr Playsinline []) (update_all load_src ?src (cdoc c))
       else update_all load_src ?src (cdoc c))"
    by (simp add: load_sources_def Let_def on_doc_def ask_def del: update_all_Nil)
  ultimately show ?thesis using upd by (simp only: split: if_split) blast
qed

lemma media_at_tag:
  assumes "media_at dm x = loaded m \<or> media_at dm x = m"
  shows "tag (el dm x) = m_tag m"
proof -
  have "m_tag (media_at dm x) = m_tag m" using assms by (auto simp del: media_at_sel)
  then show ?thesis by simp
qed

lemma media_load_all_sources:
  "media_at (cdoc (fold (load_sources mob) ms c)) x =
     (if tag (el (cdoc c) x) = Source \<and> (\<exists>m \<in> set ms. below (cdoc c) m x)
      then loaded (media_at (cdoc c) x) else media_at (cdoc c) x)"
proof (induction ms arbitrary: c)
  case Nil
  show ?case by simp
next
  case (Cons m ms)
  have b: "below (cdoc (load_sources mob m c)) k x = below (cdoc c) k x" for k
    by (rule below_root) (rule load_sources_root)
  have t: "tag (el (cdoc (load_sources mob m c)) x) = tag (el (cdoc c) x)"
    using media_load_sources [of mob m c x]
    by (intro media_at_tag [of _ x "media_at (cdoc c) x", unfolded media_at_sel]) (simp split: if_splits)
  show ?case
    by (simp only: fold_simps Cons.IH)
      (cases "below (cdoc c) m x"; cases "tag (el (cdoc c) x) = Source"; simp add: b t media_load_sources)
qed

lemma load_sources_fold_root: "dom_root (cdoc (fold (load_sources mob) ms c)) = dom_root (cdoc c)"
  by (induction ms arbitrary: c) simp_all

lemma content_layout_doc [simp]: "cdoc (content_layout s c) = cdoc c"
proof -
  have "cdoc (fold (\<lambda>f. ask (FitTextIn f)) fs c) = cdoc c" for fs
    by (rule fold_keeps) (simp add: ask_def)
  then show ?thesis by (simp add: content_layout_def)
qed

lemma media_display [simp]: "media_of (e\<lparr>displayNone := b\<rparr>) = media_of e"
  by (simp add: media_of_def)

abbreviation load_doc :: "content_config \<Rightarrow> content_env \<Rightarrow> bool \<Rightarrow> nat \<Rightarrow> content \<times> backgrounds \<Rightarrow> dom" where
  "load_doc cc ce ex s cb \<equiv> cdoc (fst (content_load cc ce ex s cb))"

lemma content_load_media:
  "dom_root (load_doc cc ce ex s cb) = dom_root (cdoc (fst cb))
   \<and> media_at (load_doc cc ce ex s cb) x =
       (if loads cc (cdoc (fst cb)) s x then loaded (media_at (cdoc (fst cb)) x) else media_at (cdoc (fst cb)) x)"
proof -
  obtain c b where cb: "cb = (c, b)" by (cases cb)
  let ?d0 = "update_el s (\<lambda>e. e\<lparr>displayNone := (cfg_display cc = ''none'')\<rparr>) (cdoc c)"
  let ?d1 = "load_lazy cc s ?d0"
  let ?c2 = "on_doc (load_lazy cc s) (on_doc (update_el s (\<lambda>e. e\<lparr>displayNone := (cfg_display cc = ''none'')\<rparr>)) c)"
  have doc: "load_doc cc ce ex s cb = cdoc (fold (load_sources (mobile ce)) (queryAll (cdoc ?c2) s is_av) ?c2)"
    by (simp add: cb content_load_def Let_def)
  have c2: "cdoc ?c2 = ?d1" by (simp add: on_doc_def)
  have r: "dom_root ?d1 = dom_root (cdoc c)" by simp
  have m0: "media_at ?d0 y = media_at (cdoc c) y" for y by (simp add: media_at_def el_update_el)
  have t0: "tag (el ?d0 y) = tag (el (cdoc c) y)" "shouldPreload cc (el ?d0 y) = shouldPreload cc (el (cdoc c) y)"
    "is_av (el ?d0 y) = is_av (el (cdoc c) y)" for y
    using m0 [of y] by (simp_all add: media_at_def media_of_def shouldPreload_def has_attr_def is_av_def split: option.split)
  have m1: "media_at ?d1 y =
     (if below (cdoc c) s y \<and> (tag (el (cdoc c) y) \<in> {Img, Video, Audio} \<or> tag (el (cdoc c) y) = Iframe \<and> shouldPreload cc (el (cdoc c) y))
      then loaded (media_at (cdoc c) y) else media_at (cdoc c) y)" for y
    unfolding media_load_lazy m0 t0 below_root [of ?d0 "cdoc c", OF root_update_el] ..
  have t1: "tag (el ?d1 y) = tag (el (cdoc c) y)" for y
    using m1 [of y] by (intro media_at_tag [of _ y "media_at (cdoc c) y", unfolded media_at_sel]) (simp split: if_splits)
  then have av: "is_av (el ?d1 y) = is_av (el (cdoc c) y)" for y by (simp add: is_av_def)
  have "media_at (load_doc cc ce ex s cb) x =
      (if tag (el (cdoc c) x) = Source \<and> (\<exists>m. below (cdoc c) s m \<and> is_av (el (cdoc c) m) \<and> below (cdoc c) m x)
       then loaded (media_at ?d1 x) else media_at ?d1 x)"
    unfolding doc media_load_all_sources c2 t1
    by (auto simp: queryAll_below av below_root [OF r])
  moreover have "dom_root (load_doc cc ce ex s cb) = dom_root (cdoc c)"
    unfolding doc load_sources_fold_root c2 r ..
  ultimately show ?thesis by (auto simp: m1 loads_def cb)
qed

section \<open>unload\<close>

definition unloads :: "dom \<Rightarrow> nat \<Rightarrow> nat \<Rightarrow> bool" where
  "unloads dm s x \<longleftrightarrow>
     below dm s x
     \<and> (tag (el dm x) \<in> {Video, Audio, Iframe} \<and> has_attr DataLazyLoaded (el dm x)
        \<or> tag (el dm x) = Source
          \<and> (has_ancestor dm (\<lambda>e. tag e = Video \<and> has_attr DataLazyLoaded e) x \<or> has_ancestor dm (\<lambda>e. tag e = Audio) x))"

abbreviation unload_doc :: "nat \<Rightarrow> content \<times> backgrounds \<Rightarrow> dom" where
  "unload_doc s cb \<equiv> cdoc (fst (content_unload s cb))"

lemma unload_no_src: "attrs (el dm x) Src = None \<Longrightarrow> unloaded (media_at dm x) = media_at dm x"
  by (simp add: unloaded_def)

lemma media_unload_media:
  "media_at (unload_media s dm) x =
     (if below dm s x \<and> tag (el dm x) \<in> {Video, Audio, Iframe} \<and> has_attr DataLazyLoaded (el dm x)
      then unloaded (media_at dm x) else media_at dm x)"
  by (cases "attrs (el dm x) Src")
    (auto simp: unload_media_def media_at_def el_update_all [OF unload_src_idem] queryAll_below has_attr_def
      unload_no_src [unfolded media_at_def])

lemma media_unload_sources:
  "media_at (unload_sources s dm) x =
     (if below dm s x \<and> tag (el dm x) = Source
         \<and> (has_ancestor dm (\<lambda>e. tag e = Video \<and> has_attr DataLazyLoaded e) x \<or> has_ancestor dm (\<lambda>e. tag e = Audio) x)
      then unloaded (media_at dm x) else media_at dm x)"
  by (cases "attrs (el dm x) Src")
    (auto simp: unload_sources_def media_at_def el_update_all [OF unload_src_idem] queryIds_below has_attr_def
      unload_no_src [unfolded media_at_def])

lemma has_ancestor_cong:
  assumes "dom_root dm' = dom_root dm" and "\<And>y. P (el dm' y) = P (el dm y)"
  shows "has_ancestor dm' P x = has_ancestor dm P x"
  using assms(2) by (simp add: has_ancestor_def path_root [OF assms(1)])

lemma content_unload_media:
  "dom_root (unload_doc s cb) = dom_root (cdoc (fst cb))
   \<and> media_at (unload_doc s cb) x =
       (if unloads (cdoc (fst cb)) s x then unloaded (media_at (cdoc (fst cb)) x) else media_at (cdoc (fst cb)) x)"
proof -
  obtain c b where cb: "cb = (c, b)" by (cases cb)
  let ?d0 = "update_el s (\<lambda>e. e\<lparr>displayNone := True\<rparr>) (cdoc c)"
  let ?d1 = "unload_media s ?d0"
  have doc: "unload_doc s cb = unload_sources s ?d1" by (simp add: cb content_unload_def on_doc_def)
  have r1: "dom_root ?d1 = dom_root (cdoc c)" by (simp add: unload_media_def)
  have m0: "media_at ?d0 y = media_at (cdoc c) y" for y by (simp add: media_at_def el_update_el)
  have t0: "tag (el ?d0 y) = tag (el (cdoc c) y)" "has_attr DataLazyLoaded (el ?d0 y) = has_attr DataLazyLoaded (el (cdoc c) y)" for y
    by (simp_all add: el_update_el has_attr_def)
  have m1: "media_at ?d1 y =
      (if below (cdoc c) s y \<and> tag (el (cdoc c) y) \<in> {Video, Audio, Iframe} \<and> has_attr DataLazyLoaded (el (cdoc c) y)
       then unloaded (media_at (cdoc c) y) else media_at (cdoc c) y)" for y
    unfolding media_unload_media m0 t0 below_root [of ?d0 "cdoc c", OF root_update_el] ..
  have "m_tag (media_at ?d1 y) = m_tag (media_at (cdoc c) y)" "m_lazy (media_at ?d1 y) = m_lazy (media_at (cdoc c) y)" for y
    unfolding m1 by (simp_all del: media_at_sel)
  then have t1: "tag (el ?d1 y) = tag (el (cdoc c) y)"
    "has_attr DataLazyLoaded (el ?d1 y) = has_attr DataLazyLoaded (el (cdoc c) y)" for y
    by (simp_all add: has_attr_def)
  have i1: "has_ancestor ?d1 (\<lambda>e. tag e = Video \<and> has_attr DataLazyLoaded e) x = has_ancestor (cdoc c) (\<lambda>e. tag e = Video \<and> has_attr DataLazyLoaded e) x"
    "has_ancestor ?d1 (\<lambda>e. tag e = Audio) x = has_ancestor (cdoc c) (\<lambda>e. tag e = Audio) x"
    by (rule has_ancestor_cong [OF r1], simp add: t1)+
  have "media_at (unload_doc s cb) x =
      (if below (cdoc c) s x \<and> tag (el (cdoc c) x) = Source
         \<and> (has_ancestor (cdoc c) (\<lambda>e. tag e = Video \<and> has_attr DataLazyLoaded e) x \<or> has_ancestor (cdoc c) (\<lambda>e. tag e = Audio) x)
       then unloaded (media_at ?d1 x) else media_at ?d1 x)"
    unfolding doc media_unload_sources below_root [OF r1] t1 i1 ..
  moreover have "dom_root (unload_doc s cb) = dom_root (cdoc c)"
    by (simp add: doc unload_sources_def r1)
  ultimately show ?thesis by (auto simp: m1 unloads_def cb)
qed

section \<open>Round trip\<close>

definition no_media_above :: "dom \<Rightarrow> nat \<Rightarrow> bool" where
  "no_media_above dm s \<longleftrightarrow> list_all (\<lambda>j. \<not> is_av (el dm j)) (element_path dm s)"

lemma loads_cong:
  assumes "dom_root dm' = dom_root dm"
    and "\<And>y. tag (el dm' y) = tag (el dm y) \<and> attrs (el dm' y) DataPreload = attrs (el dm y) DataPreload"
  shows "loads cc dm' s x = loads cc dm s x"
  using assms(2) by (simp add: loads_def below_root [OF assms(1)] is_av_def shouldPreload_def has_attr_def split: option.split)

lemma unloads_loads:
  assumes "distinct_ids dm" and "no_media_above dm s" and "tag (el dm x) = Iframe \<Longrightarrow> shouldPreload cc (el dm x)"
    and "unloads dm s x"
  shows "loads cc dm s x"
proof -
  have b: "below dm s x" using assms(4) by (simp add: unloads_def)
  show ?thesis
  proof (cases "tag (el dm x) = Source")
    case False
    with assms(3,4) show ?thesis by (auto simp: unloads_def loads_def)
  next
    case True
    with assms(4) obtain a where a: "a \<in> set (element_path dm x)" "a \<noteq> x" "is_av (el dm a)"
      by (auto simp: unloads_def has_ancestor_def list_ex_iff is_av_def)
    then have "a \<notin> set (element_path dm s)" using assms(2) by (auto simp: no_media_above_def list_all_iff)
    with ancestor_below [OF assms(1) b a(1,2)] True a(3) show ?thesis by (auto simp: loads_def)
  qed
qed

lemma load_keeps:
  "tag (el (load_doc cc ce ex s cb) y) = tag (el (cdoc (fst cb)) y)
   \<and> attrs (el (load_doc cc ce ex s cb) y) DataPreload = attrs (el (cdoc (fst cb)) y) DataPreload"
proof -
  have "m_tag (media_at (load_doc cc ce ex s cb) y) = m_tag (media_at (cdoc (fst cb)) y)
      \<and> m_preload (media_at (load_doc cc ce ex s cb) y) = m_preload (media_at (cdoc (fst cb)) y)"
    using content_load_media [of cc ce ex s cb y] by (simp del: media_at_sel)
  then show ?thesis by simp
qed

lemma unload_keeps:
  "tag (el (unload_doc s cb) y) = tag (el (cdoc (fst cb)) y)
   \<and> attrs (el (unload_doc s cb) y) DataPreload = attrs (el (cdoc (fst cb)) y) DataPreload"
proof -
  have "m_tag (media_at (unload_doc s cb) y) = m_tag (media_at (cdoc (fst cb)) y)
      \<and> m_preload (media_at (unload_doc s cb) y) = m_preload (media_at (cdoc (fst cb)) y)"
    using content_unload_media [of s cb y] by (simp del: media_at_sel)
  then show ?thesis by simp
qed

lemma load_unload_load:
  assumes dm_def: "dm = cdoc (fst cb)" and cb1_def: "cb1 = content_load cc ce ex s cb"
    and d: "distinct_ids dm" and n: "no_media_above dm s"
    and f: "tag (el dm x) = Iframe \<Longrightarrow> shouldPreload cc (el dm x)"
  shows "attrs (el (load_doc cc ce ex s (content_unload s cb1)) x) Src = attrs (el (cdoc (fst cb1)) x) Src
    \<and> attrs (el (load_doc cc ce ex s (content_unload s cb1)) x) DataSrc = attrs (el (cdoc (fst cb1)) x) DataSrc"
proof -
  let ?d1 = "cdoc (fst cb1)" and ?d2 = "unload_doc s cb1"
  have l1: "dom_root ?d1 = dom_root dm"
    "media_at ?d1 x = (if loads cc dm s x then loaded (media_at dm x) else media_at dm x)"
    using content_load_media [of cc ce ex s cb x] by (simp_all add: dm_def cb1_def)
  have k1: "tag (el ?d1 y) = tag (el dm y) \<and> attrs (el ?d1 y) DataPreload = attrs (el dm y) DataPreload" for y
    unfolding dm_def cb1_def by (rule load_keeps)
  note l2 = content_unload_media [of s cb1 x]
  note k2 = unload_keeps [of s cb1]
  have L1: "loads cc ?d1 s x = loads cc dm s x" by (rule loads_cong [OF l1(1) k1])
  have L2: "loads cc ?d2 s x = loads cc ?d1 s x" by (rule loads_cong [OF conjunct1 [OF l2] k2])
  have d1: "distinct_ids ?d1" "no_media_above ?d1 s"
    using d n nodes_root [OF l1(1)] by (simp_all add: distinct_ids_def no_media_above_def path_root [OF l1(1)] is_av_def k1)
  have "tag (el ?d1 x) = Iframe \<Longrightarrow> shouldPreload cc (el ?d1 x)"
    using f k1 [of x] by (simp add: shouldPreload_def has_attr_def split: option.splits)
  then have U: "loads cc dm s x" if "unloads ?d1 s x"
    using unloads_loads [OF d1 _ that, of cc] L1 by blast
  have "m_src (media_at (load_doc cc ce ex s (content_unload s cb1)) x) = m_src (media_at ?d1 x)
      \<and> m_data (media_at (load_doc cc ce ex s (content_unload s cb1)) x) = m_data (media_at ?d1 x)"
  proof (cases "unloads ?d1 s x")
    case False
    then show ?thesis
      using content_load_media [of cc ce ex s "content_unload s cb1" x] l2 l1(2) L1 L2 by (simp del: media_at_sel)
  next
    case True
    then have "media_at ?d1 x = loaded (media_at dm x)" using U l1(2) by simp
    with True U show ?thesis
      using content_load_media [of cc ce ex s "content_unload s cb1" x] l2 L1 L2
        reload [of "loaded (media_at dm x)"] loaded_no_data [of "media_at dm x"] by (simp del: media_at_sel)
  qed
  then show ?thesis by simp
qed

text \<open>What was loaded lazily is released: only the address of the source is kept.\<close>

lemma load_then_unload:
  assumes dm_def: "dm = cdoc (fst cb)" and cb1_def: "cb1 = content_load cc ce ex s cb"
    and b: "below dm s x" and t: "tag (el dm x) \<in> {Video, Audio} \<or> tag (el dm x) = Iframe \<and> shouldPreload cc (el dm x)"
    and v: "attrs (el dm x) DataSrc = Some v"
  shows "attrs (el (cdoc (fst cb1)) x) Src = Some v \<and> attrs (el (unload_doc s cb1) x) Src = None
    \<and> attrs (el (unload_doc s cb1) x) DataSrc = Some v"
proof -
  let ?m = "media_at dm x"
  have l1: "media_at (cdoc (fst cb1)) x = loaded ?m"
    using content_load_media [of cc ce ex s cb x] b t by (auto simp: dm_def cb1_def loads_def)
  have e: "loaded ?m = ?m\<lparr>m_src := Some v, m_data := None, m_lazy := Some []\<rparr>" using v by (simp add: loaded_def)
  have r: "dom_root (cdoc (fst cb1)) = dom_root dm" using content_load_media [of cc ce ex s cb x] by (simp add: dm_def cb1_def)
  have "m_lazy (media_at (cdoc (fst cb1)) x) = Some []" by (simp only: l1 e) simp
  moreover have "below (cdoc (fst cb1)) s x" using b by (simp add: below_root [OF r])
  ultimately have "unloads (cdoc (fst cb1)) s x"
    using t load_keeps [of cc ce ex s cb x] by (auto simp: unloads_def has_attr_def dm_def cb1_def)
  then have "media_at (unload_doc s cb1) x = unloaded (loaded ?m)"
    using content_unload_media [of s cb1 x] l1 by simp
  then have "m_src (media_at (unload_doc s cb1) x) = None \<and> m_data (media_at (unload_doc s cb1) x) = Some v"
    by (simp del: media_at_sel add: e unloaded_def)
  moreover have "m_src (media_at (cdoc (fst cb1)) x) = Some v" by (simp only: l1 e) simp
  ultimately show ?thesis by simp
qed

text \<open>The sources of a video that has no source of its own are not released.\<close>

lemma video_sources_kept:
  assumes dm_def: "dm = cdoc (fst cb)" and cb1_def: "cb1 = content_load cc ce ex s cb"
    and b: "below dm s m" "below dm m x" and t: "tag (el dm m) = Video" "tag (el dm x) = Source"
    and v: "attrs (el dm x) DataSrc = Some v"
    and own: "list_all (\<lambda>j. \<not> is_av (el dm j) \<or> tag (el dm j) = Video \<and> attrs (el dm j) DataSrc = None
      \<and> attrs (el dm j) DataLazyLoaded = None) (element_path dm x)"
  shows "attrs (el (cdoc (fst cb1)) x) Src = Some v \<and> attrs (el (unload_doc s cb1) x) Src = Some v"
proof -
  have l: "media_at (cdoc (fst cb1)) y = (if loads cc dm s y then loaded (media_at dm y) else media_at dm y)" for y
    using content_load_media [of cc ce ex s cb y] by (simp add: dm_def cb1_def)
  have r: "dom_root (cdoc (fst cb1)) = dom_root dm" using content_load_media [of cc ce ex s cb x] by (simp add: dm_def cb1_def)
  have k: "tag (el (cdoc (fst cb1)) y) = tag (el dm y)" for y using load_keeps [of cc ce ex s cb y] by (simp add: dm_def cb1_def)
  have x: "media_at (cdoc (fst cb1)) x = loaded (media_at dm x)"
    using l [of x] b t by (auto simp: loads_def is_av_def)
  have same: "media_at (cdoc (fst cb1)) j = media_at dm j" if "j \<in> set (element_path dm x)" "is_av (el dm j)" for j
    using l [of j] own that by (auto simp: list_all_iff loaded_def)
  have "\<not> has_ancestor (cdoc (fst cb1)) (\<lambda>e. tag e = Video \<and> has_attr DataLazyLoaded e) x"
  proof
    assume "has_ancestor (cdoc (fst cb1)) (\<lambda>e. tag e = Video \<and> has_attr DataLazyLoaded e) x"
    then obtain j where j: "j \<in> set (element_path dm x)" "tag (el dm j) = Video"
      "attrs (el (cdoc (fst cb1)) j) DataLazyLoaded \<noteq> None"
      by (auto simp: has_ancestor_def list_ex_iff path_root [OF r] k has_attr_def)
    then have "m_lazy (media_at (cdoc (fst cb1)) j) = m_lazy (media_at dm j)" using same by (simp del: media_at_sel add: is_av_def)
    with j own show False by (auto simp: list_all_iff is_av_def)
  qed
  moreover have "\<not> has_ancestor (cdoc (fst cb1)) (\<lambda>e. tag e = Audio) x"
    using own by (auto simp: has_ancestor_def list_ex_iff path_root [OF r] k list_all_iff is_av_def)
  ultimately have "\<not> unloads (cdoc (fst cb1)) s x" by (simp add: unloads_def k t)
  then have "media_at (unload_doc s cb1) x = loaded (media_at dm x)"
    using content_unload_media [of s cb1 x] x by simp
  moreover have "m_src (loaded (media_at dm x)) = Some v" using v by (simp add: loaded_def)
  ultimately have "m_src (media_at (unload_doc s cb1) x) = Some v" "m_src (media_at (cdoc (fst cb1)) x) = Some v"
    using x by (simp_all del: media_at_sel)
  then show ?thesis by simp
qed

section \<open>What playback starts\<close>

text \<open>
  A step of \<open>startEmbeddedContent\<close> keeps the document, adds calls that are allowed, and makes only media
  wait for their data that are allowed to play.
\<close>

definition adds :: "(content_call \<Rightarrow> bool) \<Rightarrow> content \<Rightarrow> content \<Rightarrow> bool" where
  "adds P c c' \<longleftrightarrow> cdoc c' = cdoc c
     \<and> (\<exists>new. content_calls c' = content_calls c @ new \<and> list_all P new)
     \<and> loadeddata c' \<subseteq> loadeddata c \<union> {i. P (PlayMedia i)}"

lemma adds_refl [simp]: "adds P c c"
  by (simp add: adds_def)

lemma adds_trans: "adds P a b \<Longrightarrow> adds P b c \<Longrightarrow> adds P a c"
  unfolding adds_def by (elim conjE exE) (intro conjI, simp, auto)

lemma adds_ask: "P x \<Longrightarrow> adds P c (ask x c)"
  by (simp add: adds_def ask_def)

lemma fold_adds:
  assumes "\<And>x c'. x \<in> set xs \<Longrightarrow> cdoc c' = cdoc c \<Longrightarrow> adds P c' (f x c')"
  shows "adds P c (fold f xs c)"
  using assms
proof (induction xs arbitrary: c)
  case Nil
  show ?case by simp
next
  case (Cons x xs)
  have s: "adds P c (f x c)" using Cons.prems by simp
  moreover from s have "cdoc (f x c) = cdoc c" by (simp add: adds_def)
  then have "adds P (f x c) (fold f xs (f x c))" using Cons.prems by (intro Cons.IH) simp
  ultimately show ?case by (auto intro: adds_trans)
qed

definition may_start :: "content_config \<Rightarrow> dom \<Rightarrow> nat \<Rightarrow> content_call \<Rightarrow> bool" where
  "may_start cc dm s x =
     (case x of
        PlayMedia i \<Rightarrow> below dm s i \<and> is_av (el dm i) \<and> \<not> in_hidden_fragment dm i \<and> autoplays cc dm i
      | RewindMedia i \<Rightarrow> below dm s i \<and> is_av (el dm i) \<and> \<not> in_hidden_fragment dm i \<and> autoplays cc dm i
      | PostFrame i _ \<Rightarrow> below dm s i \<and> is_iframe (el dm i) \<and> \<not> in_hidden_fragment dm i
      | ReloadImage i \<Rightarrow> below dm s i \<and> tag (el dm i) = Img
      | _ \<Rightarrow> False)"

lemma startEmbeddedMedia_adds:
  assumes "P (PlayMedia i)" and "P (RewindMedia i)"
  shows "adds P c (startEmbeddedMedia i c)"
  using assms by (auto simp: adds_def startEmbeddedMedia_def Let_def ask_def)

lemma start_av_adds:
  assumes "below (cdoc c) s i" and "is_av (el (cdoc c) i)"
  shows "adds (may_start cc (cdoc c) s) c (start_av cc ce i c)"
proof (cases "in_hidden_fragment (cdoc c) i \<or> \<not> autoplays cc (cdoc c) i")
  case True
  then show ?thesis by (simp add: start_av_def)
next
  case False
  with assms have "may_start cc (cdoc c) s (PlayMedia i)" "may_start cc (cdoc c) s (RewindMedia i)"
    by (simp_all add: may_start_def)
  with False show ?thesis
    using startEmbeddedMedia_adds [of "may_start cc (cdoc c) s" i c]
    by (simp add: start_av_def Let_def) (auto simp: adds_def ask_def)
qed

lemma start_frame_adds:
  assumes "below (cdoc c) s i" and "is_iframe (el (cdoc c) i)"
  shows "adds (may_start cc (cdoc c) s) c (start_frame cc ce i c)"
  using assms by (auto simp: start_frame_def startEmbeddedIframe_def may_start_def intro: adds_ask)

text \<open>Starting a lazy frame sets its source only.\<close>

lemma start_lazy_calls:
  "content_calls (fold start_lazy_frame is c) = content_calls c \<and> loadeddata (fold start_lazy_frame is c) = loadeddata c"
  by (induction "is" arbitrary: c) (simp_all add: start_lazy_frame_def Let_def on_doc_def)

lemma start_allowed:
  "let c' = startEmbeddedContent cc ce (Some s) c
   in (\<exists>new. content_calls c' = content_calls c @ new \<and> list_all (may_start cc (cdoc c) s) new)
      \<and> loadeddata c' \<subseteq> loadeddata c \<union> {i. may_start cc (cdoc c) s (PlayMedia i)}"
proof (cases "speaker_notes ce")
  case True
  then show ?thesis by (simp add: startEmbeddedContent_def)
next
  case False
  let ?P = "may_start cc (cdoc c) s"
  let ?g = "queryAll (cdoc c) s (\<lambda>e. tag e = Img \<and> has_attr Src e \<and> ends_with ''.gif'' (or_empty (attrs e Src)))"
  let ?c1 = "fold (\<lambda>i. ask (ReloadImage i)) ?g c"
  let ?c2 = "fold (start_av cc ce) (queryAll (cdoc ?c1) s is_av) ?c1"
  let ?fs = "queryAll (cdoc ?c2) s (\<lambda>e. is_iframe e \<and> has_attr Src e)"
  let ?c3 = "fold (start_frame cc ce) ?fs ?c2"
  have a1: "adds ?P c ?c1"
    by (rule fold_adds) (simp add: queryAll_below may_start_def adds_ask)
  then have d1: "cdoc ?c1 = cdoc c" by (simp add: adds_def)
  have a2: "adds ?P ?c1 ?c2"
  proof (rule fold_adds)
    fix x and c' :: content
    assume "x \<in> set (queryAll (cdoc ?c1) s is_av)" "cdoc c' = cdoc ?c1"
    with d1 show "adds ?P c' (start_av cc ce x c')"
      using start_av_adds [of c' s x cc ce] by (simp add: queryAll_below)
  qed
  then have d2: "cdoc ?c2 = cdoc c" using d1 by (simp add: adds_def)
  have a3: "adds ?P ?c2 ?c3"
  proof (rule fold_adds)
    fix x and c' :: content
    assume "x \<in> set ?fs" "cdoc c' = cdoc ?c2"
    with d2 show "adds ?P c' (start_frame cc ce x c')"
      using start_frame_adds [of c' s x cc ce] by (simp add: queryAll_below)
  qed
  have "adds ?P c ?c3" by (rule adds_trans [OF adds_trans [OF a1 a2] a3])
  with False show ?thesis
    by (simp add: startEmbeddedContent_def Let_def start_lazy_calls) (simp add: adds_def)
qed

text \<open>A medium that has loaded plays in a present slide only, and does not wait any longer.\<close>

lemma loaded_in_present:
  "closest (cdoc c) i (has_class Present) = None \<Longrightarrow>
     content_calls (media_loaded i c) = content_calls c \<and> i \<notin> loadeddata (media_loaded i c)"
  by (simp add: media_loaded_def startEmbeddedMedia_def Let_def)

section \<open>What \<open>stopEmbeddedContent\<close> stops\<close>

lemma stop_av_fields:
  "cdoc (stop_av i c) = (if has_attr DataIgnore (el (cdoc c) i) then cdoc c
     else update_el i (set_attr DataPausedByReveal []) (cdoc c))"
  "content_calls (stop_av i c) = content_calls c @ (if has_attr DataIgnore (el (cdoc c) i) then [] else [PauseMedia i])"
  "frame_load (stop_av i c) = frame_load c"
  by (simp_all add: stop_av_def ask_def on_doc_def)

definition same_but_paused :: "dom \<Rightarrow> dom \<Rightarrow> bool" where
  "same_but_paused dm dm' \<longleftrightarrow> dom_root dm' = dom_root dm
     \<and> (\<forall>x. tag (el dm' x) = tag (el dm x) \<and> (\<forall>a. a \<noteq> DataPausedByReveal \<longrightarrow> attrs (el dm' x) a = attrs (el dm x) a))"

lemma stop_all_av:
  "same_but_paused (cdoc c) (cdoc (fold stop_av ms c)) \<and> frame_load (fold stop_av ms c) = frame_load c
   \<and> content_calls (fold stop_av ms c)
       = content_calls c @ map PauseMedia (filter (\<lambda>i. \<not> has_attr DataIgnore (el (cdoc c) i)) ms)"
proof (induction ms arbitrary: c)
  case Nil
  show ?case by (simp add: same_but_paused_def)
next
  case (Cons m ms)
  have s: "same_but_paused (cdoc c) (cdoc (stop_av m c))"
    by (simp add: same_but_paused_def stop_av_fields el_update_el)
  then have i: "has_attr DataIgnore (el (cdoc (stop_av m c)) i) = has_attr DataIgnore (el (cdoc c) i)" for i
    by (simp add: same_but_paused_def has_attr_def)
  have "same_but_paused (cdoc c) (cdoc (fold stop_av ms (stop_av m c)))"
    using Cons.IH [of "stop_av m c"] s by (simp add: same_but_paused_def)
  with Cons.IH [of "stop_av m c"] show ?case
    by (simp add: i stop_av_fields(2,3))
qed

lemma stop_frames:
  "cdoc (fold (stop_frame ce) fs c) = cdoc c \<and> frame_load (fold (stop_frame ce) fs c) = frame_load c - set fs
   \<and> (\<exists>new. content_calls (fold (stop_frame ce) fs c) = content_calls c @ new)"
proof (induction fs arbitrary: c)
  case Nil
  show ?case by simp
next
  case (Cons f fs)
  from Cons.IH [of "stop_frame ce f c"] show ?case
    by (auto simp: stop_frame_def Let_def ask_def)
qed

lemma pause_frames:
  "cdoc (fold (pause_frame ce msg) fs c) = cdoc c \<and> frame_load (fold (pause_frame ce msg) fs c) = frame_load c
   \<and> (\<exists>new. content_calls (fold (pause_frame ce msg) fs c) = content_calls c @ new)"
proof (induction fs arbitrary: c)
  case Nil
  show ?case by simp
next
  case (Cons f fs)
  from Cons.IH [of "pause_frame ce msg f c"] show ?case
    by (auto simp: pause_frame_def ask_def)
qed

lemma stop_stops:
  assumes at: "is_attached (cdoc c) s" and b: "below (cdoc c) s x"
  shows "let c' = stopEmbeddedContent ce unload (Some s) c
    in (is_av (el (cdoc c) x) \<and> \<not> has_attr DataIgnore (el (cdoc c) x) \<longrightarrow>
          PauseMedia x \<in> set (drop (length (content_calls c)) (content_calls c')))
       \<and> (is_iframe (el (cdoc c) x) \<longrightarrow> x \<notin> frame_load c'
           \<and> (unload \<and> has_attr DataSrc (el (cdoc c) x) \<longrightarrow> attrs (el (cdoc c') x) Src = None))"
proof -
  let ?ms = "queryAll (cdoc c) s is_av"
  let ?c1 = "fold stop_av ?ms c"
  let ?c2 = "fold (stop_frame ce) (queryAll (cdoc ?c1) s is_iframe) ?c1"
  let ?c3 = "fold (pause_frame ce pause_video_message) (queryAll (cdoc ?c2) s (frames_of ''youtube.com/embed/'')) ?c2"
  let ?c4 = "fold (pause_frame ce pause_message) (queryAll (cdoc ?c3) s (frames_of ''player.vimeo.com/'')) ?c3"
  note s1 = stop_all_av [of c ?ms]
  note s2 = stop_frames [of ce "queryAll (cdoc ?c1) s is_iframe" ?c1]
  note s3 = pause_frames [of ce pause_video_message "queryAll (cdoc ?c2) s (frames_of ''youtube.com/embed/'')" ?c2]
  note s4 = pause_frames [of ce pause_message "queryAll (cdoc ?c3) s (frames_of ''player.vimeo.com/'')" ?c3]
  have d: "cdoc ?c4 = cdoc ?c1" using s2 s3 s4 by simp
  have r: "dom_root (cdoc ?c1) = dom_root (cdoc c)" and t: "tag (el (cdoc ?c1) x) = tag (el (cdoc c) x)"
    and ds: "has_attr DataSrc (el (cdoc ?c1) x) = has_attr DataSrc (el (cdoc c) x)"
    using s1 by (simp_all add: same_but_paused_def has_attr_def)
  have fl: "frame_load ?c4 = frame_load c - set (queryAll (cdoc ?c1) s is_iframe)" using s1 s2 s3 s4 by simp
  obtain new where calls: "content_calls ?c4
      = content_calls c @ map PauseMedia (filter (\<lambda>i. \<not> has_attr DataIgnore (el (cdoc c) i)) ?ms) @ new"
    using s1 s2 s3 s4 by auto
  let ?c' = "if unload then on_doc (\<lambda>dm. update_all (remove_attr Src) (queryAll dm s (\<lambda>e. is_iframe e \<and> has_attr DataSrc e)) dm) ?c4
    else ?c4"
  have c': "stopEmbeddedContent ce unload (Some s) c = ?c'"
    using at by (simp add: stopEmbeddedContent_def Let_def)
  have "content_calls ?c' = content_calls ?c4" "frame_load ?c' = frame_load ?c4" by (simp_all add: on_doc_def)
  moreover have "attrs (el (cdoc ?c') x) Src = None" if "unload" "is_iframe (el (cdoc c) x)" "has_attr DataSrc (el (cdoc c) x)"
  proof -
    have "x \<in> set (queryAll (cdoc ?c4) s (\<lambda>e. is_iframe e \<and> has_attr DataSrc e))"
      using that b by (simp add: queryAll_below d below_root [OF r] is_iframe_def t ds)
    moreover have "remove_attr Src (remove_attr Src e) = remove_attr Src e" for e by (simp add: remove_attr_def)
    ultimately show ?thesis using that(1) by (simp add: on_doc_def el_update_all)
  qed
  ultimately show ?thesis
    using b unfolding c' by (auto simp: calls fl queryAll_below below_root [OF r] is_iframe_def t)
qed

end
