(* ===== verification/MediaHandover.thy ===== *)
theory MediaHandover
  imports MediaFlow ContentLaws
begin

text \<open>
  The deck and its media controller together: the calls a transition makes are carried out by
  \<open>startEmbeddedContent\<close> and \<open>stopEmbeddedContent\<close>, each on the document as it is at that moment.
\<close>

section \<open>Carrying out the calls\<close>

text \<open>\<open>slide\<close> and the fragments stop without options, so frames are unloaded.\<close>

definition play_step :: "content_config \<Rightarrow> content_env \<Rightarrow> eff \<times> dom \<Rightarrow> content \<Rightarrow> content" where
  "play_step cc ce p c =
     (case fst p of
        StartEmbedded s \<Rightarrow> startEmbeddedContent cc ce (Some s) (c\<lparr>cdoc := snd p\<rparr>)
      | StopEmbedded s \<Rightarrow> stopEmbeddedContent ce True s (c\<lparr>cdoc := snd p\<rparr>)
      | _ \<Rightarrow> c)"

definition play_calls :: "content_config \<Rightarrow> content_env \<Rightarrow> (eff \<times> dom) list \<Rightarrow> content \<Rightarrow> content" where
  "play_calls cc ce = fold (play_step cc ce)"

text \<open>Documents with the same elements; what is shown may differ.\<close>

definition same_media :: "dom \<Rightarrow> dom \<Rightarrow> bool" where
  "same_media dm dm' \<longleftrightarrow>
     dom_root dm' = dom_root dm
     \<and> (\<forall>i. tag (el dm' i) = tag (el dm i) \<and> has_attr DataIgnore (el dm' i) = has_attr DataIgnore (el dm i))"

lemma same_media_below: "same_media dm dm' \<Longrightarrow> below dm' s x = below dm s x"
  unfolding same_media_def by (elim conjE) (rule below_root)

section \<open>What the controller adds\<close>

text \<open>\<open>extends P c c'\<close>: the new calls satisfy \<open>P\<close>.\<close>

definition extends :: "(content_call \<Rightarrow> bool) \<Rightarrow> content \<Rightarrow> content \<Rightarrow> bool" where
  "extends P c c' \<longleftrightarrow> (\<exists>new. content_calls c' = content_calls c @ new \<and> list_all P new)"

lemma extends_refl [simp]: "extends P c c"
  by (simp add: extends_def)

lemma extends_trans: "extends P a b \<Longrightarrow> extends P b c \<Longrightarrow> extends P a c"
  unfolding extends_def by (metis append.assoc list_all_append)

lemma extends_mono: "extends P a b \<Longrightarrow> (\<And>x. P x \<Longrightarrow> Q x) \<Longrightarrow> extends Q a b"
  unfolding extends_def by (auto simp: list_all_iff)

lemma extends_fold:
  assumes "\<And>x c. extends P c (f x c)"
  shows "extends P c (fold f xs c)"
  by (induction xs arbitrary: c) (auto intro: extends_trans assms)

lemma extends_fold_after:
  "extends P a b \<Longrightarrow> (\<And>x c. extends P c (f x c)) \<Longrightarrow> extends P a (fold f xs b)"
  by (rule extends_trans [OF _ extends_fold])

lemma extends_new:
  "extends P c c' \<Longrightarrow> \<exists>new. content_calls c' = content_calls c @ new \<and> list_all P new"
  by (simp add: extends_def)

text \<open>A call that plays nothing, and a call that plays only media of a set.\<close>

definition plays_in :: "nat set \<Rightarrow> content_call \<Rightarrow> bool" where
  "plays_in A x = (case x of PlayMedia i \<Rightarrow> i \<in> A | _ \<Rightarrow> True)"

lemma plays_in_mem: "list_all (plays_in A) new \<Longrightarrow> PlayMedia x \<in> set new \<Longrightarrow> x \<in> A"
  by (induction new) (auto simp: plays_in_def)

lemma plays_in_mono: "extends (plays_in A) a b \<Longrightarrow> A \<subseteq> B \<Longrightarrow> extends (plays_in B) a b"
  by (erule extends_mono) (auto simp: plays_in_def split: content_call.splits)

lemma start_plays:
  "extends (plays_in {i. below (cdoc c) s i}) c (startEmbeddedContent cc ce (Some s) c)"
proof -
  have "extends (may_start cc (cdoc c) s) c (startEmbeddedContent cc ce (Some s) c)"
    using start_allowed [of cc ce s c] by (simp add: extends_def Let_def)
  then show ?thesis
    by (rule extends_mono) (simp add: may_start_def plays_in_def split: content_call.splits)
qed

lemma stop_plays_nothing: "extends (plays_in {}) c (stopEmbeddedContent ce unload s c)"
proof -
  have 1: "extends (plays_in {}) c (stop_av i c)" "extends (plays_in {}) c (stop_frame ce i c)"
    "extends (plays_in {}) c (pause_frame ce msg i c)" "extends (plays_in {}) c (on_doc g c)" for i c msg g
    by (auto simp: extends_def stop_av_def stop_frame_def pause_frame_def ask_def on_doc_def plays_in_def)
  note after = extends_fold_after [OF _ 1(1)] extends_fold_after [OF _ 1(2)] extends_fold_after [OF _ 1(3)]
  show ?thesis
    by (cases s) (simp_all add: stopEmbeddedContent_def Let_def extends_trans [OF _ 1(4)] after)
qed

text \<open>Media that wait to be loaded.\<close>

lemma loadeddata_fold:
  assumes "\<And>i c. loadeddata (f i c) = loadeddata c"
  shows "loadeddata (fold f xs c) = loadeddata c"
  by (rule fold_keeps) (rule assms)

lemma stop_keeps_waiting: "loadeddata (stopEmbeddedContent ce unload s c) = loadeddata c"
proof -
  have 1: "loadeddata (stop_av i c) = loadeddata c" "loadeddata (stop_frame ce i c) = loadeddata c"
    "loadeddata (pause_frame ce msg i c) = loadeddata c" "loadeddata (on_doc g c) = loadeddata c" for i c msg g
    by (simp_all add: stop_av_def stop_frame_def pause_frame_def ask_def on_doc_def)
  show ?thesis
    unfolding stopEmbeddedContent_def Let_def by (simp add: 1 loadeddata_fold split: option.split)
qed

lemma start_av_waiting: "x \<noteq> i \<Longrightarrow> x \<in> loadeddata c \<Longrightarrow> x \<in> loadeddata (start_av cc ce i c)"
  by (simp add: start_av_def startEmbeddedMedia_def Let_def ask_def)

lemma start_keeps_waiting:
  assumes "x \<in> loadeddata c" and "\<not> below (cdoc c) s x"
  shows "x \<in> loadeddata (startEmbeddedContent cc ce (Some s) c)"
proof (cases "speaker_notes ce")
  case True
  with assms show ?thesis by (simp add: startEmbeddedContent_def)
next
  case False
  let ?g = "queryAll (cdoc c) s (\<lambda>e. tag e = Img \<and> has_attr Src e \<and> ends_with ''.gif'' (or_empty (attrs e Src)))"
  let ?c1 = "fold (\<lambda>i. ask (ReloadImage i)) ?g c"
  let ?ms = "queryAll (cdoc ?c1) s is_av"
  let ?c2 = "fold (start_av cc ce) ?ms ?c1"
  let ?c3 = "fold (start_frame cc ce) (queryAll (cdoc ?c2) s (\<lambda>e. is_iframe e \<and> has_attr Src e)) ?c2"
  have d1: "cdoc ?c1 = cdoc c" by (rule fold_keeps) (simp add: ask_def)
  have w1: "loadeddata ?c1 = loadeddata c" by (rule loadeddata_fold) (simp add: ask_def)
  have "x \<notin> set ?ms" using assms(2) by (simp add: queryAll_below d1)
  moreover have "x \<notin> set is \<Longrightarrow> x \<in> loadeddata e \<Longrightarrow> x \<in> loadeddata (fold (start_av cc ce) is e)" for "is" e
    by (induction "is" arbitrary: e) (auto simp: start_av_waiting)
  ultimately have "x \<in> loadeddata ?c2" using assms(1) w1 by blast
  moreover have "loadeddata ?c3 = loadeddata ?c2"
    by (rule loadeddata_fold) (simp add: start_frame_def startEmbeddedIframe_def ask_def)
  ultimately show ?thesis
    using False by (simp add: startEmbeddedContent_def Let_def start_lazy_calls)
qed

section \<open>Elements below elements\<close>

lemma below_trans:
  assumes d: "distinct_ids dm" and "below dm s t" "below dm t x"
  shows "below dm s x"
proof -
  obtain n where n: "node_of dm s = Some n" "t \<in> nid ` set (descendants n)"
    using assms(2) by (auto simp: below_node)
  then obtain m where m: "m \<in> set (descendants n)" "nid m = t" by blast
  have "n \<in> set (nodes dm)" using n(1) by (auto simp: node_of_def dest: find_Some_mem)
  then have "m \<in> set (nodes dm)" using nodes_descendants m(1) by (auto simp: nodes_def)
  then have "node_of dm t = Some m" using child_node_of [OF d] m(2) by blast
  then have "x \<in> nid ` set (descendants m)" using assms(3) by (auto simp: below_node)
  with n(1) descendants_trans [OF m(1)] show ?thesis by (auto simp: below_node)
qed

lemma below_attached: "below dm s x \<Longrightarrow> is_attached dm s \<and> s \<in> set (element_path dm x)"
proof -
  assume "below dm s x"
  then obtain n where n: "node_of dm s = Some n" "x \<in> nid ` set (descendants n)" by (auto simp: below_node)
  then have "n \<in> set (nodes dm)" "nid n = s" by (auto simp: node_of_def dest: find_Some_mem)
  with n(2) show ?thesis
    by (auto simp: is_attached_def element_path_def filter_empty_conv)
qed

text \<open>Two sections without sections inside share no elements.\<close>

lemma leaves_apart:
  assumes d: "distinct_ids dm" and "below dm p x" "below dm c x" and "p \<noteq> c"
    and s: "is_section (el dm p)" "is_section (el dm c)"
    and l: "queryAll dm p is_section = []" "queryAll dm c is_section = []"
  shows False
proof -
  obtain n m where n: "node_of dm p = Some n" "x \<in> nid ` set (descendants n)"
    and m: "node_of dm c = Some m" "x \<in> nid ` set (descendants m)"
    using assms(2,3) by (auto simp: below_node)
  then have nm: "n \<in> set (nodes dm)" "nid n = p" "m \<in> set (nodes dm)" "nid m = c"
    by (auto simp: node_of_def dest: find_Some_mem)
  have "n = m \<or> n \<in> set (descendants m) \<or> m \<in> set (descendants n)"
    using subtrees_compare [of "dom_root dm" n m x] d nm n(2) m(2) by (auto simp: distinct_ids_def nodes_def)
  then have "p = c \<or> below dm c p \<or> below dm p c"
    using n m nm by (auto simp: below_node)
  with assms(4) s l queryAll_below [of p dm c is_section] queryAll_below [of c dm p is_section] show False
    by auto
qed


section \<open>A transition\<close>

lemma play_about:
  assumes "list_all (about A) (map fst es)" and "list_all (\<lambda>e. same_media dm (snd e)) es"
  shows "extends (plays_in {i. \<exists>f \<in> A. below dm f i}) c (play_calls cc ce es c)"
  using assms
proof (induction es arbitrary: c)
  case Nil
  show ?case by (simp add: play_calls_def)
next
  case (Cons e es)
  obtain x m where e: "e = (x, m)" by (cases e)
  have b: "below m s i = below dm s i" for s i
    using Cons.prems(2) by (simp add: e same_media_below)
  let ?P = "plays_in {i. \<exists>f \<in> A. below dm f i}"
  have "extends ?P c (play_step cc ce e c)"
  proof -
    have "extends ?P (c\<lparr>cdoc := m\<rparr>) (play_step cc ce e c)"
      using Cons.prems(1)
        plays_in_mono [where B = "{i. \<exists>f \<in> A. below dm f i}", OF start_plays [of "c\<lparr>cdoc := m\<rparr>"]]
        plays_in_mono [where B = "{i. \<exists>f \<in> A. below dm f i}", OF stop_plays_nothing [of "c\<lparr>cdoc := m\<rparr>"]]
      by (cases x) (auto simp: play_step_def e b)
    then show ?thesis by (simp add: extends_def)
  qed
  moreover have "extends ?P (play_step cc ce e c) (play_calls cc ce es (play_step cc ce e c))"
    using Cons.prems by (intro Cons.IH) simp_all
  ultimately show ?case unfolding play_calls_def by (simp add: extends_trans)
qed

lemma play_about_waiting:
  assumes "list_all (about A) (map fst es)" and "list_all (\<lambda>e. same_media dm (snd e)) es"
    and "x \<in> loadeddata c" and "\<forall>f \<in> A. \<not> below dm f x"
  shows "x \<in> loadeddata (play_calls cc ce es c)"
  using assms(1-3)
proof (induction es arbitrary: c)
  case Nil
  then show ?case by (simp add: play_calls_def)
next
  case (Cons e es)
  obtain y m where e: "e = (y, m)" by (cases e)
  have b: "below m s x = below dm s x" for s
    using Cons.prems(2) by (simp add: e same_media_below)
  have "x \<in> loadeddata (play_step cc ce e c)"
    using Cons.prems(1,3) assms(4) start_keeps_waiting [of x "c\<lparr>cdoc := m\<rparr>"]
    by (cases y) (auto simp: play_step_def e b stop_keeps_waiting)
  then have "x \<in> loadeddata (play_calls cc ce es (play_step cc ce e c))"
    using Cons.prems by (intro Cons.IH) simp_all
  then show ?case by (simp add: play_calls_def)
qed

lemma play_calls_append: "play_calls cc ce (es @ fs) c = play_calls cc ce fs (play_calls cc ce es c)"
  by (simp add: play_calls_def)

text \<open>What a transition from \<open>p\<close> to \<open>c\<close> does, for the calls of \<open>slide\<close> and any documents.\<close>

lemma handover_plays:
  assumes es: "map fst es = before @ handover (Some p) (Some c) @ after"
    and docs: "list_all (\<lambda>e. same_media dm (snd e)) es"
    and ab: "list_all (about A) (before @ after)" and A: "\<And>f. f \<in> A \<Longrightarrow> below dm c f"
    and d: "distinct_ids dm"
  shows "\<exists>new. content_calls (play_calls cc ce es k) = content_calls k @ new
    \<and> list_all (plays_in {i. below dm c i}) new
    \<and> (\<forall>x. below dm p x \<and> is_av (el dm x) \<and> \<not> has_attr DataIgnore (el dm x) \<longrightarrow> PauseMedia x \<in> set new)"
    and "\<not> below dm c x \<Longrightarrow> x \<in> loadeddata k \<Longrightarrow> x \<in> loadeddata (play_calls cc ce es k)"
proof -
  have "\<exists>e1 r. es = e1 @ r \<and> before = map fst e1 \<and> handover (Some p) (Some c) @ after = map fst r"
    using es by (simp only: map_eq_append_conv)
  then obtain e1 r where 1: "es = e1 @ r" "before = map fst e1" "handover (Some p) (Some c) @ after = map fst r"
    by blast
  obtain m n e2 where 2: "r = (StopEmbedded (Some p), m) # (StartEmbedded c, n) # e2" "map fst e2 = after"
    using 1(3) by (auto simp: handover_def Cons_eq_map_conv)
  have sm: "list_all (\<lambda>e. same_media dm (snd e)) e1" "same_media dm m" "same_media dm n"
    "list_all (\<lambda>e. same_media dm (snd e)) e2"
    using docs by (simp_all add: 1(1) 2(1))
  have abs: "list_all (about A) (map fst e1)" "list_all (about A) (map fst e2)"
    using ab by (simp_all add: 1(2) 2(2))
  let ?P = "plays_in {i. below dm c i}"
  have sub: "{i. \<exists>f \<in> A. below dm f i} \<subseteq> {i. below dm c i}" using below_trans [OF d A] by blast
  let ?k1 = "play_calls cc ce e1 k"
  let ?k1m = "?k1\<lparr>cdoc := m\<rparr>"
  let ?k2 = "stopEmbeddedContent ce True (Some p) ?k1m"
  let ?k2n = "?k2\<lparr>cdoc := n\<rparr>"
  let ?k3 = "startEmbeddedContent cc ce (Some c) ?k2n"
  let ?k4 = "play_calls cc ce e2 ?k3"
  have end4: "play_calls cc ce es k = ?k4"
    by (simp add: 1(1) 2(1) play_calls_append) (simp add: play_calls_def play_step_def)
  obtain n1 where n1: "content_calls ?k1 = content_calls k @ n1" "list_all ?P n1"
    using extends_new [OF plays_in_mono [OF play_about [OF abs(1) sm(1)] sub]] by blast
  obtain n2 where n2: "content_calls ?k2 = content_calls ?k1 @ n2" "list_all ?P n2"
    using extends_new [OF plays_in_mono [where B = "{i. below dm c i}", OF stop_plays_nothing [of ?k1m ce True "Some p"]]]
    by auto
  obtain n3 where n3: "content_calls ?k3 = content_calls ?k2 @ n3" "list_all ?P n3"
    using extends_new [OF start_plays [of ?k2n c cc ce]] same_media_below [OF sm(3)] by auto
  obtain n4 where n4: "content_calls ?k4 = content_calls ?k3 @ n4" "list_all ?P n4"
    using extends_new [OF plays_in_mono [OF play_about [OF abs(2) sm(4)] sub]] by blast
  have pause: "PauseMedia x \<in> set n2"
    if "below dm p x \<and> is_av (el dm x) \<and> \<not> has_attr DataIgnore (el dm x)" for x
  proof -
    have "below m p x" "is_av (el m x)" "\<not> has_attr DataIgnore (el m x)"
      using that sm(2) same_media_below [OF sm(2)] by (simp_all add: same_media_def is_av_def)
    moreover have "is_attached m p" using below_attached [OF \<open>below m p x\<close>] by blast
    ultimately show ?thesis
      using stop_stops [of ?k1m p x ce True] by (simp add: Let_def n2(1))
  qed
  show "\<exists>new. content_calls (play_calls cc ce es k) = content_calls k @ new \<and> list_all ?P new
    \<and> (\<forall>x. below dm p x \<and> is_av (el dm x) \<and> \<not> has_attr DataIgnore (el dm x) \<longrightarrow> PauseMedia x \<in> set new)"
    by (rule exI [of _ "n1 @ n2 @ n3 @ n4"]) (use n1 n2 n3 n4 pause in \<open>auto simp: end4\<close>)
  assume x: "\<not> below dm c x" "x \<in> loadeddata k"
  have nb: "\<forall>f \<in> A. \<not> below dm f x" using x(1) below_trans [OF d A] by blast
  have "x \<in> loadeddata ?k1" by (rule play_about_waiting [OF abs(1) sm(1) x(2) nb])
  then have "x \<in> loadeddata ?k2n" by (simp add: stop_keeps_waiting)
  then have "x \<in> loadeddata ?k3" using x(1) same_media_below [OF sm(3)] by (intro start_keeps_waiting) simp_all
  then show "x \<in> loadeddata (play_calls cc ce es k)"
    unfolding end4 by (rule play_about_waiting [OF abs(2) sm(4) _ nb])
qed


section \<open>The transition of a deck\<close>

lemma current_slide:
  assumes "positioned d" and c: "currentSlide d = Some s"
  shows "is_section (el (doc d) s)" and "queryAll (doc d) s is_section = []"
proof -
  obtain i j where p: "at_position i j d" using assms(1) by (auto simp: positioned_def)
  then have g: "getSlide d i (Num j) = Some s" using c by (simp add: at_position_def)
  have hs: "getHorizontalSlides d ! nat i \<in> set (getHorizontalSlides d)"
    using g by (auto simp: getSlide_def Let_def split: if_splits)
  have "s \<in> set (getHorizontalSlides d) \<or> s \<in> set (queryAll (doc d) (getHorizontalSlides d ! nat i) is_section)"
    using g hs by (auto simp: getSlide_def Let_def split: if_splits)
  then have "s \<in> set (all_slides (doc d))"
    using horizontal_in_all [of d] vertical_in_all [of d "getHorizontalSlides d ! nat i"] by blast
  then show "is_section (el (doc d) s)" by (auto simp: all_slides_def queryAll_node_def)
  show "queryAll (doc d) s is_section = []"
    using assms by (simp add: positioned_def deck_ok_def leaf_current_def)
qed

lemma slide_handover_calls:
  assumes d: "positioned d" and s: "slide h v f d = Some d'"
    and cont: "\<not> prevents (env d) (jv_default h (indexh d)) (jv_default v (indexv d))"
    and p: "currentSlide d = Some p" and c: "currentSlide d' = Some c" and ne: "c \<noteq> p"
    and es: "map fst es = drop (length (media_calls d)) (media_calls d')"
  obtains before after where "map fst es = before @ handover (Some p) (Some c) @ after"
    and "list_all (about (fragments_below (doc d) (Some c))) (before @ after)"
proof -
  have sh: "same_shape (doc d) (doc d')" using slide_keeps_shape [OF s] by blast
  obtain before after where
    1: "list_all (about (fragments_below (doc d') (currentSlide d'))) (before @ after)" and
    2: "media_calls d' = media_calls d @ before @ handover (currentSlide d) (currentSlide d') @ after"
    using slide_handover [OF d s cont] c p ne by auto
  from that [of before after] 1 2 c p show thesis
    by (simp add: es fragments_below_shape [OF sh])
qed

lemma fragments_are_below: "f \<in> fragments_below dm (Some c) \<Longrightarrow> below dm c f"
  by (simp add: fragments_below_def queryAll_below)

lemma media_change_hands:
  assumes d: "positioned d" and s: "slide h v f d = Some d'"
    and cont: "\<not> prevents (env d) (jv_default h (indexh d)) (jv_default v (indexv d))"
    and p: "currentSlide d = Some p" and c: "currentSlide d' = Some c" and ne: "c \<noteq> p"
    and es: "map fst es = drop (length (media_calls d)) (media_calls d')"
    and docs: "list_all (\<lambda>e. same_media (doc d) (snd e)) es"
  shows "\<exists>new. content_calls (play_calls cc ce es k) = content_calls k @ new
    \<and> (\<forall>x. PlayMedia x \<in> set new \<longrightarrow> below (doc d) c x \<and> \<not> below (doc d) p x)
    \<and> (\<forall>x. below (doc d) p x \<and> is_av (el (doc d) x) \<and> \<not> has_attr DataIgnore (el (doc d) x) \<longrightarrow> PauseMedia x \<in> set new)"
    and "below (doc d) p x \<Longrightarrow> x \<in> loadeddata k \<Longrightarrow> x \<in> loadeddata (play_calls cc ce es k)"
proof -
  have dist: "distinct_ids (doc d)" using d by (simp add: positioned_def deck_ok_def wf_doc_def)
  have sh: "same_shape (doc d) (doc d')" using slide_keeps_shape [OF s] by blast
  have "is_section (el (doc d) c)" "queryAll (doc d) c is_section = []"
    using current_slide [OF slide_positioned [OF d s] c] same_shape_is_section [OF sh] same_shape_sections [OF sh]
    by simp_all
  then have apart: "\<not> below (doc d) c y" if "below (doc d) p y" for y
    using leaves_apart [OF dist that] current_slide [OF d p] ne by blast
  obtain before after where ba: "map fst es = before @ handover (Some p) (Some c) @ after"
    "list_all (about (fragments_below (doc d) (Some c))) (before @ after)"
    by (rule slide_handover_calls [OF d s cont p c ne es])
  note plays = handover_plays [OF ba(1) docs ba(2) fragments_are_below dist]
  show "\<exists>new. content_calls (play_calls cc ce es k) = content_calls k @ new
    \<and> (\<forall>x. PlayMedia x \<in> set new \<longrightarrow> below (doc d) c x \<and> \<not> below (doc d) p x)
    \<and> (\<forall>x. below (doc d) p x \<and> is_av (el (doc d) x) \<and> \<not> has_attr DataIgnore (el (doc d) x) \<longrightarrow> PauseMedia x \<in> set new)"
    using plays(1) [of cc ce k] plays_in_mem [of "{i. below (doc d) c i}"] apart by blast
  show "x \<in> loadeddata (play_calls cc ce es k)" if "below (doc d) p x" "x \<in> loadeddata k"
    using plays(2) [of x k cc ce] apart [OF that(1)] that(2) by blast
qed

text \<open>
  Inside of a stack, which stays present, the check for a present slide does not see that the slide of
  a medium has been left.
\<close>

lemma within_stack:
  assumes d: "positioned d" and s: "slide h v f d = Some d'"
    and p: "currentSlide d = Some p" and c: "currentSlide d' = Some c" and ne: "c \<noteq> p"
    and col: "indexh d' = indexh d" and x: "below (doc d) p x"
  shows "\<not> has_class Present (el (doc d') p)" and "is_attached (doc d') x"
    and "closest (doc d') x (has_class Present) \<noteq> None"
proof -
  obtain i j where a: "at_position i j d" using d by (auto simp: positioned_def)
  obtain i' j' where b: "at_position i' j' d'"
    using slide_positioned [OF d s] by (auto simp: positioned_def)
  with a col have "i' = i" by (simp add: at_position_def)
  with b have a': "at_position i j' d'" by blast
  have sh: "same_shape (doc d) (doc d')" using slide_keeps_shape [OF s] by blast
  have dist: "distinct_ids (doc d)" using d by (simp add: positioned_def deck_ok_def wf_doc_def)
  let ?h = "getHorizontalSlides d ! nat i" and ?vs = "queryAll (doc d) (getHorizontalSlides d ! nat i) is_section"
  have gp: "getSlide d i (Num j) = Some p" and gc: "getSlide d i (Num j') = Some c"
    using a a' p c getSlide_shape [OF sh] by (auto simp: at_position_def)
  then have i: "0 \<le> i" "i < int (length (getHorizontalSlides d))"
    by (auto simp: getSlide_def Let_def split: if_splits)
  have vs: "?vs \<noteq> []" using gp gc ne i by (auto simp: getSlide_def Let_def)
  with gp gc i have pc: "p \<in> set ?vs" "c = ?vs ! nat j'"
    by (auto simp: getSlide_def Let_def split: if_splits)
  have mh: "marked d' (doc d') (getHorizontalSlides d) i" and mv: "marked d' (doc d') ?vs j'"
    using a' by (simp_all add: at_position_def same_shape_getHorizontal [OF sh] same_shape_sections [OF sh])
  show "\<not> has_class Present (el (doc d') p)"
    using marked_present_mem [OF mv pc(1)] pc(2) ne by blast
  have "below (doc d) ?h p" using pc(1) by (simp add: queryAll_below)
  then have hx: "below (doc d) ?h x" using below_trans [OF dist _ x] by blast
  have path: "element_path (doc d') x = element_path (doc d) x" by (rule path_root) (rule same_shape_root [OF sh])
  have hp: "?h \<in> set (element_path (doc d') x)" using below_attached [OF hx] by (simp add: path)
  then show "is_attached (doc d') x" by (auto simp: is_attached_def)
  have "has_class Present (el (doc d') ?h)" using mh i by (simp add: marked_nth)
  with hp show "closest (doc d') x (has_class Present) \<noteq> None"
    by (auto simp: closest_def find_None_iff)
qed

lemma late_start:
  assumes "x \<in> loadeddata k" and "is_attached (cdoc k) x" and "closest (cdoc k) x (has_class Present) \<noteq> None"
  shows "content_calls (media_loaded x k) = content_calls k @ [RewindMedia x, PlayMedia x]"
  using assms by (simp add: media_loaded_def startEmbeddedMedia_def Let_def ask_def)

end
