(* ===== verification/AutoAnimate.thy ===== *)
theory AutoAnimate
  imports Deck Colors Regex
begin

text \<open>
  Auto-animation between two slides, js/controllers/autoanimate.js: which elements of the two slides
  belong together, the style rules that move one into the place of the other, and the attributes that
  mark them.  What the browser measures (text, boxes, computed styles) is an argument.  A rule of the
  style sheet is kept as its parts and not as text.  A call that throws is \<^const>\<open>None\<close>.
\<close>

section \<open>Options and state\<close>

record rect =
  rx :: rat
  ry :: rat
  rwidth :: rat
  rheight :: rat

record anim_env =
  inner_text :: "nat \<Rightarrow> string"
  text_content :: "nat \<Rightarrow> string"
  class_name :: "nat \<Rightarrow> string"
  client_rect :: "nat \<Rightarrow> rect"
  offset_rect :: "nat \<Rightarrow> rect"
  computed_style :: "nat \<Rightarrow> string \<Rightarrow> string"
  deck_scale :: rat
  deck_center :: bool

record anim_options =
  ao_easing :: string
  ao_duration :: jsnum
  ao_delay :: jsnum

text \<open>The options of a pair; \<open>False\<close> for \<open>scale\<close> and \<open>translate\<close> is the value \<open>false\<close>.\<close>

record pair_options =
  po_scale :: bool
  po_translate :: bool
  po_styles :: "anim_style list option"
  po_measure :: "(nat \<Rightarrow> rect) option"
  po_easing :: "string option"
  po_duration :: "jsnum option"
  po_delay :: "jsnum option"

definition no_pair_options :: pair_options where
  "no_pair_options = \<lparr>po_scale = True, po_translate = True, po_styles = None, po_measure = None,
     po_easing = None, po_duration = None, po_delay = None\<rparr>"

record anim_pair =
  p_from :: nat
  p_to :: nat
  p_options :: "pair_options option"

datatype style_value =
    SText string
  | SNumber jsnum
  | SExplicit string
  | STransform "(jsnum \<times> jsnum) option" "(jsnum \<times> jsnum) option"
  | STransition jsnum string jsnum

type_synonym styles = "(string \<times> style_value) list"

datatype anim_rule =
    MatchRule nat styles styles
  | UnmatchedRule "nat option" jsnum jsnum
      \<comment> \<open>the number in the target's id, if it has one; duration and delay\<close>

record animation =
  adoc :: dom
  counter :: nat
  sheet :: "anim_rule list option"
  frames :: "nat list"
    \<comment> \<open>slides whose animation starts with the next frame\<close>
  anim_events :: "(nat \<times> nat) list"

section \<open>Matching\<close>

definition node_name :: "elem \<Rightarrow> string" where
  "node_name e =
     (case tag e of Section \<Rightarrow> ''SECTION'' | Img \<Rightarrow> ''IMG'' | Video \<Rightarrow> ''VIDEO'' | Audio \<Rightarrow> ''AUDIO''
      | Iframe \<Rightarrow> ''IFRAME'' | Source \<Rightarrow> ''SOURCE'' | Anchor \<Rightarrow> ''A'' | Aside \<Rightarrow> ''ASIDE'' | Tag t \<Rightarrow> t)"

definition textNodes :: "elem \<Rightarrow> bool" where
  "textNodes e \<longleftrightarrow> node_name e \<in> set [''H1'', ''H2'', ''H3'', ''H4'', ''H5'', ''H6'', ''P'', ''LI'']"

definition mediaNodes :: "elem \<Rightarrow> bool" where
  "mediaNodes e \<longleftrightarrow> node_name e \<in> set [''IMG'', ''VIDEO'', ''IFRAME'']"

definition codeNodes :: "elem \<Rightarrow> bool" where
  "codeNodes e \<longleftrightarrow> node_name e = ''PRE''"

text \<open>
  \<open>fromMatches\<close> and \<open>toMatches\<close> are object literals: a key that every object inherits is taken for a
  list that is there, and the call of its \<open>push\<close> throws.
\<close>

fun collect_from :: "(nat \<Rightarrow> string) \<Rightarrow> nat list \<Rightarrow> (string \<Rightarrow> nat option list) \<Rightarrow> (string \<Rightarrow> nat option list) option" where
  "collect_from key [] m = Some m"
| "collect_from key (e # es) m =
     (if key e = [] then collect_from key es m
      else if key e \<in> set object_prototype then None
      else collect_from key es (m(key e := m (key e) @ [Some e])))"

text \<open>The from-element at the same index, or the last one.\<close>

definition take_match :: "nat \<Rightarrow> nat option list \<Rightarrow> nat option \<times> nat option list" where
  "take_match primaryIndex l =
     (let secondaryIndex = length l - 1
      in if primaryIndex < length l \<and> l ! primaryIndex \<noteq> None
         then (l ! primaryIndex, l[primaryIndex := None])
         else if l \<noteq> [] \<and> l ! secondaryIndex \<noteq> None
         then (l ! secondaryIndex, l[secondaryIndex := None])
         else (None, l))"

fun match_to ::
  "(nat \<Rightarrow> string) \<Rightarrow> nat list \<Rightarrow> (string \<Rightarrow> nat option list) \<Rightarrow> (string \<Rightarrow> nat) \<Rightarrow> (nat \<times> nat) list option" where
  "match_to key [] m n = Some []"
| "match_to key (t # ts) m n =
     (if key t \<in> set object_prototype then None
      else (case take_match (n (key t)) (m (key t)) of
              (found, l) \<Rightarrow>
                map_option (\<lambda>ps. (case found of Some f \<Rightarrow> [(f, t)] | None \<Rightarrow> []) @ ps)
                  (match_to key ts (m(key t := l)) (n(key t := Suc (n (key t)))))))"

definition findAutoAnimateMatches ::
  "pair_options option \<Rightarrow> (nat \<Rightarrow> string) \<Rightarrow> nat list \<Rightarrow> nat list \<Rightarrow> anim_pair list option" where
  "findAutoAnimateMatches opts serializer fromElements toElements =
     Option.bind (collect_from serializer fromElements (\<lambda>_. []))
       (\<lambda>m. map_option (map (\<lambda>(f, t). \<lparr>p_from = f, p_to = t, p_options = opts\<rparr>))
          (match_to serializer toElements m (\<lambda>_. 0)))"

definition round2 :: "rat \<Rightarrow> rat" where
  "round2 q = of_int (floor (q * 100 + 1 / 2)) / 100"

definition scale_rect :: "rat \<Rightarrow> rect \<Rightarrow> rect" where
  "scale_rect k r = \<lparr>rx = rx r * k, ry = ry r * k, rwidth = rwidth r * k, rheight = rheight r * k\<rparr>"

definition getLocalBoundingBox :: "anim_env \<Rightarrow> nat \<Rightarrow> rect" where
  "getLocalBoundingBox ae i =
     (let r = scale_rect (deck_scale ae) (offset_rect ae i)
      in \<lparr>rx = round2 (rx r), ry = round2 (ry r), rwidth = round2 (rwidth r), rheight = round2 (rheight r)\<rparr>)"

text \<open>The four searches over the slides, by id, text, media and code.\<close>

definition search_pairs ::
  "dom \<Rightarrow> (nat \<Rightarrow> string) \<Rightarrow> (elem \<Rightarrow> bool) \<Rightarrow> nat \<Rightarrow> nat \<Rightarrow> anim_pair list option" where
  "search_pairs dm serializer sel fromSlide toSlide =
     findAutoAnimateMatches None (\<lambda>i. node_name (el dm i) @ '':::'' @ serializer i)
       (queryAll dm fromSlide sel) (queryAll dm toSlide sel)"

definition media_source :: "elem \<Rightarrow> string" where
  "media_source e = or_null (if truthy_string (attrs e Src) then attrs e Src else attrs e DataSrc)"

definition code_lines :: "anim_env \<Rightarrow> dom \<Rightarrow> anim_pair \<Rightarrow> anim_pair list option" where
  "code_lines ae dm p =
     Option.bind
       (findAutoAnimateMatches
         (Some (no_pair_options\<lparr>po_scale := False, po_styles := Some [],
            po_measure := Some (getLocalBoundingBox ae)\<rparr>))
         (text_content ae)
         (queryIds dm (p_from p) (\<lambda>i. has_class HljsLnCode (el dm i) \<and> has_ancestor dm (has_class Hljs) i))
         (queryIds dm (p_to p) (\<lambda>i. has_class HljsLnCode (el dm i) \<and> has_ancestor dm (has_class Hljs) i)))
       (\<lambda>ls. map_option ((@) ls)
         (findAutoAnimateMatches
           (Some (no_pair_options\<lparr>po_scale := False, po_styles := Some [plain_style ''width''],
              po_measure := Some (getLocalBoundingBox ae)\<rparr>))
           (\<lambda>i. or_empty (attrs (el dm i) DataLineNumber))
           (queryIds dm (p_from p) (\<lambda>i. has_class HljsLnLine (el dm i) \<and> has_attr DataLineNumber (el dm i)
              \<and> has_ancestor dm (has_class Hljs) i))
           (queryIds dm (p_to p) (\<lambda>i. has_class HljsLnLine (el dm i) \<and> has_attr DataLineNumber (el dm i)
              \<and> has_ancestor dm (has_class Hljs) i))))"

definition pair_kind :: "dom \<Rightarrow> anim_pair \<Rightarrow> anim_pair" where
  "pair_kind dm p =
     (if textNodes (el dm (p_from p)) then p\<lparr>p_options := Some (no_pair_options\<lparr>po_scale := False\<rparr>)\<rparr>
      else if codeNodes (el dm (p_from p))
      then p\<lparr>p_options := Some (no_pair_options\<lparr>po_scale := False,
             po_styles := Some [plain_style ''width'', plain_style ''height'']\<rparr>)\<rparr>
      else p)"

text \<open>\<open>forEach\<close> does not visit the pairs that are appended while it runs.\<close>

fun append_lines :: "anim_env \<Rightarrow> dom \<Rightarrow> anim_pair list \<Rightarrow> anim_pair list option" where
  "append_lines ae dm [] = Some []"
| "append_lines ae dm (p # ps) =
     (if \<not> textNodes (el dm (p_from p)) \<and> codeNodes (el dm (p_from p))
      then Option.bind (code_lines ae dm p) (\<lambda>ls. map_option ((@) ls) (append_lines ae dm ps))
      else append_lines ae dm ps)"

definition getAutoAnimatePairs :: "anim_env \<Rightarrow> dom \<Rightarrow> nat \<Rightarrow> nat \<Rightarrow> anim_pair list option" where
  "getAutoAnimatePairs ae dm fromSlide toSlide =
     Option.bind (search_pairs dm (\<lambda>i. or_null (attrs (el dm i) DataId)) (has_attr DataId) fromSlide toSlide)
       (\<lambda>ids. Option.bind (search_pairs dm (inner_text ae) textNodes fromSlide toSlide)
       (\<lambda>texts. Option.bind (search_pairs dm (\<lambda>i. media_source (el dm i)) mediaNodes fromSlide toSlide)
       (\<lambda>media. Option.bind (search_pairs dm (inner_text ae) codeNodes fromSlide toSlide)
       (\<lambda>codes. let pairs = ids @ texts @ media @ codes
                in map_option ((@) (map (pair_kind dm) pairs)) (append_lines ae dm pairs)))))"

text \<open>The first pair of each to-element is kept.\<close>

fun first_pairs :: "nat list \<Rightarrow> anim_pair list \<Rightarrow> anim_pair list" where
  "first_pairs reserved [] = []"
| "first_pairs reserved (p # ps) =
     (if p_to p \<in> set reserved then first_pairs reserved ps else p # first_pairs (reserved @ [p_to p]) ps)"

definition getAutoAnimatableElements ::
  "(nat \<Rightarrow> nat \<Rightarrow> anim_pair list) option \<Rightarrow> anim_env \<Rightarrow> dom \<Rightarrow> nat \<Rightarrow> nat \<Rightarrow> anim_pair list option" where
  "getAutoAnimatableElements autoAnimateMatcher ae dm fromSlide toSlide =
     map_option (first_pairs [])
       (case autoAnimateMatcher of
          Some f \<Rightarrow> Some (f fromSlide toSlide)
        | None \<Rightarrow> getAutoAnimatePairs ae dm fromSlide toSlide)"

text \<open>Elements that neither are a target nor contain one.\<close>

definition is_target :: "dom \<Rightarrow> node \<Rightarrow> bool" where
  "is_target dm n \<longleftrightarrow> has_attr DataAutoAnimateTarget (el dm (nid n))"

fun getUnmatchedAutoAnimateElements :: "dom \<Rightarrow> node \<Rightarrow> nat list" where
  "getUnmatchedAutoAnimateElements dm (Node i ns) =
     concat (map (\<lambda>c.
       (if \<not> is_target dm c \<and> \<not> list_ex (is_target dm) (descendants c) then [nid c] else [])
       @ (if list_ex (is_target dm) (descendants c) then getUnmatchedAutoAnimateElements dm c else [])) ns)"

section \<open>Options of an element\<close>

definition own_options :: "elem \<Rightarrow> anim_options \<Rightarrow> anim_options" where
  "own_options e o1 =
     (let o2 = (if truthy_string (attrs e DataAutoAnimateEasing)
                then o1\<lparr>ao_easing := or_empty (attrs e DataAutoAnimateEasing)\<rparr> else o1);
          o3 = (if truthy_string (attrs e DataAutoAnimateDuration)
                then o2\<lparr>ao_duration := parseFloat (or_empty (attrs e DataAutoAnimateDuration))\<rparr> else o2)
      in if truthy_string (attrs e DataAutoAnimateDelay)
         then o3\<lparr>ao_delay := parseFloat (or_empty (attrs e DataAutoAnimateDelay))\<rparr> else o3)"

text \<open>
  The options are passed up to the outermost animated ancestor; on the way back each one applies its
  own attributes.
\<close>

definition getAutoAnimateOptions ::
  "content_config \<Rightarrow> dom \<Rightarrow> nat \<Rightarrow> anim_options option \<Rightarrow> anim_options" where
  "getAutoAnimateOptions cc dm i inherited =
     (let options = (case inherited of
                       Some inh \<Rightarrow> inh
                     | None \<Rightarrow> \<lparr>ao_easing = cfg_autoAnimateEasing cc, ao_duration = cfg_autoAnimateDuration cc,
                                ao_delay = Fin 0\<rparr>);
          parents = filter (\<lambda>j. j \<noteq> i \<and> has_attr DataAutoAnimateTarget (el dm j)) (element_path dm i)
      in own_options (el dm i) (fold (\<lambda>j. own_options (el dm j)) parents options))"

section \<open>Properties of an element\<close>

definition put_style :: "string \<Rightarrow> style_value \<Rightarrow> styles \<Rightarrow> styles" where
  "put_style k v kvs =
     (if k \<in> fst ` set kvs then map (\<lambda>(k', v'). if k' = k then (k', v) else (k', v')) kvs
      else kvs @ [(k, v)])"

definition drop_style :: "string \<Rightarrow> styles \<Rightarrow> styles" where
  "drop_style k = filter (\<lambda>(k', _). k' \<noteq> k)"

definition animated_value :: "anim_env \<Rightarrow> bool \<Rightarrow> nat \<Rightarrow> anim_style \<Rightarrow> style_value" where
  "animated_value ae from i style =
     (case (st_from style, st_to style, from) of
        (Some v, _, True) \<Rightarrow> SExplicit v
      | (_, Some v, False) \<Rightarrow> SExplicit v
      | _ \<Rightarrow>
          (let q = (if st_property style = ''line-height''
                    then js_div (parseFloat (computed_style ae i ''line-height''))
                           (parseFloat (computed_style ae i ''font-size'')) else NaN)
           in if q = NaN then SText (computed_style ae i (st_property style)) else SNumber q))"

definition animated_styles :: "anim_env \<Rightarrow> bool \<Rightarrow> nat \<Rightarrow> anim_style list \<Rightarrow> styles" where
  "animated_styles ae from i ss =
     fold (\<lambda>s kvs. let v = animated_value ae from i s
                   in if v \<noteq> SText [] then put_style (st_property s) v kvs else kvs) ss []"

definition animated_box :: "anim_env \<Rightarrow> pair_options \<Rightarrow> nat \<Rightarrow> rect" where
  "animated_box ae po i =
     (case po_measure po of
        Some f \<Rightarrow> f i
      | None \<Rightarrow> if deck_center ae then client_rect ae i else scale_rect (deck_scale ae) (offset_rect ae i))"

text \<open>The box is measured where the element is moved or scaled.\<close>

definition getAutoAnimatableProperties ::
  "content_config \<Rightarrow> anim_env \<Rightarrow> bool \<Rightarrow> nat \<Rightarrow> pair_options \<Rightarrow> rect option \<times> styles" where
  "getAutoAnimatableProperties cc ae from i po =
     (if po_translate po \<or> po_scale po then Some (animated_box ae po i) else None,
      animated_styles ae from i (case po_styles po of Some ss \<Rightarrow> ss | None \<Rightarrow> cfg_autoAnimateStyles cc))"

section \<open>Animating one pair\<close>

fun js_round :: "jsnum \<Rightarrow> jsnum" where
  "js_round (Fin q) = Fin (of_int (floor (q + 1 / 2)))"
| "js_round x = x"

definition round3 :: "jsnum \<Rightarrow> jsnum" where
  "round3 x = js_div (js_round (js_mul x (Fin 1000))) (Fin 1000)"

text \<open>
  The move from the box of one element to that of the other.  The horizontal scale is rounded (twice),
  the vertical one is not; both are compared with 0.
\<close>

definition box_transform :: "rat \<Rightarrow> pair_options \<Rightarrow> rect \<Rightarrow> rect \<Rightarrow> style_value option" where
  "box_transform presentationScale po f t =
     (let dx = round3 (js_div (Fin (rx f - rx t)) (Fin presentationScale));
          dy = round3 (js_div (Fin (ry f - ry t)) (Fin presentationScale));
          sx = round3 (round3 (js_div (Fin (rwidth f)) (Fin (rwidth t))));
          sy = js_div (Fin (rheight f)) (Fin (rheight t));
          translate = po_translate po \<and> (dx \<noteq> Fin 0 \<or> dy \<noteq> Fin 0);
          scale = po_scale po \<and> (sx \<noteq> Fin 0 \<or> sy \<noteq> Fin 0)
      in if translate \<or> scale
         then Some (STransform (if translate then Some (dx, dy) else None) (if scale then Some (sx, sy) else None))
         else None)"

text \<open>Unchanged styles are dropped; a style the from-element does not have makes the comparison throw.\<close>

definition plain_value :: "style_value \<Rightarrow> style_value" where
  "plain_value v = (case v of SExplicit s \<Rightarrow> SText s | _ \<Rightarrow> v)"

fun settle_styles :: "styles \<Rightarrow> styles \<Rightarrow> (styles \<times> styles) option" where
  "settle_styles [] from = Some ([], from)"
| "settle_styles ((k, v) # to) from =
     (case map_of from k of
        None \<Rightarrow> None
      | Some w \<Rightarrow>
          if v = w \<and> plain_value v = v then settle_styles to from
          else map_option (\<lambda>(to', from'). ((k, plain_value v) # to', from'))
                 (settle_styles to (put_style k (plain_value w) from)))"

definition FRAGMENT_STYLE_REGEX :: regex where
  "FRAGMENT_STYLE_REGEX =
     foldr RAlt
       [RSeq (word ''fade-'') (foldr (\<lambda>w. RAlt (word w))
          [''down'', ''up'', ''right'', ''left'', ''out'', ''in-then-out'', ''in-then-semi-out''] (RClass (\<lambda>_. False))),
        word ''semi-fade-out'', word ''current-visible'', word ''shrink''] (word ''grow'')"

definition fragment_style :: "string \<Rightarrow> string" where
  "fragment_style s =
     (case exec False FRAGMENT_STYLE_REGEX s 0 of Some (i, j) \<Rightarrow> substring s i j | None \<Rightarrow> [])"

definition pair_animation_options :: "pair_options \<Rightarrow> anim_options \<Rightarrow> anim_options" where
  "pair_animation_options po o1 =
     o1\<lparr>ao_delay := (case po_delay po of Some x \<Rightarrow> x | None \<Rightarrow> ao_delay o1),
        ao_duration := (case po_duration po of Some x \<Rightarrow> x | None \<Rightarrow> ao_duration o1),
        ao_easing := (case po_easing po of Some x \<Rightarrow> x | None \<Rightarrow> ao_easing o1)\<rparr>"

text \<open>The styles of both ends, and whether the fragment is shown at once.\<close>

definition skip_fragment :: "anim_env \<Rightarrow> dom \<Rightarrow> bool \<Rightarrow> nat \<Rightarrow> nat \<Rightarrow> bool" where
  "skip_fragment ae dm forward f t \<longleftrightarrow>
     has_class Fragment (el dm t) \<and> has_class Fragment (el dm f)
     \<and> fragment_style (class_name ae f) = fragment_style (class_name ae t) \<and> forward"

definition pair_styles ::
  "content_config \<Rightarrow> anim_env \<Rightarrow> pair_options \<Rightarrow> bool \<Rightarrow> nat \<Rightarrow> nat \<Rightarrow> (styles \<times> styles) option" where
  "pair_styles cc ae po isFragment f t =
     (let (fbox, fstyles) = getAutoAnimatableProperties cc ae True f po;
          (tbox, tstyles) = getAutoAnimatableProperties cc ae False t po;
          tstyles1 = (if isFragment then drop_style ''opacity'' tstyles else tstyles);
          move = (case (fbox, tbox) of
                    (Some r, Some q) \<Rightarrow> box_transform (deck_scale ae) po r q
                  | _ \<Rightarrow> None)
      in (case move of
            Some m \<Rightarrow> settle_styles (put_style ''transform'' (SText ''none'') tstyles1)
                       (put_style ''transform-origin'' (SText ''top left'') (put_style ''transform'' m fstyles))
          | None \<Rightarrow> settle_styles tstyles1 fstyles))"

definition pair_rules :: "anim_options \<Rightarrow> nat \<Rightarrow> styles \<times> styles \<Rightarrow> anim_rule list" where
  "pair_rules opts n tf =
     (case tf of
        (to, from) \<Rightarrow>
          if to = [] then []
          else
            (let names = join_with '', '' (map fst to)
             in [MatchRule n (put_style ''transition'' (SText ''none'') from)
                   (put_style ''will-change'' (SText names)
                     (put_style ''transition-property'' (SText names)
                       (put_style ''transition'' (STransition (ao_duration opts) (ao_easing opts) (ao_delay opts)) to)))]))"

definition autoAnimateElements ::
  "content_config \<Rightarrow> anim_env \<Rightarrow> anim_options \<Rightarrow> bool \<Rightarrow> anim_pair \<Rightarrow> nat \<Rightarrow> dom \<Rightarrow> (anim_rule list \<times> dom) option" where
  "autoAnimateElements cc ae animationOptions forward p n dm =
     (let f = p_from p; t = p_to p;
          po = (case p_options p of Some x \<Rightarrow> x | None \<Rightarrow> no_pair_options);
          dm1 = update_el t (set_attr DataAutoAnimateTarget (show_nat n))
                  (update_el f (set_attr DataAutoAnimateTarget []) dm);
          opts = pair_animation_options po (getAutoAnimateOptions cc dm1 t (Some animationOptions));
          dm2 = (if skip_fragment ae dm1 forward f t
                 then update_el t (\<lambda>e. add_class Disabled (add_class Visible e)) dm1 else dm1)
      in map_option (\<lambda>tf. (pair_rules opts n tf, dm2))
           (pair_styles cc ae po (has_class Fragment (el dm1 t)) f t))"

section \<open>run and reset\<close>

definition reset_slide_animation :: "elem \<Rightarrow> elem" where
  "reset_slide_animation e =
     (case attrs e DataAutoAnimate of
        Some v \<Rightarrow> (if v \<noteq> [] then set_attr DataAutoAnimate [] e else e)
      | None \<Rightarrow> e)"

definition animate_reset :: "animation \<Rightarrow> animation" where
  "animate_reset a =
     (let dm1 = update_all reset_slide_animation (map nid (nodes (adoc a))) (adoc a)
      in a\<lparr>adoc := update_all (remove_attr DataAutoAnimateTarget) (map nid (nodes dm1)) dm1, sheet := None\<rparr>)"

fun animate_pairs ::
  "content_config \<Rightarrow> anim_env \<Rightarrow> anim_options \<Rightarrow> bool \<Rightarrow> anim_pair list \<Rightarrow> nat \<Rightarrow> dom \<Rightarrow> (anim_rule list \<times> nat \<times> dom) option" where
  "animate_pairs cc ae opts forward [] n dm = Some ([], n, dm)"
| "animate_pairs cc ae opts forward (p # ps) n dm =
     (case autoAnimateElements cc ae opts forward p n dm of
        None \<Rightarrow> None
      | Some (rules, dm1) \<Rightarrow>
          map_option (\<lambda>(rules', n', dm'). (rules @ rules', n', dm'))
            (animate_pairs cc ae opts forward ps (Suc n) dm1))"

definition js_differs :: "jsnum \<Rightarrow> jsnum \<Rightarrow> bool" where
  "js_differs x y \<longleftrightarrow> x = NaN \<or> x \<noteq> y"

definition unmatched_step ::
  "content_config \<Rightarrow> anim_options \<Rightarrow> nat \<Rightarrow> anim_rule list \<times> nat \<times> dom \<Rightarrow> anim_rule list \<times> nat \<times> dom" where
  "unmatched_step cc opts i st =
     (case st of
        (rules, n, dm) \<Rightarrow>
          (let uo = getAutoAnimateOptions cc dm i (Some opts)
           in if js_differs (ao_duration uo) (ao_duration opts) \<or> js_differs (ao_delay uo) (ao_delay opts)
              then (rules @ [UnmatchedRule (Some n) (ao_duration uo) (ao_delay uo)], Suc n,
                    update_el i (set_attr DataAutoAnimateTarget (''unmatched-'' @ show_nat n)) dm)
              else (rules, n, update_el i (set_attr DataAutoAnimateTarget ''unmatched'') dm)))"

definition animate_unmatched ::
  "content_config \<Rightarrow> anim_options \<Rightarrow> nat \<Rightarrow> anim_rule list \<times> nat \<times> dom \<Rightarrow> anim_rule list \<times> nat \<times> dom" where
  "animate_unmatched cc opts toSlide st =
     (case st of
        (rules, n, dm) \<Rightarrow>
          if attrs (el dm toSlide) DataAutoAnimateUnmatched \<noteq> Some ''false'' \<and> cfg_autoAnimateUnmatched cc
          then (case fold (unmatched_step cc opts)
                       (case node_of dm toSlide of Some nd \<Rightarrow> getUnmatchedAutoAnimateElements dm nd | None \<Rightarrow> [])
                       (rules, n, dm) of
                  (rules', n', dm') \<Rightarrow>
                    (rules' @ [UnmatchedRule None (js_mul (ao_duration opts) (Fin (8 / 10)))
                                 (js_mul (ao_duration opts) (Fin (2 / 10)))], n', dm'))
          else st)"

text \<open>The position among all slides that are no stacks; \<open>indexOf\<close> is -1 for the others.\<close>

definition can_animate :: "nat list \<Rightarrow> dom \<Rightarrow> nat \<Rightarrow> nat \<Rightarrow> bool" where
  "can_animate allSlides dm fromSlide toSlide \<longleftrightarrow>
     has_attr DataAutoAnimate (el dm fromSlide) \<and> has_attr DataAutoAnimate (el dm toSlide)
     \<and> attrs (el dm fromSlide) DataAutoAnimateId = attrs (el dm toSlide) DataAutoAnimateId
     \<and> \<not> has_attr DataAutoAnimateRestart
         (el dm (if index_of allSlides toSlide > index_of allSlides fromSlide then toSlide else fromSlide))"

definition animate_run ::
  "content_config \<Rightarrow> (nat \<Rightarrow> nat \<Rightarrow> anim_pair list) option \<Rightarrow> anim_env \<Rightarrow> nat list \<Rightarrow> nat \<Rightarrow> nat \<Rightarrow> animation \<Rightarrow> animation option" where
  "animate_run cc matcher ae allSlides fromSlide toSlide a0 =
     (let a = animate_reset a0
      in if \<not> can_animate allSlides (adoc a) fromSlide toSlide then Some a
         else
           (let opts = getAutoAnimateOptions cc (adoc a) toSlide None;
                dm = update_el toSlide (set_attr DataAutoAnimate ''pending'')
                       (update_el fromSlide (set_attr DataAutoAnimate ''pending'') (adoc a));
                forward = index_of allSlides toSlide > index_of allSlides fromSlide
            in Option.bind (getAutoAnimatableElements matcher ae dm fromSlide toSlide)
                 (\<lambda>pairs. map_option
                    (\<lambda>st. (case animate_unmatched cc opts toSlide st of
                       (rules, n, dm') \<Rightarrow>
                         a\<lparr>adoc := dm', counter := n, sheet := Some rules, frames := frames a @ [toSlide],
                           anim_events := anim_events a @ [(fromSlide, toSlide)]\<rparr>))
                    (animate_pairs cc ae opts forward pairs (counter a) dm))))"

text \<open>The next animation frame.\<close>

definition animation_frame :: "animation \<Rightarrow> animation" where
  "animation_frame a =
     (case frames a of
        [] \<Rightarrow> a
      | s # fs \<Rightarrow>
          (if sheet a \<noteq> None then a\<lparr>adoc := update_el s (set_attr DataAutoAnimate ''running'') (adoc a), frames := fs\<rparr>
           else a\<lparr>frames := fs\<rparr>))"

end
