(* ===== verification/AnimateLaws.thy ===== *)
theory AnimateLaws
  imports AutoAnimate "HOL-Library.Sublist"
begin

text \<open>
  The matching of auto-animation pairs the k-th element with a key on one slide with the k-th element
  with that key on the other one; each to-element is animated once; \<open>reset\<close> takes back every attribute
  that \<open>run\<close> has set.
\<close>

section \<open>The search\<close>

text \<open>The from-elements with a key, and what is left of them after \<open>n\<close> of them have been taken.\<close>

definition with_key :: "(nat \<Rightarrow> string) \<Rightarrow> string \<Rightarrow> nat list \<Rightarrow> nat list" where
  "with_key key k es = (if k = [] then [] else filter (\<lambda>e. key e = k) es)"

definition remaining :: "nat \<Rightarrow> nat list \<Rightarrow> nat option list" where
  "remaining n es = map (\<lambda>i. if i < n then None else Some (es ! i)) [0..<length es]"

lemma with_key_Cons:
  "with_key key k (e # es) = (if key e = k \<and> k \<noteq> [] then [e] else []) @ with_key key k es"
  by (simp add: with_key_def)

lemma collect_from_eq:
  "collect_from key es m =
     (if \<exists>e \<in> set es. key e \<in> set object_prototype then None
      else Some (\<lambda>k. m k @ map Some (with_key key k es)))"
proof (induction es arbitrary: m)
  case Nil
  show ?case by (auto simp: with_key_def fun_eq_iff)
next
  case (Cons e es)
  have "[] \<notin> set object_prototype" by (simp add: object_prototype_def)
  then show ?case
    by (auto simp: Cons.IH with_key_Cons fun_eq_iff)
qed

lemma remaining_0: "remaining 0 es = map Some es"
  by (rule nth_equalityI) (simp_all add: remaining_def)

lemma length_remaining [simp]: "length (remaining n es) = length es"
  by (simp add: remaining_def)

lemma take_match_remaining:
  "take_match n (remaining n es) =
     (if n < length es then (Some (es ! n), remaining (Suc n) es) else (None, remaining (Suc n) es))"
proof (cases "n < length es")
  case True
  have "(remaining n es)[n := None] = remaining (Suc n) es"
    by (rule nth_equalityI) (auto simp: remaining_def nth_list_update less_Suc_eq)
  with True show ?thesis by (simp add: take_match_def remaining_def)
next
  case False
  then have "remaining n es = remaining (Suc n) es"
    by (auto simp: remaining_def)
  moreover have "es \<noteq> [] \<Longrightarrow> length es - 1 < n"
    using False by (cases es) auto
  then have "remaining n es \<noteq> [] \<Longrightarrow> remaining n es ! (length (remaining n es) - 1) = None"
    by (auto simp: remaining_def)
  ultimately show ?thesis
    using False by (auto simp: take_match_def Let_def)
qed

text \<open>The \<open>n\<close>-th of the to-elements with a key takes the \<open>n\<close>-th from-element with it.\<close>

fun in_order :: "(nat \<Rightarrow> string) \<Rightarrow> (string \<Rightarrow> nat list) \<Rightarrow> nat list \<Rightarrow> (string \<Rightarrow> nat) \<Rightarrow> (nat \<times> nat) list" where
  "in_order key cs [] n = []"
| "in_order key cs (t # ts) n =
     (if n (key t) < length (cs (key t)) then [(cs (key t) ! n (key t), t)] else [])
     @ in_order key cs ts (n(key t := Suc (n (key t))))"

lemma match_to_eq:
  "(\<And>k. m k = remaining (n k) (cs k)) \<Longrightarrow>
     match_to key ts m n =
       (if \<exists>t \<in> set ts. key t \<in> set object_prototype then None else Some (in_order key cs ts n))"
proof (induction ts arbitrary: m n)
  case Nil
  show ?case by simp
next
  case (Cons t ts)
  have tm: "take_match (n (key t)) (m (key t)) =
      (if n (key t) < length (cs (key t)) then (Some (cs (key t) ! n (key t)), remaining (Suc (n (key t))) (cs (key t)))
       else (None, remaining (Suc (n (key t))) (cs (key t))))"
    unfolding Cons.prems by (rule take_match_remaining)
  have "match_to key ts (m(key t := remaining (Suc (n (key t))) (cs (key t)))) (n(key t := Suc (n (key t)))) =
      (if \<exists>t \<in> set ts. key t \<in> set object_prototype then None
       else Some (in_order key cs ts (n(key t := Suc (n (key t))))))"
    by (rule Cons.IH) (simp add: Cons.prems)
  with tm show ?case by (auto split: if_splits)
qed

lemma in_order_key:
  "filter (\<lambda>p. key (snd p) = k) (in_order key cs ts n) = zip (drop (n k) (cs k)) (filter (\<lambda>t. key t = k) ts)"
proof (induction ts arbitrary: n)
  case Nil
  show ?case by simp
next
  case (Cons t ts)
  show ?case
  proof (cases "key t = k \<and> n k < length (cs k)")
    case True
    then have "drop (n k) (cs k) = cs k ! n k # drop (Suc (n k)) (cs k)" by (simp add: Cons_nth_drop_Suc)
    with True show ?thesis by (simp add: Cons.IH)
  next
    case False
    then show ?thesis by (auto simp: Cons.IH)
  qed
qed

lemma in_order_subseq: "subseq (map snd (in_order key cs ts n)) ts"
  by (induction ts arbitrary: n) auto

lemma find_matches_eq:
  "findAutoAnimateMatches opts key fs ts =
     (if \<exists>e \<in> set fs \<union> set ts. key e \<in> set object_prototype then None
      else Some (map (\<lambda>(f, t). \<lparr>p_from = f, p_to = t, p_options = opts\<rparr>)
             (in_order key (\<lambda>k. with_key key k fs) ts (\<lambda>_. 0))))"
proof -
  have "match_to key ts (\<lambda>k. map Some (with_key key k fs)) (\<lambda>_. 0) =
      (if \<exists>t \<in> set ts. key t \<in> set object_prototype then None
       else Some (in_order key (\<lambda>k. with_key key k fs) ts (\<lambda>_. 0)))"
    by (rule match_to_eq) (simp add: remaining_0)
  then show ?thesis
    by (auto simp: findAutoAnimateMatches_def collect_from_eq)
qed

text \<open>The pairs of a search as a zip per key.\<close>

lemma find_matches_zip:
  assumes "findAutoAnimateMatches opts key fs ts = Some ps"
  shows "map (\<lambda>p. (p_from p, p_to p)) (filter (\<lambda>p. key (p_to p) = k) ps) =
      (if k = [] then [] else zip (filter (\<lambda>f. key f = k) fs) (filter (\<lambda>t. key t = k) ts))"
    and "subseq (map p_to ps) ts"
proof -
  let ?io = "in_order key (\<lambda>k. with_key key k fs) ts (\<lambda>_. 0)"
  have ps: "ps = map (\<lambda>(f, t). \<lparr>p_from = f, p_to = t, p_options = opts\<rparr>) ?io"
    using assms by (simp add: find_matches_eq split: if_splits)
  have "map (\<lambda>p. (p_from p, p_to p)) (filter (\<lambda>p. key (p_to p) = k) ps) = filter (\<lambda>p. key (snd p) = k) ?io"
    unfolding ps by (induction ?io) (auto simp: filter_map comp_def case_prod_beta)
  then show "map (\<lambda>p. (p_from p, p_to p)) (filter (\<lambda>p. key (p_to p) = k) ps) =
      (if k = [] then [] else zip (filter (\<lambda>f. key f = k) fs) (filter (\<lambda>t. key t = k) ts))"
    by (simp add: in_order_key with_key_def)
  show "subseq (map p_to ps) ts"
    unfolding ps using in_order_subseq [of key "\<lambda>k. with_key key k fs" ts "\<lambda>_. 0"]
    by (simp add: comp_def case_prod_beta)
qed

section \<open>Each element is animated once\<close>

lemma first_pairs_unique:
  "distinct (map p_to (first_pairs rs ps)) \<and> set (map p_to (first_pairs rs ps)) = p_to ` set ps - set rs
   \<and> subseq (first_pairs rs ps) ps"
proof (induction ps arbitrary: rs)
  case Nil
  show ?case by simp
next
  case (Cons p ps)
  show ?case
  proof (cases "p_to p \<in> set rs")
    case True
    with Cons.IH [of rs] show ?thesis by auto
  next
    case False
    with Cons.IH [of "rs @ [p_to p]"] show ?thesis by auto
  qed
qed

section \<open>Elements without a partner\<close>

lemma unmatched_free:
  "i \<in> set (getUnmatchedAutoAnimateElements dm n) \<Longrightarrow>
     \<exists>c \<in> set (descendants n). nid c = i \<and> \<not> is_target dm c \<and> \<not> list_ex (is_target dm) (descendants c)"
proof (induction dm n rule: getUnmatchedAutoAnimateElements.induct)
  case (1 dm j ns)
  then obtain c where c: "c \<in> set ns"
    "i \<in> set ((if \<not> is_target dm c \<and> \<not> list_ex (is_target dm) (descendants c) then [nid c] else [])
       @ (if list_ex (is_target dm) (descendants c) then getUnmatchedAutoAnimateElements dm c else []))"
    by auto
  show ?case
  proof (cases "list_ex (is_target dm) (descendants c)")
    case True
    with c(2) have i: "i \<in> set (getUnmatchedAutoAnimateElements dm c)" by simp
    from "1.IH" [OF c(1) True i] c(1) show ?thesis by auto
  next
    case False
    with c have "nid c = i" "\<not> is_target dm c" by (auto split: if_splits)
    with False c(1) show ?thesis by (intro bexI [of _ c]) auto
  qed
qed

section \<open>reset takes run back\<close>

text \<open>Only the two attributes that mark an animation are written, and no slide loses or gains the first.\<close>

definition marked_only :: "dom \<Rightarrow> dom \<Rightarrow> bool" where
  "marked_only dm dm' \<longleftrightarrow> dom_root dm' = dom_root dm
     \<and> (\<forall>i. (\<forall>x. x \<notin> {DataAutoAnimate, DataAutoAnimateTarget} \<longrightarrow> attrs (el dm' i) x = attrs (el dm i) x)
          \<and> has_attr DataAutoAnimate (el dm' i) = has_attr DataAutoAnimate (el dm i))"

lemma marked_only_refl [simp]: "marked_only dm dm"
  by (simp add: marked_only_def)

lemma marked_only_trans [trans]: "marked_only a b \<Longrightarrow> marked_only b c \<Longrightarrow> marked_only a c"
  by (simp add: marked_only_def)

lemma marked_only_target: "marked_only dm (update_el i (set_attr DataAutoAnimateTarget v) dm)"
  by (simp add: marked_only_def el_update_el has_attr_def)

lemma marked_only_slide:
  "has_attr DataAutoAnimate (el dm i) \<Longrightarrow> marked_only dm (update_el i (set_attr DataAutoAnimate v) dm)"
  by (simp add: marked_only_def el_update_el has_attr_def)

lemma autoAnimateElements_marked:
  assumes "autoAnimateElements cc ae opts fw p n dm = Some (rules, dm')"
  shows "marked_only dm dm'"
proof -
  let ?dm1 = "update_el (p_to p) (set_attr DataAutoAnimateTarget (show_nat n))
    (update_el (p_from p) (set_attr DataAutoAnimateTarget []) dm)"
  have m: "marked_only dm ?dm1" using marked_only_trans [OF marked_only_target marked_only_target] .
  have "marked_only d (update_el t (\<lambda>e. add_class Disabled (add_class Visible e)) d)" for d t
    by (simp add: marked_only_def el_update_el has_attr_def)
  with m have "marked_only dm (update_el (p_to p) (\<lambda>e. add_class Disabled (add_class Visible e)) ?dm1)"
    by (rule marked_only_trans)
  with m assms show ?thesis by (auto simp: autoAnimateElements_def Let_def split: if_splits)
qed

lemma animate_pairs_marked:
  "animate_pairs cc ae opts fw ps n dm = Some (rules, n', dm') \<Longrightarrow> marked_only dm dm'"
proof (induction ps arbitrary: n dm rules)
  case Nil
  then show ?case by simp
next
  case (Cons p ps)
  then show ?case
    by (auto split: option.splits intro: marked_only_trans dest: autoAnimateElements_marked)
qed

lemma unmatched_step_marked:
  "unmatched_step cc opts i (rules, n, dm) = (rules', n', dm') \<Longrightarrow> marked_only dm dm'"
  using marked_only_target by (auto simp: unmatched_step_def Let_def split: if_splits)

lemma unmatched_fold_marked:
  "fold (unmatched_step cc opts) is (rules, n, dm) = (rules', n', dm') \<Longrightarrow> marked_only dm dm'"
proof (induction "is" arbitrary: rules n dm)
  case Nil
  then show ?case by simp
next
  case (Cons i "is")
  obtain r1 n1 d1 where s: "unmatched_step cc opts i (rules, n, dm) = (r1, n1, d1)"
    by (cases "unmatched_step cc opts i (rules, n, dm)") auto
  with Cons.prems have "marked_only d1 dm'" by (intro Cons.IH) simp
  with unmatched_step_marked [OF s] show ?case by (rule marked_only_trans)
qed

lemma animate_unmatched_marked:
  "animate_unmatched cc opts s (rules, n, dm) = (rules', n', dm') \<Longrightarrow> marked_only dm dm'"
  using unmatched_fold_marked
  by (auto simp: animate_unmatched_def split: if_splits prod.splits)

text \<open>What \<open>reset\<close> leaves at an element of the document.\<close>

lemma reset_el:
  assumes "i \<in> set (map nid (nodes (adoc a)))"
  shows "attrs (el (adoc (animate_reset a)) i) =
    (attrs (el (adoc a) i))(DataAutoAnimate := map_option (\<lambda>_. []) (attrs (el (adoc a) i) DataAutoAnimate),
      DataAutoAnimateTarget := None)"
proof -
  have i1: "reset_slide_animation (reset_slide_animation e) = reset_slide_animation e" for e
    by (auto simp: reset_slide_animation_def split: option.splits)
  have i2: "remove_attr DataAutoAnimateTarget (remove_attr DataAutoAnimateTarget e) = remove_attr DataAutoAnimateTarget e" for e
    by (simp add: remove_attr_def)
  have n: "nodes (update_all reset_slide_animation is dm) = nodes dm" for "is" dm
    by (rule nodes_root) simp
  show ?thesis
    using assms
    by (auto simp: animate_reset_def Let_def n el_update_all [OF i1] el_update_all [OF i2] reset_slide_animation_def
        fun_eq_iff split: option.splits)
qed

lemma reset_root: "dom_root (adoc (animate_reset a)) = dom_root (adoc a)"
  by (simp add: animate_reset_def Let_def)

lemma run_marked:
  assumes "animate_run cc matcher ae ss f t a0 = Some a"
  shows "marked_only (adoc (animate_reset a0)) (adoc a)"
proof (cases "can_animate ss (adoc (animate_reset a0)) f t")
  case False
  with assms show ?thesis by (simp add: animate_run_def Let_def)
next
  case True
  let ?a = "animate_reset a0"
  let ?dm = "update_el t (set_attr DataAutoAnimate ''pending'')
    (update_el f (set_attr DataAutoAnimate ''pending'') (adoc ?a))"
  let ?opts = "getAutoAnimateOptions cc (adoc ?a) t None"
  obtain ps st where ps: "getAutoAnimatableElements matcher ae ?dm f t = Some ps"
    and st: "animate_pairs cc ae ?opts (index_of ss t > index_of ss f) ps (counter ?a) ?dm = Some st"
    and a: "a = (case animate_unmatched cc ?opts t st of (rules, n, dm') \<Rightarrow>
      ?a\<lparr>adoc := dm', counter := n, sheet := Some rules, frames := frames ?a @ [t],
        anim_events := anim_events ?a @ [(f, t)]\<rparr>)"
    using assms True by (auto simp: animate_run_def Let_def bind_eq_Some_conv)
  obtain r1 n1 d1 where st1: "st = (r1, n1, d1)" by (cases st) auto
  obtain r2 n2 d2 where u: "animate_unmatched cc ?opts t (r1, n1, d1) = (r2, n2, d2)"
    by (cases "animate_unmatched cc ?opts t (r1, n1, d1)") auto
  have "marked_only (adoc ?a) (update_el f (set_attr DataAutoAnimate ''pending'') (adoc ?a))"
    using True by (intro marked_only_slide) (simp add: can_animate_def)
  moreover have "marked_only (update_el f (set_attr DataAutoAnimate ''pending'') (adoc ?a)) ?dm"
    using True by (intro marked_only_slide) (simp add: can_animate_def el_update_el has_attr_def)
  ultimately have "marked_only (adoc ?a) ?dm" by (rule marked_only_trans)
  also have "marked_only ?dm d1" using animate_pairs_marked st st1 by blast
  finally have "marked_only (adoc ?a) d1" .
  then have "marked_only (adoc ?a) d2" using animate_unmatched_marked [OF u] by (rule marked_only_trans)
  then show ?thesis by (simp add: a st1 u)
qed

lemma reset_run:
  assumes r: "animate_run cc matcher ae ss f t a0 = Some a" and i: "i \<in> set (map nid (nodes (adoc a0)))"
  shows "attrs (el (adoc (animate_reset a)) i) = attrs (el (adoc (animate_reset a0)) i)
    \<and> sheet (animate_reset a) = None"
proof -
  have m: "marked_only (adoc (animate_reset a0)) (adoc a)" by (rule run_marked [OF r])
  then have "dom_root (adoc a) = dom_root (adoc a0)" by (simp add: marked_only_def reset_root)
  then have "i \<in> set (map nid (nodes (adoc a)))" using i nodes_root by metis
  note e = reset_el [OF this] and e0 = reset_el [OF i]
  have same: "attrs (el (adoc a) i) x = attrs (el (adoc (animate_reset a0)) i) x"
    if "x \<notin> {DataAutoAnimate, DataAutoAnimateTarget}" for x
    using m that by (simp add: marked_only_def)
  have "has_attr DataAutoAnimate (el (adoc a) i) = has_attr DataAutoAnimate (el (adoc (animate_reset a0)) i)"
    using m by (simp add: marked_only_def)
  then have aa: "map_option (\<lambda>_. []) (attrs (el (adoc a) i) DataAutoAnimate) = map_option (\<lambda>_. []) (attrs (el (adoc a0) i) DataAutoAnimate)"
    by (simp add: has_attr_def e0) (metis map_option_is_None option.exhaust option.map(2) option.simps(8))
  have "attrs (el (adoc (animate_reset a)) i) x = attrs (el (adoc (animate_reset a0)) i) x" for x
    using same [of x] aa by (auto simp: e e0)
  then show ?thesis by (auto simp: animate_reset_def Let_def)
qed

end
