(* ===== verification/Print.thy ===== *)
theory Print
  imports Fragments Layout Regex
begin

text \<open>
  The export to PDF, js/controllers/print.js: one page per slide, and one more per step of its
  fragments.  A page refers to its slide; the page of a step is a copy, and holds the document as it
  was when the copy was made.  The pauses of \<open>setupPDF\<close> for an animation frame are not modelled, and
  neither is the place of the pages in the document tree.
\<close>

section \<open>State\<close>

record pdf_page =
  pg_slide :: nat
  pg_height :: jsnum
  pg_background :: "string option"
  pg_left :: jsnum
  pg_top :: jsnum
  pg_width :: jsnum
  pg_slide_background :: bool
    \<comment> \<open>the background element of the slide has been moved into the page\<close>
  pg_notes :: "string option"
  pg_number :: "string option"
  pg_copy :: "dom option"

datatype pdf_item = Page pdf_page | NotesPage string

record print_env =
  presentation_background :: "string option"
  slide_background :: "nat \<Rightarrow> bool"

record pdf_sizes =
  pz_pageWidth :: jsnum
  pz_pageHeight :: jsnum
  pz_slideWidth :: jsnum
  pz_slideHeight :: jsnum

section \<open>Sizes\<close>

fun js_floor :: "jsnum \<Rightarrow> jsnum" where
  "js_floor (Fin q) = Fin (of_int (floor q))"
| "js_floor x = x"

fun js_ceil :: "jsnum \<Rightarrow> jsnum" where
  "js_ceil (Fin q) = Fin (of_int (ceiling q))"
| "js_ceil x = x"

definition pdf_page_sizes :: "deck \<Rightarrow> pdf_sizes" where
  "pdf_page_sizes d =
     (let sz = getComputedSlideSize (Some (innerWidth (env d))) (Some (innerHeight (env d))) d;
          k = Fin (1 + cfg_margin (cfg d))
      in \<lparr>pz_pageWidth = js_floor (js_mul (sz_width sz) k), pz_pageHeight = js_floor (js_mul (sz_height sz) k),
          pz_slideWidth = sz_width sz, pz_slideHeight = sz_height sz\<rparr>)"

definition number_of_pages :: "content_config \<Rightarrow> pdf_sizes \<Rightarrow> rat \<Rightarrow> jsnum" where
  "number_of_pages cc z contentHeight =
     js_min (js_max (js_ceil (js_div (Fin contentHeight) (pz_pageHeight z))) (Fin 1)) (cfg_pdfMaxPagesPerSlide cc)"

definition page_top :: "bool \<Rightarrow> pdf_sizes \<Rightarrow> rat \<Rightarrow> jsnum" where
  "page_top centered z contentHeight =
     (if centered then js_max (js_div (js_sub (pz_pageHeight z) (Fin contentHeight)) (Fin 2)) (Fin 0)
      else js_div (js_sub (pz_pageHeight z) (pz_slideHeight z)) (Fin 2))"

section \<open>Pages of a slide\<close>

definition notes_layout :: "show_notes \<Rightarrow> string option" where
  "notes_layout n =
     (case n of NotesOff \<Rightarrow> None | NotesOn \<Rightarrow> Some ''inline'' | NotesLayout s \<Rightarrow> (if s = [] then None else Some s))"

definition show_numbers_regex :: regex where
  "show_numbers_regex = ignore_case (RAlt (word ''all'') (word ''print''))"

definition injectPageNumbers :: "full_config \<Rightarrow> bool" where
  "injectPageNumbers c \<longleftrightarrow>
     (case cfg_slideNumber c of SNOff \<Rightarrow> False | SNFormat s \<Rightarrow> s \<noteq> [] | _ \<Rightarrow> True)
     \<and> test show_numbers_regex (cfg_showSlideNumber c)"

definition pdf_slide_page ::
  "content_config \<Rightarrow> print_env \<Rightarrow> pdf_sizes \<Rightarrow> (nat \<Rightarrow> rat) \<Rightarrow> nat \<Rightarrow> nat \<Rightarrow> deck \<Rightarrow> pdf_page" where
  "pdf_slide_page cc pe z heights slideNumber s d =
     (let n = number_of_pages cc z (heights s);
          centered = (n = Fin 1 \<and> cfg_center (cfg d) \<or> has_class CenterClass (el (doc d) s));
          notes = getSlideNotes d s
      in \<lparr>pg_slide = s,
          pg_height = js_mul (js_add (pz_pageHeight z) (Fin (cfg_pdfPageHeightOffset cc))) n,
          pg_background = (if truthy_string (presentation_background pe) then presentation_background pe else None),
          pg_left = js_div (js_sub (pz_pageWidth z) (pz_slideWidth z)) (Fin 2),
          pg_top = page_top centered z (heights s),
          pg_width = pz_slideWidth z,
          pg_slide_background = slide_background pe s,
          pg_notes = (if notes \<noteq> [] \<and> notes_layout (cfg_showNotes (cfg d)) \<notin> {None, Some ''separate-page''}
                      then Some notes else None),
          pg_number = (if injectPageNumbers (cfg d) then Some (show_nat slideNumber) else None),
          pg_copy = None\<rparr>)"

definition separate_notes :: "nat \<Rightarrow> deck \<Rightarrow> pdf_item list" where
  "separate_notes s d =
     (if getSlideNotes d s \<noteq> [] \<and> notes_layout (cfg_showNotes (cfg d)) = Some ''separate-page''
      then [NotesPage (getSlideNotes d s)] else [])"

text \<open>
  The grouped result of \<open>sort\<close> is an array with holes where no fragment has an index; \<open>forEach\<close> skips
  them, and passes the place in the array.
\<close>

definition group_places :: "dom \<Rightarrow> nat list \<Rightarrow> nat list" where
  "group_places dm fs =
     (let ks = map nat (sort (remdups (explicit_indices dm fs)))
      in ks @ map ((+) (if ks = [] then 0 else Suc (last ks))) [0..<length (unordered_groups dm fs)])"

fun fragment_pages ::
  "pdf_page \<Rightarrow> (nat \<times> nat list) list \<Rightarrow> nat list \<Rightarrow> dom \<Rightarrow> pdf_page list \<times> dom" where
  "fragment_pages pg [] previousFragmentStep dm = ([], dm)"
| "fragment_pages pg ((index, fragments) # gs) previousFragmentStep dm =
     (let dm1 = update_all (remove_class CurrentFragment) previousFragmentStep dm;
          dm2 = update_all (\<lambda>e. add_class CurrentFragment (add_class Visible e)) fragments dm1;
          clonedPage = pg\<lparr>pg_copy := Some dm2,
            pg_number := map_option (\<lambda>n. n @ ''.'' @ show_nat (index + 1)) (pg_number pg)\<rparr>
      in (case fragment_pages pg gs fragments dm2 of (ps, dm') \<Rightarrow> (clonedPage # ps, dm')))"

definition hide_fragments :: "nat list list \<Rightarrow> dom \<Rightarrow> dom" where
  "hide_fragments gs = fold (update_all (\<lambda>e. remove_class CurrentFragment (remove_class Visible e))) gs"

definition page_fragments :: "dom \<Rightarrow> nat \<Rightarrow> nat list" where
  "page_fragments dm s = filter (\<lambda>i. is_fragment (el dm i)) (s # queryAll dm s (\<lambda>_. True))"

definition separate_fragments :: "pdf_page \<Rightarrow> nat \<Rightarrow> dom \<Rightarrow> pdf_page list \<times> dom" where
  "separate_fragments pg s dm =
     (let fs = page_fragments dm s;
          gs = fragment_groups dm fs
      in (case fragment_pages pg (zip (group_places dm fs) gs) [] (sort_doc fs dm) of
            (ps, dm') \<Rightarrow> (ps, hide_fragments gs dm')))"

definition show_fragments :: "nat \<Rightarrow> dom \<Rightarrow> dom" where
  "show_fragments s dm =
     update_all (add_class Visible) (filter (\<lambda>i. \<not> has_class FadeOut (el dm i)) (page_fragments dm s)) dm"

definition pdf_slide ::
  "content_config \<Rightarrow> print_env \<Rightarrow> pdf_sizes \<Rightarrow> (nat \<Rightarrow> rat) \<Rightarrow> nat \<Rightarrow> pdf_item list \<times> nat \<times> deck \<Rightarrow> pdf_item list \<times> nat \<times> deck" where
  "pdf_slide cc pe z heights s st =
     (case st of
        (items, slideNumber, d) \<Rightarrow>
          if has_class Stack (el (doc d) s) then st
          else
            (let pg = pdf_slide_page cc pe z heights slideNumber s d;
                 items1 = items @ Page pg # separate_notes s d;
                 slideNumber1 = (if injectPageNumbers (cfg d) then Suc slideNumber else slideNumber)
             in if cfg_pdfSeparateFragments cc
                then (case separate_fragments pg s (doc d) of
                        (ps, dm) \<Rightarrow> (items1 @ map Page ps, slideNumber1, d\<lparr>doc := dm\<rparr>))
                else (items1, slideNumber1, update_doc (show_fragments s) d)))"

section \<open>setupPDF\<close>

record pdf_document =
  pdf_sizes_of :: pdf_sizes
  pdf_items :: "pdf_item list"
  pdf_deck :: deck

text \<open>Without a slide, \<open>slides[0].parentNode\<close> throws.\<close>

definition setupPDF :: "content_config \<Rightarrow> print_env \<Rightarrow> (nat \<Rightarrow> rat) \<Rightarrow> deck \<Rightarrow> pdf_document option" where
  "setupPDF cc pe heights d =
     (let slides = all_slides (doc d);
          z = pdf_page_sizes d
      in if slides = [] then None
         else (case fold (pdf_slide cc pe z heights) slides ([], 1, d) of
                 (items, _, d') \<Rightarrow> Some \<lparr>pdf_sizes_of = z, pdf_items = items, pdf_deck = d'\<rparr>))"

definition print_regex :: regex where
  "print_regex = ignore_case (word ''print-pdf'')"

text \<open>\<open>isPrintingPDF\<close>, from the query of the address.\<close>

definition printing_pdf :: "string \<Rightarrow> bool" where
  "printing_pdf search \<longleftrightarrow> test print_regex search"

end
