(* ===== verification/PrintLaws.thy ===== *)
theory PrintLaws
  imports Print FragmentLaws
begin

text \<open>
  The pages of the PDF: one per slide that is no stack, in document order and numbered from 1, and
  for each step of its fragments a copy that shows the groups up to this step.
\<close>

section \<open>Steps of a slide\<close>

lemma groups_classes: "has_class c (el (write_groups gs dm) f) = has_class c (el dm f)"
proof -
  have "has_class c (el (fold write_group xs dm) f) = has_class c (el dm f)" for xs
    by (rule fold_keeps [where g = "\<lambda>m. has_class c (el m f)"])
      (auto simp: write_group_el split: prod.splits if_splits)
  then show ?thesis by (simp add: write_groups_def)
qed

lemma show_group_el:
  "el (update_all (\<lambda>e. add_class CurrentFragment (add_class Visible e)) g dm) f =
     (if f \<in> set g then add_class CurrentFragment (add_class Visible (el dm f)) else el dm f)"
  by (rule el_update_all) (simp add: add_class_def insert_commute)

lemma unset_current_el:
  "el (update_all (remove_class CurrentFragment) g dm) f =
     (if f \<in> set g then remove_class CurrentFragment (el dm f) else el dm f)"
  by (rule el_update_all) (auto simp: remove_class_def)

lemma hide_group_el:
  "el (update_all (\<lambda>e. remove_class CurrentFragment (remove_class Visible e)) g dm) f =
     (if f \<in> set g then remove_class CurrentFragment (remove_class Visible (el dm f)) else el dm f)"
  by (rule el_update_all) (auto simp: remove_class_def)

text \<open>The document of the \<open>k\<close>-th copy.\<close>

definition shows_groups :: "nat list list \<Rightarrow> nat \<Rightarrow> dom \<Rightarrow> dom \<Rightarrow> bool" where
  "shows_groups gs k dm dm' \<longleftrightarrow>
     (\<forall>f. (has_class Visible (el dm' f) \<longleftrightarrow> f \<in> set (concat (take (Suc k) gs)) \<or> has_class Visible (el dm f))
        \<and> (has_class CurrentFragment (el dm' f) \<longleftrightarrow> f \<in> set (gs ! k))
        \<and> (\<forall>c. c \<notin> {Visible, CurrentFragment} \<longrightarrow> has_class c (el dm' f) = has_class c (el dm f)))"

lemma fragment_pages_copies:
  assumes "fragment_pages pg (zip is gs) prev dm = (ps, dm')" and "length is = length gs"
    and "\<And>f. has_class CurrentFragment (el dm f) \<Longrightarrow> f \<in> set prev"
  shows "length ps = length gs
    \<and> (\<forall>k < length gs. pg_slide (ps ! k) = pg_slide pg
        \<and> pg_number (ps ! k) = map_option (\<lambda>n. n @ ''.'' @ show_nat (is ! k + 1)) (pg_number pg)
        \<and> (\<exists>d. pg_copy (ps ! k) = Some d \<and> shows_groups gs k dm d))
    \<and> (\<forall>f c. c \<notin> {Visible, CurrentFragment} \<longrightarrow> has_class c (el dm' f) = has_class c (el dm f))
    \<and> (\<forall>f. f \<notin> set (concat gs) \<longrightarrow> has_class Visible (el dm' f) = has_class Visible (el dm f)
        \<and> (has_class CurrentFragment (el dm' f) \<longrightarrow> f \<in> set prev))
    \<and> dom_root dm' = dom_root dm"
  using assms
proof (induction gs arbitrary: "is" prev dm ps dm')
  case Nil
  then show ?case by auto
next
  case (Cons g gs)
  obtain i is' where "is": "is = i # is'" using Cons.prems(2) by (cases "is") auto
  let ?dm2 = "update_all (\<lambda>e. add_class CurrentFragment (add_class Visible e)) g
    (update_all (remove_class CurrentFragment) prev dm)"
  obtain ps' d' where r: "fragment_pages pg (zip is' gs) g ?dm2 = (ps', d')"
    by (cases "fragment_pages pg (zip is' gs) g ?dm2")
  with Cons.prems(1) have ps: "ps = pg\<lparr>pg_copy := Some ?dm2,
      pg_number := map_option (\<lambda>n. n @ ''.'' @ show_nat (i + 1)) (pg_number pg)\<rparr> # ps'" "dm' = d'"
    by (auto simp: "is" Let_def)
  have v: "has_class Visible (el ?dm2 f) \<longleftrightarrow> f \<in> set g \<or> has_class Visible (el dm f)"
    and c: "has_class CurrentFragment (el ?dm2 f) \<longleftrightarrow> f \<in> set g"
    and o: "c \<notin> {Visible, CurrentFragment} \<Longrightarrow> has_class c (el ?dm2 f) = has_class c (el dm f)" for f c
    using Cons.prems(3) by (auto simp: show_group_el unset_current_el)
  from Cons.IH [OF r] Cons.prems(2) c "is"
  have IH: "length ps' = length gs"
    "\<And>k. k < length gs \<Longrightarrow> pg_slide (ps' ! k) = pg_slide pg
        \<and> pg_number (ps' ! k) = map_option (\<lambda>n. n @ ''.'' @ show_nat (is' ! k + 1)) (pg_number pg)
        \<and> (\<exists>d. pg_copy (ps' ! k) = Some d \<and> shows_groups gs k ?dm2 d)"
    "\<And>f c. c \<notin> {Visible, CurrentFragment} \<Longrightarrow> has_class c (el d' f) = has_class c (el ?dm2 f)"
    "\<And>f. f \<notin> set (concat gs) \<Longrightarrow> has_class Visible (el d' f) = has_class Visible (el ?dm2 f)
        \<and> (has_class CurrentFragment (el d' f) \<longrightarrow> f \<in> set g)"
    "dom_root d' = dom_root ?dm2" by simp_all
  have "pg_slide (ps ! k) = pg_slide pg
      \<and> pg_number (ps ! k) = map_option (\<lambda>n. n @ ''.'' @ show_nat (is ! k + 1)) (pg_number pg)
      \<and> (\<exists>d. pg_copy (ps ! k) = Some d \<and> shows_groups (g # gs) k dm d)" if "k < length (g # gs)" for k
  proof (cases k)
    case 0
    have "shows_groups (g # gs) 0 dm ?dm2" using v c o by (simp add: shows_groups_def)
    with 0 show ?thesis by (simp add: ps "is")
  next
    case (Suc j)
    with that IH(2) [of j] obtain d where d: "pg_copy (ps' ! j) = Some d" "shows_groups gs j ?dm2 d" by auto
    then have "shows_groups (g # gs) (Suc j) dm d" using v o by (auto simp: shows_groups_def)
    with Suc that IH(2) [of j] d show ?thesis by (simp add: ps "is")
  qed
  moreover have "has_class c (el dm' f) = has_class c (el dm f)" if "c \<notin> {Visible, CurrentFragment}" for f c
    using IH(3) o that by (simp add: ps)
  moreover have "has_class Visible (el dm' f) = has_class Visible (el dm f)
      \<and> (has_class CurrentFragment (el dm' f) \<longrightarrow> f \<in> set prev)" if "f \<notin> set (concat (g # gs))" for f
    using IH(4) [of f] v [of f] that by (auto simp: ps)
  ultimately show ?case using IH(1,5) by (simp add: ps)
qed

lemma hide_fragments_el:
  "el (hide_fragments gs dm) f =
     (if f \<in> set (concat gs) then remove_class CurrentFragment (remove_class Visible (el dm f)) else el dm f)"
proof (induction gs arbitrary: dm)
  case Nil
  show ?case by (simp add: hide_fragments_def)
next
  case (Cons g gs)
  have "remove_class CurrentFragment (remove_class Visible (remove_class CurrentFragment (remove_class Visible e)))
      = remove_class CurrentFragment (remove_class Visible e)" for e
    by (auto simp: remove_class_def)
  with Cons show ?case by (auto simp: hide_fragments_def hide_group_el)
qed

lemma group_places_length: "length (group_places dm fs) = length (fragment_groups dm fs)"
  by (simp add: group_places_def Let_def fragment_groups_def ordered_groups_def)

lemma separate_fragments_steps:
  assumes s: "separate_fragments pg s dm = (ps, dm')" and srt: "sortable (page_fragments dm s) dm"
    and hid: "list_all (\<lambda>f. \<not> has_class Visible (el dm f)) (page_fragments dm s)"
    and cur: "\<And>f. \<not> has_class CurrentFragment (el dm f)"
  shows "length ps = length (fragment_groups dm (page_fragments dm s))
    \<and> (\<forall>k < length ps. pg_slide (ps ! k) = pg_slide pg
        \<and> pg_number (ps ! k) = map_option (\<lambda>n. n @ ''.'' @ show_nat (group_places dm (page_fragments dm s) ! k + 1)) (pg_number pg)
        \<and> (\<exists>d. pg_copy (ps ! k) = Some d
            \<and> filter (\<lambda>f. has_class Visible (el d f)) (page_fragments dm s)
                = filter (\<lambda>f. f \<in> set (concat (take (Suc k) (fragment_groups dm (page_fragments dm s))))) (page_fragments dm s)
            \<and> filter (\<lambda>f. has_class CurrentFragment (el d f)) (page_fragments dm s)
                = filter (\<lambda>f. f \<in> set (fragment_groups dm (page_fragments dm s) ! k)) (page_fragments dm s)))
    \<and> (\<forall>f \<in> set (page_fragments dm s). \<not> has_class Visible (el dm' f) \<and> \<not> has_class CurrentFragment (el dm' f))"
proof -
  let ?fs = "page_fragments dm s"
  let ?gs = "fragment_groups dm ?fs"
  obtain d1 where f: "fragment_pages pg (zip (group_places dm ?fs) ?gs) [] (sort_doc ?fs dm) = (ps, d1)"
    and dm': "dm' = hide_fragments ?gs d1"
    using s by (auto simp: separate_fragments_def Let_def split: prod.splits)
  have cls: "has_class c (el (sort_doc ?fs dm) f) = has_class c (el dm f)" for c f
    by (simp add: sort_doc_eq groups_classes)
  have "set (concat ?gs) = set ?fs" by (rule sort_set [OF srt])
  then have "\<forall>f \<in> set ?fs. \<not> has_class Visible (el dm' f) \<and> \<not> has_class CurrentFragment (el dm' f)"
    unfolding dm' hide_fragments_el by auto
  moreover note c = fragment_pages_copies [OF f group_places_length, unfolded cls]
  have "filter (\<lambda>f. has_class Visible (el d f)) ?fs = filter (\<lambda>f. f \<in> set (concat (take (Suc k) ?gs))) ?fs"
    "filter (\<lambda>f. has_class CurrentFragment (el d f)) ?fs = filter (\<lambda>f. f \<in> set (?gs ! k)) ?fs"
    if "shows_groups ?gs k (sort_doc ?fs dm) d" for k d
    using that hid by (auto simp: shows_groups_def cls list_all_iff intro!: filter_cong)
  ultimately show ?thesis using c cur by auto
qed

section \<open>The pages in order\<close>

text \<open>The page of a slide, without the copies for its fragments.\<close>

definition slide_pages :: "pdf_item list \<Rightarrow> pdf_page list" where
  "slide_pages items =
     concat (map (\<lambda>x. case x of Page p \<Rightarrow> (if pg_copy p = None then [p] else []) | NotesPage _ \<Rightarrow> []) items)"

lemma slide_pages_append [simp]: "slide_pages (xs @ ys) = slide_pages xs @ slide_pages ys"
  by (simp add: slide_pages_def)

lemma slide_pages_simps [simp]:
  "slide_pages [] = []"
  "slide_pages (Page p # xs) = (if pg_copy p = None then p # slide_pages xs else slide_pages xs)"
  "slide_pages (NotesPage n # xs) = slide_pages xs"
  by (simp_all add: slide_pages_def)

lemma slide_pages_notes [simp]: "slide_pages (separate_notes s d) = []"
  by (simp add: separate_notes_def)

lemma copies_no_slide_pages:
  "fragment_pages pg gs prev dm = (ps, dm') \<Longrightarrow> slide_pages (map Page ps) = []"
proof (induction pg gs prev dm arbitrary: ps rule: fragment_pages.induct)
  case (1 pg prev dm)
  then show ?case by simp
next
  case (2 pg i fs gs prev dm)
  then show ?case by (auto simp: Let_def split: prod.splits)
qed

text \<open>The class of a stack and the options are not touched.\<close>

lemma fragment_pages_stack:
  "fragment_pages pg gs prev dm = (ps, dm') \<Longrightarrow> has_class Stack (el dm' i) = has_class Stack (el dm i)"
proof (induction pg gs prev dm arbitrary: ps rule: fragment_pages.induct)
  case (1 pg prev dm)
  then show ?case by simp
next
  case (2 pg k fs gs prev dm)
  let ?dm2 = "update_all (\<lambda>e. add_class CurrentFragment (add_class Visible e)) fs
    (update_all (remove_class CurrentFragment) prev dm)"
  obtain qs where "fragment_pages pg gs fs ?dm2 = (qs, dm')"
    using "2.prems" by (auto simp: Let_def split: prod.splits)
  with "2.IH" [OF refl refl refl] have "has_class Stack (el dm' i) = has_class Stack (el ?dm2 i)" by blast
  then show ?case by (simp add: show_group_el unset_current_el split: if_splits)
qed

lemma separate_fragments_stack:
  assumes "separate_fragments pg s dm = (ps, dm')"
  shows "has_class Stack (el dm' i) = has_class Stack (el dm i)" and "slide_pages (map Page ps) = []"
proof -
  let ?fs = "page_fragments dm s"
  let ?gs = "fragment_groups dm ?fs"
  obtain d1 where f: "fragment_pages pg (zip (group_places dm ?fs) ?gs) [] (sort_doc ?fs dm) = (ps, d1)"
    and dm': "dm' = hide_fragments ?gs d1"
    using assms by (auto simp: separate_fragments_def Let_def split: prod.splits)
  show "slide_pages (map Page ps) = []" by (rule copies_no_slide_pages [OF f])
  have "has_class Stack (el dm' i) = has_class Stack (el d1 i)" by (simp add: dm' hide_fragments_el)
  also have "\<dots> = has_class Stack (el dm i)"
    unfolding fragment_pages_stack [OF f] sort_doc_eq groups_classes ..
  finally show "has_class Stack (el dm' i) = has_class Stack (el dm i)" .
qed

lemma show_fragments_stack: "has_class Stack (el (show_fragments s dm) i) = has_class Stack (el dm i)"
proof -
  have "add_class Visible (add_class Visible e) = add_class Visible e" for e by (simp add: add_class_def)
  then show ?thesis by (simp add: show_fragments_def el_update_all)
qed

lemma pdf_slide_step:
  assumes "pdf_slide cc pe z hs s (items, n, d) = (items', n', d')"
  shows "cfg d' = cfg d \<and> (\<forall>i. has_class Stack (el (doc d') i) = has_class Stack (el (doc d) i))
    \<and> (if has_class Stack (el (doc d) s) then items' = items \<and> n' = n
       else n' = (if injectPageNumbers (cfg d) then Suc n else n)
         \<and> (\<exists>pg. slide_pages items' = slide_pages items @ [pg] \<and> pg_slide pg = s
              \<and> pg_number pg = (if injectPageNumbers (cfg d) then Some (show_nat n) else None)
              \<and> pg_height pg = js_mul (js_add (pz_pageHeight z) (Fin (cfg_pdfPageHeightOffset cc)))
                    (number_of_pages cc z (hs s))))"
proof (cases "has_class Stack (el (doc d) s)")
  case True
  with assms show ?thesis by (simp add: pdf_slide_def)
next
  case False
  let ?pg = "pdf_slide_page cc pe z hs n s d"
  have pg: "pg_copy ?pg = None" "pg_slide ?pg = s"
    "pg_number ?pg = (if injectPageNumbers (cfg d) then Some (show_nat n) else None)"
    "pg_height ?pg = js_mul (js_add (pz_pageHeight z) (Fin (cfg_pdfPageHeightOffset cc))) (number_of_pages cc z (hs s))"
    by (simp_all add: pdf_slide_page_def Let_def)
  show ?thesis
  proof (cases "cfg_pdfSeparateFragments cc")
    case True
    obtain ps dm where sf: "separate_fragments ?pg s (doc d) = (ps, dm)" by (cases "separate_fragments ?pg s (doc d)")
    have st: "has_class Stack (el dm i) = has_class Stack (el (doc d) i)" "slide_pages (map Page ps) = []" for i
      using separate_fragments_stack [OF sf] by blast+
    from assms False True sf have "items' = (items @ Page ?pg # separate_notes s d) @ map Page ps"
      "n' = (if injectPageNumbers (cfg d) then Suc n else n)" "d' = d\<lparr>doc := dm\<rparr>"
      by (auto simp: pdf_slide_def Let_def)
    with False pg st show ?thesis by simp
  next
    case no: False
    from assms False no have "items' = items @ Page ?pg # separate_notes s d"
      "n' = (if injectPageNumbers (cfg d) then Suc n else n)" "d' = update_doc (show_fragments s) d"
      by (auto simp: pdf_slide_def Let_def)
    with False pg show ?thesis by (simp add: update_doc_def show_fragments_stack)
  qed
qed

text \<open>The slides that get a page.\<close>

definition leaf_slides :: "dom \<Rightarrow> nat list \<Rightarrow> nat list" where
  "leaf_slides dm ss = filter (\<lambda>s. \<not> has_class Stack (el dm s)) ss"

definition page_numbers :: "bool \<Rightarrow> nat \<Rightarrow> nat \<Rightarrow> string option list" where
  "page_numbers inject n m = map (\<lambda>k. if inject then Some (show_nat (n + k)) else None) [0..<m]"

lemma page_numbers_Suc:
  "page_numbers inject n (Suc m) =
     (if inject then Some (show_nat n) else None) # page_numbers inject (if inject then Suc n else n) m"
proof -
  have "[0..<Suc m] = 0 # map Suc [0..<m]" by (metis map_Suc_upt upt_conv_Cons zero_less_Suc)
  then show ?thesis unfolding page_numbers_def by (simp only: list.map map_map comp_def) simp
qed

lemma pdf_slides_order:
  assumes "fold (pdf_slide cc pe z hs) ss (items, n, d) = (items', n', d')"
  shows "\<exists>pgs. slide_pages items' = slide_pages items @ pgs \<and> map pg_slide pgs = leaf_slides (doc d) ss
      \<and> map pg_number pgs = page_numbers (injectPageNumbers (cfg d)) n (length pgs)
      \<and> map pg_height pgs = map (\<lambda>s. js_mul (js_add (pz_pageHeight z) (Fin (cfg_pdfPageHeightOffset cc)))
           (number_of_pages cc z (hs s))) (leaf_slides (doc d) ss)"
  using assms
proof (induction ss arbitrary: items n d)
  case Nil
  then show ?case by (simp add: leaf_slides_def page_numbers_def)
next
  case (Cons s ss)
  obtain i1 n1 d1 where p: "pdf_slide cc pe z hs s (items, n, d) = (i1, n1, d1)"
    by (cases "pdf_slide cc pe z hs s (items, n, d)") auto
  with Cons.prems have f: "fold (pdf_slide cc pe z hs) ss (i1, n1, d1) = (items', n', d')" by simp
  note st = pdf_slide_step [OF p]
  have leaf: "leaf_slides (doc d1) ss = leaf_slides (doc d) ss" using st by (simp add: leaf_slides_def)
  have c: "cfg d1 = cfg d" using st by simp
  from Cons.IH [OF f, unfolded leaf c] obtain pgs where pgs: "slide_pages items' = slide_pages i1 @ pgs"
    "map pg_slide pgs = leaf_slides (doc d) ss"
    "map pg_number pgs = page_numbers (injectPageNumbers (cfg d)) n1 (length pgs)"
    "map pg_height pgs = map (\<lambda>s. js_mul (js_add (pz_pageHeight z) (Fin (cfg_pdfPageHeightOffset cc)))
           (number_of_pages cc z (hs s))) (leaf_slides (doc d) ss)" by blast
  show ?case
  proof (cases "has_class Stack (el (doc d) s)")
    case True
    with st have "items' = items' \<and> i1 = items \<and> n1 = n" by simp
    with True pgs show ?thesis by (intro exI [of _ pgs]) (simp add: leaf_slides_def)
  next
    case False
    with st obtain pg where pg: "slide_pages i1 = slide_pages items @ [pg]" "pg_slide pg = s"
      "pg_number pg = (if injectPageNumbers (cfg d) then Some (show_nat n) else None)"
      "pg_height pg = js_mul (js_add (pz_pageHeight z) (Fin (cfg_pdfPageHeightOffset cc))) (number_of_pages cc z (hs s))"
      "n1 = (if injectPageNumbers (cfg d) then Suc n else n)" by auto
    have ls: "leaf_slides (doc d) (s # ss) = s # leaf_slides (doc d) ss" using False by (simp add: leaf_slides_def)
    have "page_numbers (injectPageNumbers (cfg d)) n (Suc (length pgs)) = pg_number pg # map pg_number pgs"
      unfolding page_numbers_Suc pgs(3) pg(3,5) ..
    with pgs(1,2,4) pg(1,2,4) show ?thesis by (intro exI [of _ "pg # pgs"]) (simp add: ls)
  qed
qed

text \<open>How many sheets a slide takes: at least one, unless the limit is lower.\<close>

lemma pages_as_nat:
  assumes "of_int (q - 1) * h < (c :: rat) \<or> q = 1" and "1 \<le> q" and "n = Fin (of_int q)" and "c \<le> of_int q * h"
  shows "\<exists>k. n = Fin (of_nat k) \<and> 1 \<le> k \<and> c \<le> of_nat k * h \<and> (k = 1 \<or> of_nat (k - 1) * h < c)"
proof -
  obtain k where k: "q = int k" "1 \<le> k" using assms(2) by (intro that [of "nat q"]) simp_all
  then have "of_int (q - 1) = (of_nat (k - 1) :: rat)" by (simp add: of_nat_diff)
  then show ?thesis using assms k by (intro exI [of _ k]) (cases "k = 1", simp_all)
qed

lemma number_of_pages_eq:
  assumes "js_div (Fin c) (Fin h) = Fin (c / h)" and "pz_pageHeight z = Fin h" and "cfg_pdfMaxPagesPerSlide cc = PInf"
  shows "number_of_pages cc z c = Fin (of_int (max (ceiling (c / h)) 1))"
  unfolding number_of_pages_def assms
  by (simp only: js_ceil.simps js_max_Fin of_int_max of_int_1) (simp add: js_min_def)

lemma ceiling_least:
  assumes "max (ceiling (c / h)) 1 \<noteq> (1 :: int)" and "(0 :: rat) < h"
  shows "of_int (max (ceiling (c / h)) 1 - 1) * h < c"
proof -
  have "max (ceiling (c / h)) 1 = ceiling (c / h)" using assms(1) by (simp add: max_def split: if_splits)
  then have "of_int (max (ceiling (c / h)) 1 - 1) < c / h" by (simp add: ceiling_correct less_ceiling_iff)
  then show ?thesis using assms(2) by (simp add: pos_less_divide_eq)
qed

lemma number_of_pages_bounds:
  assumes "pz_pageHeight z = Fin h" and "0 < h" and "cfg_pdfMaxPagesPerSlide cc = PInf"
  shows "\<exists>k. number_of_pages cc z c = Fin (of_nat k) \<and> 1 \<le> k \<and> c \<le> of_nat k * h \<and> (k = 1 \<or> of_nat (k - 1) * h < c)"
proof (rule pages_as_nat)
  show "of_int (max (ceiling (c / h)) 1 - 1) * h < c \<or> max (ceiling (c / h)) 1 = 1"
    using ceiling_least [OF _ assms(2)] by blast
  show "1 \<le> max (ceiling (c / h)) 1" by simp
  show "number_of_pages cc z c = Fin (of_int (max (ceiling (c / h)) 1))"
    using assms by (intro number_of_pages_eq) simp_all
  have "c / h \<le> of_int (max (ceiling (c / h)) 1)" by (meson ceiling_le_iff max.cobounded1)
  then show "c \<le> of_int (max (ceiling (c / h)) 1) * h" using assms(2) by (simp add: pos_divide_le_eq)
qed

end
