(* ===== verification/Search.thy ===== *)
theory Search
  imports Transition Colors Queries Regex
begin

text \<open>
  The search plugin, plugin/search/plugin.js: highlighting of the words of a query in the texts of the
  page, and the walk through the slides that contain them.  The page is a tree of elements and texts.
  No element of the page has the id \<open>slidecontent\<close>, so the search works on the body.  A call that throws
  or does not return is \<^const>\<open>None\<close>.
\<close>

section \<open>The page\<close>

text \<open>An element has its address, its \<open>nodeName\<close>, and the background colour it was given.\<close>

datatype snode = SText string | SElem nat string "string option" "snode list"

definition hiliteTag :: string where
  "hiliteTag = ''EM''"

definition skipTags :: "string list" where
  "skipTags = [hiliteTag, ''SCRIPT'', ''FORM'']"

definition colors :: "string list" where
  "colors = [''#ff6'', ''#a0ffff'', ''#9f9'', ''#f99'', ''#f6f'']"

record hilitor =
  wordColor :: "string \<Rightarrow> string option"
  colorIdx :: nat
  matchingSlides :: "indices list"

definition new_hilitor :: hilitor where
  "new_hilitor = \<lparr>wordColor = (\<lambda>_. None), colorIdx = 0, matchingSlides = []\<rparr>"

section \<open>The pattern\<close>

definition is_word_char :: "char \<Rightarrow> bool" where
  "is_word_char c \<longleftrightarrow> is_alnum c \<or> c = CHR ''_''"

definition in_alternative :: "char \<Rightarrow> bool" where
  "in_alternative c \<longleftrightarrow> is_word_char c \<or> c \<in> set [CHR 0x27, CHR ''-'']"

definition trim_query :: "string \<Rightarrow> string" where
  "trim_query s = rev (dropWhile (Not \<circ> is_word_char) (rev (dropWhile (Not \<circ> is_word_char) s)))"

text \<open>The alternatives that the \<open>|\<close> put between the runs of other characters separate.\<close>

function alternatives_of :: "string \<Rightarrow> string list" where
  "alternatives_of s =
     (let w = takeWhile in_alternative s; r = dropWhile in_alternative s
      in if r = [] then [w] else w # alternatives_of (dropWhile (Not \<circ> in_alternative) r))"
  by pat_completeness auto

termination
proof (relation "measure length")
  fix s :: string and w r
  assume r: "r = dropWhile in_alternative s" "r \<noteq> []"
  then obtain c t where ct: "r = c # t" "\<not> in_alternative c"
    by (metis hd_dropWhile list.collapse)
  have "length (dropWhile (Not \<circ> in_alternative) r) \<le> length t"
    using ct by (simp add: length_dropWhile_le)
  moreover have "length r \<le> length s" using r(1) by (simp add: length_dropWhile_le)
  ultimately show "(dropWhile (Not \<circ> in_alternative) r, s) \<in> measure length" using ct(1) by simp
qed simp

declare alternatives_of.simps [simp del]

fun one_of :: "string list \<Rightarrow> regex" where
  "one_of [] = REmpty"
| "one_of [w] = word w"
| "one_of (w # ws) = RAlt (word w) (one_of ws)"

definition setRegex :: "string \<Rightarrow> regex" where
  "setRegex input = ignore_case (one_of (alternatives_of (trim_query input)))"

section \<open>Highlighting\<close>

definition add_slide :: "indices \<Rightarrow> indices list \<Rightarrow> indices list" where
  "add_slide ix ms =
     (if list_ex (\<lambda>m. jv_same (ih m) (ih ix) \<and> jv_same (iv m) (iv ix)) ms then ms else ms @ [ix])"

text \<open>
  \<open>wordColor\<close> is an array that is used as an object: a key it inherits is taken for a colour (and is
  none, so the element gets no colour), and setting \<open>length\<close> to a colour throws.
\<close>

definition record_match ::
  "(string \<Rightarrow> bool) \<Rightarrow> deck \<Rightarrow> nat option \<Rightarrow> string \<Rightarrow> hilitor \<Rightarrow> (string option \<times> hilitor) option" where
  "record_match inherited d sec m h =
     (let h1 = h\<lparr>matchingSlides := add_slide (getIndices d sec) (matchingSlides h)\<rparr>;
          key = map lower_char m
      in if key = ''length'' then None
         else if inherited key then Some (None, h1)
         else (case wordColor h1 key of
                 Some c \<Rightarrow> Some (Some c, h1)
               | None \<Rightarrow>
                   (let c = colors ! (colorIdx h1 mod length colors)
                    in Some (Some c, h1\<lparr>wordColor := (wordColor h1)(key := Some c), colorIdx := Suc (colorIdx h1)\<rparr>))))"

text \<open>
  The loop over the children sees the nodes that are inserted while it runs: behind the text before the
  match comes the new element, which is skipped, and the rest of the text, which is searched again.
  The first argument after the pattern is the section around the nodes.
\<close>

partial_function (option) hiliteWords ::
  "(string \<Rightarrow> bool) \<Rightarrow> deck \<Rightarrow> regex \<Rightarrow> nat option \<Rightarrow> snode list \<Rightarrow> hilitor \<Rightarrow> (snode list \<times> hilitor) option" where
  "hiliteWords inherited d rx sec ns h =
     (case ns of
        [] \<Rightarrow> Some ([], h)
      | SElem a n col cs # rest \<Rightarrow>
          Option.bind
            (if n \<in> set skipTags then Some (cs, h)
             else hiliteWords inherited d rx (if n = ''SECTION'' then Some a else sec) cs h)
            (\<lambda>p. Option.bind (hiliteWords inherited d rx sec rest (snd p))
              (\<lambda>q. Some (SElem a n col (fst p) # fst q, snd q)))
      | SText t # rest \<Rightarrow>
          (case (if t = [] then None else exec False rx t 0) of
             None \<Rightarrow>
               Option.bind (hiliteWords inherited d rx sec rest h)
                 (\<lambda>q. Some (SText t # fst q, snd q))
           | Some (i, e) \<Rightarrow>
               Option.bind (record_match inherited d sec (substring t i e) h)
                 (\<lambda>r. Option.bind (hiliteWords inherited d rx sec (SText (drop e t) # rest) (snd r))
                   (\<lambda>q. Some (SText (take i t) # SElem 0 hiliteTag (fst r) [SText (substring t i e)] # fst q, snd q)))))"

declare hiliteWords.simps [code]

text \<open>
  Removing puts the first child in the place of every element with the tag, in document order; an
  element without a child makes it throw.
\<close>

fun remove_hilites :: "snode list \<Rightarrow> snode list option" where
  "remove_hilites [] = Some []"
| "remove_hilites (SText t # ns) = map_option ((#) (SText t)) (remove_hilites ns)"
| "remove_hilites (SElem a n col cs # ns) =
     (if n = hiliteTag
      then (case cs of [] \<Rightarrow> None | x # _ \<Rightarrow> remove_hilites (x # ns))
      else Option.bind (remove_hilites cs)
             (\<lambda>cs'. map_option ((#) (SElem a n col cs')) (remove_hilites ns)))"

definition apply_hilitor ::
  "(string \<Rightarrow> bool) \<Rightarrow> deck \<Rightarrow> string \<Rightarrow> snode list \<Rightarrow> (snode list \<times> hilitor) option" where
  "apply_hilitor inherited d input body =
     Option.bind (remove_hilites body)
       (\<lambda>body'. hiliteWords inherited d (setRegex input) None body' new_hilitor)"

section \<open>The search box\<close>

record search =
  page_body :: "snode list"
  rendered :: bool
  box_shown :: bool
  searchInput :: string
  searchboxDirty :: bool
  has_hilitor :: bool
  matchedSlides :: "indices list option"
  currentMatchedIndex :: nat

definition remove_if_any :: "search \<Rightarrow> search option" where
  "remove_if_any s =
     (if has_hilitor s then map_option (\<lambda>b. s\<lparr>page_body := b\<rparr>) (remove_hilites (page_body s)) else Some s)"

text \<open>\<open>closeSearch\<close>, the last step of \<open>render\<close>, finds the box in place.\<close>

definition closeSearch :: "search \<Rightarrow> search option" where
  "closeSearch s =
     Option.bind (if rendered s then Some s else remove_if_any (s\<lparr>rendered := True, box_shown := False\<rparr>))
       (\<lambda>s1. remove_if_any (s1\<lparr>box_shown := False\<rparr>))"

definition render :: "search \<Rightarrow> search option" where
  "render s = closeSearch (s\<lparr>rendered := True\<rparr>)"

definition openSearch :: "search \<Rightarrow> search option" where
  "openSearch s =
     map_option (\<lambda>s1. s1\<lparr>box_shown := True\<rparr>) (if rendered s then Some s else render s)"

definition toggleSearch :: "search \<Rightarrow> search option" where
  "toggleSearch s =
     Option.bind (if rendered s then Some s else render s)
       (\<lambda>s1. if \<not> box_shown s1 then openSearch s1 else closeSearch s1)"

definition new_matches :: "(string \<Rightarrow> bool) \<Rightarrow> deck \<Rightarrow> search \<Rightarrow> search option" where
  "new_matches inherited d s =
     (if \<not> searchboxDirty s then Some s
      else if searchInput s = []
      then map_option (\<lambda>s1. s1\<lparr>matchedSlides := None\<rparr>) (remove_if_any s)
      else map_option
             (\<lambda>p. s\<lparr>page_body := fst p, has_hilitor := True,
                matchedSlides := Some (matchingSlides (snd p)), currentMatchedIndex := 0\<rparr>)
             (apply_hilitor inherited d (searchInput s) (page_body s)))"

definition next_match :: "search \<Rightarrow> deck \<Rightarrow> (search \<times> deck) option" where
  "next_match s d =
     (case matchedSlides s of
        None \<Rightarrow> Some (s, d)
      | Some ms \<Rightarrow>
          (let i = (if ms \<noteq> [] \<and> length ms \<le> currentMatchedIndex s then 0 else currentMatchedIndex s)
           in if i < length ms
              then map_option (\<lambda>d'. (s\<lparr>currentMatchedIndex := Suc i\<rparr>, d')) (slide (ih (ms ! i)) (iv (ms ! i)) Undef d)
              else Some (s\<lparr>currentMatchedIndex := i\<rparr>, d)))"

definition doSearch :: "(string \<Rightarrow> bool) \<Rightarrow> search \<Rightarrow> deck \<Rightarrow> (search \<times> deck) option" where
  "doSearch inherited s d = Option.bind (new_matches inherited d s) (\<lambda>s1. next_match s1 d)"

definition search_keyup :: "(string \<Rightarrow> bool) \<Rightarrow> int \<Rightarrow> search \<Rightarrow> deck \<Rightarrow> (search \<times> deck) option" where
  "search_keyup inherited keyCode s d =
     (if keyCode = 13
      then map_option (\<lambda>(s1, d1). (s1\<lparr>searchboxDirty := False\<rparr>, d1)) (doSearch inherited s d)
      else Some (s\<lparr>searchboxDirty := True\<rparr>, d))"

definition search_keydown :: "string \<Rightarrow> bool \<Rightarrow> bool \<Rightarrow> search \<Rightarrow> search option" where
  "search_keydown key ctrl meta s = (if key = ''F'' \<and> (ctrl \<or> meta) then toggleSearch s else Some s)"

end
