(* ===== verification/Navigation.thy ===== *)
theory Navigation
  imports Transition
begin

text \<open>
  The navigation commands of \<open>reveal.js\<close> (left, right, up, down, prev, next), which step through
  fragments first and slides then, and the reading of the URL (\<open>Location.readURL\<close>).
\<close>

section \<open>Directional navigation\<close>

text \<open>
  \<open>overview.isActive() || skipFragments || fragments.next() === false\<close>: whether the slide may
  change, and the deck after the fragment step the test may have made.
\<close>

definition fragment_gate :: "bool \<Rightarrow> (deck \<Rightarrow> bool \<times> deck) \<Rightarrow> deck \<Rightarrow> bool \<times> deck" where
  "fragment_gate skip step d =
     (if skip then (True, d) else (case step d of (moved, d1) \<Rightarrow> (\<not> moved, d1)))"

definition grid_vertical :: "deck \<Rightarrow> jsval" where
  "grid_vertical d = (if cfg_navigationMode (cfg d) = NavGrid then indexv d else Undef)"

definition step_horizontal :: "int \<Rightarrow> (routes \<Rightarrow> bool) \<Rightarrow> bool \<times> deck \<Rightarrow> deck option" where
  "step_horizontal delta route g =
     (case g of
        (go, d1) \<Rightarrow>
          if go \<and> route (availableRoutes False d1)
          then slide (jv_add (indexh d1) delta) (grid_vertical d1) Undef d1
          else Some d1)"

definition step_vertical :: "int \<Rightarrow> (routes \<Rightarrow> bool) \<Rightarrow> bool \<times> deck \<Rightarrow> deck option" where
  "step_vertical delta route g =
     (case g of
        (go, d1) \<Rightarrow>
          if go \<and> route (availableRoutes False d1)
          then slide (indexh d1) (jv_add (indexv d1) delta) Undef d1
          else Some d1)"

definition navigateLeft :: "bool \<Rightarrow> deck \<Rightarrow> deck option" where
  "navigateLeft skipFragments d =
     (let d0 = d\<lparr>hasNavigatedHorizontally := True\<rparr>;
          skip = (overviewActive d0 \<or> skipFragments)
      in if cfg_rtl (cfg d0) then step_horizontal 1 r_left (fragment_gate skip fragments_next d0)
         else step_horizontal (- 1) r_left (fragment_gate skip fragments_prev d0))"

definition navigateRight :: "bool \<Rightarrow> deck \<Rightarrow> deck option" where
  "navigateRight skipFragments d =
     (let d0 = d\<lparr>hasNavigatedHorizontally := True\<rparr>;
          skip = (overviewActive d0 \<or> skipFragments)
      in if cfg_rtl (cfg d0) then step_horizontal (- 1) r_right (fragment_gate skip fragments_prev d0)
         else step_horizontal 1 r_right (fragment_gate skip fragments_next d0))"

definition navigateUp :: "bool \<Rightarrow> deck \<Rightarrow> deck option" where
  "navigateUp skipFragments d =
     step_vertical (- 1) r_up (fragment_gate (overviewActive d \<or> skipFragments) fragments_prev d)"

definition navigateDown :: "bool \<Rightarrow> deck \<Rightarrow> deck option" where
  "navigateDown skipFragments d =
     (let d0 = d\<lparr>hasNavigatedVertically := True\<rparr>
      in step_vertical 1 r_down
           (fragment_gate (overviewActive d0 \<or> skipFragments) fragments_next d0))"

section \<open>Linear navigation\<close>

text \<open>\<open>queryAll( dom.wrapper, HORIZONTAL_SLIDES_SELECTOR + '.past' ).pop()\<close>\<close>

definition previous_horizontal :: "deck \<Rightarrow> nat option" where
  "previous_horizontal d =
     (let c = (if cfg_rtl (cfg d) then Future else Past);
          hs = filter (\<lambda>i. has_class c (el (doc d) i)) (getHorizontalSlides d)
      in if hs = [] then None else Some (last hs))"

definition prev_slide :: "bool \<Rightarrow> deck \<Rightarrow> deck option" where
  "prev_slide skipFragments d =
     (if r_up (availableRoutes False d) then navigateUp skipFragments d
      else (case previous_horizontal d of
              Some p \<Rightarrow>
                if has_class Stack (el (doc d) p)
                then (let k = int (length (queryAll (doc d) p is_section)) - 1;
                          v = (if k = 0 then Undef else Num k)
                      in slide (jv_add (indexh d) (- 1)) v Undef d)
                else navigateLeft skipFragments d
            | None \<Rightarrow> navigateLeft skipFragments d))"

definition navigatePrev :: "bool \<Rightarrow> deck \<Rightarrow> deck option" where
  "navigatePrev skipFragments d =
     (case fragment_gate skipFragments fragments_prev d of
        (go, d1) \<Rightarrow> if go then prev_slide skipFragments d1 else Some d1)"

definition next_slide :: "bool \<Rightarrow> deck \<Rightarrow> deck option" where
  "next_slide skipFragments d =
     (let r = availableRoutes False d;
          down = (r_down r \<and> \<not> (r_right r \<and> cfg_loop (cfg d) \<and> isLastVerticalSlide d))
      in if down then navigateDown skipFragments d
         else if cfg_rtl (cfg d) then navigateLeft skipFragments d
         else navigateRight skipFragments d)"

definition navigateNext :: "bool \<Rightarrow> deck \<Rightarrow> deck option" where
  "navigateNext skipFragments d =
     (let d0 = d\<lparr>hasNavigatedHorizontally := True, hasNavigatedVertically := True\<rparr>
      in case fragment_gate skipFragments fragments_next d0 of
           (go, d1) \<Rightarrow> if go then next_slide skipFragments d1 else Some d1)"

section \<open>Reading the URL\<close>

definition readURL :: "deck \<Rightarrow> deck option" where
  "readURL d =
     (let cur = getIndices d None
      in case getIndicesFromHash d (urlHash d) of
           Some new \<Rightarrow>
             if ih new \<noteq> ih cur \<or> iv new \<noteq> iv cur \<or> ifr new \<noteq> Undef
             then slide (ih new) (iv new) (ifr new) d
             else Some d
         | None \<Rightarrow> slide (Num (jv_or0 (ih cur))) (Num (jv_or0 (iv cur))) Undef d)"

text \<open>One queued \<open>hashchange\<close> event is delivered (\<open>onWindowHashChange\<close>).\<close>

definition onWindowHashChange :: "deck \<Rightarrow> deck option" where
  "onWindowHashChange d = readURL (d\<lparr>pendingHashChanges := pendingHashChanges d - 1\<rparr>)"

end
