(* ===== verification/NavLaws.thy ===== *)
theory NavLaws
  imports Navigation Places
begin

text \<open>
  Where the navigation commands lead: a specification of the four arrows on the grid of positions,
  and of next and prev on the slides in document order, and the lemmas that the commands meet it.
\<close>

section \<open>Settled decks in the default mode\<close>

definition open_deck :: "deck \<Rightarrow> bool" where
  "open_deck d \<longleftrightarrow>
     deck_ok d \<and> \<not> overviewActive d \<and> cfg_navigationMode (cfg d) = NavDefault"

text \<open>The slides of the \<open>i\<close>-th column, without the stack that holds them.\<close>

definition column :: "deck \<Rightarrow> int \<Rightarrow> nat list" where
  "column d i = queryAll (doc d) (getHorizontalSlides d ! nat i) is_section"

lemma position_bounds:
  assumes "at_position i j d"
  shows "0 \<le> i" "i < int (length (getHorizontalSlides d))"
    "column d i \<noteq> [] \<Longrightarrow> 0 \<le> j \<and> j < int (length (column d i))"
  using assms by (auto simp: at_position_def getSlide_def column_def Let_def split: if_splits)

lemma position_current:
  assumes "at_position i j d"
  shows "currentSlide d = Some (if column d i = [] then getHorizontalSlides d ! nat i else column d i ! nat j)"
  using assms position_bounds [OF assms]
  by (auto simp: at_position_def getSlide_def column_def Let_def)

text \<open>At a position the vertical selector finds the column.\<close>

lemma position_column:
  assumes "deck_ok d" and "at_position i j d"
  shows "present_vertical_slides (doc d) = column d i"
proof -
  have i: "0 \<le> i" "i < int (length (getHorizontalSlides d))" using position_bounds [OF assms(2)] by blast+
  define n where "n = horizontal_nodes (doc d) ! nat i"
  have n: "n \<in> set (horizontal_nodes (doc d))" "nid n = getHorizontalSlides d ! nat i"
    using i by (simp_all add: n_def getHorizontalSlides_def horizontal_slides_def)
  have "marked d (doc d) (horizontal_slides (doc d)) i"
    using assms(2) by (simp add: at_position_def getHorizontalSlides_def)
  from marked_present_verticals [OF this] i have "present_vertical_slides (doc d) = map nid (section_children (doc d) n)"
    by (simp add: n_def getHorizontalSlides_def)
  moreover have "wf_doc (doc d)" using assms(1) by (simp add: deck_ok_def)
  ultimately show ?thesis using wf_verticals(1) n by (simp add: column_def n(2) [symmetric])
qed

text \<open>The routes at a position.\<close>

definition can_go :: "bool \<Rightarrow> int \<Rightarrow> int \<Rightarrow> int \<Rightarrow> bool" where
  "can_go loop n x step \<longleftrightarrow>
     (if loop \<and> 1 < n then True else if step < 0 then 0 < x else x < n - 1)"

lemma routes_at:
  assumes "deck_ok d" and "at_position i j d" and "cfg_navigationMode (cfg d) = NavDefault"
  defines "nh \<equiv> int (length (getHorizontalSlides d))" and "nv \<equiv> int (length (column d i))"
    and "lp \<equiv> cfg_loop (cfg d)"
  shows "r_left (availableRoutes False d) = (if cfg_rtl (cfg d) then can_go lp nh i 1 else can_go lp nh i (- 1))"
    and "r_right (availableRoutes False d) = (if cfg_rtl (cfg d) then can_go lp nh i (- 1) else can_go lp nh i 1)"
    and "r_up (availableRoutes False d) = can_go lp nv j (- 1)"
    and "r_down (availableRoutes False d) = can_go lp nv j 1"
  using assms(2,3) position_column [OF assms(1,2)]
  by (auto simp: availableRoutes_def Let_def can_go_def nh_def nv_def lp_def at_position_def getHorizontalSlides_def)

section \<open>Arrows\<close>

text \<open>The vertical index a column is resumed at, when the code reads it as a number.\<close>

definition resume_index :: "deck \<Rightarrow> int \<Rightarrow> jsval" where
  "resume_index d i = getPreviousVerticalIndex (doc d) (nth_slide (horizontal_slides (doc d)) (Num i))"

lemma quiet_open: "quiet d d' \<Longrightarrow> open_deck d \<Longrightarrow> open_deck d'"
  using quiet_deck_ok by (auto simp: open_deck_def quiet_def)

text \<open>A move to another column: it lands in the column at the index it was left at.\<close>

lemma slide_column:
  assumes d: "deck_ok d" "\<not> overviewActive d" and p: "\<And>h v. \<not> prevents (env d) h v"
    and r: "settled_stack d a = [] \<or> resume_index d a = Num b"
  shows "\<exists>d'. slide (Num a) Undef Undef d = Some d' \<and> at_position (settled_h d a) (settled_v d a b) d' \<and> deck_ok d'"
proof -
  have rv: "resume_vertical d (Num a) Undef = resume_index d a"
    using d(2) by (simp add: resume_vertical_def resume_index_def)
  show ?thesis
    by (rule slide_lands [OF d(1) p]) (use r in \<open>auto simp: jv_default_def rv\<close>)
qed

lemma slide_row:
  assumes d: "deck_ok d" and p: "\<And>h v. \<not> prevents (env d) h v"
  shows "\<exists>d'. slide (Num a) (Num b) Undef d = Some d' \<and> at_position (settled_h d a) (settled_v d a b) d' \<and> deck_ok d'"
  by (rule slide_lands [OF d(1) p]) (simp_all add: jv_default_def resume_vertical_def)

lemma settled_h_in: "0 \<le> a \<Longrightarrow> a < int (length (getHorizontalSlides d)) \<Longrightarrow> settled_h d a = a"
  by (simp add: settled_h_def settled_index_def wrap_index_def clamp_index_def js_rem_small Let_def)

lemma settled_v_in:
  "0 \<le> a \<Longrightarrow> a < int (length (getHorizontalSlides d)) \<Longrightarrow> 0 \<le> b \<Longrightarrow> b < int (length (column d a)) \<Longrightarrow>
   settled_v d a b = b"
  by (auto simp: settled_v_def settled_stack_def settled_h_in column_def settled_index_def wrap_index_def
      clamp_index_def js_rem_small Let_def)

lemma settled_stack_column:
  "0 \<le> a \<Longrightarrow> a < int (length (getHorizontalSlides d)) \<Longrightarrow> settled_stack d a = column d a"
  by (simp add: settled_stack_def column_def settled_h_in)

definition put_navigated_h :: "deck \<Rightarrow> deck" where
  "put_navigated_h d = d\<lparr>hasNavigatedHorizontally := True\<rparr>"

definition put_navigated_v :: "deck \<Rightarrow> deck" where
  "put_navigated_v d = d\<lparr>hasNavigatedVertically := True\<rparr>"

lemma navigated_quiet: "quiet d (put_navigated_h d)" "quiet d (put_navigated_v d)"
  by (simp_all add: put_navigated_h_def put_navigated_v_def quiet_def)

lemma navigated_doc [simp]:
  "doc (put_navigated_h d) = doc d" "doc (put_navigated_v d) = doc d"
  by (simp_all add: put_navigated_h_def put_navigated_v_def)

lemma navigated_column [simp]:
  "column (put_navigated_h d) i = column d i" "column (put_navigated_v d) i = column d i"
  "getHorizontalSlides (put_navigated_h d) = getHorizontalSlides d"
  "getHorizontalSlides (put_navigated_v d) = getHorizontalSlides d"
  "resume_index (put_navigated_h d) i = resume_index d i"
  "resume_index (put_navigated_v d) i = resume_index d i"
  by (simp_all add: column_def getHorizontalSlides_def resume_index_def)
text \<open>The stored indices of all stacks are numbers.\<close>

definition resumable :: "deck \<Rightarrow> bool" where
  "resumable d \<longleftrightarrow>
     list_all (\<lambda>h. jv_is_num (getPreviousVerticalIndex (doc d) (Some h))) (getHorizontalSlides d)"

lemma resumable_num:
  assumes "resumable d"
  shows "resume_index d a = Num (jv_or0 (resume_index d a))"
proof -
  have "jv_is_num (resume_index d a)"
    using assms nth_mem [of "nat a" "getHorizontalSlides d"]
    by (auto simp: resumable_def resume_index_def nth_slide_def getHorizontalSlides_def list_all_iff
        getPreviousVerticalIndex_def [of _ None])
  then show ?thesis by (cases "resume_index d a") simp_all
qed

datatype arrow = ALeft | ARight | AUp | ADown

definition press :: "arrow \<Rightarrow> deck \<Rightarrow> deck option" where
  "press a d =
     (case a of ALeft \<Rightarrow> navigateLeft True d | ARight \<Rightarrow> navigateRight True d
      | AUp \<Rightarrow> navigateUp True d | ADown \<Rightarrow> navigateDown True d)"

text \<open>
  The specification: an arrow moves one column (in the reading direction of the deck) or one row,
  wrapping around in a looping deck, and stays where it is at an edge.  A column is entered at the
  row it was left at.
\<close>

definition column_target :: "deck \<Rightarrow> int \<Rightarrow> int \<times> int \<Rightarrow> int \<times> int" where
  "column_target d step p =
     (if can_go (cfg_loop (cfg d)) (int (length (getHorizontalSlides d))) (fst p) step
      then (settled_h d (fst p + step), settled_v d (fst p + step) (jv_or0 (resume_index d (fst p + step))))
      else p)"

definition row_target :: "deck \<Rightarrow> int \<Rightarrow> int \<times> int \<Rightarrow> int \<times> int" where
  "row_target d step p =
     (if can_go (cfg_loop (cfg d)) (int (length (column d (fst p)))) (snd p) step
      then (fst p, settled_v d (fst p) (snd p + step)) else p)"

definition arrow_target :: "deck \<Rightarrow> arrow \<Rightarrow> int \<times> int \<Rightarrow> int \<times> int" where
  "arrow_target d a =
     (case a of
        ALeft \<Rightarrow> column_target d (if cfg_rtl (cfg d) then 1 else - 1)
      | ARight \<Rightarrow> column_target d (if cfg_rtl (cfg d) then - 1 else 1)
      | AUp \<Rightarrow> row_target d (- 1)
      | ADown \<Rightarrow> row_target d 1)"

lemma step_horizontal_lands:
  assumes d: "open_deck d" and at: "at_position i j d" and p: "\<And>h v. \<not> prevents (env d) h v"
    and r: "resumable d"
    and route: "route (availableRoutes False d) \<longleftrightarrow>
      can_go (cfg_loop (cfg d)) (int (length (getHorizontalSlides d))) i step"
  shows "\<exists>d'. step_horizontal step route (True, d) = Some d' \<and>
    at_position (fst (column_target d step (i, j))) (snd (column_target d step (i, j))) d' \<and> deck_ok d'"
proof (cases "route (availableRoutes False d)")
  case False
  with d at route show ?thesis by (simp add: step_horizontal_def column_target_def open_deck_def)
next
  case True
  have "indexh d = Num i" "grid_vertical d = Undef" "deck_ok d" "\<not> overviewActive d"
    using at d by (simp_all add: at_position_def grid_vertical_def open_deck_def)
  with True slide_column [of d "i + step", OF _ _ p disjI2 [OF resumable_num [OF r]]] route show ?thesis
    by (simp add: step_horizontal_def column_target_def)
qed

lemma step_vertical_lands:
  assumes d: "open_deck d" and at: "at_position i j d" and p: "\<And>h v. \<not> prevents (env d) h v"
    and route: "route (availableRoutes False d) \<longleftrightarrow>
      can_go (cfg_loop (cfg d)) (int (length (column d i))) j step"
  shows "\<exists>d'. step_vertical step route (True, d) = Some d' \<and>
    at_position (fst (row_target d step (i, j))) (snd (row_target d step (i, j))) d' \<and> deck_ok d'"
proof (cases "route (availableRoutes False d)")
  case False
  with d at route show ?thesis by (simp add: step_vertical_def row_target_def open_deck_def)
next
  case True
  have "indexh d = Num i" "indexv d = Num j" "deck_ok d" using at d by (simp_all add: at_position_def open_deck_def)
  moreover have "settled_h d i = i" using position_bounds(1,2) [OF at] by (rule settled_h_in)
  ultimately show ?thesis
    using True slide_row [of d i "j + step", OF _ p] route
    by (simp add: step_vertical_def row_target_def)
qed

lemma target_navigated [simp]:
  "column_target (put_navigated_h d) = column_target d" "row_target (put_navigated_v d) = row_target d"
  "resumable (put_navigated_h d) = resumable d"
  by (simp_all add: column_target_def row_target_def fun_eq_iff settled_h_def settled_v_def settled_stack_def
      resumable_def) (simp_all add: put_navigated_h_def put_navigated_v_def)

lemma press_lands:
  assumes d: "open_deck d" and at: "at_position i j d" and p: "\<And>h v. \<not> prevents (env d) h v"
    and r: "resumable d"
  shows "\<exists>d'. press a d = Some d' \<and>
    at_position (fst (arrow_target d a (i, j))) (snd (arrow_target d a (i, j))) d' \<and> deck_ok d'"
proof -
  let ?h = "put_navigated_h d" and ?v = "put_navigated_v d"
  have f: "cfg ?h = cfg d" "cfg ?v = cfg d" "env ?h = env d" "env ?v = env d"
    by (simp_all add: put_navigated_h_def put_navigated_v_def)
  note h = quiet_open [OF navigated_quiet(1) d] quiet_at_position [OF navigated_quiet(1) at]
  note v = quiet_open [OF navigated_quiet(2) d] quiet_at_position [OF navigated_quiet(2) at]
  note oh = h(1) [unfolded open_deck_def] and ov = v(1) [unfolded open_deck_def] and od = d [unfolded open_deck_def]
  note rh = routes_at [of ?h i j] and rv = routes_at [of ?v i j] and rd = routes_at [of d i j]
  note H = step_horizontal_lands [OF h, unfolded f target_navigated navigated_column, OF p r]
  note V = step_vertical_lands [OF v, unfolded f target_navigated navigated_column, OF p]
  show ?thesis
  proof (cases a)
    case ALeft
    then show ?thesis
      using H [of r_left 1] H [of r_left "- 1"] rh(1) oh h(2)
      by (simp add: press_def navigateLeft_def arrow_target_def fragment_gate_def Let_def f
          put_navigated_h_def [symmetric])
  next
    case ARight
    then show ?thesis
      using H [of r_right 1] H [of r_right "- 1"] rh(2) oh h(2)
      by (simp add: press_def navigateRight_def arrow_target_def fragment_gate_def Let_def f
          put_navigated_h_def [symmetric])
  next
    case AUp
    then show ?thesis
      using step_vertical_lands [OF d at p, of r_up "- 1"] rd(3) od at
      by (simp add: press_def navigateUp_def arrow_target_def fragment_gate_def)
  next
    case ADown
    then show ?thesis
      using V [of r_down 1] rv(4) ov v(2)
      by (simp add: press_def navigateDown_def arrow_target_def fragment_gate_def Let_def f
          put_navigated_v_def [symmetric])
  qed
qed

section \<open>The arithmetic of indices\<close>

text \<open>The index \<open>updateSlides\<close> settles on is the index modulo the length, or the clamped index.\<close>

lemma settled_index_spec:
  assumes "0 < n"
  shows "settled_index loop n i = (if loop then i mod int n else max 0 (min i (int n - 1)))"
proof (cases loop)
  case True
  have r: "js_rem i (int n) = (if i < 0 then - ((- i) mod int n) else i mod int n)"
    by (simp add: js_rem_def)
  have b: "0 \<le> i mod int n" "i mod int n < int n" using assms by simp_all
  have "(if js_rem i (int n) < 0 then int n + js_rem i (int n) else js_rem i (int n)) = i mod int n"
    using b by (auto simp: r zmod_zminus1_eq_if)
  with True b show ?thesis
    by (auto simp: settled_index_def wrap_index_def clamp_index_def Let_def)
next
  case False
  then show ?thesis by (simp add: settled_index_def wrap_index_def clamp_index_def max.commute)
qed

end
