(* ===== verification/DocOrder.thy ===== *)
theory DocOrder
  imports NavLaws
begin

text \<open>
  \<open>navigateNext\<close> and \<open>navigatePrev\<close> against the document order: the slides of the deck in the order
  they are written, without the stacks that hold them.
\<close>

section \<open>The slides in document order\<close>

definition column_slides :: "deck \<Rightarrow> nat \<Rightarrow> nat list" where
  "column_slides d h = (if queryAll (doc d) h is_section = [] then [h] else queryAll (doc d) h is_section)"

definition leaves :: "deck \<Rightarrow> nat list" where
  "leaves d = concat (map (column_slides d) (getHorizontalSlides d))"

text \<open>A position whose row is 0 where the column is a single slide.\<close>

definition at_place :: "int \<Rightarrow> int \<Rightarrow> deck \<Rightarrow> bool" where
  "at_place i j d \<longleftrightarrow> at_position i j d \<and> (column d i = [] \<longrightarrow> j = 0)"

text \<open>The number of the slide at a position in document order.\<close>

definition leaf_number :: "deck \<Rightarrow> int \<Rightarrow> int \<Rightarrow> nat" where
  "leaf_number d i j =
     length (concat (map (column_slides d) (take (nat i) (getHorizontalSlides d)))) + nat j"

lemma concat_nth_split:
  assumes "i < length xss" and "j < length (xss ! i)"
  shows "concat xss ! (length (concat (take i xss)) + j) = xss ! i ! j"
    and "length (concat (take i xss)) + j < length (concat xss)"
proof -
  have s: "concat xss = concat (take i xss) @ xss ! i @ concat (drop (Suc i) xss)"
    using id_take_nth_drop [OF assms(1)] by (metis concat.simps(2) concat_append)
  show "concat xss ! (length (concat (take i xss)) + j) = xss ! i ! j"
    by (subst s) (simp add: nth_append assms(2))
  show "length (concat (take i xss)) + j < length (concat xss)"
    using arg_cong [OF s, of length] assms(2) unfolding length_append by linarith
qed

lemma column_slides_column:
  "0 \<le> i \<Longrightarrow> i < int (length (getHorizontalSlides d)) \<Longrightarrow>
   column_slides d (getHorizontalSlides d ! nat i) =
     (if column d i = [] then [getHorizontalSlides d ! nat i] else column d i)"
  by (simp add: column_slides_def column_def)

lemma place_leaf:
  assumes "at_place i j d"
  shows "leaf_number d i j < length (leaves d)"
    and "currentSlide d = Some (leaves d ! leaf_number d i j)"
proof -
  have at: "at_position i j d" using assms by (simp add: at_place_def)
  note b = position_bounds [OF at]
  let ?css = "map (column_slides d) (getHorizontalSlides d)"
  have i: "nat i < length ?css" using b by simp
  have col: "?css ! nat i = (if column d i = [] then [getHorizontalSlides d ! nat i] else column d i)"
    using b column_slides_column [of i d] by simp
  have j: "nat j < length (?css ! nat i)"
    using assms b(3) by (auto simp: col at_place_def)
  have n: "leaf_number d i j = length (concat (take (nat i) ?css)) + nat j"
    by (simp add: leaf_number_def take_map)
  from concat_nth_split [OF i j] show "leaf_number d i j < length (leaves d)"
    by (simp add: leaves_def n)
  from concat_nth_split [OF i j] have "leaves d ! leaf_number d i j = ?css ! nat i ! nat j"
    by (simp add: leaves_def n)
  then show "currentSlide d = Some (leaves d ! leaf_number d i j)"
    using position_current [OF at] assms by (auto simp: col at_place_def)
qed

lemma leaf_number_Suc:
  "0 \<le> j \<Longrightarrow> leaf_number d i (j + 1) = Suc (leaf_number d i j)"
  by (simp add: leaf_number_def nat_add_distrib)

lemma leaf_number_column:
  assumes "0 \<le> i" and "i < int (length (getHorizontalSlides d))"
  shows "leaf_number d (i + 1) 0 =
    leaf_number d i (int (length (column_slides d (getHorizontalSlides d ! nat i))))"
proof -
  have "take (Suc (nat i)) (getHorizontalSlides d) =
      take (nat i) (getHorizontalSlides d) @ [getHorizontalSlides d ! nat i]"
    using assms by (simp add: take_Suc_conv_app_nth)
  moreover have "nat (i + 1) = Suc (nat i)" using assms(1) by simp
  ultimately show ?thesis by (simp add: leaf_number_def)
qed

lemma shape_leaves:
  assumes "same_shape (doc d) (doc d')"
  shows "leaves d' = leaves d" and "leaf_number d' i j = leaf_number d i j" and "column d' i = column d i"
  by (simp_all add: leaves_def leaf_number_def column_slides_def [abs_def] column_def
      same_shape_getHorizontal [OF assms] same_shape_sections [OF assms] cong: if_cong)

lemma settled_row_zero: "column d i = [] \<Longrightarrow> 0 \<le> i \<Longrightarrow> i < int (length (getHorizontalSlides d)) \<Longrightarrow> settled_v d i b = 0"
  by (simp add: settled_v_def settled_stack_column)

section \<open>Next\<close>

text \<open>The shape of the document after a command that only calls \<open>slide\<close>.\<close>

lemma press_shape:
  assumes "press a d = Some d'"
  shows "same_shape (doc d) (doc d') \<and> cfg d' = cfg d"
proof -
  have h: "same_shape (doc d) (doc d') \<and> cfg d' = cfg d"
    if "step_horizontal k r (True, d0) = Some d'" "doc d0 = doc d" "cfg d0 = cfg d" for k r d0
    using that by (auto simp: step_horizontal_def dest!: slide_keeps_shape split: if_splits)
  have v: "same_shape (doc d) (doc d') \<and> cfg d' = cfg d"
    if "step_vertical k r (True, d0) = Some d'" "doc d0 = doc d" "cfg d0 = cfg d" for k r d0
    using that by (auto simp: step_vertical_def dest!: slide_keeps_shape split: if_splits)
  show ?thesis
    using assms
    by (cases a) (auto simp: press_def navigateLeft_def navigateRight_def navigateUp_def navigateDown_def
        fragment_gate_def Let_def elim!: h v split: if_splits)
qed

text \<open>In a deck that does not loop, next goes down a column and then to the column that follows.\<close>

definition next_arrow :: "deck \<Rightarrow> int \<Rightarrow> int \<Rightarrow> arrow" where
  "next_arrow d i j =
     (if j < int (length (column d i)) - 1 then ADown else if cfg_rtl (cfg d) then ALeft else ARight)"

lemma navigateNext_press:
  assumes "open_deck d" and "at_position i j d" and "\<not> cfg_loop (cfg d)"
  shows "navigateNext True d =
    press (next_arrow d i j) (d\<lparr>hasNavigatedHorizontally := True, hasNavigatedVertically := True\<rparr>)"
proof -
  let ?d = "d\<lparr>hasNavigatedHorizontally := True, hasNavigatedVertically := True\<rparr>"
  have q: "quiet d ?d" by (simp add: quiet_def)
  have c: "column ?d i = column d i" by (simp add: column_def getHorizontalSlides_def)
  have "r_down (availableRoutes False ?d) \<longleftrightarrow> j < int (length (column d i)) - 1"
    using routes_at(4) [of ?d i j] quiet_open [OF q assms(1)] quiet_at_position [OF q assms(2)] assms(3)
    by (simp add: can_go_def c open_deck_def)
  then show ?thesis
    using assms(3) by (simp add: navigateNext_def next_slide_def fragment_gate_def Let_def next_arrow_def press_def)
qed

lemma next_lands:
  assumes d: "open_deck d" "\<not> cfg_loop (cfg d)" and p: "\<And>h v. \<not> prevents (env d) h v"
    and r: "resumable d" and at: "at_place i j d"
    and fresh: "resume_index d (i + 1) = Num 0" and more: "Suc (leaf_number d i j) < length (leaves d)"
  shows "\<exists>d' i' j'. navigateNext True d = Some d' \<and> at_place i' j' d' \<and>
    leaf_number d' i' j' = Suc (leaf_number d i j) \<and> leaves d' = leaves d"
proof -
  let ?d = "d\<lparr>hasNavigatedHorizontally := True, hasNavigatedVertically := True\<rparr>" and ?a = "next_arrow d i j"
  have pos: "at_position i j d" using at by (simp add: at_place_def)
  note b = position_bounds [OF pos]
  have q: "quiet d ?d" by (simp add: quiet_def)
  have same: "arrow_target ?d ?a = arrow_target d ?a" "resumable ?d = resumable d"
    by (simp_all add: arrow_target_def column_target_def row_target_def fun_eq_iff settled_h_def settled_v_def
        settled_stack_def column_def getHorizontalSlides_def resume_index_def resumable_def
        split: arrow.split)
  obtain i' j' where t: "arrow_target d ?a (i, j) = (i', j')" by fastforce
  obtain d' where d': "press ?a ?d = Some d'" "at_position i' j' d'"
    using press_lands [OF quiet_open [OF q d(1)] quiet_at_position [OF q pos], of ?a] p r t
    by (auto simp: same)
  have sh: "same_shape (doc d) (doc d')" using press_shape [OF d'(1)] by simp
  note leaf = shape_leaves [OF sh]
  have "(column d i' = [] \<longrightarrow> j' = 0) \<and> leaf_number d i' j' = Suc (leaf_number d i j)"
  proof (cases "j < int (length (column d i)) - 1")
    case True
    then have "column d i \<noteq> []" using at by (auto simp: at_place_def)
    with b(3) have "0 \<le> j" by blast
    have "(i', j') = (i, j + 1)"
      using t True d(2) settled_v_in [OF b(1,2), of "j + 1"] \<open>0 \<le> j\<close>
      by (simp add: next_arrow_def arrow_target_def row_target_def can_go_def)
    with \<open>column d i \<noteq> []\<close> \<open>0 \<le> j\<close> show ?thesis by (simp add: leaf_number_Suc)
  next
    case False
    let ?w = "length (column_slides d (getHorizontalSlides d ! nat i))"
    have w: "j + 1 = int ?w"
    proof (cases "column d i = []")
      case True
      with at b show ?thesis by (simp add: column_slides_column at_place_def)
    next
      case ne: False
      from b(3) [OF ne] False have "j + 1 = int (length (column d i))" by linarith
      with ne b show ?thesis by (simp add: column_slides_column)
    qed
    have step: "leaf_number d (i + 1) 0 = Suc (leaf_number d i j)"
    proof -
      have "0 \<le> j" using at b(3) by (auto simp: at_place_def)
      then show ?thesis using leaf_number_column [OF b(1,2)] w by (simp add: leaf_number_Suc [symmetric])
    qed
    have len: "i + 1 < int (length (getHorizontalSlides d))"
    proof (rule ccontr)
      assume "\<not> ?thesis"
      then have "nat (i + 1) = length (getHorizontalSlides d)" using b by simp
      then have "leaf_number d (i + 1) 0 = length (leaves d)"
        by (simp add: leaf_number_def leaves_def)
      with step more show False by simp
    qed
    then have "(i', j') = (i + 1, settled_v d (i + 1) 0)"
      using t False d(2) b settled_h_in [of "i + 1" d] fresh
      by (cases "cfg_rtl (cfg d)") (auto simp: next_arrow_def arrow_target_def column_target_def can_go_def)
    moreover have "settled_v d (i + 1) 0 = 0"
      using settled_v_in [of "i + 1" d 0] settled_row_zero [of d "i + 1" 0] b(1) len
      by (cases "column d (i + 1) = []") auto
    ultimately show ?thesis using step by simp
  qed
  with d' leaf navigateNext_press [OF d(1) pos d(2)] show ?thesis
    by (intro exI [of _ d'] exI [of _ i'] exI [of _ j']) (simp add: at_place_def)
qed

section \<open>Prev\<close>

text \<open>Stacks carry the class that \<open>navigatePrev\<close> looks for; a call of \<open>slide\<close> never removes it.\<close>

definition stacks_marked :: "deck \<Rightarrow> bool" where
  "stacks_marked d \<longleftrightarrow>
     list_all (\<lambda>h. queryAll (doc d) h is_section \<noteq> [] \<longrightarrow> has_class Stack (el (doc d) h)) (getHorizontalSlides d)"

lemma previous_column:
  assumes "deck_ok d" and "at_position i j d"
  shows "previous_horizontal d = (if 0 < i then Some (getHorizontalSlides d ! nat (i - 1)) else None)"
proof -
  let ?hs = "getHorizontalSlides d" and ?c = "if cfg_rtl (cfg d) then Future else Past"
  note b = position_bounds(1,2) [OF assms(2)]
  have wf: "wf_doc (doc d)" using assms(1) by (simp add: deck_ok_def)
  have "marked d (doc d) ?hs i" using assms(2) by (simp add: at_position_def)
  moreover have "reversed d (doc d) (?hs ! k) \<longleftrightarrow> cfg_rtl (cfg d)" if "k < length ?hs" for k
    using wf_parent [OF wf, of "horizontal_nodes (doc d) ! k"] that
    by (simp add: reversed_def getHorizontalSlides_def horizontal_slides_def)
  ultimately have c: "has_class ?c (el (doc d) (?hs ! k)) \<longleftrightarrow> k < nat i" if "k < length ?hs" for k
    using that b(1) by (auto simp: marked_nth)
  have "filter (\<lambda>s. has_class ?c (el (doc d) s)) (take (nat i) ?hs) = take (nat i) ?hs"
    using c b by (intro filter_eq_all) (auto simp: in_set_conv_nth)
  moreover have "filter (\<lambda>s. has_class ?c (el (doc d) s)) (drop (nat i) ?hs) = []"
    using c by (auto simp: filter_empty_conv in_set_conv_nth)
  ultimately have "filter (\<lambda>s. has_class ?c (el (doc d) s)) ?hs = take (nat i) ?hs"
    by (metis append_Nil2 append_take_drop_id filter_append)
  moreover have "last (take (nat i) ?hs) = ?hs ! nat (i - 1)" if "0 < i"
  proof -
    have "take (nat i) ?hs \<noteq> []" "length (take (nat i) ?hs) = nat i" using that b by auto
    then show ?thesis using that by (simp add: last_conv_nth nat_diff_distrib)
  qed
  ultimately show ?thesis using b by (auto simp: previous_horizontal_def Let_def)
qed

text \<open>The last row of a column.\<close>

definition bottom :: "deck \<Rightarrow> int \<Rightarrow> int" where
  "bottom d i = (if column d i = [] then 0 else int (length (column d i)) - 1)"

lemma bottom_leaf:
  assumes "0 \<le> i" and "i < int (length (getHorizontalSlides d))"
  shows "leaf_number d (i + 1) 0 = Suc (leaf_number d i (bottom d i))"
proof -
  have "int (length (column_slides d (getHorizontalSlides d ! nat i))) = bottom d i + 1"
    by (simp add: column_slides_column [OF assms] bottom_def)
  moreover have "0 \<le> bottom d i" by (cases "column d i") (simp_all add: bottom_def)
  ultimately show ?thesis using leaf_number_column [OF assms] by (simp add: leaf_number_Suc)
qed

lemma settled_bottom:
  assumes "0 \<le> i" and "i < int (length (getHorizontalSlides d))"
    and "bottom d i = 0 \<or> m = bottom d i"
  shows "settled_v d i m = bottom d i"
proof (cases "column d i = []")
  case True
  then show ?thesis using settled_row_zero [OF True assms(1,2)] by (simp add: bottom_def)
next
  case False
  then have "0 \<le> bottom d i" "bottom d i < int (length (column d i))"
    by (simp_all add: bottom_def Suc_le_eq)
  moreover have "0 \<le> settled_v d i m" "settled_v d i m < int (length (column d i))"
    using settled_v_bounds [of d i m] False by (simp_all add: settled_stack_column [OF assms(1,2)])
  moreover have "int (length (column d i)) = bottom d i + 1" using False by (simp add: bottom_def)
  ultimately show ?thesis using settled_v_in [OF assms(1,2)] assms(3) by (cases "bottom d i = 0") auto
qed

text \<open>Going back into a stack enters it at the bottom.\<close>

lemma prev_stack_lands:
  assumes d: "open_deck d" and p: "\<And>h v. \<not> prevents (env d) h v" and r: "resumable d"
    and i: "0 \<le> i" "i < int (length (getHorizontalSlides d))"
  defines "k \<equiv> int (length (column d i)) - 1"
  shows "\<exists>d'. slide (Num i) (if k = 0 then Undef else Num k) Undef d = Some d' \<and>
    at_position i (bottom d i) d'"
proof (cases "k = 0")
  case True
  have "bottom d i = 0" using True by (simp add: k_def bottom_def)
  then show ?thesis
    using True d slide_column [of d i, OF _ _ p disjI2 [OF resumable_num [OF r]]] settled_bottom [OF i]
    by (auto simp: settled_h_in [OF i] open_deck_def)
next
  case False
  have "column d i = [] \<or> k = bottom d i" by (simp add: k_def bottom_def)
  then have "settled_v d i k = bottom d i"
    using settled_bottom [OF i, of k] by (auto simp: bottom_def)
  then show ?thesis
    using False d slide_row [of d i k, OF _ p] by (auto simp: settled_h_in [OF i] open_deck_def)
qed

lemma prev_column_lands:
  assumes d: "open_deck d" "\<not> cfg_loop (cfg d)" "\<not> cfg_rtl (cfg d)"
    and p: "\<And>h v. \<not> prevents (env d) h v" and r: "resumable d" and st: "stacks_marked d"
    and pos: "at_position i 0 d" and i: "0 < i"
  shows "\<exists>d'. navigatePrev True d = Some d' \<and> same_shape (doc d) (doc d') \<and>
    at_position (i - 1) (bottom d (i - 1)) d'"
proof -
  have ok: "deck_ok d" using d(1) by (simp add: open_deck_def)
  have i1: "0 \<le> i - 1" "i - 1 < int (length (getHorizontalSlides d))"
    using i position_bounds [OF pos] by simp_all
  have up: "\<not> r_up (availableRoutes False d)"
    using routes_at(3) [OF ok pos] d by (simp add: can_go_def open_deck_def)
  let ?p = "getHorizontalSlides d ! nat (i - 1)" and ?k = "int (length (column d (i - 1))) - 1"
  have pc: "queryAll (doc d) ?p is_section = column d (i - 1)" by (simp add: column_def)
  have prev: "previous_horizontal d = Some ?p" using previous_column [OF ok pos] i by simp
  show ?thesis
  proof (cases "has_class Stack (el (doc d) ?p)")
    case True
    have "navigatePrev True d = slide (Num (i - 1)) (if ?k = 0 then Undef else Num ?k) Undef d"
      using True up prev pos
      by (simp add: navigatePrev_def fragment_gate_def prev_slide_def Let_def pc at_position_def)
    with prev_stack_lands [OF d(1) p r i1] show ?thesis by (auto dest: slide_keeps_shape)
  next
    case False
    moreover have "?p \<in> set (getHorizontalSlides d)" using i1 by simp
    ultimately have c: "column d (i - 1) = []"
      using st unfolding stacks_marked_def list_all_iff pc [symmetric] by blast
    have "arrow_target d ALeft (i, 0) = (i - 1, bottom d (i - 1))"
      using d i settled_row_zero [OF c i1] settled_h_in [OF i1]
      by (simp add: arrow_target_def column_target_def can_go_def bottom_def c)
    then obtain d' where d': "press ALeft d = Some d'" "at_position (i - 1) (bottom d (i - 1)) d'"
      using press_lands [OF d(1) pos p r, of ALeft] by auto
    moreover have "navigatePrev True d = Some d'"
      using d'(1) up False prev by (simp add: navigatePrev_def fragment_gate_def prev_slide_def press_def)
    ultimately show ?thesis using press_shape [OF d'(1)] by blast
  qed
qed

lemma prev_row_lands:
  assumes d: "open_deck d" "\<not> cfg_loop (cfg d)" and p: "\<And>h v. \<not> prevents (env d) h v"
    and r: "resumable d" and at: "at_place i j d" and j: "0 < j"
  shows "\<exists>d'. navigatePrev True d = Some d' \<and> same_shape (doc d) (doc d') \<and> at_position i (j - 1) d'"
proof -
  have pos: "at_position i j d" using at by (simp add: at_place_def)
  note b = position_bounds [OF pos]
  have "r_up (availableRoutes False d)"
    using routes_at(3) [OF _ pos] d j by (simp add: can_go_def open_deck_def)
  then have n: "navigatePrev True d = press AUp d"
    by (simp add: navigatePrev_def fragment_gate_def prev_slide_def press_def)
  have "column d i \<noteq> []" using j at by (auto simp: at_place_def)
  then have "settled_v d i (j - 1) = j - 1" using b j by (intro settled_v_in) auto
  then have "arrow_target d AUp (i, j) = (i, j - 1)"
    using j d(2) by (simp add: arrow_target_def row_target_def can_go_def)
  then obtain d' where d': "press AUp d = Some d'" "at_position i (j - 1) d'"
    using press_lands [OF d(1) pos p r, of AUp] by auto
  then show ?thesis using n press_shape [OF d'(1)] by auto
qed

lemma prev_lands:
  assumes d: "open_deck d" "\<not> cfg_loop (cfg d)" "\<not> cfg_rtl (cfg d)"
    and p: "\<And>h v. \<not> prevents (env d) h v"
    and r: "resumable d" and st: "stacks_marked d" and at: "at_place i j d"
    and more: "0 < leaf_number d i j"
  shows "\<exists>d' i' j'. navigatePrev True d = Some d' \<and> at_place i' j' d' \<and>
    leaf_number d i j = Suc (leaf_number d' i' j') \<and> leaves d' = leaves d"
proof -
  have pos: "at_position i j d" using at by (simp add: at_place_def)
  note b = position_bounds [OF pos]
  have j: "0 \<le> j" using at b(3) by (auto simp: at_place_def)
  have "\<exists>d' i' j'. navigatePrev True d = Some d' \<and> same_shape (doc d) (doc d') \<and> at_position i' j' d' \<and>
      (column d i' = [] \<longrightarrow> j' = 0) \<and> leaf_number d i j = Suc (leaf_number d i' j')"
  proof (cases "0 < j")
    case True
    then have "column d i \<noteq> []" using at by (auto simp: at_place_def)
    with prev_row_lands [OF d(1,2) p r at True] leaf_number_Suc [of "j - 1" d i] True show ?thesis
      by (metis (no_types, lifting) diff_add_cancel int_one_le_iff_zero_less diff_ge_0_iff_ge)
  next
    case False
    then have j0: "j = 0" using j by simp
    with more b(1) have i: "0 < i" by (cases "i = 0") (simp_all add: leaf_number_def)
    with prev_column_lands [OF d p r st] pos j0 obtain d' where
      "navigatePrev True d = Some d'" "same_shape (doc d) (doc d')" "at_position (i - 1) (bottom d (i - 1)) d'"
      by blast
    moreover have "leaf_number d i j = Suc (leaf_number d (i - 1) (bottom d (i - 1)))"
      using bottom_leaf [of "i - 1" d] i b j0 by simp
    moreover have "column d (i - 1) = [] \<longrightarrow> bottom d (i - 1) = 0" by (simp add: bottom_def)
    ultimately show ?thesis by blast
  qed
  then show ?thesis using shape_leaves unfolding at_place_def by metis
qed

text \<open>
  In a right-to-left deck \<open>navigatePrev\<close> falls back on \<open>navigateLeft\<close>, which goes forward there: from a
  column whose predecessor is a single slide, prev leads to the column that follows.
\<close>

lemma prev_rtl_lands:
  assumes d: "open_deck d" "\<not> cfg_loop (cfg d)" "cfg_rtl (cfg d)"
    and p: "\<And>h v. \<not> prevents (env d) h v" and r: "resumable d"
    and pos: "at_position i 0 d" and i: "0 < i" "i + 1 < int (length (getHorizontalSlides d))"
    and plain: "\<not> has_class Stack (el (doc d) (getHorizontalSlides d ! nat (i - 1)))"
  shows "\<exists>d' j'. navigatePrev True d = Some d' \<and> at_position (i + 1) j' d'"
proof -
  have ok: "deck_ok d" using d(1) by (simp add: open_deck_def)
  have up: "\<not> r_up (availableRoutes False d)"
    using routes_at(3) [OF ok pos] d by (simp add: can_go_def open_deck_def)
  have "previous_horizontal d = Some (getHorizontalSlides d ! nat (i - 1))"
    using previous_column [OF ok pos] i by simp
  then have "navigatePrev True d = press ALeft d"
    using up plain by (simp add: navigatePrev_def fragment_gate_def prev_slide_def press_def)
  moreover have "fst (arrow_target d ALeft (i, 0)) = i + 1"
    using d i settled_h_in [of "i + 1" d] by (simp add: arrow_target_def column_target_def can_go_def)
  ultimately show ?thesis using press_lands [OF d(1) pos p r, of ALeft] by auto
qed

end
