(* ===== verification/SearchLaws.thy ===== *)
theory SearchLaws
  imports Search DocOrder
begin

text \<open>
  The search returns for every query with a word character and hangs for the others; highlighting
  keeps the texts and is taken back by \<open>remove\<close>; the slides found are those with a matching text; and
  repeated searches walk through them in a circle.
\<close>

section \<open>Texts\<close>

text \<open>Nodes up to the cutting of texts: adjacent texts are put together, empty ones dropped.\<close>

definition put_text :: "string \<Rightarrow> snode list \<Rightarrow> snode list" where
  "put_text t ns =
     (if t = [] then ns else case ns of SText u # ms \<Rightarrow> SText (t @ u) # ms | _ \<Rightarrow> SText t # ns)"

fun merged :: "snode list \<Rightarrow> snode list" where
  "merged [] = []"
| "merged (SText t # ns) = put_text t (merged ns)"
| "merged (SElem a n col cs # ns) = SElem a n col (merged cs) # merged ns"

lemma put_text_append: "put_text (t @ u) ns = put_text t (put_text u ns)"
  by (auto simp: put_text_def split: list.splits snode.splits)

text \<open>Elements without one that has the tag of the highlights.\<close>

fun no_hilites :: "snode list \<Rightarrow> bool" where
  "no_hilites [] = True"
| "no_hilites (SText t # ns) = no_hilites ns"
| "no_hilites (SElem a n col cs # ns) = (n \<noteq> hiliteTag \<and> no_hilites cs \<and> no_hilites ns)"

lemma remove_no_hilites: "no_hilites ns \<Longrightarrow> remove_hilites ns = Some ns"
  by (induction ns rule: no_hilites.induct) auto

lemma substring_parts:
  "i \<le> e \<Longrightarrow> e \<le> length s \<Longrightarrow> take i s @ substring s i e @ drop e s = s"
  by (metis append.assoc append_take_drop_id drop_drop le_add_diff_inverse2 substring_def)

text \<open>What a result of the search looks like, by induction over the calls that return.\<close>

lemma hilite_merged:
  assumes "hiliteWords inherited d rx sec ns h = Some (ns', h')" and "no_hilites ns"
  shows "\<exists>ms. remove_hilites ns' = Some ms \<and> merged ms = merged ns"
proof -
  have "no_hilites ns \<longrightarrow> (\<exists>ms. remove_hilites (fst r) = Some ms \<and> merged ms = merged ns)"
    if "hiliteWords inherited d rx sec ns h = Some r" for r
  proof (rule hiliteWords.raw_induct
      [where P = "\<lambda>inherited d rx sec ns h r. no_hilites ns \<longrightarrow> (\<exists>ms. remove_hilites (fst r) = Some ms \<and> merged ms = merged ns)",
        OF _ that])
    fix f inherited d rx sec ns h r
    assume IH: "\<And>inherited d rx sec ns h r. f inherited d rx sec ns h = Some r \<Longrightarrow>
        no_hilites ns \<longrightarrow> (\<exists>ms. remove_hilites (fst r) = Some ms \<and> merged ms = merged ns)"
      and step: "(case ns of [] \<Rightarrow> Some ([], h)
        | SText t # rest \<Rightarrow>
            (case if t = [] then None else exec False rx t 0 of
              None \<Rightarrow> Option.bind (f inherited d rx sec rest h) (\<lambda>q. Some (SText t # fst q, snd q))
            | Some (i, e) \<Rightarrow>
                Option.bind (record_match inherited d sec (substring t i e) h)
                 (\<lambda>r. Option.bind (f inherited d rx sec (SText (drop e t) # rest) (snd r))
                   (\<lambda>q. Some (SText (take i t) # SElem 0 hiliteTag (fst r) [SText (substring t i e)] # fst q, snd q))))
        | SElem a n col cs # rest \<Rightarrow>
            Option.bind
              (if n \<in> set skipTags then Some (cs, h)
               else f inherited d rx (if n = ''SECTION'' then Some a else sec) cs h)
              (\<lambda>p. Option.bind (f inherited d rx sec rest (snd p))
                (\<lambda>q. Some (SElem a n col (fst p) # fst q, snd q)))) = Some r"
    show "no_hilites ns \<longrightarrow> (\<exists>ms. remove_hilites (fst r) = Some ms \<and> merged ms = merged ns)"
    proof (cases ns)
      case Nil
      with step show ?thesis by auto
    next
      case (Cons x rest)
      show ?thesis
      proof (cases x)
        case (SText t)
        show ?thesis
        proof (cases "if t = [] then None else exec False rx t 0")
          case None
          with step Cons SText obtain q where "f inherited d rx sec rest h = Some q" "r = (SText t # fst q, snd q)"
            by (auto simp: bind_eq_Some_conv)
          with IH [OF this(1)] Cons SText show ?thesis by auto
        next
          case (Some ie)
          then obtain i e where ie: "exec False rx t 0 = Some (i, e)" "ie = (i, e)"
            by (cases ie) (auto split: if_splits)
          with step Cons SText Some obtain c q where q: "f inherited d rx sec (SText (drop e t) # rest) (snd c) = Some q"
            "r = (SText (take i t) # SElem 0 hiliteTag (fst c) [SText (substring t i e)] # fst q, snd q)"
            by (auto simp: bind_eq_Some_conv)
          have "take i t @ substring t i e @ drop e t = t"
            using exec_Some [OF ie(1)] by (intro substring_parts) auto
          then have "put_text (take i t) (put_text (substring t i e) (put_text (drop e t) ns)) = put_text t ns" for ns
            by (simp flip: put_text_append)
          with IH [OF q(1)] q(2) Cons SText show ?thesis by (auto simp: hiliteTag_def)
        qed
      next
        case (SElem a n col cs)
        with step Cons obtain p q where p: "(if n \<in> set skipTags then Some (cs, h)
              else f inherited d rx (if n = ''SECTION'' then Some a else sec) cs h) = Some p"
          and q: "f inherited d rx sec rest (snd p) = Some q" "r = (SElem a n col (fst p) # fst q, snd q)"
          by (auto simp: bind_eq_Some_conv split: if_splits)
        show ?thesis
        proof
          assume nh: "no_hilites ns"
          with Cons SElem have nh: "n \<noteq> hiliteTag" "no_hilites cs" "no_hilites rest" by auto
          from p IH nh(2) have "\<exists>ms. remove_hilites (fst p) = Some ms \<and> merged ms = merged cs"
            by (auto simp: remove_no_hilites split: if_splits)
          with IH [OF q(1)] q(2) nh Cons SElem show "\<exists>ms. remove_hilites (fst r) = Some ms \<and> merged ms = merged ns"
            by auto
        qed
      qed
    qed
  qed
  with assms show ?thesis by auto
qed

section \<open>The slides that are found\<close>

text \<open>The section around each text with a match, in document order.\<close>

fun match_sections :: "regex \<Rightarrow> nat option \<Rightarrow> snode list \<Rightarrow> nat option list" where
  "match_sections rx sec [] = []"
| "match_sections rx sec (SText t # ns) =
     (if t \<noteq> [] \<and> test rx t then [sec] else []) @ match_sections rx sec ns"
| "match_sections rx sec (SElem a n col cs # ns) =
     (if n \<in> set skipTags then []
      else match_sections rx (if n = ''SECTION'' then Some a else sec) cs) @ match_sections rx sec ns"

fun weight :: "snode list \<Rightarrow> nat" where
  "weight [] = 0"
| "weight (SText t # ns) = Suc (length t) + weight ns"
| "weight (SElem a n col cs # ns) = Suc (weight cs + weight ns)"

definition found :: "deck \<Rightarrow> nat option list \<Rightarrow> indices list \<Rightarrow> indices list" where
  "found d ss ms = fold add_slide (map (getIndices d) ss) ms"

text \<open>No match may be a spelling of \<open>length\<close>.\<close>

definition storable :: "regex \<Rightarrow> bool" where
  "storable rx \<longleftrightarrow> (\<forall>t i e. exec False rx t 0 = Some (i, e) \<longrightarrow> map lower_char (substring t i e) \<noteq> ''length'')"

definition indices_known :: "deck \<Rightarrow> bool" where
  "indices_known d \<longleftrightarrow> indexh d \<noteq> NaNv \<and> indexv d \<noteq> NaNv"

lemma jv_same_refl: "v \<noteq> NaNv \<Longrightarrow> jv_same v v"
  by (cases v) simp_all

lemma known_indices: "indices_known d \<Longrightarrow> ih (getIndices d sec) \<noteq> NaNv \<and> iv (getIndices d sec) \<noteq> NaNv"
  by (simp add: indices_known_def getIndices_def Let_def split: option.split)

lemma add_slide_idem:
  assumes "ih ix \<noteq> NaNv" and "iv ix \<noteq> NaNv"
  shows "add_slide ix (add_slide ix ms) = add_slide ix ms"
  using assms by (simp add: add_slide_def list_ex_iff jv_same_refl)

lemma found_again:
  assumes "indices_known d"
  shows "found d (sec # ss) (add_slide (getIndices d sec) ms) = found d ss (add_slide (getIndices d sec) ms)"
  using known_indices [OF assms] by (simp add: found_def add_slide_idem)

lemma record_match_Some:
  assumes "map lower_char m \<noteq> ''length''"
  shows "\<exists>c h'. record_match inherited d sec m h = Some (c, h')
    \<and> matchingSlides h' = add_slide (getIndices d sec) (matchingSlides h)"
  using assms by (auto simp: record_match_def Let_def split: option.splits)

lemma hilite_total:
  assumes rx: "\<not> nullable rx" "storable rx" and known: "indices_known d"
  shows "\<exists>ns' h'. hiliteWords inherited d rx sec ns h = Some (ns', h')
    \<and> matchingSlides h' = found d (match_sections rx sec ns) (matchingSlides h)"
proof (induction ns arbitrary: sec h rule: measure_induct_rule [where f = weight])
  case (less ns)
  note step = hiliteWords.simps [of inherited d rx sec ns h]
  show ?case
  proof (cases ns)
    case Nil
    then show ?thesis by (simp add: step [unfolded Nil] found_def)
  next
    case (Cons x rest)
    show ?thesis
    proof (cases x)
      case (SText t)
      show ?thesis
      proof (cases "t \<noteq> [] \<and> test rx t")
        case False
        then have none: "(if t = [] then None else exec False rx t 0) = None"
          by (cases "exec False rx t 0") (auto simp: test_def)
        have "weight rest < weight ns" using Cons SText by simp
        from less.IH [OF this, of sec h] obtain q where
          "hiliteWords inherited d rx sec rest h = Some q"
          "matchingSlides (snd q) = found d (match_sections rx sec rest) (matchingSlides h)" by auto
        with Cons SText none False show ?thesis by (auto simp: step [unfolded Cons SText])
      next
        case True
        then obtain i e where ie: "exec False rx t 0 = Some (i, e)" by (auto simp: test_def)
        have e: "0 < e" "e \<le> length t" using exec_advances [OF ie rx(1)] exec_Some [OF ie] by auto
        have "map lower_char (substring t i e) \<noteq> ''length''" using rx(2) ie by (auto simp: storable_def)
        from record_match_Some [OF this, of inherited d sec h] obtain c h1 where
          c: "record_match inherited d sec (substring t i e) h = Some (c, h1)"
            "matchingSlides h1 = add_slide (getIndices d sec) (matchingSlides h)" by auto
        have "weight (SText (drop e t) # rest) < weight ns" using Cons SText e by simp
        from less.IH [OF this, of sec h1] obtain q where
          q: "hiliteWords inherited d rx sec (SText (drop e t) # rest) h1 = Some q"
            "matchingSlides (snd q) = found d (match_sections rx sec (SText (drop e t) # rest)) (matchingSlides h1)"
          by auto
        have "matchingSlides (snd q) = found d (match_sections rx sec ns) (matchingSlides h)"
          using q(2) True Cons SText
          by (simp add: c(2) found_again [OF known]) (simp add: found_def)
        with Cons SText True ie c(1) q(1) show ?thesis by (simp add: step [unfolded Cons SText])
      qed
    next
      case (SElem a n col cs)
      let ?sec = "if n = ''SECTION'' then Some a else sec"
      let ?ms = "if n \<in> set skipTags then [] else match_sections rx ?sec cs"
      have "weight cs < weight ns" using Cons SElem by simp
      from less.IH [OF this, of ?sec h] obtain p where
        p: "(if n \<in> set skipTags then Some (cs, h) else hiliteWords inherited d rx ?sec cs h) = Some p"
          "matchingSlides (snd p) = found d ?ms (matchingSlides h)"
        by (cases "n \<in> set skipTags") (auto simp: found_def)
      have "weight rest < weight ns" using Cons SElem by simp
      from less.IH [OF this, of sec "snd p"] obtain q where
        q: "hiliteWords inherited d rx sec rest (snd p) = Some q"
          "matchingSlides (snd q) = found d (match_sections rx sec rest) (matchingSlides (snd p))" by auto
      have "matchingSlides (snd q) = found d (match_sections rx sec ns) (matchingSlides h)"
        using q(2) p(2) Cons SElem by (simp add: found_def)
      with Cons SElem p(1) q(1) show ?thesis by (simp add: step [unfolded Cons SElem])
    qed
  qed
qed

section \<open>The pattern of a query\<close>

lemma nullable_ignore_case: "nullable (ignore_case r) = nullable r"
  by (induction r) simp_all

lemma nullable_word: "nullable (word w) \<longleftrightarrow> w = []"
  by (cases w) simp_all

lemma nullable_one_of: "nullable (one_of ws) \<longleftrightarrow> ws = [] \<or> [] \<in> set ws"
  by (induction ws rule: one_of.induct) (auto simp: nullable_word)

lemma last_dropWhile: "dropWhile P xs \<noteq> [] \<Longrightarrow> last (dropWhile P xs) = last xs"
  by (metis last_append takeWhile_dropWhile_id)

lemma trim_query_ends:
  assumes "trim_query q \<noteq> []"
  shows "is_word_char (hd (trim_query q)) \<and> is_word_char (last (trim_query q))"
proof -
  let ?l = "dropWhile (Not \<circ> is_word_char) q"
  let ?r = "dropWhile (Not \<circ> is_word_char) (rev ?l)"
  have t: "trim_query q = rev ?r" by (simp add: trim_query_def)
  with assms have r: "?r \<noteq> []" by simp
  then have "\<not> (Not \<circ> is_word_char) (hd ?r)" by (rule hd_dropWhile)
  with r have last: "is_word_char (last (rev ?r))" by (simp add: last_rev)
  have l: "?l \<noteq> []" using r by (metis dropWhile.simps(1) rev.simps(1))
  then have "\<not> (Not \<circ> is_word_char) (hd ?l)" by (rule hd_dropWhile)
  moreover have "last ?r = hd ?l" using r l by (simp add: last_dropWhile last_rev)
  ultimately have "is_word_char (hd (rev ?r))" using r by (simp add: hd_rev)
  with last show ?thesis by (simp add: t)
qed

lemma trim_query_empty: "trim_query q = [] \<longleftrightarrow> \<not> list_ex is_word_char q"
proof -
  let ?l = "dropWhile (Not \<circ> is_word_char) q"
  have "trim_query q = [] \<longleftrightarrow> (\<forall>c \<in> set ?l. \<not> is_word_char c)"
    by (simp only: trim_query_def rev_is_Nil_conv dropWhile_eq_Nil_conv set_rev comp_def)
  also have "\<dots> \<longleftrightarrow> ?l = []"
  proof
    assume "\<forall>c \<in> set ?l. \<not> is_word_char c"
    then show "?l = []" using hd_dropWhile [of "Not \<circ> is_word_char" q] hd_in_set [of ?l] by (metis comp_apply)
  qed (metis empty_iff list.set(1))
  also have "\<dots> \<longleftrightarrow> \<not> list_ex is_word_char q"
    by (simp only: dropWhile_eq_Nil_conv list_ex_iff comp_def) blast
  finally show ?thesis .
qed

lemma alternatives_nonempty:
  "s \<noteq> [] \<Longrightarrow> in_alternative (hd s) \<Longrightarrow> in_alternative (last s) \<Longrightarrow> [] \<notin> set (alternatives_of s) \<and> alternatives_of s \<noteq> []"
proof (induction s rule: alternatives_of.induct)
  case (1 s)
  let ?r = "dropWhile in_alternative s"
  let ?n = "dropWhile (Not \<circ> in_alternative) ?r"
  have w: "takeWhile in_alternative s \<noteq> []" using "1.prems" by (cases s) simp_all
  show ?case
  proof (cases "?r = []")
    case True
    with w show ?thesis by (simp add: alternatives_of.simps [of s] Let_def)
  next
    case False
    have "in_alternative (last ?r)" using last_dropWhile [OF False] "1.prems"(3) by simp
    moreover have "last ?r \<in> set ?r" using False by (rule last_in_set)
    ultimately have n: "?n \<noteq> []" unfolding dropWhile_eq_Nil_conv by auto
    then have "in_alternative (hd ?n)" using hd_dropWhile [of "Not \<circ> in_alternative" ?r] by simp
    moreover have "in_alternative (last ?n)" using last_dropWhile [OF n] last_dropWhile [OF False] "1.prems"(3) by simp
    ultimately have "[] \<notin> set (alternatives_of ?n)" using "1.IH" [OF refl refl False n] by blast
    with False w show ?thesis by (simp add: alternatives_of.simps [of s] Let_def)
  qed
qed

lemma nullable_query: "nullable (setRegex q) \<longleftrightarrow> \<not> list_ex is_word_char q"
proof (cases "trim_query q = []")
  case True
  then show ?thesis
    by (simp add: setRegex_def nullable_ignore_case nullable_one_of alternatives_of.simps [of "[]"] flip: trim_query_empty)
next
  case False
  with trim_query_ends [OF False] have "[] \<notin> set (alternatives_of (trim_query q)) \<and> alternatives_of (trim_query q) \<noteq> []"
    by (intro alternatives_nonempty) (simp_all add: in_alternative_def)
  with False show ?thesis by (auto simp: setRegex_def nullable_ignore_case nullable_one_of trim_query_empty)
qed

text \<open>A match is a spelling of one of the alternatives.\<close>

lemma lower_swap: "lower_char (swap_case c) = lower_char c"
proof -
  define n where "n = (of_char c :: nat)"
  have c: "char_of n = c" by (simp add: n_def)
  consider "97 \<le> n \<and> n \<le> 122" | "65 \<le> n \<and> n \<le> 90" | "swap_case c = c"
    unfolding n_def swap_case_def Let_def by presburger
  then show ?thesis
  proof cases
    case 1
    then have "swap_case c = char_of (n - 32)" "(n - 32) mod 256 = n - 32" "65 \<le> n - 32 \<and> n - 32 \<le> 90"
      unfolding swap_case_def Let_def n_def [symmetric] by auto
    with 1 c show ?thesis unfolding lower_char_def Let_def n_def [symmetric] by (simp add: of_char_of)
  next
    case 2
    then have "swap_case c = char_of (n + 32)" "(n + 32) mod 256 = n + 32"
      unfolding swap_case_def Let_def n_def [symmetric] by auto
    with 2 show ?thesis unfolding lower_char_def Let_def n_def [symmetric] by (simp add: of_char_of)
  qed simp
qed

lemma match_word:
  "j \<in> set (match_at multi s (ignore_case (word w)) i) \<Longrightarrow> i \<le> length s \<Longrightarrow>
     map lower_char (substring s i j) = map lower_char w"
proof (induction w arbitrary: i)
  case Nil
  then show ?case by (simp add: substring_def)
next
  case (Cons c w)
  from Cons.prems(1) have i: "i < length s" "c = s ! i \<or> c = swap_case (s ! i)"
    "Suc i \<le> j" "j \<in> set (match_at multi s (ignore_case (word w)) (Suc i))"
    using match_at_bounds [of j multi s "ignore_case (word w)" "Suc i"] by (auto split: if_splits)
  have "substring s i j = s ! i # substring s (Suc i) j"
    using i(1,3) by (simp add: substring_def Suc_diff_le take_Suc_conv_app_nth Cons_nth_drop_Suc [symmetric] take_Cons' )
  with Cons.IH [OF i(4)] i(1,2) show ?case by (auto simp: lower_swap)
qed

lemma match_one_of:
  "j \<in> set (match_at multi s (ignore_case (one_of ws)) i) \<Longrightarrow> i \<le> length s \<Longrightarrow> ws \<noteq> [] \<Longrightarrow>
     \<exists>w \<in> set ws. map lower_char (substring s i j) = map lower_char w"
  by (induction ws rule: one_of.induct) (auto dest: match_word)

lemma storable_query:
  assumes "list_all (\<lambda>w. map lower_char w \<noteq> ''length'') (alternatives_of (trim_query q))"
  shows "storable (setRegex q)"
  unfolding storable_def
proof (intro allI impI)
  fix t i e assume "exec False (setRegex q) t 0 = Some (i, e)"
  then have "i \<le> length t" "e \<in> set (match_at False t (setRegex q) i)" using exec_Some by fastforce+
  moreover have "alternatives_of (trim_query q) \<noteq> []"
    by (subst alternatives_of.simps) (simp add: Let_def)
  ultimately obtain w where "w \<in> set (alternatives_of (trim_query q))"
    "map lower_char (substring t i e) = map lower_char w"
    unfolding setRegex_def using match_one_of by blast
  with assms show "map lower_char (substring t i e) \<noteq> ''length''" by (simp add: list_all_iff)
qed

section \<open>The list of slides\<close>

text \<open>The slides found are those of the sections with a match, each once, in the order in which they appear.\<close>

definition position_of :: "indices \<Rightarrow> jsval \<times> jsval" where
  "position_of ix = (ih ix, iv ix)"

lemma jv_same_eq: "a \<noteq> NaNv \<Longrightarrow> b \<noteq> NaNv \<Longrightarrow> jv_same a b \<longleftrightarrow> a = b"
  by (cases a; cases b) simp_all

lemma found_distinct:
  assumes known: "indices_known d"
  shows "map position_of (found d ss []) = rev (remdups (rev (map (position_of \<circ> getIndices d) ss)))
    \<and> (\<forall>m \<in> set (found d ss []). ih m \<noteq> NaNv \<and> iv m \<noteq> NaNv)"
proof (induction ss rule: rev_induct)
  case Nil
  show ?case by (simp add: found_def)
next
  case (snoc s ss)
  let ?ms = "found d ss []" and ?ix = "getIndices d s"
  have step: "found d (ss @ [s]) [] = add_slide ?ix ?ms" by (simp add: found_def)
  have ix: "ih ?ix \<noteq> NaNv" "iv ?ix \<noteq> NaNv" using known_indices [OF known] by auto
  have "list_ex (\<lambda>m. jv_same (ih m) (ih ?ix) \<and> jv_same (iv m) (iv ?ix)) ?ms \<longleftrightarrow> position_of ?ix \<in> set (map position_of ?ms)"
    unfolding list_ex_iff set_map image_iff position_of_def
    by (rule bex_cong) (use snoc.IH ix in \<open>auto simp: jv_same_eq\<close>)
  with snoc.IH ix show ?case by (auto simp: step add_slide_def)
qed

lemma search_result:
  assumes q: "list_ex is_word_char q" "list_all (\<lambda>w. map lower_char w \<noteq> ''length'') (alternatives_of (trim_query q))"
    and known: "indices_known d" and body: "no_hilites body"
  shows "\<exists>body' h. apply_hilitor inherited d q body = Some (body', h)
    \<and> map position_of (matchingSlides h) =
        rev (remdups (rev (map (position_of \<circ> getIndices d) (match_sections (setRegex q) None body))))
    \<and> (\<exists>ns. remove_hilites body' = Some ns \<and> merged ns = merged body)"
proof -
  have "\<not> nullable (setRegex q)" using q(1) by (simp add: nullable_query)
  from hilite_total [OF this storable_query [OF q(2)] known, of inherited None body new_hilitor] obtain body' h where
    r: "hiliteWords inherited d (setRegex q) None body new_hilitor = Some (body', h)"
      "matchingSlides h = found d (match_sections (setRegex q) None body) []"
    by (auto simp: new_hilitor_def)
  from hilite_merged [OF r(1) body] r found_distinct [OF known] show ?thesis
    by (auto simp: apply_hilitor_def remove_no_hilites [OF body])
qed

section \<open>A query without a word\<close>

fun has_text :: "snode list \<Rightarrow> bool" where
  "has_text [] = False"
| "has_text (SText t # ns) = (t \<noteq> [] \<or> has_text ns)"
| "has_text (SElem a n col cs # ns) = ((n \<notin> set skipTags \<and> has_text cs) \<or> has_text ns)"

lemma setRegex_empty: "\<not> list_ex is_word_char q \<Longrightarrow> setRegex q = REmpty"
  by (simp add: setRegex_def alternatives_of.simps [of "[]"] flip: trim_query_empty)

lemma hilite_stuck:
  assumes "has_text ns"
  shows "hiliteWords inherited d REmpty sec ns h = None"
proof -
  have e: "exec False REmpty t 0 = Some (0, 0)" for t by (rule exec_here) simp_all
  have "rx = REmpty \<longrightarrow> \<not> has_text ns" if "hiliteWords inherited d rx sec ns h = Some r" for rx r
    by (rule hiliteWords.raw_induct
        [where P = "\<lambda>inherited d rx sec ns h r. rx = REmpty \<longrightarrow> \<not> has_text ns", OF _ that])
      (fastforce simp: e bind_eq_Some_conv split: list.splits snode.splits if_splits option.splits)
  with assms show ?thesis by (cases "hiliteWords inherited d REmpty sec ns h") auto
qed

lemma search_stuck:
  assumes "\<not> list_ex is_word_char q" and "remove_hilites body = Some body'" and "has_text body'"
  shows "apply_hilitor inherited d q body = None"
  using assms by (simp add: apply_hilitor_def setRegex_empty hilite_stuck)

section \<open>Walking through the slides\<close>

text \<open>\<open>slide\<close> with the indices of a slide goes to this slide.\<close>

lemma slide_to_found:
  assumes ok: "deck_ok d" and p: "\<And>h v. \<not> prevents (env d) h v" and t: "getSlide d i (Num j) = Some t"
  shows "\<exists>d'. slide (ih (getIndices d (Some t))) (iv (getIndices d (Some t))) Undef d = Some d'
    \<and> deck_ok d' \<and> env d' = env d \<and> same_shape (doc d) (doc d') \<and> currentSlide d' = Some t"
proof -
  have wf: "wf_doc (doc d)" using ok by (simp add: deck_ok_def)
  have i: "0 \<le> i" "i < int (length (getHorizontalSlides d))"
    using t by (auto simp: getSlide_def Let_def split: if_splits)
  have col: "column d i = [] \<or> 0 \<le> j \<and> j < int (length (column d i))"
    using t i by (auto simp: getSlide_def Let_def column_def split: if_splits)
  let ?v = "iv (getIndices d (Some t))"
  have ix: "ih (getIndices d (Some t)) = Num i" "?v = (if column d i = [] then Undef else Num j)"
    using getIndices_getSlide [OF wf t] by (simp_all add: column_def)
  have "settled_stack d i = [] \<or> jv_default (resume_vertical d (Num i) ?v) (indexv d) = Num j"
    using ix(2) by (simp add: settled_stack_column [OF i] resume_vertical_def jv_default_def)
  from slide_lands [OF ok p _ this, of Undef] obtain d' where d':
    "slide (Num i) ?v Undef d = Some d'" "at_position (settled_h d i) (settled_v d i j) d'" "deck_ok d'"
    by (auto simp: jv_default_def)
  note sh = slide_keeps_shape [OF d'(1)]
  have "currentSlide d' = getSlide d i (Num (settled_v d i j))"
    using d'(2) sh by (simp add: at_position_def settled_h_in [OF i] getSlide_shape [of d d'])
  also have "\<dots> = Some t"
    using col t settled_v_in [OF i, of j] i by (auto simp: getSlide_def Let_def column_def)
  finally show ?thesis using d' sh ix(1) by auto
qed

lemma getIndices_shape:
  assumes "same_shape (doc d) (doc d')"
  shows "getIndices d' (Some t) = getIndices d (Some t)"
proof -
  have "nodes (doc d') = nodes (doc d)" using same_shape_root [OF assms] by (simp add: nodes_def)
  then have "parent_of (doc d') t = parent_of (doc d) t" by (simp add: parent_of_def)
  then show ?thesis
    using same_shape_is_section [OF assms]
    by (simp add: getIndices_def Let_def isVerticalSlide_def is_vertical_def getHorizontalSlides_def
        same_shape_horizontal_slides [OF assms] same_shape_sections [OF assms] split: option.split)
qed

text \<open>Pressing the return key again and again.\<close>

fun enters :: "(string \<Rightarrow> bool) \<Rightarrow> nat \<Rightarrow> search \<Rightarrow> deck \<Rightarrow> (search \<times> deck) option" where
  "enters inherited 0 s d = Some (s, d)"
| "enters inherited (Suc k) s d =
     Option.bind (enters inherited k s d) (\<lambda>(s', d'). search_keyup inherited 13 s' d')"

lemma enters_walk:
  assumes ok: "deck_ok d" and p: "\<And>h v. \<not> prevents (env d) h v"
    and s: "matchedSlides s = Some (map (\<lambda>t. getIndices d (Some t)) ts)" "ts \<noteq> []" "\<not> searchboxDirty s"
    and c: "currentMatchedIndex s = 0"
    and ts: "list_all (\<lambda>t. \<exists>i j. getSlide d i (Num j) = Some t) ts"
  shows "\<exists>s' d'. enters inherited (Suc k) s d = Some (s', d')
    \<and> currentSlide d' = Some (ts ! (k mod length ts))
    \<and> deck_ok d' \<and> env d' = env d \<and> same_shape (doc d) (doc d')
    \<and> matchedSlides s' = matchedSlides s \<and> \<not> searchboxDirty s' \<and> currentMatchedIndex s' = Suc (k mod length ts)"
proof -
  have one: "\<exists>s' d'. search_keyup inherited 13 s1 d1 = Some (s', d')
      \<and> currentSlide d' = Some (ts ! m) \<and> deck_ok d' \<and> env d' = env d \<and> same_shape (doc d) (doc d')
      \<and> matchedSlides s' = matchedSlides s \<and> \<not> searchboxDirty s' \<and> currentMatchedIndex s' = Suc m"
    if s1: "matchedSlides s1 = matchedSlides s" "\<not> searchboxDirty s1"
      and m: "m = (if length ts \<le> currentMatchedIndex s1 then 0 else currentMatchedIndex s1)"
      and d1: "deck_ok d1" "env d1 = env d" "same_shape (doc d) (doc d1)" for s1 d1 m
  proof -
    have "m < length ts" using m s(2) by simp
    with ts obtain i j where "getSlide d i (Num j) = Some (ts ! m)" by (fastforce simp: list_all_length)
    then have "getSlide d1 i (Num j) = Some (ts ! m)" by (simp add: getSlide_shape [OF d1(3)])
    from slide_to_found [OF d1(1) _ this] p obtain d' where
      "slide (ih (getIndices d (Some (ts ! m)))) (iv (getIndices d (Some (ts ! m)))) Undef d1 = Some d'"
      "deck_ok d'" "env d' = env d" "same_shape (doc d1) (doc d')" "currentSlide d' = Some (ts ! m)"
      by (auto simp: d1(2) getIndices_shape [OF d1(3)])
    with s1 m s(1,2) \<open>m < length ts\<close> same_shape_trans [OF d1(3)] show ?thesis
      by (auto simp: search_keyup_def doSearch_def new_matches_def next_match_def Let_def)
  qed
  show ?thesis
  proof (induction k)
    case 0
    from one [OF refl s(3) _ ok refl same_shape_refl, of 0] c s(2) show ?case by auto
  next
    case (Suc k)
    then obtain s' d' where IH: "enters inherited (Suc k) s d = Some (s', d')" "deck_ok d'" "env d' = env d"
      "same_shape (doc d) (doc d')" "matchedSlides s' = matchedSlides s" "\<not> searchboxDirty s'"
      "currentMatchedIndex s' = Suc (k mod length ts)" by blast
    have "Suc k mod length ts = (if length ts \<le> currentMatchedIndex s' then 0 else currentMatchedIndex s')"
      using s(2) by (simp add: IH(7) mod_Suc le_less_Suc_eq) (metis Suc_leI le_antisym length_greater_0_conv mod_less_divisor)
    from one [OF IH(5,6) this IH(2-4)] IH(1) show ?case by auto
  qed
qed

end
