(* ===== verification/Speaker.thy ===== *)
theory Speaker
  imports Displays Regex
begin

text \<open>
  The notes plugin, plugin/notes/plugin.js: the window with the speaker view, the handshake with it, and
  what it is told about the current slide.  Windows are numbered; what \<open>window.open\<close> returns, the origin
  of a message and the methods of the deck that a message calls are arguments.  A message is what
  \<open>JSON.parse\<close> makes of it.
\<close>

section \<open>State\<close>

record notes_data =
  nd_notes :: string
  nd_markdown :: "bool option"
    \<comment> \<open>\<^const>\<open>None\<close> is \<open>undefined\<close>\<close>
  nd_whitespace :: string

datatype speaker_msg =
    ConnectMsg snapshot string
  | ReturnMsg string string
  | StateMsg notes_data snapshot

datatype window_call = FocusWindow nat | WriteView nat | PostWindow nat speaker_msg

datatype notes_message =
    NotJson
  | Connected
  | CallApi string "string list" string
  | Heartbeat
  | OtherMessage

record speaker =
  speakerWindow :: "nat option"
  closed_windows :: "nat set"
  connectInterval :: "nat option"
  intervals :: "nat list"
  next_interval :: nat
  listening :: bool
    \<comment> \<open>\<open>onPostMessage\<close> is registered\<close>
  awaiting_heartbeat :: bool
  subscribed :: bool
    \<comment> \<open>\<open>post\<close> is registered for the events of the deck\<close>
  window_calls :: "window_call list"

definition no_speaker :: speaker where
  "no_speaker = \<lparr>speakerWindow = None, closed_windows = {}, connectInterval = None, intervals = [],
     next_interval = 1, listening = False, awaiting_heartbeat = False, subscribed = False, window_calls = []\<rparr>"

definition call_window :: "window_call \<Rightarrow> speaker \<Rightarrow> speaker" where
  "call_window c s = s\<lparr>window_calls := window_calls s @ [c]\<rparr>"

definition window_open :: "speaker \<Rightarrow> nat option" where
  "window_open s =
     (case speakerWindow s of Some w \<Rightarrow> if w \<in> closed_windows s then None else Some w | None \<Rightarrow> None)"

section \<open>The notes of a slide\<close>

definition message_data :: "dom \<Rightarrow> nat \<Rightarrow> notes_data" where
  "message_data dm slideElement =
     (let notesElements = queryAll dm slideElement is_notes_aside;
          fragmentElement = querySelector dm slideElement (has_class CurrentFragment);
          n0 = \<lparr>nd_notes = [], nd_markdown = Some False, nd_whitespace = ''normal''\<rparr>;
          n1 = (case attrs (el dm slideElement) DataNotes of
                  Some t \<Rightarrow> n0\<lparr>nd_notes := t, nd_whitespace := ''pre-wrap''\<rparr>
                | None \<Rightarrow> n0);
          from_asides = n1\<lparr>nd_notes := join_with ''\<newline>'' (map (\<lambda>i. innerHTML (el dm i)) notesElements),
                           nd_markdown := (case notesElements of
                               i # _ \<Rightarrow> Some (has_attr DataMarkdown (el dm i)) | [] \<Rightarrow> None)\<rparr>
      in case fragmentElement of
           None \<Rightarrow> from_asides
         | Some f \<Rightarrow>
             (case querySelector dm f is_notes_aside of
                Some a \<Rightarrow> n1\<lparr>nd_notes := innerHTML (el dm a), nd_markdown := Some (has_attr DataMarkdown (el dm a))\<rparr>
              | None \<Rightarrow>
                  (case attrs (el dm f) DataNotes of
                     Some t \<Rightarrow> n1\<lparr>nd_notes := t, nd_whitespace := ''pre-wrap''\<rparr>
                   | None \<Rightarrow> from_asides)))"

text \<open>\<open>post\<close> throws without a current slide or a window.\<close>

definition post_state :: "deck \<Rightarrow> speaker \<Rightarrow> speaker option" where
  "post_state d s =
     (case (currentSlide d, speakerWindow s) of
        (Some slideElement, Some w) \<Rightarrow>
          Some (call_window (PostWindow w (StateMsg (message_data (doc d) slideElement) (getState d))) s)
      | _ \<Rightarrow> None)"

section \<open>The handshake\<close>

definition onConnected :: "deck \<Rightarrow> speaker \<Rightarrow> speaker option" where
  "onConnected d s = post_state d (s\<lparr>subscribed := True\<rparr>)"

definition connect_notes :: "speaker \<Rightarrow> speaker" where
  "connect_notes s =
     s\<lparr>connectInterval := Some (next_interval s), intervals := intervals s @ [next_interval s],
       next_interval := Suc (next_interval s), listening := True\<rparr>"

text \<open>
  \<open>window.open\<close> returns null when the window is blocked; the assignment to \<open>marked\<close> of the window then
  throws, before the code looks at the result.  The flag says whether the call returned.
\<close>

definition openSpeakerWindow :: "nat option \<Rightarrow> speaker \<Rightarrow> speaker \<times> bool" where
  "openSpeakerWindow opened s =
     (case window_open s of
        Some w \<Rightarrow> (call_window (FocusWindow w) s, True)
      | None \<Rightarrow>
          (case opened of
             None \<Rightarrow> (s\<lparr>speakerWindow := None\<rparr>, False)
           | Some w \<Rightarrow> (connect_notes (call_window (WriteView w) (s\<lparr>speakerWindow := Some w\<rparr>)), True)))"

definition reconnectSpeakerWindow :: "deck \<Rightarrow> nat \<Rightarrow> speaker \<Rightarrow> speaker option" where
  "reconnectSpeakerWindow d w s =
     (case window_open s of
        Some v \<Rightarrow> Some (call_window (FocusWindow v) s)
      | None \<Rightarrow> onConnected d (s\<lparr>speakerWindow := Some w, listening := True\<rparr>))"

text \<open>A tick of an interval asks the current window to connect.\<close>

definition connect_tick :: "string \<Rightarrow> deck \<Rightarrow> speaker \<Rightarrow> speaker option" where
  "connect_tick url d s =
     map_option (\<lambda>w. call_window (PostWindow w (ConnectMsg (getState d) url)) s) (speakerWindow s)"

definition callRevealApi ::
  "(string \<Rightarrow> string list \<Rightarrow> deck \<Rightarrow> (string \<times> deck) option) \<Rightarrow> string \<Rightarrow> string list \<Rightarrow> string \<Rightarrow>
   speaker \<times> deck \<Rightarrow> (speaker \<times> deck) option" where
  "callRevealApi api methodName methodArguments callId sd =
     Option.bind (api methodName methodArguments (snd sd))
       (\<lambda>(result, d').
          map_option (\<lambda>w. (call_window (PostWindow w (ReturnMsg result callId)) (fst sd), d'))
            (speakerWindow (fst sd)))"

definition clear_connect :: "speaker \<Rightarrow> speaker" where
  "clear_connect s =
     (case connectInterval s of Some i \<Rightarrow> s\<lparr>intervals := removeAll i (intervals s)\<rparr> | None \<Rightarrow> s)"

definition notes_onPostMessage ::
  "(string \<Rightarrow> string list \<Rightarrow> deck \<Rightarrow> (string \<times> deck) option) \<Rightarrow> bool \<Rightarrow> notes_message \<Rightarrow>
   speaker \<times> deck \<Rightarrow> (speaker \<times> deck) option" where
  "notes_onPostMessage api sameOrigin m sd =
     (if \<not> listening (fst sd) \<or> \<not> sameOrigin then Some sd
      else (case m of
              NotJson \<Rightarrow> None
            | Connected \<Rightarrow> map_option (\<lambda>s. (s, snd sd)) (onConnected (snd sd) (clear_connect (fst sd)))
            | CallApi methodName methodArguments callId \<Rightarrow> callRevealApi api methodName methodArguments callId sd
            | _ \<Rightarrow> Some sd))"

definition notes_event :: "string \<Rightarrow> deck \<Rightarrow> speaker \<Rightarrow> speaker option" where
  "notes_event name d s =
     (if subscribed s \<and> name \<in> set [''slidechanged'', ''fragmentshown'', ''fragmenthidden'', ''overviewhidden'',
           ''overviewshown'', ''paused'', ''resumed'']
      then post_state d s else Some s)"

section \<open>init\<close>

definition receiver_regex :: regex where
  "receiver_regex = ignore_case (word ''receiver'')"

definition notes_regex :: regex where
  "notes_regex = RSeq (RClass (\<lambda>c. c = CHR ''?'' \<or> c = CHR ''&'')) (ignore_case (word ''notes''))"

text \<open>The second result says whether the key binding was added.\<close>

definition notes_init :: "string \<Rightarrow> nat option \<Rightarrow> speaker \<Rightarrow> speaker \<times> bool" where
  "notes_init search opened s =
     (if test receiver_regex search then (s, False)
      else if test notes_regex search then openSpeakerWindow opened s
      else (s\<lparr>awaiting_heartbeat := True\<rparr>, True))"

definition notes_heartbeat :: "deck \<Rightarrow> nat \<Rightarrow> notes_message \<Rightarrow> speaker \<Rightarrow> speaker option" where
  "notes_heartbeat d source m s =
     (if awaiting_heartbeat s \<and> speakerWindow s = None \<and> m = Heartbeat
      then reconnectSpeakerWindow d source s else Some s)"

text \<open>The steps of a page with the plugin; the deck is in any state.\<close>

inductive speaker_step :: "speaker \<Rightarrow> speaker \<Rightarrow> bool" where
  open_view: "speaker_step s (fst (openSpeakerWindow opened s))"
| close: "speaker_step s (s\<lparr>closed_windows := insert w (closed_windows s)\<rparr>)"
| tick: "intervals s \<noteq> [] \<Longrightarrow> connect_tick url d s = Some s' \<Longrightarrow> speaker_step s s'"
| message: "notes_onPostMessage api sameOrigin m (s, d) = Some (s', d') \<Longrightarrow> speaker_step s s'"
| heartbeat: "notes_heartbeat d w m s = Some s' \<Longrightarrow> speaker_step s s'"
| event: "notes_event name d s = Some s' \<Longrightarrow> speaker_step s s'"

text \<open>Any number of steps.\<close>

inductive speaker_steps :: "speaker \<Rightarrow> speaker \<Rightarrow> bool" where
  none: "speaker_steps s s"
| more: "speaker_steps s t \<Longrightarrow> speaker_step t u \<Longrightarrow> speaker_steps s u"

section \<open>Facts\<close>

text \<open>
  The notes in an attribute of the slide are not sent: they are replaced by those of the \<open>aside\<close>
  elements also when there is none.
\<close>

lemma slide_notes_lost:
  assumes "currentSlide d = Some s" and "attrs (el (doc d) s) DataNotes = Some t"
    and "querySelector (doc d) s (has_class CurrentFragment) = None" and "queryAll (doc d) s is_notes_aside = []"
    and "speakerWindow sp = Some w"
  shows "getSlideNotes d s = t \<and> (\<exists>n. post_state d sp = Some (call_window (PostWindow w (StateMsg n (getState d))) sp)
    \<and> nd_notes n = [] \<and> nd_markdown n = None)"
proof
  show "getSlideNotes d s = t" using assms(2) by (simp add: getSlideNotes_def)
  show "\<exists>n. post_state d sp = Some (call_window (PostWindow w (StateMsg n (getState d))) sp)
      \<and> nd_notes n = [] \<and> nd_markdown n = None"
    using assms
    by (intro exI [of _ "\<lparr>nd_notes = [], nd_markdown = None, nd_whitespace = ''pre-wrap''\<rparr>"])
      (simp add: post_state_def message_data_def Let_def)
qed

text \<open>The notes of a fragment win over all others.\<close>

lemma fragment_notes_sent:
  assumes "querySelector dm s (has_class CurrentFragment) = Some f" and "querySelector dm f is_notes_aside = Some a"
  shows "nd_notes (message_data dm s) = innerHTML (el dm a)"
  using assms by (simp add: message_data_def Let_def split: option.split)

text \<open>
  Only the interval in \<open>connectInterval\<close> is ever cleared: one whose number the code has lost keeps
  running, whatever happens.
\<close>

definition lost_interval :: "nat \<Rightarrow> speaker \<Rightarrow> bool" where
  "lost_interval i s \<longleftrightarrow> i \<in> set (intervals s) \<and> connectInterval s \<noteq> Some i \<and> i < next_interval s"

lemma lost_fields:
  assumes "intervals s' = intervals s" and "connectInterval s' = connectInterval s" and "next_interval s' = next_interval s"
  shows "lost_interval i s' = lost_interval i s"
  using assms by (simp add: lost_interval_def)

lemma lost_call [simp]: "lost_interval i (call_window c s) = lost_interval i s"
  by (rule lost_fields) (simp_all add: call_window_def)

lemma lost_post: "post_state d s = Some s' \<Longrightarrow> lost_interval i s' = lost_interval i s"
  by (auto simp: post_state_def split: option.splits)

lemma lost_connected: "onConnected d s = Some s' \<Longrightarrow> lost_interval i s' = lost_interval i s"
  using lost_post [of d "s\<lparr>subscribed := True\<rparr>" s' i] by (simp add: onConnected_def lost_interval_def)

lemma lost_clear: "lost_interval i s \<Longrightarrow> lost_interval i (clear_connect s)"
  by (auto simp: clear_connect_def lost_interval_def split: option.split)

lemma lost_step: "speaker_step s s' \<Longrightarrow> lost_interval i s \<Longrightarrow> lost_interval i s'"
proof (induction rule: speaker_step.induct)
  case (open_view s opened)
  then show ?case
    by (auto simp: openSpeakerWindow_def connect_notes_def call_window_def lost_interval_def split: option.split)
next
  case (close s w)
  then show ?case by (simp add: lost_interval_def)
next
  case (tick s url d s')
  then show ?case by (auto simp: connect_tick_def)
next
  case (message api sameOrigin m s d s' d')
  then show ?case
    by (cases m)
      (auto simp: notes_onPostMessage_def callRevealApi_def bind_eq_Some_conv lost_connected
        intro: lost_clear split: if_splits)
next
  case (heartbeat d w m s s')
  then show ?case
    by (auto simp: notes_heartbeat_def reconnectSpeakerWindow_def lost_connected lost_interval_def [of i "speakerWindow_update f s" for f]
        split: if_splits option.splits) (auto simp: lost_interval_def dest!: lost_connected [of d _ s' i])
next
  case (event name d s s')
  then show ?case by (auto simp: notes_event_def lost_post split: if_splits)
qed

lemma lost_steps: "speaker_steps s t \<Longrightarrow> lost_interval i s \<Longrightarrow> lost_interval i t"
  by (induction rule: speaker_steps.induct) (auto dest: lost_step)

lemma reopened_loses:
  assumes "window_open s = None" and "connectInterval s = Some i" and "i \<in> set (intervals s)" and "i < next_interval s"
  shows "lost_interval i (fst (openSpeakerWindow (Some w) s))"
  using assms by (simp add: openSpeakerWindow_def connect_notes_def call_window_def lost_interval_def)

end
