(* ===== verification/Zoom.thy ===== *)
theory Zoom
  imports JsNum
begin

text \<open>
  The zoom plugin, plugin/zoom/plugin.js: zooming to a point, a rectangle or an element, panning while
  zoomed in, and zooming out.  The size of the window and what it makes of a scroll position are
  arguments.
\<close>

section \<open>State\<close>

record window =
  win_width :: rat
  win_height :: rat
  supportsTransforms :: bool
  scroll_clamp :: "jsnum \<times> jsnum \<Rightarrow> rat \<times> rat"

text \<open>The styles of the body: none, a transform with its origin, or a position with a size and \<open>zoom\<close>.\<close>

datatype zoom_style =
    ZoomNone
  | ZoomTransform "rat \<times> rat" "jsnum \<times> jsnum" jsnum
  | ZoomPlaced "jsnum \<times> jsnum" jsnum jsnum

record zoom =
  level :: jsnum
  mouseX :: rat
  mouseY :: rat
  panEngage :: bool
    \<comment> \<open>the timeout that starts the panning is pending\<close>
  panUpdate :: bool
    \<comment> \<open>the interval of the panning runs\<close>
  body_style :: zoom_style
  zoomed :: bool
  scrolled :: "rat \<times> rat"

definition new_zoom :: zoom where
  "new_zoom = \<lparr>level = Fin 1, mouseX = 0, mouseY = 0, panEngage = False, panUpdate = False,
     body_style = ZoomNone, zoomed = False, scrolled = (0, 0)\<rparr>"

text \<open>\<open>undefined\<close> in an arithmetic place is \<open>NaN\<close>; the bounds of an element are left, top, width, height.\<close>

record zoom_options =
  zo_x :: jsnum
  zo_y :: jsnum
  zo_width :: "jsnum option"
  zo_height :: "jsnum option"
  zo_scale :: jsnum
  zo_element :: "(rat \<times> rat \<times> rat \<times> rat) option"
  zo_pan :: bool

definition or_number :: "jsnum \<Rightarrow> rat \<Rightarrow> jsnum" where
  "or_number x q = (if js_truthy x then x else Fin q)"

section \<open>Zooming\<close>

definition magnify_style :: "window \<Rightarrow> rat \<times> rat \<Rightarrow> jsnum \<Rightarrow> jsnum \<Rightarrow> jsnum \<Rightarrow> zoom_style" where
  "magnify_style w off x y scale =
     (if scale = Fin 1 then ZoomNone
      else if supportsTransforms w then ZoomTransform off (js_neg x, js_neg y) scale
      else ZoomPlaced (js_div (js_neg (js_add (Fin (fst off)) x)) scale,
                       js_div (js_neg (js_add (Fin (snd off)) y)) scale) (js_mul scale (Fin 100)) scale)"

definition magnify :: "window \<Rightarrow> jsnum \<times> jsnum \<Rightarrow> jsnum option \<times> jsnum option \<Rightarrow> jsnum \<Rightarrow> zoom \<Rightarrow> zoom" where
  "magnify w xy wh scale z =
     (let width = or_number (case fst wh of Some v \<Rightarrow> v | None \<Rightarrow> NaN) 1;
          height = or_number (case snd wh of Some v \<Rightarrow> v | None \<Rightarrow> NaN) 1;
          x = js_sub (fst xy) (js_div (js_sub (Fin (win_width w)) (js_mul width scale)) (Fin 2));
          y = js_sub (snd xy) (js_div (js_sub (Fin (win_height w)) (js_mul height scale)) (Fin 2))
      in z\<lparr>body_style := magnify_style w (scrolled z) x y scale, level := scale, zoomed := (scale \<noteq> Fin 1)\<rparr>)"

definition zoom_out :: "window \<Rightarrow> zoom \<Rightarrow> zoom" where
  "zoom_out w z =
     (magnify w (Fin 0, Fin 0) (None, None) (Fin 1) (z\<lparr>panEngage := False, panUpdate := False\<rparr>))\<lparr>level := Fin 1\<rparr>"

definition zoom_padding :: rat where
  "zoom_padding = 20"

definition zoom_bounds :: "zoom_options \<Rightarrow> zoom_options" where
  "zoom_bounds opts =
     (case zo_element opts of
        None \<Rightarrow> opts\<lparr>zo_x := or_number (zo_x opts) 0, zo_y := or_number (zo_y opts) 0\<rparr>
      | Some (bx, by0, width, height) \<Rightarrow>
          opts\<lparr>zo_x := Fin (bx - zoom_padding), zo_y := Fin (by0 - zoom_padding),
               zo_width := Some (Fin (width + zoom_padding * 2)), zo_height := Some (Fin (height + zoom_padding * 2))\<rparr>)"

definition zoom_scale :: "window \<Rightarrow> zoom_options \<Rightarrow> jsnum" where
  "zoom_scale w opts =
     (case (zo_width opts, zo_height opts) of
        (Some width, Some height) \<Rightarrow>
          js_max (js_min (js_div (Fin (win_width w)) width) (js_div (Fin (win_height w)) height)) (Fin 1)
      | _ \<Rightarrow> zo_scale opts)"

definition zoom_to :: "window \<Rightarrow> zoom_options \<Rightarrow> zoom \<Rightarrow> zoom" where
  "zoom_to w options z =
     (if level z \<noteq> Fin 1 then zoom_out w z
      else
        (let opts = zoom_bounds options; scale = zoom_scale w opts
         in if js_less (Fin 1) scale
            then (let z1 = magnify w (js_mul (zo_x opts) scale, js_mul (zo_y opts) scale)
                             (zo_width opts, zo_height opts) scale z
                  in if zo_pan opts then z1\<lparr>panEngage := True\<rparr> else z1)
            else z))"

section \<open>Panning\<close>

definition engage_pan :: "zoom \<Rightarrow> zoom" where
  "engage_pan z = (if panEngage z then z\<lparr>panEngage := False, panUpdate := True\<rparr> else z)"

definition scroll_to :: "window \<Rightarrow> jsnum \<times> jsnum \<Rightarrow> zoom \<Rightarrow> zoom" where
  "scroll_to w p z = z\<lparr>scrolled := scroll_clamp w p\<rparr>"

text \<open>How far a step of the panning goes, from the relative distance to the edge.\<close>

definition pan_step :: "zoom \<Rightarrow> jsnum \<Rightarrow> jsnum" where
  "pan_step z part = js_mul (js_sub (Fin 1) part) (js_div (Fin 14) (level z))"

definition pan :: "window \<Rightarrow> zoom \<Rightarrow> zoom" where
  "pan w z =
     (let rangeX = win_width w * (12 / 100); rangeY = win_height w * (12 / 100);
          x = Fin (fst (scrolled z)); y = Fin (snd (scrolled z));
          z1 = (if mouseY z < rangeY
                then scroll_to w (x, js_sub y (pan_step z (js_div (Fin (mouseY z)) (Fin rangeY)))) z
                else if mouseY z > win_height w - rangeY
                then scroll_to w (x, js_add y (pan_step z (js_div (Fin (win_height w - mouseY z)) (Fin rangeY)))) z
                else z)
      in if mouseX z < rangeX
         then scroll_to w (js_sub x (pan_step z (js_div (Fin (mouseX z)) (Fin rangeX))), y) z1
         else if mouseX z > win_width w - rangeX
         then scroll_to w (js_add x (pan_step z (js_div (Fin (win_width w - mouseX z)) (Fin rangeX))), y) z1
         else z1)"

section \<open>Events\<close>

definition zoom_keyup :: "window \<Rightarrow> int \<Rightarrow> zoom \<Rightarrow> zoom" where
  "zoom_keyup w keyCode z = (if level z \<noteq> Fin 1 \<and> keyCode = 27 then zoom_out w z else z)"

definition zoom_mousemove :: "rat \<Rightarrow> rat \<Rightarrow> zoom \<Rightarrow> zoom" where
  "zoom_mousemove x y z = (if level z \<noteq> Fin 1 then z\<lparr>mouseX := x, mouseY := y\<rparr> else z)"

definition zoom_modifier :: "bool \<Rightarrow> string option \<Rightarrow> string" where
  "zoom_modifier linux zoomKey =
     (case zoomKey of
        Some k \<Rightarrow> (if k \<noteq> [] then k else if linux then ''ctrl'' else ''alt'')
      | None \<Rightarrow> if linux then ''ctrl'' else ''alt'') @ ''Key''"

definition zoom_mousedown ::
  "window \<Rightarrow> bool \<Rightarrow> string option \<Rightarrow> jsnum \<Rightarrow> (string \<Rightarrow> bool) \<Rightarrow> bool \<Rightarrow> rat \<Rightarrow> rat \<Rightarrow> zoom \<Rightarrow> zoom" where
  "zoom_mousedown w linux zoomKey zoomLevel event overview x y z =
     (if event (zoom_modifier linux zoomKey) \<and> \<not> overview
      then zoom_to w \<lparr>zo_x = Fin x, zo_y = Fin y, zo_width = None, zo_height = None,
             zo_scale = or_number zoomLevel 2, zo_element = None, zo_pan = False\<rparr> z
      else z)"

text \<open>The steps of a page with the plugin.\<close>

inductive zoom_step :: "window \<Rightarrow> zoom \<Rightarrow> zoom \<Rightarrow> bool" for w where
  to: "zoom_step w z (zoom_to w opts z)"
| out: "zoom_step w z (zoom_out w z)"
| engage: "zoom_step w z (engage_pan z)"
| update: "panUpdate z \<Longrightarrow> zoom_step w z (pan w z)"
| keyup: "zoom_step w z (zoom_keyup w k z)"
| mousemove: "zoom_step w z (zoom_mousemove x y z)"

inductive zoom_reachable :: "window \<Rightarrow> zoom \<Rightarrow> bool" for w where
  start: "zoom_reachable w new_zoom"
| step: "zoom_reachable w z \<Longrightarrow> zoom_step w z z' \<Longrightarrow> zoom_reachable w z'"

section \<open>Facts\<close>

lemma zoom_out_fields:
  "level (zoom_out w z) = Fin 1" "zoomed (zoom_out w z) = False" "body_style (zoom_out w z) = ZoomNone"
  "panEngage (zoom_out w z) = False" "panUpdate (zoom_out w z) = False" "scrolled (zoom_out w z) = scrolled z"
  by (simp_all add: zoom_out_def magnify_def magnify_style_def Let_def)

text \<open>
  The level is never below 1, the body is styled exactly while it is not 1, and panning, to begin or
  under way, only happens while it is not 1 and in one way at a time.
\<close>

definition zoom_inv :: "zoom \<Rightarrow> bool" where
  "zoom_inv z \<longleftrightarrow>
     (level z = Fin 1 \<or> js_less (Fin 1) (level z)) \<and> (zoomed z \<longleftrightarrow> level z \<noteq> Fin 1)
     \<and> (body_style z = ZoomNone \<longleftrightarrow> level z = Fin 1)
     \<and> (panEngage z \<or> panUpdate z \<longrightarrow> level z \<noteq> Fin 1) \<and> \<not> (panEngage z \<and> panUpdate z)"

lemma zoom_out_inv: "zoom_inv (zoom_out w z)"
  by (simp add: zoom_inv_def zoom_out_fields)

lemma magnify_inv:
  assumes "js_less (Fin 1) scale" and "\<not> panEngage z" and "\<not> panUpdate z"
  shows "zoom_inv (magnify w xy wh scale z)" and "zoom_inv ((magnify w xy wh scale z)\<lparr>panEngage := True\<rparr>)"
  using assms by (auto simp: zoom_inv_def magnify_def magnify_style_def Let_def)

lemma zoom_to_inv: "zoom_inv z \<Longrightarrow> zoom_inv (zoom_to w opts z)"
  using magnify_inv [of "zoom_scale w (zoom_bounds opts)" z w] zoom_out_inv [of w z]
  by (auto simp: zoom_to_def Let_def zoom_inv_def [of z])

lemma pan_fields:
  "level (pan w z) = level z" "zoomed (pan w z) = zoomed z" "body_style (pan w z) = body_style z"
  "panEngage (pan w z) = panEngage z" "panUpdate (pan w z) = panUpdate z"
  by (simp_all add: pan_def scroll_to_def Let_def)

lemma zoom_step_inv: "zoom_step w z z' \<Longrightarrow> zoom_inv z \<Longrightarrow> zoom_inv z'"
proof (induction rule: zoom_step.induct)
  case (update z)
  then show ?case by (auto simp: zoom_inv_def pan_fields)
qed (auto simp: zoom_to_inv zoom_out_inv zoom_keyup_def zoom_mousemove_def engage_pan_def, auto simp: zoom_inv_def)

lemma zoom_reachable_inv: "zoom_reachable w z \<Longrightarrow> zoom_inv z"
  by (induction rule: zoom_reachable.induct) (auto simp: zoom_step_inv, simp add: zoom_inv_def new_zoom_def)

text \<open>In a corner the second scroll takes back the first one.\<close>

lemma pan_corner:
  assumes "mouseX z < win_width w * (12 / 100) \<or> mouseX z > win_width w - win_width w * (12 / 100)"
    and "\<And>p q. snd (scroll_clamp w (p, Fin q)) = max 0 (min q m)"
    and "0 \<le> snd (scrolled z)" and "snd (scrolled z) \<le> m"
  shows "snd (scrolled (pan w z)) = snd (scrolled z)"
  using assms by (auto simp: pan_def scroll_to_def Let_def)

end
