(* ===== verification/Playback.thy ===== *)
theory Playback
  imports JsNum
begin

text \<open>
  The play and pause control of the automatic slides, js/components/playback.js: its flags, the progress
  it shows, and what it paints.  Angles are in turns from the top of the circle.  The frames that are
  requested from the browser are counted.
\<close>

section \<open>State\<close>

datatype paint =
    Clear rat rat
  | Disc "rat \<times> rat" rat
  | Ring "rat \<times> rat" rat rat "(rat \<times> rat) option"
      \<comment> \<open>centre, radius, line width; start and end, or a whole circle\<close>
  | PauseIcon "rat \<times> rat" rat
  | PlayIcon "rat \<times> rat" rat

record playback =
  diameter :: rat
  diameter2 :: rat
  thickness :: rat
  playing :: bool
  progress :: rat
  progressOffset :: rat
  attached :: bool
  requests :: nat
    \<comment> \<open>frames with a pending call of \<open>animate\<close>\<close>
  painting :: "paint list"
    \<comment> \<open>what the last \<open>render\<close> has painted\<close>

section \<open>Operations\<close>

definition render_playback :: "playback \<Rightarrow> playback" where
  "render_playback p =
     (let shown = (if playing p then progress p else 0);
          radius = diameter2 p - thickness p;
          c = (diameter2 p, diameter2 p);
          iconSize = 28;
          corner = (fst c - iconSize / 2, snd c - iconSize / 2);
          offset = progressOffset p + (1 - progressOffset p) * (1 / 10)
      in p\<lparr>progressOffset := offset,
           painting := [Clear (diameter p) (diameter p), Disc c (radius + 4), Ring c radius (thickness p) None]
             @ (if playing p then [Ring c radius (thickness p) (Some (offset, shown)), PauseIcon corner iconSize]
                else [PlayIcon (fst corner + 4, snd corner) iconSize])\<rparr>)"

definition new_playback :: playback where
  "new_playback =
     render_playback \<lparr>diameter = 100, diameter2 = 100 / 2, thickness = 6, playing = False, progress = 0,
       progressOffset = 1, attached = True, requests = 0, painting = []\<rparr>"

text \<open>\<open>now\<close> is what \<open>progressCheck\<close> answers.\<close>

definition animate_playback :: "rat \<Rightarrow> playback \<Rightarrow> playback" where
  "animate_playback now p =
     (let p1 = p\<lparr>progress := now\<rparr>;
          p2 = (if progress p > 8 / 10 \<and> now < 2 / 10 then p1\<lparr>progressOffset := now\<rparr> else p1);
          p3 = render_playback p2
      in if playing p3 then p3\<lparr>requests := Suc (requests p3)\<rparr> else p3)"

definition setPlaying :: "bool \<Rightarrow> rat \<Rightarrow> playback \<Rightarrow> playback" where
  "setPlaying value now p =
     (let p1 = p\<lparr>playing := value\<rparr>
      in if \<not> playing p \<and> value then animate_playback now p1 else render_playback p1)"

definition playback_frame :: "rat \<Rightarrow> playback \<Rightarrow> playback" where
  "playback_frame now p =
     (if requests p = 0 then p else animate_playback now (p\<lparr>requests := requests p - 1\<rparr>))"

definition destroy_playback :: "playback \<Rightarrow> playback" where
  "destroy_playback p = p\<lparr>playing := False, attached := False\<rparr>"

text \<open>The progress of the deck: how much of the time until the next slide has passed.\<close>

definition auto_progress :: "rat \<Rightarrow> rat \<Rightarrow> rat \<Rightarrow> jsnum" where
  "auto_progress now startTime autoSlide =
     js_min (js_max (js_div (Fin (now - startTime)) (Fin autoSlide)) (Fin 0)) (Fin 1)"

section \<open>Facts\<close>

text \<open>What is shown stays in the circle.\<close>

definition in_circle :: "playback \<Rightarrow> bool" where
  "in_circle p \<longleftrightarrow> 0 \<le> progress p \<and> progress p \<le> 1 \<and> 0 \<le> progressOffset p \<and> progressOffset p \<le> 1"

lemma ease_bounds: "0 \<le> (q :: rat) \<Longrightarrow> q \<le> 1 \<Longrightarrow> 0 \<le> q + (1 - q) * (1 / 10) \<and> q + (1 - q) * (1 / 10) \<le> 1"
  by (simp add: field_simps)

lemma render_fields:
  "playing (render_playback p) = playing p" "progress (render_playback p) = progress p"
  "requests (render_playback p) = requests p"
  "progressOffset (render_playback p) = progressOffset p + (1 - progressOffset p) * (1 / 10)"
  by (simp_all add: render_playback_def Let_def)

lemma render_in_circle: "in_circle p \<Longrightarrow> in_circle (render_playback p)"
  using ease_bounds [of "progressOffset p"] by (simp add: in_circle_def render_fields)

lemma animate_in_circle:
  assumes "in_circle p" and "0 \<le> now" and "now \<le> 1"
  shows "in_circle (animate_playback now p)"
proof -
  let ?p2 = "if progress p > 8 / 10 \<and> now < 2 / 10 then p\<lparr>progress := now, progressOffset := now\<rparr> else p\<lparr>progress := now\<rparr>"
  have "in_circle ?p2" using assms by (simp add: in_circle_def)
  then have "in_circle (render_playback ?p2)" by (rule render_in_circle)
  then show ?thesis by (auto simp: animate_playback_def Let_def in_circle_def split: if_splits)
qed

text \<open>
  The loop: with one call of \<open>animate\<close> pending per playing control, a frame keeps it at one while the
  control plays, and ends it when not.
\<close>

lemma frame_requests:
  "requests (playback_frame now p) =
     (if requests p = 0 then 0 else if playing p then requests p else requests p - 1)"
  by (simp add: playback_frame_def animate_playback_def Let_def render_fields)

lemma setPlaying_requests:
  "requests (setPlaying value now p) = (if \<not> playing p \<and> value then Suc (requests p) else requests p)"
  by (simp add: setPlaying_def animate_playback_def Let_def render_fields)

lemma setPlaying_playing: "playing (setPlaying value now p) = value"
  by (simp add: setPlaying_def animate_playback_def Let_def render_fields)

lemma frame_playing: "playing (playback_frame now p) = playing p"
  by (simp add: playback_frame_def animate_playback_def Let_def render_fields)

text \<open>A control that is paused and resumed before the next frame animates twice per frame, from then on.\<close>

definition pause_resume :: "rat \<Rightarrow> playback \<Rightarrow> playback" where
  "pause_resume now p = setPlaying True now (setPlaying False now p)"

lemma pause_resume_doubles:
  assumes "playing p"
  shows "requests ((playback_frame now ^^ k) (pause_resume now p)) = Suc (requests p)
    \<and> playing ((playback_frame now ^^ k) (pause_resume now p))"
  by (induction k) (simp_all add: frame_requests frame_playing pause_resume_def setPlaying_requests setPlaying_playing assms)

text \<open>The animation of a paused control ends after as many frames as are pending.\<close>

lemma paused_ends:
  assumes "\<not> playing p"
  shows "requests ((playback_frame now ^^ k) p) = requests p - k \<and> \<not> playing ((playback_frame now ^^ k) p)"
  by (induction k) (simp_all add: assms frame_requests frame_playing)

lemma auto_progress_bounds:
  assumes "autoSlide > 0"
  shows "\<exists>q. auto_progress now startTime autoSlide = Fin q \<and> 0 \<le> q \<and> q \<le> 1"
  unfolding auto_progress_def using assms by (intro js_clamp_Fin) simp_all

end
