(* ===== verification/Overview.thy ===== *)
theory Overview
  imports Navigation
begin

text \<open>
  The overview mode (\<open>controllers/overview.js\<close>): entering and leaving it, and the click on a slide
  of the overview; and the restoring of a saved state (\<open>setState\<close> of \<open>reveal.js\<close>).  The click
  listeners \<open>activate\<close> registers are represented by the operation \<open>onSlideClicked\<close>.
\<close>

definition overview_margin :: rat where
  "overview_margin = 70"

definition overview_activate :: "deck \<Rightarrow> deck" where
  "overview_activate d =
     (if cfg_overview (cfg d) \<and> \<not> overviewActive d
      then (let d1 = cancelAutoSlide (toggle_wrapper OverviewClass True (d\<lparr>overviewActive := True\<rparr>));
                sz = getComputedSlideSize None None d1;
                w = js_add (sz_width sz) (Fin overview_margin);
                h = js_add (sz_height sz) (Fin overview_margin);
                d2 = d1\<lparr>overviewSlideWidth := (if cfg_rtl (cfg d1) then js_neg w else w),
                        overviewSlideHeight := h\<rparr>;
                d3 = layout (overview_update (overview_layout (updateSlidesVisibility d2)));
                i = getIndices d3 None
            in dispatchEvent (OverviewShown (ih i) (iv i) (currentSlide d3)) d3)
      else d)"

definition overview_cleanup :: "deck \<Rightarrow> deck" where
  "overview_cleanup d =
     (let d1 = toggle_wrapper OverviewDeactivating True
                 (toggle_wrapper OverviewClass False (d\<lparr>overviewActive := False\<rparr>));
          d2 = snd (set_timeout TimOverviewDeactivated (Fin 1) d1);
          d3 = update_doc (\<lambda>dm. update_all (set_transform NoTransform) (all_slides dm) dm) d2
      in (emit LayoutBackgrounds d3)\<lparr>overviewTransform := OverviewNone\<rparr>)"

definition overview_deactivate :: "deck \<Rightarrow> deck option" where
  "overview_deactivate d =
     (if cfg_overview (cfg d)
      then do {
        let d1 = overview_cleanup d;
        let i = getIndices d1 None;
        d2 \<leftarrow> slide (ih i) (iv i) Undef d1;
        let d3 = cueAutoSlide (layout d2);
        Some (dispatchEvent (OverviewHidden (ih i) (iv i) (currentSlide d3)) d3)
      }
      else Some d)"

definition overview_toggle :: "bool option \<Rightarrow> deck \<Rightarrow> deck option" where
  "overview_toggle override d =
     (case override of
        Some b \<Rightarrow> if b then Some (overview_activate d) else overview_deactivate d
      | None \<Rightarrow> if overviewActive d then overview_deactivate d else Some (overview_activate d))"

text \<open>
  The innermost section at or above an element: in document order the sections that contain it are
  listed from the outside in.
\<close>

definition enclosing_sections :: "dom \<Rightarrow> nat \<Rightarrow> nat list" where
  "enclosing_sections dm i =
     map nid (filter (\<lambda>n. is_section (el dm (nid n)) \<and> (nid n = i \<or> i \<in> nid ` set (descendants n)))
       (nodes dm))"

definition onSlideClicked :: "nat \<Rightarrow> deck \<Rightarrow> deck option" where
  "onSlideClicked target d =
     (if overviewActive d
      then (let ss = enclosing_sections (doc d) target
            in if ss \<noteq> [] \<and> \<not> has_class Disabled (el (doc d) (last ss))
               then do {
                 d1 \<leftarrow> overview_deactivate d;
                 let e = el (doc d1) (last ss);
                 slide (jv_of_parse (Option.bind (attrs e DataIndexH) parseInt10))
                   (jv_of_parse (Option.bind (attrs e DataIndexV) parseInt10)) Undef d1
               }
               else Some d)
      else Some d)"

definition setState :: "snapshot \<Rightarrow> deck \<Rightarrow> deck option" where
  "setState st d =
     do {
       d1 \<leftarrow> slide (snap_indexh st) (snap_indexv st) (snap_indexf st) d;
       let d2 = (if snap_paused st \<noteq> isPaused d1 then togglePause (Some (snap_paused st)) d1 else d1);
       if snap_overview st \<noteq> overviewActive d2 then overview_toggle (Some (snap_overview st)) d2
       else Some d2
     }"

end
