(* ===== verification/Input.thy ===== *)
theory Input
  imports Overview "HOL-Library.AList"
begin

text \<open>
  The handlers of user input: the keyboard (\<open>controllers/keyboard.js\<close>), the arrows and the progress
  bar, links inside slides, the auto-slide player, messages from other windows, and the help
  overlay of \<open>reveal.js\<close>.
\<close>

section \<open>Overlays\<close>

text \<open>\<open>closeOverlay\<close> tells whether there was one.\<close>

definition closeOverlay :: "deck \<Rightarrow> bool \<times> deck" where
  "closeOverlay d = (overlay d \<noteq> None, d\<lparr>overlay := None\<rparr>)"

definition showHelp :: "deck \<Rightarrow> deck" where
  "showHelp d =
     (if cfg_help (cfg d) then (snd (closeOverlay d))\<lparr>overlay := Some HelpOverlay\<rparr> else d)"

definition showPreview :: "string \<Rightarrow> deck \<Rightarrow> deck" where
  "showPreview url d = (snd (closeOverlay d))\<lparr>overlay := Some (PreviewOverlay url)\<rparr>"

definition toggleHelp :: "bool option \<Rightarrow> deck \<Rightarrow> deck" where
  "toggleHelp override d =
     (case override of
        Some b \<Rightarrow> if b then showHelp d else snd (closeOverlay d)
      | None \<Rightarrow> if overlay d \<noteq> None then snd (closeOverlay d) else showHelp d)"

section \<open>Keyboard\<close>

record key_event =
  ev_keyCode :: int
  ev_charCode :: int
  ev_shiftKey :: bool
  ev_altKey :: bool
  ev_ctrlKey :: bool
  ev_metaKey :: bool
  ev_inContentEditable :: bool
  ev_inInput :: bool
  ev_inNotes :: bool

definition addKeyBinding :: "string \<Rightarrow> key_action \<Rightarrow> deck \<Rightarrow> deck" where
  "addKeyBinding key action d = d\<lparr>keyBindings := AList.update key action (keyBindings d)\<rparr>"

definition removeKeyBinding :: "string \<Rightarrow> deck \<Rightarrow> deck" where
  "removeKeyBinding key d = d\<lparr>keyBindings := AList.delete key (keyBindings d)\<rparr>"

text \<open>A method of the API called by its name, with no arguments.\<close>

definition call_method :: "api_method \<Rightarrow> deck \<Rightarrow> deck option" where
  "call_method m d =
     (case m of
        MNext \<Rightarrow> navigateNext False d
      | MPrev \<Rightarrow> navigatePrev False d
      | MLeft \<Rightarrow> navigateLeft False d
      | MRight \<Rightarrow> navigateRight False d
      | MUp \<Rightarrow> navigateUp False d
      | MDown \<Rightarrow> navigateDown False d
      | MTogglePause \<Rightarrow> Some (togglePause None d)
      | MToggleOverview \<Rightarrow> overview_toggle None d
      | MToggleHelp \<Rightarrow> Some (toggleHelp None d)
      | MToggleAutoSlide \<Rightarrow> Some (toggleAutoSlide None d)
      | MUnknown \<Rightarrow> Some d)"

definition run_action :: "key_action \<Rightarrow> deck \<Rightarrow> deck option" where
  "run_action a d =
     (case a of KeyCallback n \<Rightarrow> Some (emit (RunCallback n) d) | KeyMethod m \<Rightarrow> call_method m d)"

text \<open>The loop over a table of bindings: every entry whose key is the pressed one is run.\<close>

fun run_bindings :: "int \<Rightarrow> (string \<times> key_action) list \<Rightarrow> bool \<times> deck \<Rightarrow> (bool \<times> deck) option" where
  "run_bindings code [] s = Some s"
| "run_bindings code ((key, action) # bs) s =
     (if parseInt10 key = Some code
      then (case run_action action (snd s) of
              None \<Rightarrow> None
            | Some d1 \<Rightarrow> run_bindings code bs (True, d1))
      else run_bindings code bs s)"

definition keyboard_table :: "deck \<Rightarrow> (string \<times> key_action) list" where
  "keyboard_table d = (case cfg_keyboard (cfg d) of KeysCustom t \<Rightarrow> t | _ \<Rightarrow> [])"

definition isFocused :: "deck \<Rightarrow> bool" where
  "isFocused d \<longleftrightarrow> focusState d = StateFocus"

definition ignored_by_condition :: "key_event \<Rightarrow> deck \<Rightarrow> bool" where
  "ignored_by_condition ev d =
     (case cfg_keyboardCondition (cfg d) of
        CondNone \<Rightarrow> False
      | CondFocused \<Rightarrow> \<not> isFocused d
      | CondFun p \<Rightarrow> \<not> p (ev_keyCode ev))"

definition is_navigation_key :: "int \<Rightarrow> bool" where
  "is_navigation_key k \<longleftrightarrow> k \<in> {32, 37, 38, 39, 40, 78, 80}"

definition unused_modifier :: "key_event \<Rightarrow> bool" where
  "unused_modifier ev \<longleftrightarrow>
     \<not> (is_navigation_key (ev_keyCode ev) \<and> ev_shiftKey ev \<or> ev_altKey ev) \<and>
     (ev_shiftKey ev \<or> ev_altKey ev \<or> ev_ctrlKey ev \<or> ev_metaKey ev)"

definition focus_uses_key :: "key_event \<Rightarrow> bool" where
  "focus_uses_key ev \<longleftrightarrow> ev_inContentEditable ev \<or> ev_inInput ev \<or> ev_inNotes ev"

definition is_resume_key :: "deck \<Rightarrow> int \<Rightarrow> bool" where
  "is_resume_key d k \<longleftrightarrow>
     k \<in> {66, 86, 190, 191} \<or>
     list_ex (\<lambda>(key, a). a = KeyMethod MTogglePause \<and> parseInt10 key = Some k) (keyboard_table d)"

definition use_linear_mode :: "deck \<Rightarrow> bool" where
  "use_linear_mode d \<longleftrightarrow>
     cfg_navigationMode (cfg d) = NavLinear \<or> \<not> hasHorizontalSlides d \<or> \<not> hasVerticalSlides d"

text \<open>
  The arrow keys and their letters: with shift the first or last slide, in linear mode a linear
  step, else a step in the direction of the key.
\<close>

definition arrow_key ::
    "bool \<Rightarrow> key_event \<Rightarrow> (deck \<Rightarrow> deck option) \<Rightarrow> (bool \<Rightarrow> deck \<Rightarrow> deck option) \<Rightarrow>
     (bool \<Rightarrow> deck \<Rightarrow> deck option) \<Rightarrow> deck \<Rightarrow> deck option" where
  "arrow_key lin ev jump step_linear step_direct d =
     (if ev_shiftKey ev then jump d
      else if \<not> overviewActive d \<and> lin then step_linear (ev_altKey ev) d
      else step_direct (ev_altKey ev) d)"

definition last_horizontal :: "deck \<Rightarrow> jsval" where
  "last_horizontal d = Num (int (length (getHorizontalSlides d)) - 1)"

definition space_key :: "key_event \<Rightarrow> deck \<Rightarrow> deck option" where
  "space_key ev d =
     do {
       d1 \<leftarrow> (if overviewActive d then overview_deactivate d else Some d);
       if ev_shiftKey ev then navigatePrev (ev_altKey ev) d1 else navigateNext (ev_altKey ev) d1
     }"

text \<open>The system bindings; \<^const>\<open>None\<close> in the outer option says the key is not one of them.\<close>

definition system_binding :: "bool \<Rightarrow> bool \<Rightarrow> key_event \<Rightarrow> deck \<Rightarrow> deck option option" where
  "system_binding lin autoSlideWasPaused ev d =
     (let k = ev_keyCode ev; alt = ev_altKey ev
      in if k \<in> {80, 33} then Some (navigatePrev alt d)
         else if k \<in> {78, 34} then Some (navigateNext alt d)
         else if k \<in> {72, 37}
           then Some (arrow_key lin ev (slide (Num 0) Undef Undef) navigatePrev navigateLeft d)
         else if k \<in> {76, 39}
           then Some (arrow_key lin ev (\<lambda>d. slide (last_horizontal d) Undef Undef d)
                        navigateNext navigateRight d)
         else if k \<in> {75, 38}
           then Some (arrow_key lin ev (slide Undef (Num 0) Undef) navigatePrev navigateUp d)
         else if k \<in> {74, 40}
           then Some (arrow_key lin ev (slide Undef (Num js_max_value) Undef)
                        navigateNext navigateDown d)
         else if k = 36 then Some (slide (Num 0) Undef Undef d)
         else if k = 35 then Some (slide (last_horizontal d) Undef Undef d)
         else if k = 32 then Some (space_key ev d)
         else if k \<in> {58, 59, 66, 86, 190, 191} then Some (Some (togglePause None d))
         else if k = 70 then Some (Some (emit EnterFullscreen d))
         else if k = 65
           then Some (Some (if cfg_autoSlideStoppable (cfg d)
                            then toggleAutoSlide (Some autoSlideWasPaused) d else d))
         else None)"

text \<open>Escape and O close an overlay, or toggle the overview when there is none.\<close>

definition escape_key :: "deck \<Rightarrow> deck option" where
  "escape_key d =
     (case closeOverlay d of (True, d1) \<Rightarrow> Some d1 | (False, d1) \<Rightarrow> overview_toggle None d1)"

definition unbound_key :: "bool \<Rightarrow> bool \<Rightarrow> key_event \<Rightarrow> deck \<Rightarrow> deck option" where
  "unbound_key lin autoSlideWasPaused ev d =
     (case system_binding lin autoSlideWasPaused ev d of
        Some r \<Rightarrow> r
      | None \<Rightarrow> if ev_keyCode ev = 27 \<or> ev_keyCode ev = 79 then escape_key d else Some d)"

definition handle_key :: "bool \<Rightarrow> key_event \<Rightarrow> deck \<Rightarrow> deck option" where
  "handle_key autoSlideWasPaused ev d =
     (let lin = use_linear_mode d; code = ev_keyCode ev
      in do {
        (t1, d1) \<leftarrow> run_bindings code (keyboard_table d) (False, d);
        (t2, d2) \<leftarrow> (if t1 then Some (t1, d1) else run_bindings code (keyBindings d1) (t1, d1));
        d3 \<leftarrow> (if t2 then Some d2 else unbound_key lin autoSlideWasPaused ev d2);
        Some (cueAutoSlide d3)
      })"

definition onDocumentKeyDown :: "key_event \<Rightarrow> deck \<Rightarrow> deck option" where
  "onDocumentKeyDown ev d =
     (if ignored_by_condition ev d then Some d
      else (let autoSlideWasPaused = (\<not> isAutoSliding d); d1 = onUserInput d
            in if focus_uses_key ev \<or> unused_modifier ev then Some d1
               else if isPaused d1 \<and> \<not> is_resume_key d1 (ev_keyCode ev) then Some d1
               else handle_key autoSlideWasPaused ev d1))"

definition onDocumentKeyPress :: "key_event \<Rightarrow> deck \<Rightarrow> deck" where
  "onDocumentKeyPress ev d =
     (if ev_shiftKey ev \<and> ev_charCode ev = 63 then toggleHelp None d else d)"

text \<open>\<open>triggerKey\<close> passes an event that has a key code only.\<close>

definition plain_key :: "int \<Rightarrow> key_event" where
  "plain_key k = \<lparr>ev_keyCode = k, ev_charCode = 0, ev_shiftKey = False, ev_altKey = False,
     ev_ctrlKey = False, ev_metaKey = False, ev_inContentEditable = False, ev_inInput = False,
     ev_inNotes = False\<rparr>"

definition triggerKey :: "int \<Rightarrow> deck \<Rightarrow> deck option" where
  "triggerKey k d = onDocumentKeyDown (plain_key k) d"

section \<open>Clicks\<close>

definition is_linear :: "deck \<Rightarrow> bool" where
  "is_linear d \<longleftrightarrow> cfg_navigationMode (cfg d) = NavLinear"

definition onNavigateLeftClicked :: "deck \<Rightarrow> deck option" where
  "onNavigateLeftClicked d =
     (let d1 = onUserInput d in if is_linear d1 then navigatePrev False d1 else navigateLeft False d1)"

definition onNavigateRightClicked :: "deck \<Rightarrow> deck option" where
  "onNavigateRightClicked d =
     (let d1 = onUserInput d in if is_linear d1 then navigateNext False d1 else navigateRight False d1)"

definition onNavigateUpClicked :: "deck \<Rightarrow> deck option" where
  "onNavigateUpClicked d = navigateUp False (onUserInput d)"

definition onNavigateDownClicked :: "deck \<Rightarrow> deck option" where
  "onNavigateDownClicked d = navigateDown False (onUserInput d)"

definition onNavigatePrevClicked :: "deck \<Rightarrow> deck option" where
  "onNavigatePrevClicked d = navigatePrev False (onUserInput d)"

definition onNavigateNextClicked :: "deck \<Rightarrow> deck option" where
  "onNavigateNextClicked d = navigateNext False (onUserInput d)"

text \<open>
  A click at \<open>x\<close> on the progress bar.  On a wrapper of no width the quotient is not a slide index.
\<close>

definition progress_index :: "deck \<Rightarrow> rat \<Rightarrow> jsval" where
  "progress_index d x =
     (if wrapperWidth (env d) = 0 then NaNv
      else (let n = int (length (getSlides d)); i = \<lfloor>x / wrapperWidth (env d) * of_int n\<rfloor>
            in Num (if cfg_rtl (cfg d) then n - i else i)))"

definition onProgressClicked :: "rat \<Rightarrow> deck \<Rightarrow> deck option" where
  "onProgressClicked x d =
     (let d1 = onUserInput d;
          t = getIndices d1 (nth_slide (getSlides d1) (progress_index d1 x))
      in slide (ih t) (iv t) Undef d1)"

text \<open>A click inside the slides; the argument is the hash of the link around the target, if any.\<close>

definition onSlidesClicked :: "string option \<Rightarrow> deck \<Rightarrow> deck option" where
  "onSlidesClicked href d =
     (case href of
        None \<Rightarrow> Some d
      | Some h \<Rightarrow>
          (case getIndicesFromHash d h of
             None \<Rightarrow> Some d
           | Some i \<Rightarrow> slide (ih i) (iv i) (ifr i) d))"

definition onPreviewLinkClicked :: "string option \<Rightarrow> deck \<Rightarrow> deck" where
  "onPreviewLinkClicked href d =
     (case href of None \<Rightarrow> d | Some url \<Rightarrow> if url \<noteq> [] then showPreview url d else d)"

definition onAutoSlidePlayerClick :: "deck \<Rightarrow> deck option" where
  "onAutoSlidePlayerClick d =
     (if isLastSlide d \<and> \<not> cfg_loop (cfg d)
      then do { d1 \<leftarrow> slide (Num 0) (Num 0) Undef d; Some (resumeAutoSlide d1) }
      else if autoSlidePaused d then Some (resumeAutoSlide d)
      else Some (pauseAutoSlide d))"

definition onTransitionEnd :: "nat \<Rightarrow> deck \<Rightarrow> deck" where
  "onTransitionEnd target d =
     (if transition d = Running \<and> is_section (el (doc d) target)
      then (let d1 = d\<lparr>transition := Idle\<rparr>
            in dispatchEvent (SlideTransitionEnd (indexh d1) (indexv d1) (previousSlide d1) (currentSlide d1)) d1)
      else d)"

definition onWindowResize :: "deck \<Rightarrow> deck" where
  "onWindowResize d = layout d"

section \<open>Messages from other windows\<close>

text \<open>\<open>POST_MESSAGE_METHOD_BLACKLIST\<close>: the expression matches anywhere in the name.\<close>

definition post_message_blacklist :: "string list" where
  "post_message_blacklist =
     [''registerPlugin'', ''registerKeyboardShortcut'', ''addKeyBinding'', ''addEventListener'',
      ''showPreview'']"

definition is_blacklisted :: "string \<Rightarrow> bool" where
  "is_blacklisted method \<longleftrightarrow> list_ex (\<lambda>w. contains_substring w method) post_message_blacklist"

text \<open>
  A parsed message names a method; \<open>api\<close> is the table of the methods the API object has, with the
  message's arguments applied.
\<close>

definition onPostMessage :: "(string \<Rightarrow> (deck \<Rightarrow> deck option) option) \<Rightarrow> string \<Rightarrow> deck \<Rightarrow> deck option" where
  "onPostMessage api method d =
     (if method = [] then Some d
      else (case api method of
              None \<Rightarrow> Some d
            | Some f \<Rightarrow>
                if \<not> is_blacklisted method
                then do { d1 \<leftarrow> f d; Some (dispatchPostMessage (CallbackEvent method) d1) }
                else Some d))"

end
