(* ===== verification/Pointing.thy ===== *)
theory Pointing
  imports Input
begin

text \<open>
  Pointing devices: swipes (\<open>controllers/touch.js\<close>), the mouse wheel and the hiding of an idle cursor
  (\<open>controllers/pointer.js\<close>), and the focus of an embedded deck (\<open>controllers/focus.js\<close>).
\<close>

section \<open>Touch\<close>

definition SWIPE_THRESHOLD :: rat where
  "SWIPE_THRESHOLD = 40"

text \<open>A touch event: the element it is aimed at and the coordinates of each finger.\<close>

record touch_event =
  te_target :: nat
  te_touches :: "(rat \<times> rat) list"

definition isSwipePrevented :: "nat \<Rightarrow> deck \<Rightarrow> bool" where
  "isSwipePrevented target d \<longleftrightarrow>
     is_media (el (doc d) target) \<or>
     list_ex (\<lambda>i. has_attr DataPreventSwipe (el (doc d) i)) (element_path (doc d) target)"

definition onTouchStart :: "touch_event \<Rightarrow> deck \<Rightarrow> deck option" where
  "onTouchStart ev d =
     (if isSwipePrevented (te_target ev) d then Some d
      else (case te_touches ev of
              [] \<Rightarrow> None
            | (x, y) # _ \<Rightarrow>
                Some (d\<lparr>touchStartX := x, touchStartY := y,
                        touchStartCount := length (te_touches ev)\<rparr>)))"

text \<open>The four directions of a swipe, in the order the code tests them.\<close>

datatype swipe = SwipeRight | SwipeLeft | SwipeDown | SwipeUp | NoSwipe

definition classify_swipe :: "routes \<Rightarrow> rat \<Rightarrow> rat \<Rightarrow> swipe" where
  "classify_swipe r deltaX deltaY =
     (if deltaX > SWIPE_THRESHOLD \<and> \<bar>deltaX\<bar> > \<bar>deltaY\<bar> then SwipeRight
      else if deltaX < - SWIPE_THRESHOLD \<and> \<bar>deltaX\<bar> > \<bar>deltaY\<bar> then SwipeLeft
      else if deltaY > SWIPE_THRESHOLD \<and> r_up r then SwipeDown
      else if deltaY < - SWIPE_THRESHOLD \<and> r_down r then SwipeUp
      else NoSwipe)"

definition perform_swipe :: "swipe \<Rightarrow> deck \<Rightarrow> deck option" where
  "perform_swipe s d =
     (let lin = is_linear d; rtl = cfg_rtl (cfg d)
      in case s of
           SwipeRight \<Rightarrow>
             if lin then (if rtl then navigateNext False d else navigatePrev False d)
             else navigateLeft False d
         | SwipeLeft \<Rightarrow>
             if lin then (if rtl then navigatePrev False d else navigateNext False d)
             else navigateRight False d
         | SwipeDown \<Rightarrow> if lin then navigatePrev False d else navigateUp False d
         | SwipeUp \<Rightarrow> if lin then navigateNext False d else navigateDown False d
         | NoSwipe \<Rightarrow> Some d)"

definition onTouchMove :: "touch_event \<Rightarrow> deck \<Rightarrow> deck option" where
  "onTouchMove ev d =
     (if isSwipePrevented (te_target ev) d \<or> touchCaptured d then Some d
      else (let d1 = onUserInput d
            in case te_touches ev of
                 [] \<Rightarrow> None
               | (x, y) # rest \<Rightarrow>
                   if rest = [] \<and> touchStartCount d1 \<noteq> 2
                   then (let s = classify_swipe (availableRoutes True d1)
                                   (x - touchStartX d1) (y - touchStartY d1)
                         in if s = NoSwipe then Some d1
                            else perform_swipe s (d1\<lparr>touchCaptured := True\<rparr>))
                   else Some d1))"

definition onTouchEnd :: "deck \<Rightarrow> deck" where
  "onTouchEnd d = d\<lparr>touchCaptured := False\<rparr>"

text \<open>Pointer events of type touch are converted to touch events with one finger.\<close>

definition onPointerDown :: "bool \<Rightarrow> nat \<Rightarrow> rat \<times> rat \<Rightarrow> deck \<Rightarrow> deck option" where
  "onPointerDown is_touch target p d =
     (if is_touch then onTouchStart \<lparr>te_target = target, te_touches = [p]\<rparr> d else Some d)"

definition onPointerMove :: "bool \<Rightarrow> nat \<Rightarrow> rat \<times> rat \<Rightarrow> deck \<Rightarrow> deck option" where
  "onPointerMove is_touch target p d =
     (if is_touch then onTouchMove \<lparr>te_target = target, te_touches = [p]\<rparr> d else Some d)"

definition onPointerUp :: "bool \<Rightarrow> deck \<Rightarrow> deck" where
  "onPointerUp is_touch d = (if is_touch then onTouchEnd d else d)"

section \<open>Mouse\<close>

definition showCursor :: "deck \<Rightarrow> deck" where
  "showCursor d = (if cursorHidden d then d\<lparr>cursorHidden := False\<rparr> else d)"

definition hideCursor :: "deck \<Rightarrow> deck" where
  "hideCursor d = (if \<not> cursorHidden d then d\<lparr>cursorHidden := True\<rparr> else d)"

definition onDocumentCursorActive :: "deck \<Rightarrow> deck" where
  "onDocumentCursorActive d =
     (let d1 = showCursor d;
          d2 = clear_timeout (cursorInactiveTimeout d1) d1
      in case set_timeout TimHideCursor (js_of_int (cfg_hideCursorTime (cfg d2))) d2 of
           (i, d3) \<Rightarrow> d3\<lparr>cursorInactiveTimeout := i\<rparr>)"

definition onDocumentMouseScroll :: "int \<Rightarrow> deck \<Rightarrow> deck option" where
  "onDocumentMouseScroll delta d =
     (if now d - lastMouseWheelStep d > 1000
      then (let d1 = d\<lparr>lastMouseWheelStep := now d\<rparr>
            in if delta > 0 then navigateNext False d1
               else if delta < 0 then navigatePrev False d1
               else Some d1)
      else Some d)"

definition pointer_configure :: "deck \<Rightarrow> deck" where
  "pointer_configure d = (if cfg_hideInactiveCursor (cfg d) then d else showCursor d)"

section \<open>Focus\<close>

definition focus_focus :: "deck \<Rightarrow> deck" where
  "focus_focus d =
     (let d1 = (if focusState d \<noteq> StateFocus then toggle_wrapper FocusedClass True d else d)
      in d1\<lparr>focusState := StateFocus\<rparr>)"

definition focus_blur :: "deck \<Rightarrow> deck" where
  "focus_blur d =
     (let d1 = (if focusState d \<noteq> StateBlur then toggle_wrapper FocusedClass False d else d)
      in d1\<lparr>focusState := StateBlur\<rparr>)"

definition focus_configure :: "deck \<Rightarrow> deck" where
  "focus_configure d = (if cfg_embedded (cfg d) then focus_blur d else focus_focus d)"

definition onRevealPointerDown :: "deck \<Rightarrow> deck" where
  "onRevealPointerDown d = focus_focus d"

text \<open>\<open>inside\<close>: the pointer went down inside this deck's element.\<close>

definition focus_onDocumentPointerDown :: "bool \<Rightarrow> deck \<Rightarrow> deck" where
  "focus_onDocumentPointerDown inside d = (if inside then d else focus_blur d)"

end
