(* ===== verification/Lifecycle.thy ===== *)
theory Lifecycle
  imports Pointing
begin

text \<open>
  The life of a deck (\<open>reveal.js\<close>): its initial state, the preparation of the document, \<open>configure\<close>
  and \<open>sync\<close>, \<open>start\<close>, and the firing of the timers the deck has pending.  The order of a shuffle
  is given by a function that stands for \<open>Math.random\<close>.
\<close>

section \<open>The initial state\<close>

definition initial_control :: control where
  "initial_control = \<lparr>ctl_enabled = False, ctl_fragmented = False, ctl_disabled = False\<rparr>"

definition initial_ui :: ui_state where
  "initial_ui = \<lparr>progressScale = None,
     ctl = \<lparr>ctl_left = initial_control, ctl_right = initial_control, ctl_up = initial_control,
            ctl_down = initial_control, ctl_prev = initial_control, ctl_next = initial_control,
            hl_down = False, hl_left = False, hl_right = False\<rparr>,
     slideNumberHtml = None, notesHtml = None\<rparr>"

definition initial_deck :: "full_config \<Rightarrow> browser \<Rightarrow> dom \<Rightarrow> string \<Rightarrow> int \<Rightarrow> deck" where
  "initial_deck c b dm hash t =
    \<lparr>cfg = c, env = b, doc = dm, indexh = Undef, indexv = Undef,
     previousSlide = None, currentSlide = None,
     hasNavigatedHorizontally = False, hasNavigatedVertically = False,
     deckState = [], viewportClasses = {}, scale = Fin 1, slidesSize = None,
     layoutTransform = LayoutNone, overviewTransform = OverviewNone, transition = Idle,
     autoSlide = ASNum (Fin 0), autoSlidePlayer = None, autoSlideTimeout = 0,
     autoSlideStartTime = - 1, autoSlidePaused = False, overviewActive = False,
     overviewSlideWidth = NaN, overviewSlideHeight = NaN, wrapperClasses = {}, slidesClasses = {},
     overlay = None, keyBindings = [], ui = initial_ui, urlHash = hash, historyStack = [],
     pendingHashChanges = 0, replaceStateTimestamp = 0, replaceStateTimeout = 0, now = t,
     timers = [], nextTimer = 1, focusState = FocusUnset, cursorHidden = False,
     cursorInactiveTimeout = 0, lastMouseWheelStep = 0, touchStartX = 0, touchStartY = 0,
     touchStartCount = 0, touchCaptured = False, log = []\<rparr>"

section \<open>Preparing the document\<close>

text \<open>\<open>slide.parentNode.removeChild( slide )\<close>\<close>

fun prune :: "nat \<Rightarrow> node \<Rightarrow> node" where
  "prune x (Node i ns) = Node i (map (prune x) (filter (\<lambda>n. nid n \<noteq> x) ns))"

definition remove_node :: "nat \<Rightarrow> dom \<Rightarrow> dom" where
  "remove_node x dm = dm\<lparr>dom_root := prune x (dom_root dm)\<rparr>"

definition is_hidden_slide :: "elem \<Rightarrow> bool" where
  "is_hidden_slide e \<longleftrightarrow> is_section e \<and> attrs e DataVisibility = Some ''hidden''"

definition removeHiddenSlides :: "deck \<Rightarrow> deck" where
  "removeHiddenSlides d =
     (if cfg_showHiddenSlides (cfg d) then d
      else update_doc (\<lambda>dm. fold remove_node (queryAll_node dm (dom_root dm) is_hidden_slide) dm) d)"

definition reset_vertical :: "elem \<Rightarrow> elem" where
  "reset_vertical e =
     set_attr AriaHidden ''true'' (add_class Future (remove_class Past (remove_class Present e)))"

definition resetVerticalSlides :: "deck \<Rightarrow> deck" where
  "resetVerticalSlides d =
     update_doc (\<lambda>dm. fold (\<lambda>h m. update_all reset_vertical (tl (queryAll m h is_section)) m)
                        (horizontal_slides dm) dm) d"

section \<open>Shuffling\<close>

text \<open>\<open>parent.insertBefore( x, y )\<close> in the child list of their parent.\<close>

definition insert_before :: "nat \<Rightarrow> nat \<Rightarrow> node list \<Rightarrow> node list" where
  "insert_before x y ns =
     (if x = y then ns
      else (let xs = filter (\<lambda>n. nid n = x) ns; rest = filter (\<lambda>n. nid n \<noteq> x) ns
            in takeWhile (\<lambda>n. nid n \<noteq> y) rest @ xs @ dropWhile (\<lambda>n. nid n \<noteq> y) rest))"

fun reorder :: "nat \<Rightarrow> nat \<Rightarrow> node \<Rightarrow> node" where
  "reorder x y (Node i ns) =
     Node i (let ns' = map (reorder x y) ns; ids = map nid ns
             in if x \<in> set ids \<and> y \<in> set ids then insert_before x y ns' else ns')"

text \<open>
  One level of the shuffle; \<open>fuel\<close> bounds the nesting of sections, and the number of elements of
  the page is always enough.
\<close>

fun shuffle_slides :: "nat \<Rightarrow> (nat \<Rightarrow> nat) \<Rightarrow> nat list \<Rightarrow> nat \<times> dom \<Rightarrow> nat \<times> dom" where
  "shuffle_slides 0 rnd slides s = s"
| "shuffle_slides (Suc fuel) rnd slides s =
     fold (\<lambda>x (k, dm).
         let before = slides ! (rnd k mod length slides);
             dm1 = dm\<lparr>dom_root := reorder x before (dom_root dm)\<rparr>;
             vs = queryAll dm1 x is_section
         in if vs \<noteq> [] then shuffle_slides fuel rnd vs (Suc k, dm1) else (Suc k, dm1))
       slides s"

definition shuffle :: "(nat \<Rightarrow> nat) \<Rightarrow> deck \<Rightarrow> deck" where
  "shuffle rnd d =
     update_doc (\<lambda>dm. snd (shuffle_slides (length (nodes dm)) rnd (horizontal_slides dm) (0, dm))) d"

section \<open>Synchronising\<close>

definition start_current :: "deck \<Rightarrow> deck" where
  "start_current d = (case currentSlide d of None \<Rightarrow> d | Some s \<Rightarrow> emit (StartEmbedded s) d)"

definition hasNotes :: "deck \<Rightarrow> bool" where
  "hasNotes d \<longleftrightarrow>
     queryAll_node (doc d) (dom_root (doc d)) (\<lambda>e. has_attr DataNotes e \<or> is_notes_aside e) \<noteq> []"

definition notes_updateVisibility :: "deck \<Rightarrow> deck" where
  "notes_updateVisibility d =
     toggle_wrapper ShowNotesClass
       (cfg_showNotes (cfg d) \<noteq> NotesOff \<and> hasNotes d \<and> \<not> isPrintingPDF (env d)) d"

definition sync :: "deck \<Rightarrow> deck" where
  "sync d =
     (let d1 = layout d;
          d2 = cueAutoSlide (d1\<lparr>autoSlide := cfg_autoSlide (cfg d1)\<rparr>);
          d3 = sortAll (writeURL (emit CreateBackgrounds d2));
          d4 = updateSlidesVisibility (progress_update (controls_update d3));
          d5 = notes_updateVisibility (notes_update d4);
          d6 = emit FormatEmbedded (slideNumber_update (emit UpdateBackgrounds d5));
          d7 = (if cfg_autoPlayMediaOff (cfg d6) then emit (StopEmbedded (currentSlide d6)) d6
                else start_current d6)
      in if overviewActive d7 then overview_layout d7 else d7)"

definition syncSlide :: "nat \<Rightarrow> deck \<Rightarrow> deck" where
  "syncSlide s d =
     notes_update (emit UpdateBackgrounds (loadSlide s (fragments_sync s (emit (SyncBackground s) d))))"

section \<open>Configuring\<close>

definition configure_player :: "deck \<Rightarrow> deck" where
  "configure_player d =
     (let d1 = d\<lparr>autoSlidePlayer := None\<rparr>
      in if length (all_slides (doc d1)) > 1 \<and> as_truthy (cfg_autoSlide (cfg d1)) \<and>
            cfg_autoSlideStoppable (cfg d1)
         then d1\<lparr>autoSlidePlayer := Some False, autoSlidePaused := False\<rparr> else d1)"

definition configure :: "bool \<Rightarrow> (nat \<Rightarrow> nat) \<Rightarrow> full_config \<Rightarrow> deck \<Rightarrow> deck" where
  "configure ready rnd new d =
     (let old = cfg d; d0 = d\<lparr>cfg := new\<rparr>
      in if \<not> ready then d0
         else (let d1 = (if cfg_shuffle new then shuffle rnd d0 else d0);
                   d2 = (if \<not> cfg_pause new then resume d1 else d1);
                   d3 = configure_player (emit ResetAutoAnimate d2);
                   d4 = pointer_configure (focus_configure d3)
               in sync (fragments_configure (cfg_fragments old) d4)))"

section \<open>Starting\<close>

definition setupDOM :: "deck \<Rightarrow> deck" where
  "setupDOM d = d\<lparr>slidesClasses := insert NoTransition (slidesClasses d), ui := initial_ui\<rparr>"

definition start :: "(nat \<Rightarrow> nat) \<Rightarrow> deck \<Rightarrow> deck option" where
  "start rnd d =
     (let d1 = resetVerticalSlides (setupDOM (removeHiddenSlides d));
          d2 = configure True rnd (cfg d1) d1
      in do {
        d3 \<leftarrow> readURL d2;
        Some (snd (set_timeout TimReady (Fin 1) (emit UpdateBackgrounds d3)))
      })"

section \<open>Timers\<close>

definition resetPreviousVertical :: "deck \<Rightarrow> deck" where
  "resetPreviousVertical d =
     update_doc (fold (\<lambda>s. setPreviousVerticalIndex s (Num 0)) (getVerticalStacks d)) d"

definition auto_slide_step :: "deck \<Rightarrow> deck option" where
  "auto_slide_step d =
     do {
       d1 \<leftarrow> (if cfg_autoSlideMethod (cfg d) then Some (emit RunAutoSlideMethod d)
              else navigateNext False d);
       Some (cueAutoSlide d1)
     }"

definition announce_current :: "deck \<Rightarrow> deck" where
  "announce_current d =
     (case currentSlide d of None \<Rightarrow> d | Some s \<Rightarrow> emit (AnnounceElement s) d)"

definition become_ready :: "deck \<Rightarrow> deck" where
  "become_ready d =
     (let d1 = toggle_wrapper ReadyClass True (d\<lparr>slidesClasses := slidesClasses d - {NoTransition}\<rparr>)
      in dispatchEvent (ReadyEvent (indexh d1) (indexv d1) (currentSlide d1)) d1)"

definition run_timer :: "timer_action \<Rightarrow> deck \<Rightarrow> deck option" where
  "run_timer a d =
     (case a of
        TimAutoSlide \<Rightarrow> auto_slide_step d
      | TimResetVerticalIndices \<Rightarrow> Some (resetPreviousVertical d)
      | TimEnableTransitions \<Rightarrow> Some (d\<lparr>slidesClasses := slidesClasses d - {DisableSlideTransitions}\<rparr>)
      | TimOverviewDeactivated \<Rightarrow> Some (toggle_wrapper OverviewDeactivating False d)
      | TimReplaceState url \<Rightarrow> Some (replaceState url d)
      | TimAnnounce \<Rightarrow> Some (announce_current d)
      | TimHideCursor \<Rightarrow> Some (hideCursor d)
      | TimReady \<Rightarrow> Some (become_ready d))"

text \<open>The timer leaves the pending list before its action runs.\<close>

definition fire_timer :: "timer \<Rightarrow> deck \<Rightarrow> deck option" where
  "fire_timer t d = run_timer (taction t) (clear_timeout (tid t) d)"

end
