(* ===== verification/Steps.thy ===== *)
theory Steps
  imports Lifecycle Positions
begin

text \<open>
  The deck as a state machine.  A command is an operation that may throw; the contract of a command
  is that it keeps the two invariants of a running deck: the position is settled
  (\<open>positioned\<close>) and the timer slots are in order (\<open>timers_ok\<close>).  Commands compose, so each handler
  inherits the contract from its parts, and the reachable states have the invariants.
\<close>

section \<open>The contract of a command\<close>

definition deck_inv :: "deck \<Rightarrow> bool" where
  "deck_inv d \<longleftrightarrow> positioned d \<and> timers_ok d"

locale deck_command =
  fixes cmd :: "deck \<Rightarrow> deck option"
  assumes keeps_inv: "deck_inv d \<Longrightarrow> cmd d = Some d' \<Longrightarrow> deck_inv d'"
begin

lemma keeps_positioned: "deck_inv d \<Longrightarrow> cmd d = Some d' \<Longrightarrow> positioned d'"
  by (drule (1) keeps_inv) (simp add: deck_inv_def)

lemma keeps_timers: "deck_inv d \<Longrightarrow> cmd d = Some d' \<Longrightarrow> timers_ok d'"
  by (drule (1) keeps_inv) (simp add: deck_inv_def)

end

text \<open>An operation that always returns and is quiet and orderly is a command.\<close>

locale plain_command =
  fixes oper :: "deck \<Rightarrow> deck"
  assumes q: "quiet d (oper d)" and t: "timers_ok d \<Longrightarrow> timers_ok (oper d)"
begin

lemma inv: "deck_inv d \<Longrightarrow> deck_inv (oper d)"
  using q t quiet_positioned by (auto simp: deck_inv_def)

end

sublocale plain_command < deck_command "\<lambda>d. Some (oper d)"
  by unfold_locales (use inv in auto)

lemma inv_quiet_passive: "quiet d d' \<Longrightarrow> same_timers d d' \<Longrightarrow> deck_inv d \<Longrightarrow> deck_inv d'"
  using quiet_positioned by (auto simp: deck_inv_def same_timers_ok)

section \<open>Navigation\<close>

lemma slide_inv: "deck_inv d \<Longrightarrow> slide h v f d = Some d' \<Longrightarrow> deck_inv d'"
  using slide_positioned slide_keeps_timers by (auto simp: deck_inv_def)

interpretation slide_cmd: deck_command "slide h v f" for h v f
  by unfold_locales (rule slide_inv)

lemma put_navigated:
  "deck_inv (d\<lparr>hasNavigatedHorizontally := b\<rparr>) = deck_inv d"
  "deck_inv (d\<lparr>hasNavigatedVertically := b\<rparr>) = deck_inv d"
proof -
  have q: "quiet d (d\<lparr>hasNavigatedHorizontally := b\<rparr>)" "quiet d (d\<lparr>hasNavigatedVertically := b\<rparr>)"
    "quiet (d\<lparr>hasNavigatedHorizontally := b\<rparr>) d" "quiet (d\<lparr>hasNavigatedVertically := b\<rparr>) d"
    by (simp_all add: quiet_def)
  have t: "same_timers d (d\<lparr>hasNavigatedHorizontally := b\<rparr>)"
    "same_timers d (d\<lparr>hasNavigatedVertically := b\<rparr>)"
    "same_timers (d\<lparr>hasNavigatedHorizontally := b\<rparr>) d" "same_timers (d\<lparr>hasNavigatedVertically := b\<rparr>) d"
    by (simp_all add: same_timers_def isPaused_def)
  show "deck_inv (d\<lparr>hasNavigatedHorizontally := b\<rparr>) = deck_inv d"
    using inv_quiet_passive [OF q(1) t(1)] inv_quiet_passive [OF q(3) t(3)] by blast
  show "deck_inv (d\<lparr>hasNavigatedVertically := b\<rparr>) = deck_inv d"
    using inv_quiet_passive [OF q(2) t(2)] inv_quiet_passive [OF q(4) t(4)] by blast
qed

interpretation fragments_goto_cmd: plain_command "\<lambda>d. snd (fragments_goto i k d)" for i k
  by unfold_locales (auto simp: fragments_goto_quiet fragments_goto_timers)

lemma gate_inv:
  "deck_inv d \<Longrightarrow> deck_inv (snd (fragment_gate skip fragments_next d))"
  "deck_inv d \<Longrightarrow> deck_inv (snd (fragment_gate skip fragments_prev d))"
  using fragments_goto_cmd.inv
  by (simp_all add: fragment_gate_def fragments_next_def fragments_prev_def case_prod_beta)

lemma step_inv:
  "deck_inv (snd g) \<Longrightarrow> step_horizontal k r g = Some d' \<Longrightarrow> deck_inv d'"
  "deck_inv (snd g) \<Longrightarrow> step_vertical k r g = Some d' \<Longrightarrow> deck_inv d'"
  using slide_inv by (auto simp: step_horizontal_def step_vertical_def case_prod_beta split: if_splits)

interpretation navigateLeft_cmd: deck_command "navigateLeft skip" for skip
  by unfold_locales
    (auto simp: navigateLeft_def Let_def put_navigated gate_inv split: if_splits elim!: step_inv [rotated])

interpretation navigateRight_cmd: deck_command "navigateRight skip" for skip
  by unfold_locales
    (auto simp: navigateRight_def Let_def put_navigated gate_inv split: if_splits elim!: step_inv [rotated])

interpretation navigateUp_cmd: deck_command "navigateUp skip" for skip
  by unfold_locales (auto simp: navigateUp_def gate_inv elim!: step_inv [rotated])

interpretation navigateDown_cmd: deck_command "navigateDown skip" for skip
  by unfold_locales (auto simp: navigateDown_def Let_def put_navigated gate_inv elim!: step_inv [rotated])

lemma prev_slide_inv: "deck_inv d \<Longrightarrow> prev_slide skip d = Some d' \<Longrightarrow> deck_inv d'"
  by (auto simp: prev_slide_def Let_def split: if_splits option.splits
      intro: navigateUp_cmd.keeps_inv navigateLeft_cmd.keeps_inv slide_inv)

lemma next_slide_inv: "deck_inv d \<Longrightarrow> next_slide skip d = Some d' \<Longrightarrow> deck_inv d'"
  by (auto simp: next_slide_def Let_def split: if_splits
      intro: navigateDown_cmd.keeps_inv navigateLeft_cmd.keeps_inv navigateRight_cmd.keeps_inv)

interpretation navigatePrev_cmd: deck_command "navigatePrev skip" for skip
  by unfold_locales
    (auto simp: navigatePrev_def case_prod_beta split: if_splits intro: gate_inv(2) prev_slide_inv)

interpretation navigateNext_cmd: deck_command "navigateNext skip" for skip
proof unfold_locales
  fix d d' assume i: "deck_inv d" and n: "navigateNext skip d = Some d'"
  let ?d0 = "d\<lparr>hasNavigatedHorizontally := True, hasNavigatedVertically := True\<rparr>"
  have "deck_inv ?d0" using i by (simp add: put_navigated)
  from gate_inv(1) [OF this, of skip] n show "deck_inv d'"
    by (auto simp: navigateNext_def Let_def case_prod_beta split: if_splits intro: next_slide_inv)
qed

interpretation readURL_cmd: deck_command readURL
  by unfold_locales (auto simp: readURL_def Let_def split: option.splits if_splits intro: slide_inv)

section \<open>The overview\<close>

lemma positioned_overview [simp]: "positioned (d\<lparr>overviewActive := b\<rparr>) = positioned d"
  by (simp add: positioned_def deck_ok_def at_position_def getHorizontalSlides_def leaf_current_def
      getSlide_def marked_def reversed_def Let_def cong: option.case_cong)

lemma positioned_sizes:
  "positioned d \<Longrightarrow> positioned (d\<lparr>overviewSlideWidth := w, overviewSlideHeight := h\<rparr>)"
  by (erule quiet_positioned [rotated]) (simp add: quiet_def)

definition enter_overview :: "deck \<Rightarrow> deck" where
  "enter_overview d = cancelAutoSlide (toggle_wrapper OverviewClass True (d\<lparr>overviewActive := True\<rparr>))"

lemma enter_overview_inv:
  assumes "deck_inv d"
  shows "deck_inv (enter_overview d)"
proof -
  have "positioned (enter_overview d)"
    unfolding enter_overview_def
    by (rule quiet_positioned [OF cancelAutoSlide.quiet], rule quiet_positioned [OF toggle_wrapper.quiet])
      (use assms in \<open>simp add: deck_inv_def\<close>)
  moreover have "timers_ok (enter_overview d)"
    unfolding enter_overview_def
    by (rule cancel_restores)
      (use assms in \<open>simp_all add: deck_inv_def timers_ok_def slot_inv_def toggle_wrapper_def\<close>)
  ultimately show ?thesis by (simp add: deck_inv_def)
qed

definition show_overview :: "deck \<Rightarrow> deck" where
  "show_overview d =
     (let sz = getComputedSlideSize None None d;
          w = js_add (sz_width sz) (Fin overview_margin);
          h = js_add (sz_height sz) (Fin overview_margin);
          d2 = d\<lparr>overviewSlideWidth := (if cfg_rtl (cfg d) then js_neg w else w),
                 overviewSlideHeight := h\<rparr>;
          d3 = layout (overview_update (overview_layout (updateSlidesVisibility d2)));
          i = getIndices d3 None
      in dispatchEvent (OverviewShown (ih i) (iv i) (currentSlide d3)) d3)"

lemma overview_activate_eq:
  "overview_activate d =
     (if cfg_overview (cfg d) \<and> \<not> overviewActive d then show_overview (enter_overview d) else d)"
  by (simp add: overview_activate_def show_overview_def enter_overview_def Let_def)

lemma put_sizes:
  "quiet d (d\<lparr>overviewSlideWidth := w, overviewSlideHeight := h\<rparr>)"
  "same_timers d (d\<lparr>overviewSlideWidth := w, overviewSlideHeight := h\<rparr>)"
  by (simp_all add: quiet_def same_timers_def isPaused_def)

lemma show_overview_passive: "quiet d (show_overview d)" "same_timers d (show_overview d)"
  unfolding show_overview_def Let_def
  by (intro dispatchEvent.compose layout.compose overview_update.compose overview_layout.compose
      updateSlidesVisibility.compose put_sizes)
    (intro dispatchEvent.compose_timers layout.compose_timers overview_update.compose_timers
      overview_layout.compose_timers updateSlidesVisibility.compose_timers put_sizes)

lemma overview_activate_inv: "deck_inv d \<Longrightarrow> deck_inv (overview_activate d)"
  unfolding overview_activate_eq
  using inv_quiet_passive [OF show_overview_passive] enter_overview_inv by auto

lemma same_marks_transforms: "same_marks dm (update_all (set_transform t) xs dm)"
  by (rule same_marks_update_all) (intro same_marks_set_transform same_marks_elem_refl)

lemma overview_cleanup_inv:
  assumes "deck_inv d"
  shows "deck_inv (overview_cleanup d)"
proof -
  let ?d0 = "d\<lparr>overviewActive := False\<rparr>"
  let ?d1 = "toggle_wrapper OverviewDeactivating True (toggle_wrapper OverviewClass False ?d0)"
  let ?d2 = "snd (set_timeout TimOverviewDeactivated (Fin 1) ?d1)"
  let ?d3 = "update_doc (\<lambda>dm. update_all (set_transform NoTransform) (all_slides dm) dm) ?d2"
  have e: "overview_cleanup d = (emit LayoutBackgrounds ?d3)\<lparr>overviewTransform := OverviewNone\<rparr>"
    by (simp add: overview_cleanup_def Let_def)
  have last: "quiet x (x\<lparr>overviewTransform := t\<rparr>)" "same_timers x (x\<lparr>overviewTransform := t\<rparr>)" for x :: deck and t
    by (simp_all add: quiet_def same_timers_def isPaused_def)
  have q3: "quiet ?d2 ?d3" by (rule quiet_update_doc) (rule same_marks_transforms)
  have "quiet ?d0 ?d2" by (intro set_timeout.compose toggle_wrapper.compose quiet_refl)
  then have "quiet ?d0 (overview_cleanup d)"
    unfolding e using q3 emit.quiet last(1) by (blast intro: quiet_trans)
  moreover have "positioned ?d0" using assms by (simp add: deck_inv_def)
  ultimately have 1: "positioned (overview_cleanup d)" by (rule quiet_positioned)
  have "timers_ok ?d0"
    using assms by (auto simp: deck_inv_def timers_ok_def slot_inv_def auto_blocked_def isPaused_def)
  then have "timers_ok ?d1"
    by (simp add: same_timers_ok [OF toggle_wrapper_timers])
  then have "timers_ok ?d2" by (simp add: timers_ok_set is_auto_timer_def is_replace_timer_def)
  moreover have "same_timers ?d2 (overview_cleanup d)"
    unfolding e using same_timers_update_doc emit.untimed last(2) by (blast intro: same_timers_trans)
  ultimately have "timers_ok (overview_cleanup d)" by (simp add: same_timers_ok)
  with 1 show ?thesis by (simp add: deck_inv_def)
qed

lemma plain_inv: "quiet d d' \<Longrightarrow> (timers_ok d \<Longrightarrow> timers_ok d') \<Longrightarrow> deck_inv d \<Longrightarrow> deck_inv d'"
  using quiet_positioned by (auto simp: deck_inv_def)

interpretation cueAutoSlide_cmd: plain_command cueAutoSlide
  by unfold_locales (rule cueAutoSlide_quiet, rule cueAutoSlide_timers)

lemma layout_inv: "deck_inv d \<Longrightarrow> deck_inv (layout d)"
  by (rule inv_quiet_passive [OF layout.quiet layout.untimed])

lemma dispatch_inv: "deck_inv d \<Longrightarrow> deck_inv (dispatchEvent ev d)"
  by (rule inv_quiet_passive [OF dispatchEvent.quiet dispatchEvent.untimed])

lemma emit_inv: "deck_inv d \<Longrightarrow> deck_inv (emit x d)"
  by (rule inv_quiet_passive [OF emit.quiet emit.untimed])

interpretation overview_deactivate_cmd: deck_command overview_deactivate
proof unfold_locales
  fix d d' assume i: "deck_inv d" and s: "overview_deactivate d = Some d'"
  from overview_cleanup_inv [OF i] i s show "deck_inv d'"
    by (auto simp: overview_deactivate_def Let_def split: if_splits Option.bind_splits
        intro!: dispatch_inv cueAutoSlide_cmd.inv layout_inv intro: slide_inv)
qed

interpretation overview_toggle_cmd: deck_command "overview_toggle b" for b
  by unfold_locales
    (auto simp: overview_toggle_def split: option.splits if_splits
      intro: overview_activate_inv overview_deactivate_cmd.keeps_inv)

interpretation togglePause_cmd: plain_command "togglePause b" for b
  by unfold_locales (rule togglePause.quiet, rule togglePause_t.keeps_timers_ok)

interpretation toggleAutoSlide_cmd: plain_command "toggleAutoSlide b" for b
  by unfold_locales (rule toggleAutoSlide.quiet, rule toggleAutoSlide_t.keeps_timers_ok)

interpretation onUserInput_cmd: plain_command onUserInput
  by unfold_locales (rule onUserInput.quiet, rule onUserInput_t.keeps_timers_ok)

interpretation onSlideClicked_cmd: deck_command "onSlideClicked target" for target
  by unfold_locales
    (auto simp: onSlideClicked_def Let_def split: if_splits Option.bind_splits
      intro: slide_inv overview_deactivate_cmd.keeps_inv)

interpretation setState_cmd: deck_command "setState st" for st
  by unfold_locales
    (auto simp: setState_def Let_def split: if_splits Option.bind_splits
      intro: slide_inv overview_toggle_cmd.keeps_inv togglePause_cmd.inv)

section \<open>Input\<close>

lemma overlay_inv: "deck_inv (d\<lparr>overlay := x\<rparr>) = deck_inv d"
proof -
  have "quiet d (d\<lparr>overlay := x\<rparr>)" "quiet (d\<lparr>overlay := x\<rparr>) d" "same_timers d (d\<lparr>overlay := x\<rparr>)"
    "same_timers (d\<lparr>overlay := x\<rparr>) d" by (simp_all add: quiet_def same_timers_def isPaused_def)
  then show ?thesis using inv_quiet_passive by blast
qed

lemma toggleHelp_inv: "deck_inv d \<Longrightarrow> deck_inv (toggleHelp b d)"
  by (simp add: toggleHelp_def showHelp_def closeOverlay_def overlay_inv split: option.splits)

interpretation call_method_cmd: deck_command "call_method m" for m
  by unfold_locales
    (cases m; auto simp: call_method_def
      intro: navigateNext_cmd.keeps_inv navigatePrev_cmd.keeps_inv navigateLeft_cmd.keeps_inv
        navigateRight_cmd.keeps_inv navigateUp_cmd.keeps_inv navigateDown_cmd.keeps_inv
        overview_toggle_cmd.keeps_inv togglePause_cmd.inv toggleAutoSlide_cmd.inv toggleHelp_inv)

interpretation run_action_cmd: deck_command "run_action a" for a
  by unfold_locales
    (auto simp: run_action_def split: key_action.splits intro: emit_inv call_method_cmd.keeps_inv)

lemma run_bindings_inv:
  "deck_inv (snd s) \<Longrightarrow> run_bindings code bs s = Some s' \<Longrightarrow> deck_inv (snd s')"
  by (induction code bs s rule: run_bindings.induct)
    (auto split: if_splits option.splits intro: run_action_cmd.keeps_inv)

lemma arrow_key_inv:
  assumes "deck_inv d" and "arrow_key lin ev jump f g d = Some d'"
    and "\<And>d'. jump d = Some d' \<Longrightarrow> deck_inv d'" "\<And>b d'. f b d = Some d' \<Longrightarrow> deck_inv d'"
    "\<And>b d'. g b d = Some d' \<Longrightarrow> deck_inv d'"
  shows "deck_inv d'"
  using assms by (auto simp: arrow_key_def split: if_splits)

interpretation space_key_cmd: deck_command "space_key ev" for ev
  by unfold_locales
    (auto simp: space_key_def split: if_splits Option.bind_splits
      intro: overview_deactivate_cmd.keeps_inv navigateNext_cmd.keeps_inv navigatePrev_cmd.keeps_inv)

lemma system_binding_inv:
  "deck_inv d \<Longrightarrow> system_binding lin w ev d = Some r \<Longrightarrow> r = Some d' \<Longrightarrow> deck_inv d'"
  by (auto simp: system_binding_def Let_def split: if_splits
      intro: navigateNext_cmd.keeps_inv navigatePrev_cmd.keeps_inv slide_inv space_key_cmd.keeps_inv
        togglePause_cmd.inv toggleAutoSlide_cmd.inv emit_inv
      elim!: arrow_key_inv [rotated]
      intro: navigateLeft_cmd.keeps_inv navigateRight_cmd.keeps_inv navigateUp_cmd.keeps_inv
        navigateDown_cmd.keeps_inv)

lemma closeOverlay_inv: "deck_inv d \<Longrightarrow> deck_inv (snd (closeOverlay d))"
  by (simp add: closeOverlay_def overlay_inv)

interpretation escape_key_cmd: deck_command escape_key
  by unfold_locales
    (auto simp: escape_key_def closeOverlay_def overlay_inv split: bool.splits
      dest!: overview_toggle_cmd.keeps_inv [rotated])

lemma unbound_key_inv: "deck_inv d \<Longrightarrow> unbound_key lin w ev d = Some d' \<Longrightarrow> deck_inv d'"
  by (auto simp: unbound_key_def split: option.splits if_splits
      intro: system_binding_inv escape_key_cmd.keeps_inv)

interpretation handle_key_cmd: deck_command "handle_key w ev" for w ev
proof unfold_locales
  fix d d' assume i: "deck_inv d" and h: "handle_key w ev d = Some d'"
  obtain t1 d1 t2 d2 d3 where
    1: "run_bindings (ev_keyCode ev) (keyboard_table d) (False, d) = Some (t1, d1)" and
    2: "(if t1 then Some (t1, d1) else run_bindings (ev_keyCode ev) (keyBindings d1) (t1, d1)) = Some (t2, d2)" and
    3: "(if t2 then Some d2 else unbound_key (use_linear_mode d) w ev d2) = Some d3" and
    4: "d' = cueAutoSlide d3"
    using h by (auto simp: handle_key_def Let_def split: Option.bind_splits)
  have "deck_inv d1" using run_bindings_inv [OF _ 1] i by simp
  then have "deck_inv d2" using 2 run_bindings_inv by (fastforce split: if_splits)
  then have "deck_inv d3" using 3 by (auto split: if_splits intro: unbound_key_inv)
  then show "deck_inv d'" unfolding 4 by (rule cueAutoSlide_cmd.inv)
qed

interpretation onDocumentKeyDown_cmd: deck_command "onDocumentKeyDown ev" for ev
  by unfold_locales
    (auto simp: onDocumentKeyDown_def Let_def split: if_splits
      intro: onUserInput_cmd.inv handle_key_cmd.keeps_inv)

interpretation onNavigateClicked_cmd: deck_command "onNavigateLeftClicked"
  by unfold_locales
    (auto simp: onNavigateLeftClicked_def Let_def split: if_splits
      intro: onUserInput_cmd.inv navigatePrev_cmd.keeps_inv navigateLeft_cmd.keeps_inv)

interpretation onNavigateRightClicked_cmd: deck_command "onNavigateRightClicked"
  by unfold_locales
    (auto simp: onNavigateRightClicked_def Let_def split: if_splits
      intro: onUserInput_cmd.inv navigateNext_cmd.keeps_inv navigateRight_cmd.keeps_inv)

lemma clicked_inv:
  "deck_inv d \<Longrightarrow> onNavigateUpClicked d = Some d' \<Longrightarrow> deck_inv d'"
  "deck_inv d \<Longrightarrow> onNavigateDownClicked d = Some d' \<Longrightarrow> deck_inv d'"
  "deck_inv d \<Longrightarrow> onNavigatePrevClicked d = Some d' \<Longrightarrow> deck_inv d'"
  "deck_inv d \<Longrightarrow> onNavigateNextClicked d = Some d' \<Longrightarrow> deck_inv d'"
  "deck_inv d \<Longrightarrow> onProgressClicked x d = Some d' \<Longrightarrow> deck_inv d'"
  by (auto simp: onNavigateUpClicked_def onNavigateDownClicked_def onNavigatePrevClicked_def
      onNavigateNextClicked_def onProgressClicked_def Let_def
      intro: navigateUp_cmd.keeps_inv navigateDown_cmd.keeps_inv navigatePrev_cmd.keeps_inv
        navigateNext_cmd.keeps_inv slide_inv onUserInput_cmd.inv)

interpretation onSlidesClicked_cmd: deck_command "onSlidesClicked href" for href
  by unfold_locales (auto simp: onSlidesClicked_def split: option.splits intro: slide_inv)

lemma resumeAutoSlide_inv: "deck_inv d \<Longrightarrow> deck_inv (resumeAutoSlide d)"
  by (rule plain_inv [OF resumeAutoSlide.quiet resumeAutoSlide_t.keeps_timers_ok])

lemma pauseAutoSlide_inv: "deck_inv d \<Longrightarrow> deck_inv (pauseAutoSlide d)"
  by (rule plain_inv [OF pauseAutoSlide.quiet pauseAutoSlide_t.keeps_timers_ok])

interpretation onAutoSlidePlayerClick_cmd: deck_command onAutoSlidePlayerClick
  by unfold_locales
    (auto simp: onAutoSlidePlayerClick_def split: if_splits Option.bind_splits
      intro!: resumeAutoSlide_inv pauseAutoSlide_inv intro: slide_inv)

lemma put_transition: "quiet d (d\<lparr>transition := t\<rparr>)" "same_timers d (d\<lparr>transition := t\<rparr>)"
  by (simp_all add: quiet_def same_timers_def isPaused_def)

lemma onTransitionEnd_inv: "deck_inv d \<Longrightarrow> deck_inv (onTransitionEnd target d)"
  using inv_quiet_passive [OF put_transition] by (simp add: onTransitionEnd_def Let_def dispatch_inv)

text \<open>Touch and mouse only write their own fields besides.\<close>

lemma put_touch:
  "quiet d (d\<lparr>touchStartX := x, touchStartY := y, touchStartCount := n\<rparr>)"
  "same_timers d (d\<lparr>touchStartX := x, touchStartY := y, touchStartCount := n\<rparr>)"
  "quiet d (d\<lparr>touchCaptured := b\<rparr>)" "same_timers d (d\<lparr>touchCaptured := b\<rparr>)"
  "quiet d (d\<lparr>lastMouseWheelStep := s\<rparr>)" "same_timers d (d\<lparr>lastMouseWheelStep := s\<rparr>)"
  by (simp_all add: quiet_def same_timers_def isPaused_def)

lemma onTouchStart_inv: "deck_inv d \<Longrightarrow> onTouchStart ev d = Some d' \<Longrightarrow> deck_inv d'"
  using inv_quiet_passive [OF put_touch(1,2)]
  by (auto simp: onTouchStart_def split: if_splits list.splits)

lemma perform_swipe_inv: "deck_inv d \<Longrightarrow> perform_swipe s d = Some d' \<Longrightarrow> deck_inv d'"
  by (cases s) (auto simp: perform_swipe_def Let_def split: if_splits
      intro: navigateNext_cmd.keeps_inv navigatePrev_cmd.keeps_inv navigateLeft_cmd.keeps_inv
        navigateRight_cmd.keeps_inv navigateUp_cmd.keeps_inv navigateDown_cmd.keeps_inv)

lemma captured_inv: "deck_inv d \<Longrightarrow> deck_inv (d\<lparr>touchCaptured := b\<rparr>)"
  by (rule inv_quiet_passive [OF put_touch(3,4)])

lemma onTouchMove_inv: "deck_inv d \<Longrightarrow> onTouchMove ev d = Some d' \<Longrightarrow> deck_inv d'"
  by (auto simp: onTouchMove_def Let_def split: if_splits list.splits
      intro: perform_swipe_inv [OF captured_inv [OF onUserInput_cmd.inv]] onUserInput_cmd.inv)

lemma onDocumentMouseScroll_inv: "deck_inv d \<Longrightarrow> onDocumentMouseScroll k d = Some d' \<Longrightarrow> deck_inv d'"
  using inv_quiet_passive [OF put_touch(5,6)]
  by (auto simp: onDocumentMouseScroll_def Let_def split: if_splits
      intro: navigateNext_cmd.keeps_inv navigatePrev_cmd.keeps_inv)

lemma cursor_passive: "quiet d (showCursor d)" "same_timers d (showCursor d)"
    "quiet d (hideCursor d)" "same_timers d (hideCursor d)"
  by (simp_all add: showCursor_def hideCursor_def quiet_def same_timers_def isPaused_def)

lemma put_cursor: "quiet d (d\<lparr>cursorInactiveTimeout := i\<rparr>)" "same_timers d (d\<lparr>cursorInactiveTimeout := i\<rparr>)"
  by (simp_all add: quiet_def same_timers_def isPaused_def)

lemma set_timeout_inv:
  "deck_inv d \<Longrightarrow> \<not> is_auto_timer a \<Longrightarrow> \<not> is_replace_timer a \<Longrightarrow> deck_inv (snd (set_timeout a dl d))"
  by (rule plain_inv [OF set_timeout.quiet]) (simp add: timers_ok_set)

lemma clear_timeout_inv: "deck_inv d \<Longrightarrow> deck_inv (clear_timeout i d)"
  by (rule plain_inv [OF clear_timeout.quiet]) (simp add: timers_ok_clear)

lemma onDocumentCursorActive_inv:
  assumes "deck_inv d"
  shows "deck_inv (onDocumentCursorActive d)"
proof -
  have "deck_inv (clear_timeout i (showCursor d))" for i
    by (intro clear_timeout_inv inv_quiet_passive [OF cursor_passive(1,2)] assms)
  then have "deck_inv (snd (set_timeout TimHideCursor x (clear_timeout i (showCursor d))))" for x i
    by (rule set_timeout_inv) (simp_all add: is_auto_timer_def is_replace_timer_def)
  then show ?thesis
    by (simp add: onDocumentCursorActive_def Let_def case_prod_beta inv_quiet_passive [OF put_cursor])
qed

section \<open>Maintenance and timers\<close>

lemma sortAll_marks: "same_marks (doc d) (doc (sortAll d))"
proof -
  let ?step = "\<lambda>h dm. let vs = queryAll dm h is_section;
      dm1 = fold (\<lambda>v m. sort_doc (queryAll m v is_fragment) m) vs dm
    in if vs = [] then sort_doc (queryAll dm1 h is_fragment) dm1 else dm1"
  have "same_marks dm (fold (\<lambda>v m. sort_doc (queryAll m v is_fragment) m) vs dm)" for vs dm
    by (rule same_marks_fold) (rule sort_doc_marks)
  then have "same_marks dm (?step h dm)" for h dm
    by (auto simp: Let_def intro: same_marks_trans sort_doc_marks)
  then have "same_marks dm (fold ?step hs dm)" for hs dm by (rule same_marks_fold)
  then show ?thesis by (simp add: sortAll_def update_doc_def)
qed

interpretation sortAll: passive_operation sortAll
proof unfold_locales
  fix d :: deck
  show "quiet d (sortAll d)"
    using sortAll_marks [of d] by (simp add: quiet_def sortAll_def update_doc_def)
  show "same_timers d (sortAll d)" unfolding sortAll_def by (rule same_timers_update_doc)
qed

interpretation start_current: passive_operation start_current
  by unfold_locales
    (simp_all add: start_current_def emit.quiet emit.untimed split: option.splits)

interpretation notes_visibility: passive_operation notes_updateVisibility
  by unfold_locales
    (simp_all add: notes_updateVisibility_def toggle_wrapper.quiet toggle_wrapper_timers)

lemma sync_quiet: "quiet d (sync d)"
proof -
  have "quiet d (cueAutoSlide ((layout d)\<lparr>autoSlide := a\<rparr>))" for a
    by (rule cueAutoSlide.compose) (rule quiet_trans [OF layout.quiet put_auto_quiet(1)])
  then show ?thesis
    unfolding sync_def Let_def
    by (auto intro!: overview_layout.compose start_current.compose emit.compose
        slideNumber_update.compose notes_visibility.compose notes_update.compose
        updateSlidesVisibility.compose progress_update.compose controls_update.compose
        sortAll.compose writeURL.compose)
qed

lemma sync_timers: "timers_ok d \<Longrightarrow> timers_ok (sync d)"
proof -
  assume "timers_ok d"
  then have "timers_ok ((layout d)\<lparr>autoSlide := a\<rparr>)" for a
    by (simp add: same_timers_ok [OF put_auto_quiet(2)])
  then have "timers_ok (writeURL (emit CreateBackgrounds (cueAutoSlide ((layout d)\<lparr>autoSlide := a\<rparr>))))" for a
    by (intro writeURL_t.keeps_timers_ok) (simp add: cueAutoSlide_t.keeps_timers_ok)
  then show ?thesis unfolding sync_def Let_def by simp
qed

lemma sync_inv: "deck_inv d \<Longrightarrow> deck_inv (sync d)"
  by (rule plain_inv [OF sync_quiet sync_timers])

lemma syncSlide_inv: "deck_inv d \<Longrightarrow> deck_inv (syncSlide s d)"
proof -
  have "quiet d (fragments_sync s d)" "same_timers d (fragments_sync s d)" for d
    unfolding fragments_sync_def
    by (rule quiet_update_doc, rule sort_doc_marks) (rule same_timers_update_doc)
  note f = inv_quiet_passive [OF this]
  assume "deck_inv d"
  then show ?thesis
    unfolding syncSlide_def
    by (intro inv_quiet_passive [OF notes_update.quiet notes_update.untimed] emit_inv f
        inv_quiet_passive [OF loadSlide.quiet loadSlide.untimed])
qed

lemma resetPreviousVertical_passive:
  "quiet d (resetPreviousVertical d)" "same_timers d (resetPreviousVertical d)"
proof -
  have e: "same_marks_elem x (set_attr DataPreviousIndexv v x)" for x v
    by (simp add: progress_attrs_def)
  have "same_marks dm (fold (\<lambda>s. setPreviousVerticalIndex s (Num 0)) xs dm)" for xs dm
    by (rule same_marks_fold) (simp add: setPreviousVerticalIndex_def same_marks_update_el e)
  then show "quiet d (resetPreviousVertical d)"
    unfolding resetPreviousVertical_def by (rule quiet_update_doc)
  show "same_timers d (resetPreviousVertical d)"
    unfolding resetPreviousVertical_def by (rule same_timers_update_doc)
qed

lemma put_slides_classes:
  "quiet d (d\<lparr>slidesClasses := c\<rparr>)" "same_timers d (d\<lparr>slidesClasses := c\<rparr>)"
  by (simp_all add: quiet_def same_timers_def isPaused_def)

lemma toggle_inv: "c \<noteq> PausedClass \<Longrightarrow> deck_inv d \<Longrightarrow> deck_inv (toggle_wrapper c b d)"
  by (rule inv_quiet_passive [OF toggle_wrapper.quiet toggle_wrapper_timers])

interpretation auto_slide_step_cmd: deck_command auto_slide_step
  by unfold_locales
    (auto simp: auto_slide_step_def split: if_splits Option.bind_splits
      intro!: cueAutoSlide_cmd.inv intro: emit_inv navigateNext_cmd.keeps_inv)

interpretation run_timer_cmd: deck_command "run_timer a" for a
  by unfold_locales
    (auto simp: run_timer_def announce_current_def become_ready_def Let_def
      split: timer_action.splits option.splits
      intro!: inv_quiet_passive [OF resetPreviousVertical_passive]
        inv_quiet_passive [OF put_slides_classes] toggle_inv
        inv_quiet_passive [OF replaceState_passive] emit_inv
        inv_quiet_passive [OF cursor_passive(3,4)] dispatch_inv
      intro: auto_slide_step_cmd.keeps_inv)

interpretation fire_timer_cmd: deck_command "fire_timer t" for t
  by unfold_locales (auto simp: fire_timer_def intro: run_timer_cmd.keeps_inv clear_timeout_inv)

end
