(* ===== verification/Machine.thy ===== *)
theory Machine
  imports Steps
begin

text \<open>
  The transition system of a running deck: what the user, the browser and the timers can make
  happen, one step at a time, and the states that can be reached from a start.  A handler that
  throws makes no step here.
\<close>

section \<open>Inputs\<close>

datatype input =
    ApiSlide jsval jsval jsval
  | ApiLeft bool | ApiRight bool | ApiUp bool | ApiDown bool | ApiPrev bool | ApiNext bool
  | ApiTogglePause "bool option"
  | ApiToggleAutoSlide "bool option"
  | ApiToggleOverview "bool option"
  | ApiSetState snapshot
  | ApiSync
  | ApiSyncSlide nat
  | KeyDown key_event
  | ArrowLeftClick | ArrowRightClick | ArrowUpClick | ArrowDownClick
  | ProgressClick rat
  | LinkClick "string option"
  | OverviewClick nat
  | PlayerClick
  | TransitionEnd nat
  | Resize
  | TouchStart touch_event | TouchMove touch_event | TouchEnd
  | Wheel int
  | CursorMove

definition handle :: "input \<Rightarrow> deck \<Rightarrow> deck option" where
  "handle inp d =
     (case inp of
        ApiSlide h v f \<Rightarrow> slide h v f d
      | ApiLeft s \<Rightarrow> navigateLeft s d
      | ApiRight s \<Rightarrow> navigateRight s d
      | ApiUp s \<Rightarrow> navigateUp s d
      | ApiDown s \<Rightarrow> navigateDown s d
      | ApiPrev s \<Rightarrow> navigatePrev s d
      | ApiNext s \<Rightarrow> navigateNext s d
      | ApiTogglePause b \<Rightarrow> Some (togglePause b d)
      | ApiToggleAutoSlide b \<Rightarrow> Some (toggleAutoSlide b d)
      | ApiToggleOverview b \<Rightarrow> overview_toggle b d
      | ApiSetState st \<Rightarrow> setState st d
      | ApiSync \<Rightarrow> Some (sync d)
      | ApiSyncSlide s \<Rightarrow> Some (syncSlide s d)
      | KeyDown ev \<Rightarrow> onDocumentKeyDown ev d
      | ArrowLeftClick \<Rightarrow> onNavigateLeftClicked d
      | ArrowRightClick \<Rightarrow> onNavigateRightClicked d
      | ArrowUpClick \<Rightarrow> onNavigateUpClicked d
      | ArrowDownClick \<Rightarrow> onNavigateDownClicked d
      | ProgressClick x \<Rightarrow> onProgressClicked x d
      | LinkClick href \<Rightarrow> onSlidesClicked href d
      | OverviewClick t \<Rightarrow> onSlideClicked t d
      | PlayerClick \<Rightarrow> onAutoSlidePlayerClick d
      | TransitionEnd t \<Rightarrow> Some (onTransitionEnd t d)
      | Resize \<Rightarrow> Some (onWindowResize d)
      | TouchStart ev \<Rightarrow> onTouchStart ev d
      | TouchMove ev \<Rightarrow> onTouchMove ev d
      | TouchEnd \<Rightarrow> Some (onTouchEnd d)
      | Wheel k \<Rightarrow> onDocumentMouseScroll k d
      | CursorMove \<Rightarrow> Some (onDocumentCursorActive d))"

lemmas command_dests =
  slide_inv navigateLeft_cmd.keeps_inv navigateRight_cmd.keeps_inv navigateUp_cmd.keeps_inv
  navigateDown_cmd.keeps_inv navigatePrev_cmd.keeps_inv navigateNext_cmd.keeps_inv
  overview_toggle_cmd.keeps_inv setState_cmd.keeps_inv onDocumentKeyDown_cmd.keeps_inv
  onNavigateClicked_cmd.keeps_inv onNavigateRightClicked_cmd.keeps_inv clicked_inv
  onSlidesClicked_cmd.keeps_inv onSlideClicked_cmd.keeps_inv onAutoSlidePlayerClick_cmd.keeps_inv
  onTouchStart_inv onTouchMove_inv onDocumentMouseScroll_inv

lemmas operation_invs =
  togglePause_cmd.inv toggleAutoSlide_cmd.inv sync_inv syncSlide_inv onTransitionEnd_inv layout_inv
  captured_inv onDocumentCursorActive_inv

lemma handle_inv: "deck_inv d \<Longrightarrow> handle inp d = Some d' \<Longrightarrow> deck_inv d'"
  by (cases inp; simp only: handle_def input.simps onWindowResize_def onTouchEnd_def option.inject;
      (erule (1) command_dests | (hypsubst, erule operation_invs)))

interpretation handle_cmd: deck_command "handle inp" for inp
  by unfold_locales (rule handle_inv)

section \<open>The step relation\<close>

inductive deck_step :: "deck \<Rightarrow> deck \<Rightarrow> bool" where
  step_input: "handle inp d = Some d' \<Longrightarrow> deck_step d d'"
| step_timer: "t \<in> set (timers d) \<Longrightarrow> fire_timer t d = Some d' \<Longrightarrow> deck_step d d'"
| step_hash: "0 < pendingHashChanges d \<Longrightarrow> cfg_respondToHashChanges (cfg d) \<Longrightarrow>
    onWindowHashChange d = Some d' \<Longrightarrow> deck_step d d'"
| step_edit_url: "deck_step d (d\<lparr>urlHash := u, pendingHashChanges := Suc (pendingHashChanges d)\<rparr>)"
| step_time: "0 \<le> n \<Longrightarrow> deck_step d (d\<lparr>now := now d + n\<rparr>)"

inductive_cases deck_stepE: "deck_step d d'"

inductive reachable :: "deck \<Rightarrow> deck \<Rightarrow> bool" for s :: deck where
  reachable_start: "reachable s s"
| reachable_step: "reachable s d \<Longrightarrow> deck_step d d' \<Longrightarrow> reachable s d'"

lemma deck_step_inv: "deck_inv d \<Longrightarrow> deck_step d d' \<Longrightarrow> deck_inv d'"
proof (erule deck_stepE)
  assume i: "deck_inv d"
  show "deck_inv d'" if "handle inp d = Some d'" for inp using i that by (rule handle_cmd.keeps_inv)
  show "deck_inv d'" if "fire_timer t d = Some d'" for t using i that by (rule fire_timer_cmd.keeps_inv)
  have "deck_inv (d\<lparr>pendingHashChanges := n\<rparr>)" for n
    by (rule inv_quiet_passive [OF _ _ i]) (simp_all add: quiet_def same_timers_def isPaused_def)
  then show "deck_inv d'" if "onWindowHashChange d = Some d'"
    using that unfolding onWindowHashChange_def by (rule readURL_cmd.keeps_inv)
  show "deck_inv d'" if "d' = d\<lparr>urlHash := u, pendingHashChanges := Suc (pendingHashChanges d)\<rparr>" for u
    unfolding that
    by (rule inv_quiet_passive [OF _ _ i]) (simp_all add: quiet_def same_timers_def isPaused_def)
  show "deck_inv d'" if "d' = d\<lparr>now := now d + n\<rparr>" for n
    unfolding that
    by (rule inv_quiet_passive [OF _ _ i]) (simp_all add: quiet_def same_timers_def isPaused_def)
qed

lemma reachable_inv: "reachable s d \<Longrightarrow> deck_inv s \<Longrightarrow> deck_inv d"
  by (induction rule: reachable.induct) (auto intro: deck_step_inv)

end
