(* ===== verification/Startup.thy ===== *)
theory Startup
  imports Machine
begin

text \<open>
  The start of a deck: \<open>start\<close> prepares the document, configures and synchronises the deck and reads
  the URL, and ends in a state from which the invariants of the running deck hold.
\<close>

lemma reset_vertical_shape:
  "tag (reset_vertical e) = tag e \<and> has_class Fragment (reset_vertical e) = has_class Fragment e"
  by (simp add: reset_vertical_def)

lemma resetVertical_shape: "same_shape (doc d) (doc (resetVerticalSlides d))"
proof -
  have "same_shape m (update_all reset_vertical xs m)" for xs m
    by (rule same_shape_update_all) (rule reset_vertical_shape)
  then have "same_shape m (fold (\<lambda>h m. update_all reset_vertical (tl (queryAll m h is_section)) m) hs m)"
    for hs m by (rule same_shape_fold)
  then show ?thesis by (simp add: resetVerticalSlides_def update_doc_def)
qed

lemma resetVertical_attr: "attrs (el (doc (resetVerticalSlides d)) x) DataState = attrs (el (doc d) x) DataState"
proof -
  have "attrs (el (update_all reset_vertical xs m) x) DataState = attrs (el m x) DataState" for xs m
    unfolding update_all_def
    by (rule fold_keeps [where g = "\<lambda>m. attrs (el m x) DataState"])
      (simp add: el_update_el reset_vertical_def)
  then show ?thesis
    by (simp add: resetVerticalSlides_def update_doc_def)
      (rule fold_keeps [where g = "\<lambda>m. attrs (el m x) DataState"], simp)
qed

lemma resetVertical_timers: "same_timers d (resetVerticalSlides d)"
  unfolding resetVerticalSlides_def by (rule same_timers_update_doc)

section \<open>Configuration with unchanged slides\<close>

lemma configure_player_quiet: "quiet d (configure_player d)"
  by (simp add: configure_player_def Let_def quiet_def)

lemma configure_player_timers: "timers_ok d \<Longrightarrow> timers_ok (configure_player d)"
  by (auto simp: configure_player_def Let_def timers_ok_def slot_inv_def auto_blocked_def isPaused_def)

lemma put_focus: "quiet d (d\<lparr>focusState := f\<rparr>)" "same_timers d (d\<lparr>focusState := f\<rparr>)"
  by (simp_all add: quiet_def same_timers_def isPaused_def)

lemma toggle_focus_passive:
  "quiet d ((toggle_wrapper FocusedClass b d)\<lparr>focusState := f\<rparr>)"
  "same_timers d ((toggle_wrapper FocusedClass b d)\<lparr>focusState := f\<rparr>)"
  by (rule quiet_trans [OF toggle_wrapper.quiet put_focus(1)])
    (rule same_timers_trans [OF toggle_wrapper_timers put_focus(2)], simp)

interpretation focus_configure: passive_operation focus_configure
  by unfold_locales
    (simp_all add: focus_configure_def focus_focus_def focus_blur_def Let_def toggle_focus_passive
      put_focus)

interpretation pointer_configure: passive_operation pointer_configure
  by unfold_locales (simp_all add: pointer_configure_def cursor_passive)

lemma fragments_toggle_marks:
  "same_marks dm (update_all (\<lambda>e. remove_class CurrentFragment (add_class Visible e)) xs dm)"
  "same_marks dm (update_all (\<lambda>e. remove_class CurrentFragment (remove_class Visible e)) xs dm)"
  by (rule same_marks_update_all, intro mark_elem_intros progress_class_mem)+

interpretation fragments_configure: passive_operation "fragments_configure old" for old
  by unfold_locales
    (auto simp: fragments_configure_def fragments_enable_def fragments_disable_def
      intro: quiet_update_doc fragments_toggle_marks same_timers_update_doc)

lemma configure_quiet:
  assumes "\<not> cfg_shuffle (cfg d)"
  shows "quiet d (configure True rnd (cfg d) d)"
proof -
  have "quiet d (if cfg_pause (cfg d) then d else resume d)" by (simp add: resume_quiet)
  then have "quiet d (configure_player (emit ResetAutoAnimate (if cfg_pause (cfg d) then d else resume d)))"
    using emit.compose configure_player_quiet quiet_trans by blast
  then show ?thesis
    using assms unfolding configure_def Let_def
    by (auto intro!: quiet_trans [OF _ sync_quiet] fragments_configure.compose pointer_configure.compose
        focus_configure.compose)
qed

lemma configure_timers:
  assumes "\<not> cfg_shuffle (cfg d)" and "timers_ok d"
  shows "timers_ok (configure True rnd (cfg d) d)"
proof -
  have "timers_ok (if cfg_pause (cfg d) then d else resume d)"
    using assms(2) by (simp add: resume_timers)
  then have "timers_ok (configure_player (emit ResetAutoAnimate (if cfg_pause (cfg d) then d else resume d)))"
    by (intro configure_player_timers) simp
  then show ?thesis
    using assms(1) unfolding configure_def Let_def by (auto intro!: sync_timers)
qed

section \<open>The start\<close>

lemma readURL_first:
  assumes "indexh d = Undef" and "readURL d = Some d'"
  shows "\<exists>h v f. slide h v f d = Some d'"
proof (cases "getIndicesFromHash d (urlHash d)")
  case None
  with assms show ?thesis by (auto simp: readURL_def Let_def)
next
  case (Some new)
  have "ih new \<noteq> Undef"
    using Some by (auto simp: getIndicesFromHash_def Let_def getIndices_def split: if_splits option.splits)
  then have "ih new \<noteq> ih (getIndices d None)" using assms(1) by (simp add: getIndices_def)
  with Some assms(2) show ?thesis by (auto simp: readURL_def Let_def split: if_splits)
qed

lemma initial_timers_ok: "timers_ok (initial_deck c b dm hash t)"
  by (simp add: timers_ok_def slot_inv_def initial_deck_def)

end
