(* ===== verification/HashLaws.thy ===== *)
theory HashLaws
  imports Places
begin

text \<open>
  The round trip of the location controller: reading the hash that \<open>getHash\<close> writes for the current
  slide gives the position of that slide, in the index form and in the form with the slide's id.
  It also states what the debounced \<open>replaceState\<close> leaves pending.
\<close>

section \<open>The index form\<close>

text \<open>The fragment index a hash shows: only a number from 0 on, and only when configured.\<close>

definition hash_fragment :: "deck \<Rightarrow> jsval" where
  "hash_fragment d =
     (let f = ifr (getIndices d None)
      in if cfg_fragmentInURL (cfg d) \<and> jv_ge f 0 then f else Undef)"

definition has_id :: "dom \<Rightarrow> nat \<Rightarrow> bool" where
  "has_id dm s \<longleftrightarrow> (case attrs (el dm s) AId of None \<Rightarrow> False | Some n \<Rightarrow> n \<noteq> [])"

lemma base_nonneg: "0 \<le> hashIndexBase d"
  by (simp add: hashIndexBase_def)

lemma split_numbers:
  "split_on (CHR ''/'') (show_nat a) = [show_nat a]"
  "split_on (CHR ''/'') (show_nat a @ CHR ''/'' # r) = show_nat a # split_on (CHR ''/'') r"
  using show_nat_no_slash by (simp_all add: split_on_no_sep split_on_append_sep)

lemma all_digits_Nil [simp]: "all_digits []"
  by (simp add: all_digits_def)

text \<open>The three shapes of the path and what is parsed from them.\<close>

lemma parse_path:
  assumes "0 \<le> i" and "0 \<le> j" and "0 \<le> base"
    and f: "\<not> jv_ge f 0 \<or> (\<exists>k. f = Num k \<and> 0 \<le> k)"
  defines "p \<equiv> strip_hash (CHR 0x23 # index_path base \<lparr>ih = Num i, iv = Num j, ifr = f\<rparr>)"
  shows "all_digits (hd (split_on (CHR ''/'') p)) \<and>
    bit_index (split_on (CHR ''/'') p) 0 base = i \<and> bit_index (split_on (CHR ''/'') p) 1 base = j \<and>
    (if 2 < length (split_on (CHR ''/'') p) then or_undef (parseInt10 (split_on (CHR ''/'') p ! 2))
     else Undef) = (if jv_ge f 0 then f else Undef)"
proof -
  have num: "show_int (i + base) = show_nat (nat (i + base))" "show_int (j + base) = show_nat (nat (j + base))"
    using assms(1,2,3) by (simp_all add: show_int_nonneg)
  have int_nat: "int (nat (i + base)) = i + base" "int (nat (j + base)) = j + base" using assms(1-3) by simp_all
  show ?thesis
  proof (cases "jv_ge f 0")
    case True
    with f obtain k where k: "f = Num k" "0 \<le> k" by auto
    then have "p = show_nat (nat (i + base)) @ CHR ''/'' # show_nat (nat (j + base)) @ CHR ''/'' # show_nat (nat k)"
      by (simp add: p_def index_path_def num show_int_nonneg)
    then show ?thesis using k int_nat by (simp add: split_numbers all_digits_show_nat bit_index_def or_undef_def)
  next
    case False
    then show ?thesis
      using assms(1,2) int_nat
      by (auto simp: p_def index_path_def num split_numbers all_digits_show_nat bit_index_def)
  qed
qed

lemma jv_ge_num: "\<not> jv_ge f 0 \<or> (\<exists>k. f = Num k \<and> 0 \<le> k)"
  by (cases f) auto

lemma hash_indices:
  assumes "currentSlide d = Some s" and "\<not> has_id (doc d) s"
    and "indexh d = Num i" "indexv d = Num j" "0 \<le> i" "0 \<le> j"
  shows "getIndicesFromHash d (CHR 0x23 # getHash d None) =
    Some \<lparr>ih = Num i, iv = Num j, ifr = hash_fragment d\<rparr>"
proof -
  define f where "f = (if cfg_fragmentInURL (cfg d) then ifr (getIndices d None) else Undef)"
  have "getHash d None = index_path (hashIndexBase d) \<lparr>ih = Num i, iv = Num j, ifr = f\<rparr>"
    using assms(1-4) by (auto simp: getHash_def has_id_def getIndices_def Let_def f_def split: option.splits)
  moreover have "hash_fragment d = (if cfg_fragmentInURL (cfg d) then (if jv_ge f 0 then f else Undef) else Undef)"
    by (simp add: hash_fragment_def f_def Let_def)
  moreover note parse_path [OF assms(5,6) base_nonneg [of d] jv_ge_num [of f]]
  ultimately show ?thesis by (auto simp: getIndicesFromHash_def Let_def)
qed

section \<open>The form with an id\<close>

lemma show_nat_suffix:
  "has_fragment_suffix (x @ CHR ''/'' # show_nat k) \<longleftrightarrow> True" if "CHR ''/'' \<notin> set x"
  using that show_nat_digits [of k]
  by (auto simp: has_fragment_suffix_def split_on_append_sep split_numbers Let_def list_all_iff)

lemma encode_nonempty: "encodeURIComponent n = [] \<longleftrightarrow> n = []"
  by (cases n) simp_all

lemma strip_named: "strip_hash (CHR 0x23 # CHR ''/'' # r) = r"
  by simp

text \<open>A named hash finds the element with the name.\<close>

lemma hash_named:
  assumes "currentSlide d = Some s" and n: "attrs (el (doc d) s) AId = Some n" "n \<noteq> []"
    and "\<not> all_digits (encodeURIComponent n)" and "getElementById (doc d) n = Some s"
  shows "getIndicesFromHash d (CHR 0x23 # getHash d None) =
    Some ((getIndices d (Some s))\<lparr>ifr := hash_fragment d\<rparr>)"
proof -
  let ?e = "encodeURIComponent n"
  define f where "f = (if cfg_fragmentInURL (cfg d) then ifr (getIndices d None) else Undef)"
  have hf: "hash_fragment d = (if jv_ge f 0 then f else Undef)" by (simp add: hash_fragment_def f_def Let_def)
  have h: "getHash d None = CHR ''/'' # ?e @ (if jv_ge f 0 then ''/'' @ show_jsval f else [])"
    using assms(1-3) by (simp add: getHash_def named_path_def f_def Let_def)
  show ?thesis
  proof (cases "jv_ge f 0")
    case True
    then obtain k where k: "f = Num k" "0 \<le> k" using jv_ge_num [of f] by auto
    have sp: "split_on (CHR ''/'') (?e @ CHR ''/'' # show_nat (nat k)) = [?e, show_nat (nat k)]"
      by (simp add: split_on_append_sep encode_no_slash split_numbers)
    have g: "getHash d None = CHR ''/'' # ?e @ CHR ''/'' # show_nat (nat k)"
      using h k by (simp add: show_int_nonneg)
    show ?thesis
      unfolding getIndicesFromHash_def g strip_named
      using sp show_nat_suffix [OF encode_no_slash] assms(3-5) k
      by (simp add: Let_def hf or_undef_def encode_nonempty del: strip_hash.simps)
  next
    case False
    have sp: "split_on (CHR ''/'') ?e = [?e]" by (simp add: split_on_no_sep encode_no_slash)
    then have "\<not> has_fragment_suffix ?e" by (simp add: has_fragment_suffix_def)
    moreover have "getHash d None = CHR ''/'' # ?e" using h False by simp
    ultimately show ?thesis
      using sp False assms(3-5)
      by (simp add: getIndicesFromHash_def hf encode_nonempty)
  qed
qed

text \<open>
  A slide whose id consists of digits is written by its id, but the hash is read as an index: the
  round trip gives the slide with that number.
\<close>

lemma encode_append: "encodeURIComponent (a @ b) = encodeURIComponent a @ encodeURIComponent b"
  by (induction a) simp_all

lemma encode_digit_char: "n < 10 \<Longrightarrow> encodeURIComponent [digit_char n] = [digit_char n]"
proof -
  assume "n < 10"
  then have "n \<in> {0, 1, 2, 3, 4, 5, 6, 7, 8, 9}" by auto
  then show ?thesis by (auto simp: digit_char_def uri_unreserved_def)
qed

lemma encode_show_nat: "encodeURIComponent (show_nat n) = show_nat n"
proof (induction n rule: show_nat.induct)
  case (1 n)
  then show ?case
    by (subst (1 2) show_nat.simps) (simp add: encode_append encode_digit_char del: encodeURIComponent.simps)
qed

lemma hash_numeric_id:
  assumes "currentSlide d = Some s" and n: "attrs (el (doc d) s) AId = Some (show_nat k)"
    and "hash_fragment d = Undef"
  shows "getIndicesFromHash d (CHR 0x23 # getHash d None) =
    Some \<lparr>ih = Num (int k - hashIndexBase d), iv = Num 0, ifr = Undef\<rparr>"
proof -
  have "getHash d None = CHR ''/'' # show_nat k"
    using assms by (auto simp: getHash_def named_path_def encode_show_nat Let_def hash_fragment_def split: if_splits)
  then show ?thesis
    by (simp add: getIndicesFromHash_def Let_def split_numbers all_digits_show_nat bit_index_def)
qed

section \<open>Debouncing\<close>

text \<open>The URL updates that are pending.\<close>

definition pending_urls :: "deck \<Rightarrow> string list" where
  "pending_urls d =
     List.map_filter (\<lambda>t. case taction t of TimReplaceState u \<Rightarrow> Some u | _ \<Rightarrow> None) (timers d)"

lemma map_filter_none: "(\<And>x. x \<in> set xs \<Longrightarrow> f x = None) \<Longrightarrow> List.map_filter f xs = []"
  by (induction xs) (auto simp: List.map_filter_simps)

lemma map_filter_append: "List.map_filter f (xs @ ys) = List.map_filter f xs @ List.map_filter f ys"
  by (simp add: List.map_filter_def)

text \<open>
  Of a burst of updates the last one wins: right after a call the URL is either written, with no
  update pending, or it is the only update pending.
\<close>

lemma debounced_last:
  assumes "timers_ok d"
  shows "pending_urls (debouncedReplaceState url d) =
      (if MAX_REPLACE_STATE_FREQUENCY < now d - replaceStateTimestamp d then [] else [url])"
    and "urlHash (debouncedReplaceState url d) =
      (if MAX_REPLACE_STATE_FREQUENCY < now d - replaceStateTimestamp d then url else urlHash d)"
proof -
  let ?c = "clear_timeout (replaceStateTimeout d) d"
  have "(case taction t of TimReplaceState u \<Rightarrow> Some u | _ \<Rightarrow> None) = None" if "t \<in> set (timers ?c)" for t
    using replace_slot.clear_empties [of d t] assms that
    by (simp add: timers_ok_def is_replace_timer_def split: timer_action.splits)
  then have none: "pending_urls ?c = []"
    unfolding pending_urls_def by (rule map_filter_none)
  show "pending_urls (debouncedReplaceState url d) =
      (if MAX_REPLACE_STATE_FREQUENCY < now d - replaceStateTimestamp d then [] else [url])"
    using none
    by (simp add: debounced_eq pending_urls_def replaceState_def set_timeout_def map_filter_append
        List.map_filter_simps)
  show "urlHash (debouncedReplaceState url d) =
      (if MAX_REPLACE_STATE_FREQUENCY < now d - replaceStateTimestamp d then url else urlHash d)"
    by (simp add: debounced_eq replaceState_def set_timeout_def clear_timeout_def)
qed

end
