(* ===== verification/Opening.thy ===== *)
theory Opening
  imports Startup HashLaws
begin

text \<open>
  Opening a deck on a URL: the configuration and the first synchronisation do not touch the URL, so
  \<open>start\<close> reads the hash the page was opened with, and it returns on the slide the hash names.
\<close>

section \<open>The URL before it is read\<close>

lemma urlHash_simps [simp]:
  "urlHash (emit x d) = urlHash d" "urlHash (update_doc f d) = urlHash d"
  "urlHash (update_ui g d) = urlHash d" "urlHash (dispatchEvent ev d) = urlHash d"
  "urlHash (clear_timeout i d) = urlHash d" "urlHash (snd (set_timeout a dl d)) = urlHash d"
  "urlHash (toggle_wrapper c b d) = urlHash d" "urlHash (update_elem s h d) = urlHash d"
  by (simp_all add: emit_def update_doc_def update_ui_def dispatchEvent_def dispatchPostMessage_def Let_def
      clear_timeout_def set_timeout_def toggle_wrapper_def update_elem_def)

lemma urlHash_fold: "(\<And>x d. urlHash (f x d) = urlHash d) \<Longrightarrow> urlHash (fold f xs d) = urlHash d"
  by (rule fold_keeps)

lemma urlHash_displays [simp]:
  "urlHash (progress_update d) = urlHash d" "urlHash (controls_update d) = urlHash d"
  "urlHash (notes_update d) = urlHash d" "urlHash (slideNumber_update d) = urlHash d"
  by (simp_all add: progress_update_def controls_update_def notes_update_def slideNumber_update_def Let_def
      split: option.splits)

lemma urlHash_set_player [simp]: "urlHash (set_player b d) = urlHash d"
  by (simp add: set_player_def split: option.splits)

lemma urlHash_cue [simp]: "urlHash (cueAutoSlide d) = urlHash d"
proof -
  have "urlHash (cancelAutoSlide d) = urlHash d" by (simp add: cancelAutoSlide_def)
  then show ?thesis
    by (simp add: cueAutoSlide_def Let_def set_timeout_def split: option.splits auto_slide.splits)
qed

lemma urlHash_layout [simp]: "urlHash (layout d) = urlHash d"
  by (simp add: layout_def layout_scale_def overview_update_def Let_def)

lemma urlHash_visibility [simp]: "urlHash (updateSlidesVisibility d) = urlHash d"
proof -
  have "urlHash (visibility_vertical x oy p d) = urlHash d" for x oy p d
    by (simp add: visibility_vertical_def loadSlide_def unloadSlide_def)
  then have "urlHash (visibility_horizontal p d) = urlHash d" for p d
    by (simp add: visibility_horizontal_def Let_def urlHash_fold loadSlide_def unloadSlide_def)
  then show ?thesis by (simp add: updateSlidesVisibility_def Let_def urlHash_fold)
qed

lemma urlHash_sync: "currentSlide d = None \<Longrightarrow> urlHash (sync d) = urlHash d"
  by (simp add: sync_def Let_def writeURL_def sortAll_def notes_updateVisibility_def start_current_def
      overview_layout_def split: option.splits)

lemma urlHash_configure:
  assumes "currentSlide d = None" and "\<not> cfg_shuffle (cfg d)"
  shows "urlHash (configure True rnd (cfg d) d) = urlHash d"
proof -
  have r: "urlHash (resume d) = urlHash d" by (simp add: resume_def Let_def)
  have f: "urlHash (fragments_configure o1 (pointer_configure (focus_configure (configure_player z)))) = urlHash z"
    for o1 z
    by (simp add: fragments_configure_def fragments_disable_def fragments_enable_def pointer_configure_def
        showCursor_def focus_configure_def focus_focus_def focus_blur_def configure_player_def Let_def)
  have c: "currentSlide (configure_player z) = currentSlide z" for z
    using configure_player_quiet [of z] by (simp add: quiet_def)
  show ?thesis
    using assms by (simp add: configure_def Let_def urlHash_sync c f r)
qed

section \<open>The prepared deck\<close>

definition prepared_deck :: "(nat \<Rightarrow> nat) \<Rightarrow> deck \<Rightarrow> deck" where
  "prepared_deck rnd d =
     (let d1 = resetVerticalSlides (setupDOM (removeHiddenSlides d)) in configure True rnd (cfg d1) d1)"

lemma start_prepared:
  "start rnd d =
     do { d3 \<leftarrow> readURL (prepared_deck rnd d);
          Some (snd (set_timeout TimReady (Fin 1) (emit UpdateBackgrounds d3))) }"
  by (simp add: start_def prepared_deck_def Let_def)

text \<open>A document a deck can be opened on: well formed, with a slide, and with valid states.\<close>

definition can_open :: "deck \<Rightarrow> bool" where
  "can_open d \<longleftrightarrow>
     wf_doc (doc d) \<and> getHorizontalSlides d \<noteq> [] \<and> states_ok (doc d)"

lemma prepared_deck_facts:
  fixes rnd :: "nat \<Rightarrow> nat"
  assumes open1: "can_open (removeHiddenSlides d)" and d: "d = initial_deck c b dm hash t"
    and c: "\<not> cfg_shuffle c" "\<not> isPrintingPDF b"
  defines "e \<equiv> prepared_deck rnd d"
  shows "deck_ok e" "timers_ok e" "indexh e = Undef" "indexv e = Undef" "cfg e = c" "env e = b" "urlHash e = hash"
    "currentSlide e = None" "same_shape (doc (removeHiddenSlides d)) (doc e)" "overviewActive e = False"
proof -
  let ?d0 = "setupDOM (removeHiddenSlides d)" and ?d1 = "resetVerticalSlides (setupDOM (removeHiddenSlides d))"
  have e: "e = configure True rnd (cfg ?d1) ?d1" by (simp add: e_def prepared_deck_def Let_def)
  have f: "cfg ?d1 = c" "env ?d1 = b" "indexh ?d1 = Undef" "indexv ?d1 = Undef" "currentSlide ?d1 = None"
    "deckState ?d1 = []" "urlHash ?d1 = hash" "overviewActive ?d1 = False"
    by (simp_all add: resetVerticalSlides_def update_doc_def setupDOM_def removeHiddenSlides_def d
        initial_deck_def)
  have dm0: "doc ?d0 = doc (removeHiddenSlides d)" by (simp add: setupDOM_def)
  have sh: "same_shape (doc (removeHiddenSlides d)) (doc ?d1)"
    using resetVertical_shape [of ?d0] by (simp add: dm0)
  have "all_slides (doc ?d1) = all_slides (doc (removeHiddenSlides d))"
    unfolding all_slides_def same_shape_root [OF sh]
    by (rule same_shape_queryAll_node [OF sh]) (rule same_shape_is_section [OF sh])
  then have "states_ok (doc ?d1)"
    using open1 by (simp add: can_open_def states_ok_def state_tokens_def resetVertical_attr dm0)
  then have ok1: "deck_ok ?d1"
    using open1 c by (simp add: can_open_def deck_ok_def f same_shape_wf [OF sh] same_shape_getHorizontal [OF sh]
        leaf_current_def)
  have q: "quiet ?d1 e" unfolding e by (rule configure_quiet) (simp add: f c)
  show "deck_ok e" by (rule quiet_deck_ok [OF q ok1])
  have "same_timers d ?d0"
    by (simp add: setupDOM_def removeHiddenSlides_def update_doc_def same_timers_def isPaused_def)
  then have "timers_ok ?d1"
    using initial_timers_ok [of c b dm hash t] same_timers_ok [OF resetVertical_timers [of ?d0]]
      same_timers_ok [of d ?d0] by (simp add: d)
  then show "timers_ok e" unfolding e by (intro configure_timers) (simp_all add: f c)
  show "indexh e = Undef" "indexv e = Undef" "cfg e = c" "env e = b" "currentSlide e = None" "overviewActive e = False"
    using q f by (simp_all add: quiet_def)
  show "urlHash e = hash" using urlHash_configure [of ?d1 rnd] f c by (simp add: e)
  show "same_shape (doc (removeHiddenSlides d)) (doc e)"
    by (rule same_shape_trans [OF sh same_marks_shape [OF quiet_marks [OF q]]])
qed

section \<open>The first slide\<close>

text \<open>A hash that names a position by its indices.\<close>

definition index_hash :: "string \<Rightarrow> bool" where
  "index_hash hash \<longleftrightarrow> all_digits (hd (split_on (CHR ''/'') (strip_hash hash)))"

lemma index_hash_cfg:
  "index_hash hash \<Longrightarrow> cfg d' = cfg d \<Longrightarrow> getIndicesFromHash d' hash = getIndicesFromHash d hash"
  by (simp add: getIndicesFromHash_def index_hash_def Let_def hashIndexBase_def)

lemma index_hash_Some:
  assumes "index_hash hash"
  shows "\<exists>a b f. getIndicesFromHash d hash = Some \<lparr>ih = Num a, iv = Num b, ifr = f\<rparr>"
  using assms by (simp add: getIndicesFromHash_def index_hash_def Let_def)

lemma ready_inv: "deck_inv d \<Longrightarrow> deck_inv (snd (set_timeout TimReady (Fin 1) (emit UpdateBackgrounds d)))"
  by (intro set_timeout_inv emit_inv) (simp_all add: is_auto_timer_def is_replace_timer_def)

lemma start_opens:
  fixes rnd :: "nat \<Rightarrow> nat"
  assumes open1: "can_open (removeHiddenSlides d)" and d: "d = initial_deck c b dm hash t"
    and c: "\<not> cfg_shuffle c" "\<not> isPrintingPDF b" "\<And>h v. \<not> prevents b h v"
    and hash: "index_hash hash" "getIndicesFromHash d hash = Some \<lparr>ih = Num x, iv = Num y, ifr = f\<rparr>"
  shows "\<exists>d'. start rnd d = Some d' \<and> deck_inv d' \<and>
    at_position (settled_h (removeHiddenSlides d) x) (settled_v (removeHiddenSlides d) x y) d'"
proof -
  let ?e = "prepared_deck rnd d" and ?o = "removeHiddenSlides d"
  note e = prepared_deck_facts [OF open1 d c(1,2), of rnd]
  have "cfg d = c" "cfg ?o = c" by (simp_all add: d initial_deck_def removeHiddenSlides_def update_doc_def)
  then have g: "getIndicesFromHash ?e (urlHash ?e) = Some \<lparr>ih = Num x, iv = Num y, ifr = f\<rparr>"
    using hash index_hash_cfg [OF hash(1), of ?e d] by (simp add: e)
  have same: "settled_h ?e x = settled_h ?o x" "settled_v ?e x y = settled_v ?o x y"
    using \<open>cfg ?o = c\<close>
    by (simp_all add: settled_h_def settled_v_def settled_stack_def e(5) same_shape_getHorizontal [OF e(9)]
        same_shape_sections [OF e(9)])
  have "readURL ?e = slide (Num x) (Num y) f ?e"
    using g e(3) by (simp add: readURL_def Let_def getIndices_def)
  moreover obtain d3 where d3: "slide (Num x) (Num y) f ?e = Some d3"
    "at_position (settled_h ?o x) (settled_v ?o x y) d3" "deck_ok d3"
    using slide_lands [OF e(1), of "Num x" "Num y" x y f] c(3)
    by (auto simp: e jv_default_def resume_vertical_def same)
  moreover have "timers_ok d3" by (rule slide_keeps_timers [OF d3(1) e(2)])
  then have "deck_inv d3" using d3(2,3) by (auto simp: deck_inv_def positioned_def)
  moreover have "quiet d3 (snd (set_timeout TimReady (Fin 1) (emit UpdateBackgrounds d3)))"
    by (rule set_timeout.compose) (rule emit.quiet)
  ultimately show ?thesis
    using quiet_at_position ready_inv by (simp add: start_prepared)
qed

text \<open>Whatever the hash names, a start that returns leaves a settled deck.\<close>

lemma start_settles:
  assumes open1: "can_open (removeHiddenSlides d)" and d: "d = initial_deck c b dm hash t"
    and c: "\<not> cfg_shuffle c" "\<not> isPrintingPDF b" "\<And>h v. \<not> prevents b h v"
    and s: "start rnd d = Some d'"
  shows "deck_inv d'"
proof -
  note e = prepared_deck_facts [OF open1 d c(1,2), of rnd]
  obtain d3 where r: "readURL (prepared_deck rnd d) = Some d3"
    and d': "d' = snd (set_timeout TimReady (Fin 1) (emit UpdateBackgrounds d3))"
    using s by (auto simp: start_prepared split: Option.bind_splits)
  obtain h v f where sl: "slide h v f (prepared_deck rnd d) = Some d3" using readURL_first [OF e(3) r] by blast
  have "positioned d3" by (rule slide_settles [OF e(1) sl]) (simp add: e c)
  moreover have "timers_ok d3" by (rule slide_keeps_timers [OF sl e(2)])
  ultimately show ?thesis unfolding d' by (intro ready_inv) (simp add: deck_inv_def)
qed

end
