(* ===== verification/FragmentSteps.thy ===== *)
theory FragmentSteps
  imports FragmentLaws
begin

text \<open>
  The stepping of fragments: in a slide whose fragments are numbered and visible up to an index,
  \<open>goto\<close> shows exactly the fragments up to the new index, and \<open>next\<close> and \<open>prev\<close> move it by one.
\<close>

section \<open>One pass of the update loop\<close>

text \<open>The number an element carries, and what the pass with index \<open>c\<close> makes of it.\<close>

definition number_of :: "elem \<Rightarrow> int" where
  "number_of e = (case Option.bind (attrs e DataFragmentIndex) parseInt10 of None \<Rightarrow> - 1 | Some k \<Rightarrow> k)"

definition step_elem :: "int \<Rightarrow> elem \<Rightarrow> elem" where
  "step_elem c e =
     (let k = number_of e
      in if k \<le> c
         then (let e1 = remove_class CurrentFragment (add_class Visible e)
               in if k = c then add_class CurrentFragment e1 else e1)
         else remove_class CurrentFragment (remove_class Visible e))"

lemma has_number_number: "has_number dm f k \<Longrightarrow> number_of (el dm f) = int k"
  by (simp add: has_number_def number_of_def)

lemma number_of_step [simp]: "number_of (step_elem c e) = number_of e"
  by (simp add: number_of_def step_elem_def Let_def)

lemma step_elem_idem: "step_elem c (step_elem c e) = step_elem c e"
  unfolding step_elem_def [of c "step_elem c e"] number_of_step
  by (auto simp: step_elem_def Let_def add_class_def remove_class_def intro!: elem.equality)

lemma step_elem_marks: "same_marks_elem e (step_elem c e)"
  unfolding step_elem_def Let_def
  by (auto intro!: mark_elem_intros progress_class_mem)

lemma step_elem_visible: "has_class Visible (step_elem c e) \<longleftrightarrow> number_of e \<le> c"
  by (simp add: step_elem_def Let_def)

lemma attrs_step_elem [simp]: "attrs (step_elem c e) = attrs e"
  by (simp add: step_elem_def Let_def)

lemma update_el_fuse: "update_el i g (update_el i f dm) = update_el i (\<lambda>e. g (f e)) dm"
  by (simp add: update_el_def)

lemma update_el_eqI: "f (el dm i) = g (el dm i) \<Longrightarrow> update_el i f dm = update_el i g dm"
  by (simp add: update_el_def)

lemma fragment_step_numbered:
  assumes "has_number (doc (fl_deck l)) f k"
  shows "doc (fl_deck (fragment_step (Num c) (m, f) l)) = update_el f (step_elem c) (doc (fl_deck l))"
    and "fl_shown (fragment_step (Num c) (m, f) l) =
      fl_shown l @ (if int k \<le> c \<and> \<not> has_class Visible (el (doc (fl_deck l)) f) then [f] else [])"
    and "fl_hidden (fragment_step (Num c) (m, f) l) =
      fl_hidden l @ (if c < int k \<and> has_class Visible (el (doc (fl_deck l)) f) then [f] else [])"
proof -
  have n: "number_of (el (doc (fl_deck l)) f) = int k" by (rule has_number_number [OF assms])
  have a: "attrs (el (doc (fl_deck l)) f) DataFragmentIndex = Some (show_nat k)"
    using assms by (simp add: has_number_def)
  show "doc (fl_deck (fragment_step (Num c) (m, f) l)) = update_el f (step_elem c) (doc (fl_deck l))"
    by (auto simp: fragment_step_def a jv_of_parse_def show_fragment_def hide_fragment_def
        update_elem_def update_doc_def update_el_fuse step_elem_def n Let_def emit_def
        intro!: update_el_eqI)
  show "fl_shown (fragment_step (Num c) (m, f) l) =
      fl_shown l @ (if int k \<le> c \<and> \<not> has_class Visible (el (doc (fl_deck l)) f) then [f] else [])"
    by (simp add: fragment_step_def a jv_of_parse_def show_fragment_def hide_fragment_def Let_def)
  show "fl_hidden (fragment_step (Num c) (m, f) l) =
      fl_hidden l @ (if c < int k \<and> has_class Visible (el (doc (fl_deck l)) f) then [f] else [])"
    by (simp add: fragment_step_def a jv_of_parse_def show_fragment_def hide_fragment_def Let_def)
qed

lemma has_number_cong: "attrs (el dm' f) = attrs (el dm f) \<Longrightarrow> has_number dm' f k = has_number dm f k"
  by (simp add: has_number_def)

lemma fragment_fold_numbered:
  fixes c :: int and m :: nat
  assumes "distinct fs" and "\<And>f. f \<in> set fs \<Longrightarrow> \<exists>k. has_number (doc (fl_deck l)) f k"
  defines "r \<equiv> fold (fragment_step (Num c)) (enumerate m fs) l"
  shows "doc (fl_deck r) = update_all (step_elem c) fs (doc (fl_deck l)) \<and>
    fl_shown r = fl_shown l @ filter (\<lambda>f. number_of (el (doc (fl_deck l)) f) \<le> c \<and>
      \<not> has_class Visible (el (doc (fl_deck l)) f)) fs \<and>
    fl_hidden r = fl_hidden l @ filter (\<lambda>f. c < number_of (el (doc (fl_deck l)) f) \<and>
      has_class Visible (el (doc (fl_deck l)) f)) fs"
  using assms(1,2) unfolding r_def
proof (induction fs arbitrary: m l)
  case Nil
  show ?case by simp
next
  case (Cons f fs)
  let ?l = "fragment_step (Num c) (m, f) l"
  obtain k where k: "has_number (doc (fl_deck l)) f k" using Cons.prems(2) by auto
  note s = fragment_step_numbered [OF k, of c m]
  have f: "f \<notin> set fs" using Cons.prems(1) by simp
  have same: "el (doc (fl_deck ?l)) x = el (doc (fl_deck l)) x" if "x \<in> set fs" for x
    using f that by (auto simp: s(1) el_update_el)
  have "\<exists>k. has_number (doc (fl_deck ?l)) x k" if "x \<in> set fs" for x
    using Cons.prems(2) [of x] that by (simp add: has_number_cong [of "doc (fl_deck ?l)" x "doc (fl_deck l)"] same)
  with Cons.prems(1) Cons.IH [of ?l "Suc m"]
  have ih: "doc (fl_deck (fold (fragment_step (Num c)) (enumerate (Suc m) fs) ?l)) =
      update_all (step_elem c) fs (doc (fl_deck ?l))"
    "fl_shown (fold (fragment_step (Num c)) (enumerate (Suc m) fs) ?l) =
      fl_shown ?l @ filter (\<lambda>f. number_of (el (doc (fl_deck ?l)) f) \<le> c \<and>
        \<not> has_class Visible (el (doc (fl_deck ?l)) f)) fs"
    "fl_hidden (fold (fragment_step (Num c)) (enumerate (Suc m) fs) ?l) =
      fl_hidden ?l @ filter (\<lambda>f. c < number_of (el (doc (fl_deck ?l)) f) \<and>
        has_class Visible (el (doc (fl_deck ?l)) f)) fs" by simp_all
  have fil: "filter (\<lambda>f. P (el (doc (fl_deck ?l)) f)) fs = filter (\<lambda>f. P (el (doc (fl_deck l)) f)) fs" for P
    by (rule filter_cong [OF refl]) (simp add: same)
  show ?case
    using ih fil [of "\<lambda>e. number_of e \<le> c \<and> \<not> has_class Visible e"]
      fil [of "\<lambda>e. c < number_of e \<and> has_class Visible e"] has_number_number [OF k]
    by (simp add: s)
qed

lemma fragment_loop_numbered:
  assumes "distinct fs" and "\<And>f. f \<in> set fs \<Longrightarrow> \<exists>k. has_number (doc d) f k"
  shows "doc (fl_deck (fragment_loop (Num c) fs d)) = update_all (step_elem c) fs (doc d)"
    and "fl_shown (fragment_loop (Num c) fs d) = filter (\<lambda>f. number_of (el (doc d) f) \<le> c \<and>
      \<not> has_class Visible (el (doc d) f)) fs"
    and "fl_hidden (fragment_loop (Num c) fs d) = filter (\<lambda>f. c < number_of (el (doc d) f) \<and>
      has_class Visible (el (doc d) f)) fs"
  using fragment_fold_numbered [OF assms(1), of "\<lparr>fl_shown = [], fl_hidden = [], fl_max = Num 0, fl_deck = d\<rparr>" c 0]
    assms(2) by (simp_all add: fragment_loop_def)
section \<open>Staged slides\<close>

definition enabled_fragments :: "deck \<Rightarrow> nat list" where
  "enabled_fragments d =
     (case currentSlide d of None \<Rightarrow> [] | Some s \<Rightarrow> queryAll (doc d) s is_enabled_fragment)"

text \<open>The fragments of the current slide are numbered in \<open>n\<close> groups.\<close>

definition prepared :: "nat \<Rightarrow> deck \<Rightarrow> bool" where
  "prepared n d \<longleftrightarrow>
     cfg_fragments (cfg d) \<and> currentSlide d \<noteq> None \<and> distinct (enabled_fragments d) \<and>
     numbered (enabled_fragments d) n (doc d) \<and> 0 < n \<and> n < 2 ^ 32"

text \<open>
  The current slide shows the fragments up to group \<open>c\<close>: the state every slide with fragments is in
  once \<open>goto\<close> has run on it.
\<close>

definition staged :: "nat \<Rightarrow> int \<Rightarrow> deck \<Rightarrow> bool" where
  "staged n c d \<longleftrightarrow>
     prepared n d \<and> - 1 \<le> c \<and> c < int n \<and>
     list_all (\<lambda>f. has_class Visible (el (doc d) f) \<longleftrightarrow> number_of (el (doc d) f) \<le> c) (enabled_fragments d)"

lemma disabled_not_progress: "Disabled \<notin> progress_classes" "Fragment \<notin> progress_classes"
  by (simp_all add: progress_classes_def)

lemma same_marks_enabled:
  "same_marks dm dm' \<Longrightarrow> queryAll dm' s is_enabled_fragment = queryAll dm s is_enabled_fragment"
  by (rule same_shape_queryAll [OF same_marks_shape])
    (simp_all add: is_enabled_fragment_def same_marks_class disabled_not_progress)

lemma quiet_enabled: "quiet d d' \<Longrightarrow> enabled_fragments d' = enabled_fragments d"
  by (simp add: quiet_def enabled_fragments_def same_marks_enabled split: option.splits)

lemma queryAll_conj: "queryAll dm s (\<lambda>e. P e \<and> Q e) = filter (\<lambda>f. Q (el dm f)) (queryAll dm s P)"
  by (auto simp: queryAll_def queryAll_node_def conj_commute split: option.splits)

lemma visible_enabled:
  "queryAll dm s is_enabled_visible_fragment =
     filter (\<lambda>f. has_class Visible (el dm f)) (queryAll dm s is_enabled_fragment)"
  using queryAll_conj [of dm s is_enabled_fragment "has_class Visible"]
  by (simp add: is_enabled_visible_fragment_def [abs_def])

lemma staged_prefix:
  assumes "numbered fs n dm" and "- 1 \<le> c" "c < int n"
    and v: "\<And>f. f \<in> set fs \<Longrightarrow> V f \<longleftrightarrow> number_of (el dm f) \<le> c"
  shows "numbered (filter V fs) (nat (c + 1)) dm"
proof -
  have "\<exists>k < nat (c + 1). has_number dm f k" if f: "f \<in> set (filter V fs)" for f
  proof -
    obtain k where "has_number dm f k" using assms(1) f unfolding numbered_iff by auto
    with f v [of f] has_number_number [of dm f k] show ?thesis
      by (intro exI [of _ k]) auto
  qed
  moreover have "\<exists>f \<in> set (filter V fs). has_number dm f k" if k: "k < nat (c + 1)" for k
  proof -
    have "k < n" using k assms(3) by simp
    then obtain f where "f \<in> set fs" "has_number dm f k"
      using assms(1) unfolding numbered_iff by blast
    with k v [of f] has_number_number [of dm f k] show ?thesis by auto
  qed
  ultimately show ?thesis unfolding numbered_iff by blast
qed

lemma last_numbered:
  assumes "numbered fs n dm" and "n < 2 ^ 32" and "distinct fs"
  shows "last_index fs dm = (if n = 0 then Undef else Num (int n - 1), dm)"
proof (cases n)
  case 0
  with assms(1) have "fs = []" by (cases fs) (auto simp: numbered_iff)
  with 0 show ?thesis
    using sort_numbered [OF assms] numbered_groups [OF assms(1,2)]
    by (simp add: last_index_def fragments_sort_def sort_doc_eq)
next
  case (Suc m)
  let ?g = "\<lambda>k. filter (\<lambda>f. has_number dm f k) fs"
  obtain f where "f \<in> set fs" "has_number dm f m" using assms(1) Suc by (auto simp: numbered_iff)
  then have ne: "?g m \<noteq> []" by (auto simp: filter_empty_conv)
  have "concat (fragment_groups dm fs) = concat (map ?g [0..<m]) @ ?g m"
    by (simp add: numbered_groups [OF assms(1,2)] Suc)
  with ne have l: "concat (fragment_groups dm fs) \<noteq> []" "last (concat (fragment_groups dm fs)) = last (?g m)"
    by simp_all
  have "has_number dm (last (?g m)) m" using last_in_set [OF ne] by simp
  then have "attrs (el dm (last (?g m))) DataFragmentIndex = Some (show_int (int m))"
    by (simp add: has_number_def show_int_nonneg)
  with l Suc sort_numbered [OF assms] show ?thesis
    by (simp add: last_index_def fragments_sort_def sort_doc_eq jv_of_parse_def)
qed

lemma doc_writeURL [simp]: "doc (writeURL d) = doc d"
  by (simp add: writeURL_def debouncedReplaceState_def assign_hash_def replaceState_def
      clear_timeout_def set_timeout_def Let_def)

lemma doc_fragments_notify [simp]: "doc (fragments_notify ch d) = doc d"
  by (simp add: fragments_notify_def Let_def)

text \<open>The group shown after a request for group \<open>i\<close> of \<open>n\<close>.\<close>

definition reached_group :: "nat \<Rightarrow> int \<Rightarrow> int" where
  "reached_group n i = max (- 1) (min i (int n - 1))"

lemma update_doc_id: "f (doc d) = doc d \<Longrightarrow> update_doc f d = d"
  by (simp add: update_doc_def)
lemma staged_visible_sorted:
  assumes s: "staged n c d" and t: "currentSlide d = Some t"
  defines "vis \<equiv> queryAll (doc d) t is_enabled_visible_fragment"
  shows "last_index vis (doc d) = (if c = - 1 then Undef else Num c, doc d)" and "sort_doc vis (doc d) = doc d"
proof -
  let ?fs = "enabled_fragments d"
  have fs: "?fs = queryAll (doc d) t is_enabled_fragment" using t by (simp add: enabled_fragments_def)
  have vis: "vis = filter (\<lambda>f. has_class Visible (el (doc d) f)) ?fs"
    by (simp add: vis_def visible_enabled fs)
  have "numbered vis (nat (c + 1)) (doc d)"
    unfolding vis using s by (intro staged_prefix [of _ n]) (simp_all add: staged_def prepared_def list_all_iff)
  moreover have "nat (c + 1) < 2 ^ 32" "distinct vis" using s by (auto simp: staged_def prepared_def vis)
  ultimately show "last_index vis (doc d) = (if c = - 1 then Undef else Num c, doc d)"
    "sort_doc vis (doc d) = doc d"
    using last_numbered sort_numbered s by (auto simp: staged_def)
qed

lemma quiet_staged: "quiet d d' \<Longrightarrow> doc d' = doc d \<Longrightarrow> staged n c d' = staged n c d"
  using quiet_enabled [of d d'] by (simp add: staged_def prepared_def quiet_def)

text \<open>What a staged slide says of its fragments.\<close>

lemma prepared_facts:
  assumes "prepared n d"
  shows "cfg_fragments (cfg d)" "distinct (enabled_fragments d)" "numbered (enabled_fragments d) n (doc d)"
    "0 < n" "n < 2 ^ 32" "enabled_fragments d \<noteq> []"
    "\<And>f. f \<in> set (enabled_fragments d) \<Longrightarrow> \<exists>k < n. has_number (doc d) f k"
    "\<And>f. f \<in> set (enabled_fragments d) \<Longrightarrow> 0 \<le> number_of (el (doc d) f) \<and> number_of (el (doc d) f) < int n"
    "\<And>k. k < n \<Longrightarrow> \<exists>f \<in> set (enabled_fragments d). number_of (el (doc d) f) = int k"
proof -
  show "\<And>f. f \<in> set (enabled_fragments d) \<Longrightarrow> 0 \<le> number_of (el (doc d) f) \<and> number_of (el (doc d) f) < int n"
    "\<And>k. k < n \<Longrightarrow> \<exists>f \<in> set (enabled_fragments d). number_of (el (doc d) f) = int k"
    using assms has_number_number unfolding prepared_def numbered_iff by fastforce+
qed (use assms in \<open>auto simp: prepared_def numbered_iff list_all_iff\<close>)

lemma staged_facts:
  assumes "staged n c d"
  shows "prepared n d" "- 1 \<le> c" "c < int n"
    "\<And>f. f \<in> set (enabled_fragments d) \<Longrightarrow> has_class Visible (el (doc d) f) \<longleftrightarrow> number_of (el (doc d) f) \<le> c"
  using assms by (auto simp: staged_def list_all_iff)

text \<open>The update of a staged slide: the elements after the loop, and what changed.\<close>

lemma update_staged_loop:
  assumes s: "prepared n d" and fs: "distinct fs" "set fs = set (enabled_fragments d)"
  shows "ch_shown (fst (fragments_update (Num i) (Some fs) d)) =
      filter (\<lambda>f. number_of (el (doc d) f) \<le> i \<and> \<not> has_class Visible (el (doc d) f)) fs"
    and "ch_hidden (fst (fragments_update (Num i) (Some fs) d)) =
      filter (\<lambda>f. i < number_of (el (doc d) f) \<and> has_class Visible (el (doc d) f)) fs"
    and "f \<in> set fs \<Longrightarrow>
      attrs (el (doc (snd (fragments_update (Num i) (Some fs) d))) f) DataFragmentIndex =
        attrs (el (doc d) f) DataFragmentIndex \<and>
      (has_class Visible (el (doc (snd (fragments_update (Num i) (Some fs) d))) f) \<longleftrightarrow>
        number_of (el (doc d) f) \<le> i)"
proof -
  obtain t where t: "currentSlide d = Some t" using s by (auto simp: prepared_def)
  let ?l = "fragment_loop (Num i) fs d"
  have "fs \<noteq> []" using prepared_facts(6) [OF s] fs(2) by auto
  then obtain g where u: "fragments_update (Num i) (Some fs) d =
      (\<lparr>ch_shown = fl_shown ?l, ch_hidden = fl_hidden ?l\<rparr>,
       update_elem t (set_attr DataFragment g) (fl_deck ?l))"
    by (simp add: fragments_update_def t prepared_facts(1) [OF s] Let_def)
  have "\<And>f. f \<in> set fs \<Longrightarrow> \<exists>k. has_number (doc d) f k" using prepared_facts(7) [OF s] fs(2) by blast
  note l = fragment_loop_numbered [OF fs(1) this, of i]
  show "ch_shown (fst (fragments_update (Num i) (Some fs) d)) =
      filter (\<lambda>f. number_of (el (doc d) f) \<le> i \<and> \<not> has_class Visible (el (doc d) f)) fs"
    and "ch_hidden (fst (fragments_update (Num i) (Some fs) d)) =
      filter (\<lambda>f. i < number_of (el (doc d) f) \<and> has_class Visible (el (doc d) f)) fs"
    by (simp_all add: u l)
  show "attrs (el (doc (snd (fragments_update (Num i) (Some fs) d))) f) DataFragmentIndex =
        attrs (el (doc d) f) DataFragmentIndex \<and>
      (has_class Visible (el (doc (snd (fragments_update (Num i) (Some fs) d))) f) \<longleftrightarrow>
        number_of (el (doc d) f) \<le> i)" if "f \<in> set fs"
    using that by (auto simp: u update_elem_def update_doc_def el_update_el l(1) step_elem_visible
        el_update_all [of "step_elem i", OF step_elem_idem])
qed

lemma update_staged:
  assumes s: "prepared n d" and fs: "distinct fs" "set fs = set (enabled_fragments d)"
  shows "staged n (reached_group n i) (snd (fragments_update (Num i) (Some fs) d))"
proof -
  let ?d = "snd (fragments_update (Num i) (Some fs) d)"
  have q: "quiet d ?d" by (rule fragments_update.quiet)
  note e = update_staged_loop(3) [OF s fs, of _ i]
  have num': "has_number (doc ?d) f k = has_number (doc d) f k"
    and no': "number_of (el (doc ?d) f) = number_of (el (doc d) f)" if "f \<in> set fs" for f k
    using e [OF that] by (simp_all add: has_number_def number_of_def)
  have "numbered (enabled_fragments d) n (doc ?d)"
    using prepared_facts(3) [OF s] num' fs(2) unfolding numbered_iff by simp
  moreover have "has_class Visible (el (doc ?d) f) \<longleftrightarrow> number_of (el (doc ?d) f) \<le> reached_group n i"
    if "f \<in> set fs" for f
    using e [OF that] no' [OF that] prepared_facts(8) [OF s, of f] that fs(2)
    by (auto simp: reached_group_def)
  ultimately show ?thesis
    using s q fs(2) by (auto simp: staged_def prepared_def quiet_enabled [OF q] quiet_def list_all_iff reached_group_def)
qed

lemma prepared_ex:
  assumes s: "prepared n d"
  shows "(\<exists>f \<in> set (enabled_fragments d). P (number_of (el (doc d) f))) \<longleftrightarrow> (\<exists>k. 0 \<le> k \<and> k < int n \<and> P k)"
proof
  assume "\<exists>k. 0 \<le> k \<and> k < int n \<and> P k"
  then obtain k where k: "0 \<le> k" "k < int n" "P k" by blast
  then have "nat k < n" by linarith
  then obtain f where "f \<in> set (enabled_fragments d)" "number_of (el (doc d) f) = k"
    using prepared_facts(9) [OF s] k(1) by fastforce
  with k(3) show "\<exists>f \<in> set (enabled_fragments d). P (number_of (el (doc d) f))" by blast
qed (use prepared_facts(8) [OF s] in blast)

lemma update_staged_changed:
  assumes s: "staged n c d" and fs: "distinct fs" "set fs = set (enabled_fragments d)"
  shows "(ch_shown (fst (fragments_update (Num i) (Some fs) d)) \<noteq> [] \<or>
     ch_hidden (fst (fragments_update (Num i) (Some fs) d)) \<noteq> []) \<longleftrightarrow> reached_group n i \<noteq> c"
proof -
  have "(\<exists>k. 0 \<le> k \<and> k < int n \<and> k \<le> i \<and> c < k) \<longleftrightarrow> c < reached_group n i"
    using staged_facts(2,3) [OF s]
    by (auto simp: reached_group_def intro!: exI [of _ "c + 1"])
  moreover have "(\<exists>k. 0 \<le> k \<and> k < int n \<and> i < k \<and> k \<le> c) \<longleftrightarrow> reached_group n i < c"
    using staged_facts(2,3) [OF s]
    by (auto simp: reached_group_def intro!: exI [of _ c])
  moreover have "ch_shown (fst (fragments_update (Num i) (Some fs) d)) \<noteq> [] \<longleftrightarrow>
      (\<exists>f \<in> set (enabled_fragments d). number_of (el (doc d) f) \<le> i \<and> c < number_of (el (doc d) f))"
    "ch_hidden (fst (fragments_update (Num i) (Some fs) d)) \<noteq> [] \<longleftrightarrow>
      (\<exists>f \<in> set (enabled_fragments d). i < number_of (el (doc d) f) \<and> number_of (el (doc d) f) \<le> c)"
    using staged_facts(4) [OF s] fs(2)
    by (simp_all add: update_staged_loop(1,2) [OF staged_facts(1) [OF s] fs] filter_empty_conv not_le)
      (meson leD not_le)+
  ultimately show ?thesis
    using prepared_ex [OF staged_facts(1) [OF s], of "\<lambda>k. k \<le> i \<and> c < k"] prepared_ex [OF staged_facts(1) [OF s], of "\<lambda>k. i < k \<and> k \<le> c"] by auto
qed

text \<open>\<open>goto\<close> on a staged slide reaches the group asked for, and tells whether that was a change.\<close>

lemma goto_staged:
  assumes s: "staged n c d" and i: "index = Undef \<and> i = c + offset \<or> index = Num (i - offset)"
  shows "staged n (reached_group n i) (snd (fragments_goto index offset d)) \<and>
    (fst (fragments_goto index offset d) \<longleftrightarrow> reached_group n i \<noteq> c)"
proof -
  obtain t where t: "currentSlide d = Some t" using s by (auto simp: staged_def prepared_def)
  have en: "queryAll (doc d) t is_enabled_fragment = enabled_fragments d"
    using t by (simp add: enabled_fragments_def)
  let ?fs = "fst (fragments_sort (enabled_fragments d) (doc d))"
  have so: "update_doc (sort_doc (enabled_fragments d)) d = d"
    by (rule update_doc_id) (rule sort_numbered [OF prepared_facts(3,5,2) [OF staged_facts(1) [OF s]]])
  note vis = staged_visible_sorted [OF s t]
  have so2: "update_doc (sort_doc (queryAll (doc d) t is_enabled_visible_fragment)) d = d"
    by (rule update_doc_id) (rule vis(2))
  have sb: "sortable (enabled_fragments d) (doc d)" by (rule numbered_sortable [OF prepared_facts(3,5,2) [OF staged_facts(1) [OF s]]])
  have fs: "distinct ?fs" "set ?fs = set (enabled_fragments d)"
    unfolding sort_fst by (rule sort_distinct [OF sb], rule sort_set [OF sb])
  then have ne: "?fs \<noteq> []" using prepared_facts(6) [OF staged_facts(1) [OF s]] by auto
  let ?u = "fragments_update (Num i) (Some ?fs) d"
  have g: "fragments_goto index offset d =
      (ch_shown (fst ?u) \<noteq> [] \<or> ch_hidden (fst ?u) \<noteq> [], fragments_notify (fst ?u) (snd ?u))"
    using i ne by (auto simp: fragments_goto_def t prepared_facts(1) [OF staged_facts(1) [OF s]] en so so2 vis(1) Let_def)
  have "quiet (snd ?u) (fragments_notify (fst ?u) (snd ?u))" by (rule fragments_notify.quiet)
  moreover have "staged n (reached_group n i) (snd ?u)" by (rule update_staged [OF staged_facts(1) [OF s] fs])
  ultimately have "staged n (reached_group n i) (fragments_notify (fst ?u) (snd ?u))"
    by (simp add: quiet_staged)
  with update_staged_changed [OF s fs] show ?thesis unfolding g fst_conv snd_conv by blast
qed

text \<open>
  \<open>goto\<close> with an index, on any slide whose fragments can be sorted: the fragments are numbered by
  their groups, and those up to the index are the visible ones.
\<close>

lemma groups_length: "[] \<notin> set gs \<Longrightarrow> length gs \<le> length (concat gs)"
proof (induction gs)
  case Nil
  show ?case by simp
next
  case (Cons g gs)
  then have "0 < length g" by auto
  moreover have "length gs \<le> length (concat gs)" using Cons by simp
  ultimately have "Suc (length gs) \<le> length g + length (concat gs)" by linarith
  then show ?case by (simp only: concat.simps length_append list.size)
qed

lemma sort_prepares:
  assumes "cfg_fragments (cfg d)" and "enabled_fragments d \<noteq> []" and "length (enabled_fragments d) < 2 ^ 32"
    and s: "sortable (enabled_fragments d) (doc d)"
  shows "prepared (length (fragment_groups (doc d) (enabled_fragments d)))
    (update_doc (sort_doc (enabled_fragments d)) d)"
proof -
  let ?fs = "enabled_fragments d" and ?d = "update_doc (sort_doc (enabled_fragments d)) d"
  let ?gs = "fragment_groups (doc d) ?fs"
  have "length ?gs \<le> length (concat ?gs)" by (rule groups_length) (rule groups_nonempty)
  also have "\<dots> = length ?fs" using sort_permutes [OF s] by (rule mset_eq_length)
  finally have "length ?gs < 2 ^ 32" using assms(3) by simp
  moreover have "?gs \<noteq> []" using sort_set [OF s] assms(2) by auto
  moreover have "enabled_fragments ?d = ?fs" by (rule quiet_enabled) (rule sort_doc_quiet)
  moreover have "numbered ?fs (length ?gs) (doc ?d)" using sort_numbers [OF s] by (simp add: update_doc_def)
  moreover have "currentSlide d \<noteq> None" using assms(2) by (auto simp: enabled_fragments_def split: option.splits)
  ultimately show ?thesis using assms(1) s by (simp add: prepared_def sortable_def)
qed

lemma goto_index:
  assumes "cfg_fragments (cfg d)" and "enabled_fragments d \<noteq> []" and "length (enabled_fragments d) < 2 ^ 32"
    and s: "sortable (enabled_fragments d) (doc d)"
  defines "n \<equiv> length (fragment_groups (doc d) (enabled_fragments d))"
  shows "staged n (reached_group n i) (snd (fragments_goto (Num i) 0 d))"
proof -
  let ?fs = "fst (fragments_sort (enabled_fragments d) (doc d))"
  let ?d = "update_doc (sort_doc (enabled_fragments d)) d"
  obtain t where t: "currentSlide d = Some t" using assms(2) by (auto simp: enabled_fragments_def split: option.splits)
  have en: "queryAll (doc d) t is_enabled_fragment = enabled_fragments d"
    using t by (simp add: enabled_fragments_def)
  have p: "prepared n ?d" unfolding n_def by (rule sort_prepares [OF assms(1-4)])
  have "enabled_fragments ?d = enabled_fragments d" by (rule quiet_enabled) (rule sort_doc_quiet)
  then have fs: "distinct ?fs" "set ?fs = set (enabled_fragments ?d)"
    unfolding sort_fst using sort_distinct [OF s] sort_set [OF s] by simp_all
  then have "?fs \<noteq> []" using prepared_facts(6) [OF p] by auto
  let ?u = "fragments_update (Num i) (Some ?fs) ?d"
  have "snd (fragments_goto (Num i) 0 d) = fragments_notify (fst ?u) (snd ?u)"
    using \<open>?fs \<noteq> []\<close> by (simp add: fragments_goto_def t assms(1) en Let_def)
  moreover have "staged n (reached_group n i) (snd ?u)" by (rule update_staged [OF p fs])
  moreover have "quiet (snd ?u) (fragments_notify (fst ?u) (snd ?u))" by (rule fragments_notify.quiet)
  ultimately show ?thesis by (simp add: quiet_staged)
qed

section \<open>Repeated steps\<close>

text \<open>\<open>next\<close> taken again and again, and the list of its answers.\<close>

fun next_answers :: "nat \<Rightarrow> deck \<Rightarrow> bool list" where
  "next_answers 0 d = []"
| "next_answers (Suc k) d = fst (fragments_next d) # next_answers k (snd (fragments_next d))"

lemma next_staged:
  assumes "staged n c d"
  shows "staged n (min (c + 1) (int n - 1)) (snd (fragments_next d))"
    and "fst (fragments_next d) \<longleftrightarrow> c + 1 < int n"
  using goto_staged [OF assms, of Undef "c + 1" 1] staged_facts(2,3) [OF assms]
  by (auto simp: fragments_next_def reached_group_def)

lemma prev_staged:
  assumes "staged n c d"
  shows "staged n (max (c - 1) (- 1)) (snd (fragments_prev d))"
    and "fst (fragments_prev d) \<longleftrightarrow> 0 \<le> c"
  using goto_staged [OF assms, of Undef "c - 1" "- 1"] staged_facts(2,3) [OF assms]
  by (auto simp: fragments_prev_def reached_group_def max.commute)

lemma next_answers_staged:
  "staged n c d \<Longrightarrow> next_answers k d = map (\<lambda>j. c + 1 + int j < int n) [0..<k]"
proof (induction k arbitrary: c d)
  case 0
  show ?case by simp
next
  case (Suc k)
  have "map (\<lambda>j. min (c + 1) (int n - 1) + 1 + int j < int n) [0..<k] =
      map (\<lambda>j. c + 1 + int (Suc j) < int n) [0..<k]"
    by (rule map_cong) auto
  then show ?case
    using Suc.IH [OF next_staged(1) [OF Suc.prems]] next_staged(2) [OF Suc.prems]
    by (simp add: upt_conv_Cons map_Suc_upt [symmetric] comp_def del: upt_Suc)
qed

text \<open>The routes a staged slide offers are the answers of \<open>next\<close> and \<open>prev\<close>.\<close>

lemma staged_routes:
  assumes s: "staged n c d"
  shows "f_next (fragments_availableRoutes d) \<longleftrightarrow> c + 1 < int n"
    and "f_prev (fragments_availableRoutes d) \<longleftrightarrow> 0 \<le> c"
proof -
  obtain t where t: "currentSlide d = Some t" using s by (auto simp: staged_def prepared_def)
  let ?fs = "enabled_fragments d" and ?no = "\<lambda>f. number_of (el (doc d) f)"
  have fs: "queryAll (doc d) t is_enabled_fragment = ?fs" using t by (simp add: enabled_fragments_def)
  have hid: "queryAll (doc d) t is_hidden_fragment = filter (\<lambda>f. \<not> ?no f \<le> c) ?fs"
    using queryAll_conj [of "doc d" t is_enabled_fragment "\<lambda>e. \<not> has_class Visible e"] staged_facts(4) [OF s]
    by (simp add: is_hidden_fragment_def [abs_def] fs cong: filter_cong)
  note ex = prepared_ex [OF staged_facts(1) [OF s]]
  have "filter (\<lambda>f. \<not> ?no f \<le> c) ?fs \<noteq> [] \<longleftrightarrow> c + 1 < int n"
    using ex [of "\<lambda>k. \<not> k \<le> c"] staged_facts(2,3) [OF s]
    by (auto simp: filter_empty_conv intro!: exI [of _ "c + 1"])
  then show "f_next (fragments_availableRoutes d) \<longleftrightarrow> c + 1 < int n"
    using prepared_facts(1) [OF staged_facts(1) [OF s]]
    by (simp add: fragments_availableRoutes_def t hid Let_def)
  have "filter (\<lambda>f. ?no f \<le> c) ?fs \<noteq> [] \<longleftrightarrow> 0 \<le> c"
    using ex [of "\<lambda>k. k \<le> c"] staged_facts(2,3) [OF s]
    by (auto simp: filter_empty_conv)
  moreover have "length ?fs = length (filter (\<lambda>f. ?no f \<le> c) ?fs) + length (filter (\<lambda>f. \<not> ?no f \<le> c) ?fs)"
    by (rule sum_length_filter_compl [symmetric])
  ultimately show "f_prev (fragments_availableRoutes d) \<longleftrightarrow> 0 \<le> c"
    using prepared_facts(1) [OF staged_facts(1) [OF s]]
    by (simp add: fragments_availableRoutes_def t hid fs Let_def)
qed

text \<open>
  The routes agree with the steps: on a slide with staged fragments \<open>Fragments.availableRoutes\<close>
  offers next exactly when \<open>Fragments.next\<close> would answer true, and prev exactly when \<open>Fragments.prev\<close>
  would.
\<close>

lemma routes_are_answers:
  assumes "staged n c d"
  shows "f_next (fragments_availableRoutes d) = fst (fragments_next d) \<and>
    f_prev (fragments_availableRoutes d) = fst (fragments_prev d)"
  using staged_routes [OF assms] next_staged(2) [OF assms] prev_staged(2) [OF assms] by simp

text \<open>Sorting fragments that have been sorted changes nothing in the document.\<close>

lemma sort_stable:
  assumes "sortable fs dm" and "length fs < 2 ^ 32"
  shows "sort_doc fs (sort_doc fs dm) = sort_doc fs dm"
proof (rule sort_numbered)
  show "numbered fs (length (fragment_groups dm fs)) (sort_doc fs dm)" by (rule sort_numbers [OF assms(1)])
  have "length (fragment_groups dm fs) \<le> length (concat (fragment_groups dm fs))"
    by (rule groups_length) (rule groups_nonempty)
  also have "\<dots> = length fs" using sort_permutes [OF assms(1)] by (rule mset_eq_length)
  finally show "length (fragment_groups dm fs) < 2 ^ 32" using assms(2) by simp
  show "distinct fs" using assms(1) by (simp add: sortable_def)
qed

end
