(* ===== verification/LifecycleLaws.thy ===== *)
theory LifecycleLaws
  imports Steps FragmentLaws DocOrder
begin

text \<open>
  Properties of the preparation of a deck and of its life: the removal of hidden slides, the shuffle,
  the cueing of the automatic slide, and the restoring of a saved state.
\<close>

section \<open>Hidden slides\<close>

lemma prune_descendants:
  "m \<in> set (descendants (prune x n)) \<Longrightarrow>
    nid m \<noteq> x \<and> (\<exists>m' \<in> set (descendants n). nid m' = nid m)"
proof (induction x n rule: prune.induct)
  case (1 x i ns)
  then obtain c where c: "c \<in> set ns" "nid c \<noteq> x" "m \<in> set (prune x c # descendants (prune x c))"
    by auto
  have "nid (prune x c) = nid c" by (cases c) simp
  with c 1(1) [of c] show ?case
    by (cases "m = prune x c") fastforce+
qed

lemma remove_nodes:
  "m \<in> set (descendants (dom_root (fold remove_node xs dm))) \<Longrightarrow>
    nid m \<notin> set xs \<and> (\<exists>m' \<in> set (descendants (dom_root dm)). nid m' = nid m)"
proof (induction xs arbitrary: dm)
  case Nil
  then show ?case by auto
next
  case (Cons x xs)
  from Cons.IH [of "remove_node x dm"] Cons.prems obtain m' where
    "nid m \<notin> set xs" "m' \<in> set (descendants (prune x (dom_root dm)))" "nid m' = nid m"
    by (auto simp: remove_node_def)
  with prune_descendants [of m' x "dom_root dm"] show ?case by auto
qed

lemma remove_nodes_el: "el (fold remove_node xs dm) = el dm"
  by (rule fold_keeps) (simp add: remove_node_def)

lemma hidden_removed:
  assumes "\<not> cfg_showHiddenSlides (cfg d)"
  shows "queryAll_node (doc (removeHiddenSlides d)) (dom_root (doc (removeHiddenSlides d))) is_hidden_slide = []"
proof -
  define xs where "xs = queryAll_node (doc d) (dom_root (doc d)) is_hidden_slide"
  have e: "doc (removeHiddenSlides d) = fold remove_node xs (doc d)"
    using assms by (simp add: removeHiddenSlides_def update_doc_def xs_def)
  have "\<not> is_hidden_slide (el (doc d) (nid m))"
    if mem: "m \<in> set (descendants (dom_root (fold remove_node xs (doc d))))" for m
  proof -
    obtain m' where "nid m \<notin> set xs" "m' \<in> set (descendants (dom_root (doc d)))" "nid m' = nid m"
      using remove_nodes [OF mem] by blast
    then have "nid m \<notin> set xs" "nid m \<in> nid ` set (descendants (dom_root (doc d)))"
      by (simp_all add: rev_image_eqI)
    then show ?thesis by (simp add: queryAll_node_def xs_def)
  qed
  then show ?thesis
    unfolding e queryAll_node_def filter_empty_conv remove_nodes_el by auto
qed

section \<open>Shuffling\<close>

lemma insert_before_mset: "mset (insert_before x y ns) = mset ns"
proof -
  let ?r = "filter (\<lambda>n. nid n \<noteq> x) ns" and ?x = "filter (\<lambda>n. nid n = x) ns"
  have "mset (takeWhile P ?r) + mset (dropWhile P ?r) = mset ?r" for P
    by (metis takeWhile_dropWhile_id mset_append)
  then have "mset (takeWhile P ?r @ ?x @ dropWhile P ?r) = mset ?x + mset ?r" for P
    by (simp add: ac_simps)
  moreover have "mset ?x + mset ?r = mset ns"
    using multiset_partition [of "mset ns" "\<lambda>n. nid n = x"] by simp
  ultimately show ?thesis by (simp add: insert_before_def Let_def)
qed

lemma forest_mset: "mset ms = mset ns \<Longrightarrow> mset (map nid (forest ms)) = mset (map nid (forest ns))"
proof -
  have "mset (map nid (forest ns)) = sum_mset (image_mset (\<lambda>n. mset (map nid (n # descendants n))) (mset ns))"
    for ns by (induction ns) simp_all
  then show "mset ms = mset ns \<Longrightarrow> ?thesis" by simp
qed

lemma nid_reorder [simp]: "nid (reorder x y n) = nid n"
  by (cases n) simp

lemma reorder_descendants: "mset (map nid (descendants (reorder x y n))) = mset (map nid (descendants n))"
proof (induction x y n rule: reorder.induct)
  case (1 x y i ns)
  let ?ms = "map (reorder x y) ns"
  have "mset (map nid (forest ?ms)) = mset (map nid (forest ns))"
    using 1 by (induction ns) simp_all
  moreover have "mset (map nid (forest (insert_before x y ?ms))) = mset (map nid (forest ?ms))"
    by (rule forest_mset) (rule insert_before_mset)
  ultimately show ?case by (simp add: Let_def)
qed

lemma reorder_children: "mset (map nid (children (reorder x y n))) = mset (map nid (children n))"
proof (cases n)
  case (Node i ns)
  have "mset (map nid (insert_before x y (map (reorder x y) ns))) = mset (map nid ns)"
    using insert_before_mset [of x y "map (reorder x y) ns"] by (metis (no_types, lifting) mset_map list.map_comp comp_def nid_reorder map_cong)
  then show ?thesis by (simp add: Node Let_def comp_def multiset.map_comp)
qed

lemma shuffle_slides_invariant:
  assumes step: "\<And>x y dm. P dm \<Longrightarrow> P (dm\<lparr>dom_root := reorder x y (dom_root dm)\<rparr>)" and "P (snd s)"
  shows "P (snd (shuffle_slides fuel rnd slides s))"
  using assms(2)
proof (induction fuel arbitrary: slides s)
  case 0
  then show ?case by simp
next
  case (Suc fuel)
  show ?case
    unfolding shuffle_slides.simps
  proof (rule fold_invariant_mono [where P = "\<lambda>s. P (snd s)"])
    show "P (snd s)" by (rule Suc.prems)
  next
    fix x and s :: "nat \<times> dom"
    assume "P (snd s)"
    then show "P (snd (case s of (k, dm) \<Rightarrow>
        let before = slides ! (rnd k mod length slides);
            dm1 = dm\<lparr>dom_root := reorder x before (dom_root dm)\<rparr>;
            vs = queryAll dm1 x is_section
        in if vs \<noteq> [] then shuffle_slides fuel rnd vs (Suc k, dm1) else (Suc k, dm1)))"
      using step by (cases s) (auto simp: Let_def intro!: Suc.IH)
  qed
qed

lemma horizontal_filter: "horizontal_slides dm = filter (\<lambda>i. is_section (el dm i)) (map nid (children (dom_root dm)))"
  by (simp add: horizontal_slides_def horizontal_nodes_def section_children_def filter_map comp_def)

lemma shuffle_mset:
  "mset (map nid (nodes (doc (shuffle rnd d)))) = mset (map nid (nodes (doc d)))"
  "mset (horizontal_slides (doc (shuffle rnd d))) = mset (horizontal_slides (doc d))"
  "el (doc (shuffle rnd d)) = el (doc d)"
proof -
  let ?P = "\<lambda>dm. mset (map nid (nodes dm)) = mset (map nid (nodes (doc d))) \<and>
    mset (map nid (children (dom_root dm))) = mset (map nid (children (dom_root (doc d)))) \<and> el dm = el (doc d)"
  have "?P (snd (shuffle_slides fuel rnd hs (0, doc d)))" for fuel hs
    by (rule shuffle_slides_invariant [where P = ?P])
      (simp_all add: nodes_def reorder_descendants reorder_children del: mset_map)
  then have P: "?P (doc (shuffle rnd d))" by (simp add: shuffle_def update_doc_def del: mset_map)
  then show "mset (map nid (nodes (doc (shuffle rnd d)))) = mset (map nid (nodes (doc d)))"
    "el (doc (shuffle rnd d)) = el (doc d)" by blast+
  show "mset (horizontal_slides (doc (shuffle rnd d))) = mset (horizontal_slides (doc d))"
    using P unfolding horizontal_filter mset_filter by simp
qed

section \<open>Cueing\<close>

definition auto_timers :: "deck \<Rightarrow> timer list" where
  "auto_timers d = filter (\<lambda>t. taction t = TimAutoSlide) (timers d)"

text \<open>After a cue there is one automatic slide pending when it is due, and none otherwise.\<close>

lemma cue_pending:
  assumes ok: "timers_ok d" and s: "currentSlide d = Some s" and c: "cfg_autoSlide (cfg d) = ASNum x"
  shows "map tdelay (auto_timers (cueAutoSlide d)) =
    (if should_cue (d\<lparr>autoSlide := computed_autoSlide d s\<rparr>) then [as_delay (computed_autoSlide d s)] else [])"
proof -
  let ?c = "cancelAutoSlide d"
  have none: "auto_timers ?c = []" using cancel_empties [OF ok] by (simp add: auto_timers_def filter_empty_conv)
  have f: "currentSlide ?c = Some s" "cfg ?c = cfg d" using s by simp_all
  have e: "?c = d\<lparr>timers := timers ?c, autoSlideTimeout := - 1\<rparr>"
    by (simp add: cancelAutoSlide_def clear_timeout_def)
  have k: "computed_autoSlide ?c s = computed_autoSlide d s"
    by (subst e) (simp add: computed_autoSlide_def cong: if_cong)
  have sc: "should_cue (?c\<lparr>autoSlide := a\<rparr>) = should_cue (d\<lparr>autoSlide := a\<rparr>)" for a
    by (subst e) (simp add: should_cue_def isPaused_def isLastSlide_def isVerticalSlide_def
        fragments_availableRoutes_def cong: option.case_cong if_cong)
  have pl: "auto_timers (set_player b z) = auto_timers z" for b z
    by (simp add: set_player_def auto_timers_def split: option.splits)
  show ?thesis
    using none f c
    by (simp add: cueAutoSlide_def Let_def k sc pl) (simp add: auto_timers_def set_timeout_def)
qed

section \<open>Saved states\<close>

lemma toggle_paused: "cfg_pause (cfg d) \<or> \<not> b \<Longrightarrow> isPaused (togglePause (Some b) d) = b"
proof -
  have w: "wrapperClasses (cueAutoSlide z) = wrapperClasses z" for z
    by (simp add: cueAutoSlide_def cancelAutoSlide_def clear_timeout_def set_timeout_def set_player_def Let_def
        split: option.splits auto_slide.splits)
  show "cfg_pause (cfg d) \<or> \<not> b \<Longrightarrow> ?thesis"
    by (auto simp: togglePause_def pause_def resume_def isPaused_def Let_def w)
qed

text \<open>
  A saved state is restored on any settled deck with the same slides: the deck shows the saved
  position and is paused when the saved deck was.
\<close>

lemma setState_restores:
  assumes saved: "at_place i j d" and sh: "same_shape (doc d) (doc e)"
    and e: "deck_ok e" "\<And>h v. \<not> prevents (env e) h v" "cfg_pause (cfg e)"
    and ov: "overviewActive e = overviewActive d"
  shows "\<exists>e'. setState (getState d) e = Some e' \<and> at_place i j e' \<and> isPaused e' = isPaused d \<and>
    overviewActive e' = overviewActive d"
proof -
  have at: "at_position i j d" using saved by (simp add: at_place_def)
  note b = position_bounds [OF at]
  note col = shape_leaves(3) [OF sh] and hs = same_shape_getHorizontal [OF sh]
  have h: "settled_h e i = i" using settled_h_in [of i e] b by (simp add: hs)
  have v: "settled_v e i j = j"
    using settled_v_in [of i e j] settled_row_zero [of e i j] b saved
    by (cases "column d i = []") (auto simp: hs col at_place_def)
  have sn: "snap_indexh (getState d) = Num i" "snap_indexv (getState d) = Num j"
    "snap_paused (getState d) = isPaused d" "snap_overview (getState d) = overviewActive d"
    using at by (simp_all add: getState_def getIndices_def at_position_def Let_def)
  have "\<exists>e1. slide (Num i) (Num j) f e = Some e1 \<and> at_position i j e1" for f
    using slide_lands [OF e(1), of "Num i" "Num j" i j f] e(2)
    by (auto simp: jv_default_def resume_vertical_def h v)
  then obtain e1 where e1: "slide (Num i) (Num j) (snap_indexf (getState d)) e = Some e1" "at_position i j e1"
    by blast
  define e2 where "e2 = (if isPaused d \<noteq> isPaused e1 then togglePause (Some (isPaused d)) e1 else e1)"
  have k: "same_shape (doc e) (doc e1)" "cfg e1 = cfg e" "overviewActive e1 = overviewActive e"
    using slide_keeps_shape [OF e1(1)] by simp_all
  have q: "quiet e1 e2" using togglePause.quiet by (simp add: e2_def)
  have o2: "overviewActive e2 = overviewActive d" using q k ov by (simp add: quiet_def)
  have "isPaused (togglePause (Some (isPaused d)) e1) = isPaused d"
    using toggle_paused [of e1 "isPaused d"] e(3) k(2) by simp
  then have p: "isPaused e2 = isPaused d" by (auto simp: e2_def)
  have "at_position i j e2" by (rule quiet_at_position [OF q e1(2)])
  moreover have "column e2 i = column d i"
    using shape_leaves(3) [OF k(1)] shape_leaves(3) [OF same_marks_shape [OF quiet_marks [OF q]]] col by simp
  ultimately have "at_place i j e2" using saved by (simp add: at_place_def)
  moreover have "setState (getState d) e = Some e2"
  proof -
    have "setState (getState d) e =
        (if overviewActive d \<noteq> overviewActive e2 then overview_toggle (Some (overviewActive d)) e2 else Some e2)"
      unfolding setState_def sn e1(1) Option.bind.simps Let_def e2_def ..
    with o2 show ?thesis by simp
  qed
  ultimately show ?thesis using p o2 by blast
qed

end
