(* ===== verification/Sample.thy ===== *)
theory Sample
  imports Opening FragmentSteps LifecycleLaws
begin

text \<open>
  A small deck the concrete instances of the properties are stated on: three horizontal slides, the
  first with two fragments, the second a stack of two vertical slides.
\<close>

definition sample_tree :: node where
  "sample_tree =
     Node 10 [Node 11 [Node 16 [], Node 17 []], Node 12 [Node 13 [], Node 14 []], Node 15 []]"

definition marked_elem :: "tag \<Rightarrow> cls set \<Rightarrow> elem" where
  "marked_elem t cs = (blank_elem t)\<lparr>classes := cs\<rparr>"

definition sample_el :: "nat \<Rightarrow> elem" where
  "sample_el i =
     (if i = 11 then marked_elem Section {Present}
      else if i = 12 then marked_elem Section {Future, Stack}
      else if i = 13 then marked_elem Section {}
      else if i = 14 then marked_elem Section {Future}
      else if i = 15 then marked_elem Section {Future}
      else if i = 16 then marked_elem OtherTag {Fragment}
      else if i = 17 then marked_elem OtherTag {Fragment}
      else blank_elem OtherTag)"

definition sample_dom :: dom where
  "sample_dom = \<lparr>dom_root = sample_tree, el = sample_el\<rparr>"

definition sample_browser :: browser where
  "sample_browser = \<lparr>isMobile = False, isPrintingPDF = False, isSpeakerNotes = False,
     inIframe = False, wrapperWidth = 1000, wrapperHeight = 800, innerWidth = 1000,
     innerHeight = 800, scrollHeight = (\<lambda>_. 100), prevents = (\<lambda>_ _. False)\<rparr>"

text \<open>The deck before its start, and the running deck on its first slide.\<close>

definition sample_new :: deck where
  "sample_new = initial_deck default_config sample_browser sample_dom [] 5000"

definition sample_deck :: deck where
  "sample_deck = sample_new\<lparr>indexh := Num 0, indexv := Num 0, currentSlide := Some 11\<rparr>"

lemma sample_fields [simp]:
  "cfg sample_deck = default_config" "env sample_deck = sample_browser" "doc sample_deck = sample_dom"
  "indexh sample_deck = Num 0" "indexv sample_deck = Num 0" "currentSlide sample_deck = Some 11"
  "previousSlide sample_deck = None" "deckState sample_deck = []" "timers sample_deck = []"
  "nextTimer sample_deck = 1" "autoSlideTimeout sample_deck = 0" "replaceStateTimeout sample_deck = 0"
  "overviewActive sample_deck = False" "autoSlidePaused sample_deck = False"
  "wrapperClasses sample_deck = {}" "now sample_deck = 5000" "urlHash sample_deck = []"
  "autoSlide sample_deck = ASNum (Fin 0)" "log sample_deck = []" "viewportClasses sample_deck = {}"
  by (simp_all add: sample_deck_def sample_new_def initial_deck_def)

lemma sample_browser_simps [simp]:
  "isPrintingPDF sample_browser = False" "prevents sample_browser h v = False"
  "isMobile sample_browser = False" "inIframe sample_browser = False"
  "wrapperWidth sample_browser = 1000" "wrapperHeight sample_browser = 800"
  by (simp_all add: sample_browser_def)

lemma sample_wf: "wf_doc sample_dom" "states_ok sample_dom"
  by code_simp+

lemma sample_slides [simp]: "horizontal_slides sample_dom = [11, 12, 15]"
  "queryAll sample_dom 11 is_section = []" "queryAll sample_dom 12 is_section = [13, 14]"
  "queryAll sample_dom 15 is_section = []"
  by code_simp+

lemma sample_ok: "deck_ok sample_deck"
  using sample_wf by (simp add: deck_ok_def getHorizontalSlides_def leaf_current_def)

lemma sample_at: "at_position 0 0 sample_deck"
proof -
  have "list_all (\<lambda>(k, s). (has_class Present (el sample_dom s) = (int k = 0)) \<and>
      (has_class Past (el sample_dom s) = (int k < 0)) \<and>
      (has_class Future (el sample_dom s) = (int k > 0))) (enumerate 0 [11, 12, 15])"
    by code_simp
  then show ?thesis
    by (simp add: at_position_def getSlide_def getHorizontalSlides_def marked_def reversed_def)
qed

lemma sample_positioned: "positioned sample_deck"
  using sample_at sample_ok by (auto simp: positioned_def)

lemma sample_inv: "deck_inv sample_deck"
  using sample_positioned by (simp add: deck_inv_def timers_ok_def slot_inv_def)


text \<open>The same deck after the user has pressed the pause key.\<close>

definition sample_paused :: deck where
  "sample_paused = togglePause None sample_deck"

lemma sample_reachable: "reachable sample_deck sample_paused"
proof -
  have "handle (ApiTogglePause None) sample_deck = Some sample_paused"
    by (simp add: handle_def sample_paused_def)
  then show ?thesis by (intro reachable_step [OF reachable_start] step_input)
qed

section \<open>Facts of the sample\<close>

lemma sample_open: "open_deck sample_deck" "can_open (removeHiddenSlides sample_new)"
proof -
  show "open_deck sample_deck" using sample_ok by (simp add: open_deck_def)
  have "queryAll_node sample_dom (dom_root sample_dom) is_hidden_slide = []" by code_simp
  then have "doc (removeHiddenSlides sample_new) = sample_dom"
    by (simp add: removeHiddenSlides_def sample_new_def initial_deck_def update_doc_def)
  then show "can_open (removeHiddenSlides sample_new)"
    using sample_wf by (simp add: can_open_def getHorizontalSlides_def)
qed

lemma sample_place: "at_place 0 0 sample_deck"
  using sample_at by (simp add: at_place_def)

lemma sample_resumable: "resumable sample_deck" "resume_index sample_deck 1 = Num 0"
  by code_simp+

lemma sample_tidy: "tidy sample_dom"
  by code_simp

lemma sample_leaves: "leaves sample_deck = [11, 13, 14, 15]" "leaf_number sample_deck 0 0 = 0"
  by code_simp+

text \<open>The deck on the first slide of the stack, read from left to right or from right to left.\<close>

definition second_el :: "cls \<Rightarrow> cls \<Rightarrow> nat \<Rightarrow> elem" where
  "second_el before after i =
     (if i = 11 then marked_elem Section {before}
      else if i = 12 then marked_elem Section {Present, Stack}
      else if i = 13 then marked_elem Section {Present}
      else if i = 14 then marked_elem Section {Future}
      else if i = 15 then marked_elem Section {after}
      else sample_el i)"

definition sample_second :: deck where
  "sample_second = sample_deck\<lparr>doc := \<lparr>dom_root = sample_tree, el = second_el Past Future\<rparr>,
     indexh := Num 1, currentSlide := Some 13\<rparr>"

definition sample_rtl :: deck where
  "sample_rtl = sample_deck\<lparr>cfg := default_config\<lparr>cfg_rtl := True\<rparr>,
     doc := \<lparr>dom_root = sample_tree, el = second_el Future Past\<rparr>,
     indexh := Num 1, currentSlide := Some 13\<rparr>"

lemma second_fields [simp]:
  "cfg sample_second = default_config" "env sample_second = sample_browser"
  "env sample_rtl = sample_browser" "cfg_rtl (cfg sample_rtl) = True" "cfg_loop (cfg sample_rtl) = False"
  "overviewActive sample_second = False" "overviewActive sample_rtl = False"
  "cfg_navigationMode (cfg sample_rtl) = NavDefault"
  "deckState sample_second = []" "deckState sample_rtl = []"
  "currentSlide sample_second = Some 13" "currentSlide sample_rtl = Some 13"
  "indexh sample_second = Num 1" "indexv sample_second = Num 0"
  "indexh sample_rtl = Num 1" "indexv sample_rtl = Num 0"
  by (simp_all add: sample_second_def sample_rtl_def)

lemma second_slides [simp]:
  "horizontal_slides (doc sample_second) = [11, 12, 15]" "horizontal_slides (doc sample_rtl) = [11, 12, 15]"
  "queryAll (doc sample_second) 12 is_section = [13, 14]" "queryAll (doc sample_rtl) 12 is_section = [13, 14]"
  "queryAll (doc sample_second) 13 is_section = []" "queryAll (doc sample_rtl) 13 is_section = []"
  by code_simp+

lemma second_ok: "deck_ok sample_second" "deck_ok sample_rtl"
proof -
  have "wf_doc (doc sample_second)" "wf_doc (doc sample_rtl)" "states_ok (doc sample_second)"
    "states_ok (doc sample_rtl)" by code_simp+
  then show "deck_ok sample_second" "deck_ok sample_rtl"
    by (simp_all add: deck_ok_def getHorizontalSlides_def leaf_current_def)
qed

lemma second_at: "at_position 1 0 sample_second" "at_position 1 0 sample_rtl"
proof -
  have "marked sample_second (doc sample_second) [11, 12, 15] 1"
    "marked sample_second (doc sample_second) [13, 14] 0"
    "marked sample_rtl (doc sample_rtl) [11, 12, 15] 1"
    "marked sample_rtl (doc sample_rtl) [13, 14] 0" by code_simp+
  then show "at_position 1 0 sample_second" "at_position 1 0 sample_rtl"
    by (simp_all add: at_position_def getSlide_def getHorizontalSlides_def)
qed

lemma second_place: "at_place 1 0 sample_second"
  using second_at(1) by (simp add: at_place_def column_def getHorizontalSlides_def)

lemma second_resumable: "resumable sample_second" "resumable sample_rtl" "stacks_marked sample_second"
  by code_simp+

lemma second_leaf: "leaf_number sample_second 1 0 = 1"
  by code_simp

text \<open>The sample with its fragments staged before the first.\<close>

definition sample_staged :: deck where
  "sample_staged = snd (fragments_goto (Num (- 1)) 0 sample_deck)"

lemma sample_staged: "staged 2 (- 1) sample_staged"
proof -
  have e: "enabled_fragments sample_deck = [16, 17]" by code_simp
  have "sortable [16, 17] (doc sample_deck)" by code_simp
  moreover have "length (fragment_groups (doc sample_deck) [16, 17]) = 2" by code_simp
  ultimately show ?thesis
    using goto_index [of sample_deck "- 1"]
    by (simp add: sample_staged_def e reached_group_def)
qed

lemma second_shape: "same_shape (doc sample_second) (doc sample_deck)"
proof -
  have "dom_root (doc sample_second) = dom_root (doc sample_deck)"
    by (simp add: sample_second_def sample_dom_def)
  moreover have "tag (second_el Past Future i) = tag (sample_el i) \<and>
      has_class Fragment (second_el Past Future i) = has_class Fragment (sample_el i)" for i
    by (simp add: second_el_def sample_el_def marked_elem_def has_class_def)
  ultimately show ?thesis
    by (simp add: same_shape_def sample_second_def sample_dom_def)
qed

text \<open>The deck on a slide whose id needs an encoding, and on one whose id is a number.\<close>

definition sample_named :: deck where
  "sample_named = sample_second\<lparr>doc := update_el 13 (set_attr AId ''a/b c'') (doc sample_second)\<rparr>"

definition sample_numbered :: deck where
  "sample_numbered = sample_second\<lparr>doc := update_el 13 (set_attr AId ''7'') (doc sample_second)\<rparr>"

end
