(* ===== verification/MediaSample.thy ===== *)
theory MediaSample
  imports ContentLaws AnimateLaws PrintLaws SearchLaws Speaker Zoom Playback Sample
begin

text \<open>
  A slide with lazily loaded media, two slides with the same headings, a page of the PDF, and the page
  of the search plugin: the concrete instances of the properties of the controllers
  and plugins are stated on them.
\<close>

section \<open>A slide with media\<close>

definition media_elem :: "tag \<Rightarrow> (attr \<times> string) list \<Rightarrow> elem" where
  "media_elem t as = (blank_elem t)\<lparr>attrs := map_of as\<rparr>"

text \<open>
  The slide 21 holds an image (22), a video with its own address (23), an audio element with a source
  (24, 25), a video with a source (26, 27), and a frame (28) that is loaded ahead.
\<close>

definition media_tree :: node where
  "media_tree =
     Node 20 [Node 21 [Node 22 [], Node 23 [], Node 24 [Node 25 []], Node 26 [Node 27 []], Node 28 []]]"

definition media_el :: "nat \<Rightarrow> elem" where
  "media_el i =
     (if i = 21 then marked_elem Section {Present}
      else if i = 22 then media_elem Img [(DataSrc, ''a.png'')]
      else if i = 23 then media_elem Video [(DataSrc, ''b.mp4''), (DataAutoplay, [])]
      else if i = 24 then media_elem Audio []
      else if i = 25 then media_elem Source [(DataSrc, ''c.mp3'')]
      else if i = 26 then media_elem Video []
      else if i = 27 then media_elem Source [(DataSrc, ''d.mp4'')]
      else if i = 28 then media_elem Iframe [(DataSrc, ''e.html''), (DataPreload, [])]
      else blank_elem OtherTag)"

definition media_dom :: dom where
  "media_dom = \<lparr>dom_root = media_tree, el = media_el\<rparr>"

definition media_content :: content where
  "media_content = \<lparr>cdoc = media_dom, loadeddata = {}, frame_load = {}, play_caught = {},
     play_listeners = {}, with_controls = {}, content_calls = []\<rparr>"

definition media_env :: content_env where
  "media_env = \<lparr>ready = (\<lambda>_. True), has_window = (\<lambda>_. True), catchable = True, mobile = False,
     speaker_notes = False\<rparr>"

abbreviation media_state :: "content \<times> backgrounds" where
  "media_state \<equiv> (media_content, no_backgrounds)"

lemma media_facts:
  "distinct_ids media_dom" "no_media_above media_dom 21" "below media_dom 21 23" "below media_dom 21 26"
  "below media_dom 26 27" "is_attached media_dom 21"
  by code_simp+

lemma media_doc [simp]: "cdoc media_content = media_dom" "content_calls media_content = []"
  by (simp_all add: media_content_def)

lemma media_el_simps [simp]:
  "el media_dom 23 = media_elem Video [(DataSrc, ''b.mp4''), (DataAutoplay, [])]"
  "el media_dom 26 = media_elem Video []" "el media_dom 27 = media_elem Source [(DataSrc, ''d.mp4'')]"
  by (simp_all add: media_dom_def media_el_def)

lemma media_elem_simps [simp]: "tag (media_elem t as) = t" "attrs (media_elem t as) = map_of as"
  by (simp_all add: media_elem_def blank_elem_def)

section \<open>Two slides that are animated\<close>

text \<open>The slides 31 and 35 with two headings each; the headings 32 and 36 have the same text.\<close>

definition twin_tree :: node where
  "twin_tree = Node 30 [Node 31 [Node 32 [], Node 33 []], Node 35 [Node 36 [], Node 37 []]]"

definition twin_el :: "nat \<Rightarrow> elem" where
  "twin_el i =
     (if i \<in> {31, 35} then media_elem Section [(DataAutoAnimate, [])]
      else if i \<in> {32, 33, 36, 37} then blank_elem (Tag ''H1'')
      else blank_elem OtherTag)"

definition twin_animate :: animation where
  "twin_animate = \<lparr>adoc = \<lparr>dom_root = twin_tree, el = twin_el\<rparr>, counter = 0, sheet = None, frames = [],
     anim_events = []\<rparr>"

definition heading :: "nat \<Rightarrow> string" where
  "heading i = (if i \<in> {32, 36} then ''one'' else if i = 33 then ''two'' else ''three'')"

definition twin_env :: anim_env where
  "twin_env = \<lparr>inner_text = heading, text_content = heading, class_name = (\<lambda>_. []),
     client_rect = (\<lambda>_. \<lparr>rx = 0, ry = 0, rwidth = 10, rheight = 10\<rparr>),
     offset_rect = (\<lambda>_. \<lparr>rx = 0, ry = 0, rwidth = 10, rheight = 10\<rparr>),
     computed_style = (\<lambda>_ _. []), deck_scale = 1, deck_center = True\<rparr>"

section \<open>A page of the PDF\<close>

definition sample_page :: pdf_page where
  "sample_page =
     pdf_slide_page default_content_config \<lparr>presentation_background = None, slide_background = (\<lambda>_. False)\<rparr>
       (pdf_page_sizes sample_deck) (\<lambda>_. 100) 1 11 sample_deck"

section \<open>A page that is searched\<close>

definition sample_body :: "snode list" where
  "sample_body =
     [SElem 10 ''DIV'' None
        [SElem 11 ''SECTION'' None [SText ''On time''],
         SElem 12 ''SECTION'' None
           [SElem 13 ''SECTION'' None [SText ''nothing''],
            SElem 14 ''SECTION'' None [SElem 18 ''P'' None [SText ''Time and time again'']]],
         SElem 15 ''SECTION'' None [SText ''the end'']]]"

section \<open>A slide with notes in an attribute\<close>

definition sample_noted :: deck where
  "sample_noted = update_doc (update_el 11 (set_attr DataNotes ''Slow down'')) sample_deck"

definition sample_speaker :: speaker where
  "sample_speaker = no_speaker\<lparr>speakerWindow := Some 1\<rparr>"

text \<open>The speaker view was closed before it connected.\<close>

definition sample_closed :: speaker where
  "sample_closed = (fst (openSpeakerWindow (Some 1) no_speaker))\<lparr>closed_windows := {1}\<rparr>"

end
