(* ===== verification/FilmSample.thy ===== *)
theory FilmSample
  imports MediaHandover MediaSample
begin

text \<open>
  A deck on the first slide (13) of a stack with a video (16) that plays by itself and has not been
  loaded yet; the second slide of the stack is 14.
\<close>

definition film_tree :: node where
  "film_tree = Node 10 [Node 11 [], Node 12 [Node 13 [Node 16 []], Node 14 []]]"

definition film_el :: "nat \<Rightarrow> elem" where
  "film_el i =
     (if i = 11 then marked_elem Section {Past}
      else if i = 12 then marked_elem Section {Present, Stack}
      else if i = 13 then marked_elem Section {Present}
      else if i = 14 then marked_elem Section {Future}
      else if i = 16 then media_elem Video [(Src, ''film.mp4''), (DataAutoplay, [])]
      else blank_elem OtherTag)"

definition film_dom :: dom where
  "film_dom = \<lparr>dom_root = film_tree, el = film_el\<rparr>"

definition film_deck :: deck where
  "film_deck = sample_deck\<lparr>doc := film_dom, indexh := Num 1, currentSlide := Some 13\<rparr>"

definition slow_env :: content_env where
  "slow_env = media_env\<lparr>ready := (\<lambda>_. False)\<rparr>"

definition film_content :: content where
  "film_content = startEmbeddedContent default_content_config slow_env (Some 13) (media_content\<lparr>cdoc := film_dom\<rparr>)"

text \<open>The calls of the transition to the second slide, on the document of the deck.\<close>

definition film_next :: deck where
  "film_next = the (slide (Num 1) (Num 1) Undef film_deck)"

definition film_calls :: "(eff \<times> dom) list" where
  "film_calls = map (\<lambda>x. (x, film_dom)) (media_calls film_next)"

lemma film_fields [simp]:
  "cfg film_deck = default_config" "env film_deck = sample_browser" "doc film_deck = film_dom"
  "indexh film_deck = Num 1" "indexv film_deck = Num 0" "currentSlide film_deck = Some 13"
  "deckState film_deck = []" "media_calls film_deck = []" "overviewActive film_deck = False"
  by (simp_all add: film_deck_def media_calls_def)

lemma film_slides [simp]: "horizontal_slides film_dom = [11, 12]"
  "queryAll film_dom 11 is_section = []" "queryAll film_dom 12 is_section = [13, 14]"
  "queryAll film_dom 13 is_section = []"
  by code_simp+

lemma film_facts: "below film_dom 13 16" "is_av (el film_dom 16)" "\<not> has_attr DataIgnore (el film_dom 16)"
  by code_simp+

lemma film_waits: "16 \<in> loadeddata film_content"
  by code_simp

lemma film_positioned: "positioned film_deck"
proof -
  have "wf_doc film_dom" "states_ok film_dom" by code_simp+
  then have "deck_ok film_deck" by (simp add: deck_ok_def getHorizontalSlides_def leaf_current_def)
  moreover have "at_position 1 0 film_deck"
  proof -
    have "list_all (\<lambda>(k, s). (has_class Present (el film_dom s) = (int k = 1)) \<and>
        (has_class Past (el film_dom s) = (int k < 1)) \<and>
        (has_class Future (el film_dom s) = (int k > 1))) (enumerate 0 [11, 12])"
      "list_all (\<lambda>(k, s). (has_class Present (el film_dom s) = (int k = 0)) \<and>
        (has_class Past (el film_dom s) = (int k < 0)) \<and>
        (has_class Future (el film_dom s) = (int k > 0))) (enumerate 0 [13, 14])"
      by code_simp+
    then show ?thesis
      by (simp add: at_position_def getSlide_def getHorizontalSlides_def marked_def reversed_def)
  qed
  ultimately show ?thesis by (auto simp: positioned_def)
qed

lemma film_moves:
  "slide (Num 1) (Num 1) Undef film_deck = Some film_next" "currentSlide film_next = Some 14"
  "indexh film_next = Num 1"
proof -
  have set: "settled_h film_deck 1 = 1" "settled_v film_deck 1 1 = 1" by code_simp+
  obtain d' where d': "slide (Num 1) (Num 1) Undef film_deck = Some d'" "at_position 1 1 d'"
    using slide_lands [of film_deck "Num 1" "Num 1" 1 1 Undef] film_positioned
    by (auto simp: positioned_def jv_default_def resume_vertical_def set)
  then have n: "film_next = d'" by (simp add: film_next_def)
  have "same_shape film_dom (doc d')" using slide_keeps_shape [OF d'(1)] by simp
  then have "getSlide d' 1 (Num 1) = getSlide film_deck 1 (Num 1)" by (intro getSlide_shape) simp
  then show "slide (Num 1) (Num 1) Undef film_deck = Some film_next" "currentSlide film_next = Some 14"
    "indexh film_next = Num 1"
    using d' by (simp_all add: n at_position_def getSlide_def getHorizontalSlides_def)
qed

lemma film_call_facts:
  "map fst film_calls = drop (length (media_calls film_deck)) (media_calls film_next)"
  "list_all (\<lambda>e. same_media (doc film_deck) (snd e)) film_calls"
  by (simp_all add: film_calls_def comp_def list_all_iff same_media_def)

end
