(* ===== verification/Plugins.thy ===== *)
theory Plugins
  imports Queries
begin

text \<open>
  Loading and registering plugins, js/controllers/plugins.js and js/utils/loader.js.  The loader
  goes through \<open>idle\<close>, \<open>loading\<close> and \<open>loaded\<close>.  What the browser does on its own is an event: a
  script that was requested has run (or failed, the callback is the same), the promise a plugin's
  \<open>init\<close> returned is fulfilled.  A plugin is foreign code; what its \<open>init\<close> does to the loader is the
  list of the plugins it registers, and whether it returns a promise.  The calls the loader makes
  are recorded in \<open>calls\<close>.
\<close>

section \<open>State\<close>

datatype init_kind = NoInit | SyncInit | AsyncInit

datatype plugin =
  Plugin (plugin_id: "string option") (plugin_init: init_kind) (registers: "plugin list")
    (has_destroy: bool)

text \<open>The forms \<open>registerPlugin\<close> accepts: an instance, an id and an instance, or a factory.\<close>

datatype registration = Instance plugin | Named string plugin | Factory plugin

record dependency =
  dep_condition :: "bool option"
  dep_async :: bool
  dep_plugin :: plugin
  dep_src :: "string option"
  dep_callback :: bool

datatype load_state = Idle | Loading | Loaded

datatype plugin_call =
    InitPlugin string
  | DestroyPlugin string
  | RequestScript "string option"
  | DependencyCallback "string option"
  | WarnFormat
  | WarnRegistered string
  | WarnDependency
  | StartDeck

record plugins =
  plugins_state :: load_state
  registeredPlugins :: "(string \<times> plugin) list"
  asyncDependencies :: "dependency list"
  scriptsToLoad :: int
  requested :: "dependency list"
  waiting :: "plugin list option"
  calls :: "plugin_call list"

definition no_plugins :: plugins where
  "no_plugins =
     \<lparr>plugins_state = Idle, registeredPlugins = [], asyncDependencies = [], scriptsToLoad = 0,
      requested = [], waiting = None, calls = []\<rparr>"

definition call :: "plugin_call \<Rightarrow> plugins \<Rightarrow> plugins" where
  "call c st = st\<lparr>calls := calls st @ [c]\<rparr>"

section \<open>The map of registered plugins\<close>

text \<open>
  \<open>registeredPlugins\<close> is an object literal: a lookup also finds the members of
  \<open>Object.prototype\<close>.  \<open>Object.values\<close> lists the integer keys first, in ascending order, and the
  others in the order of insertion.
\<close>

definition defined_key :: "string \<Rightarrow> plugins \<Rightarrow> bool" where
  "defined_key i st \<longleftrightarrow> map_of (registeredPlugins st) i \<noteq> None \<or> i \<in> set object_prototype"

definition index_key :: "string \<Rightarrow> int option" where
  "index_key s =
     (case parseInt10 s of
        Some n \<Rightarrow> if 0 \<le> n \<and> n < 2 ^ 32 - 1 \<and> show_int n = s then Some n else None
      | None \<Rightarrow> None)"

definition object_values :: "(string \<times> 'a) list \<Rightarrow> 'a list" where
  "object_values kvs =
     map snd (sort_key (\<lambda>kv. the (index_key (fst kv))) (filter (\<lambda>kv. index_key (fst kv) \<noteq> None) kvs))
     @ map snd (filter (\<lambda>kv. index_key (fst kv) = None) kvs)"

definition hasPlugin :: "string \<Rightarrow> plugins \<Rightarrow> bool" where
  "hasPlugin i st = defined_key i st"

definition getPlugin :: "string \<Rightarrow> plugins \<Rightarrow> plugin option" where
  "getPlugin i st = map_of (registeredPlugins st) i"

section \<open>Registering\<close>

definition init_name :: "plugin \<Rightarrow> string" where
  "init_name p = (case plugin_id p of Some i \<Rightarrow> i | None \<Rightarrow> [])"

text \<open>
  \<open>registerPlugin\<close> on an instance.  In the state \<open>loaded\<close> it calls \<open>init\<close> right away, which may
  register further plugins.
\<close>

function registerInstance :: "plugin \<Rightarrow> plugins \<Rightarrow> plugins" where
  "registerInstance (Plugin i k rs dst) st =
     (case i of
        None \<Rightarrow> call WarnFormat st
      | Some n \<Rightarrow>
          if \<not> defined_key n st
          then (let st' = st\<lparr>registeredPlugins := registeredPlugins st @ [(n, Plugin i k rs dst)]\<rparr>
                in if plugins_state st' = Loaded \<and> k \<noteq> NoInit
                   then fold registerInstance rs (call (InitPlugin n) st')
                   else st')
          else call (WarnRegistered n) st)"
  by pat_completeness auto

termination
  by (relation "measure (size \<circ> fst)") (auto simp: le_imp_less_Suc size_list_estimation' less_Suc_eq_le)

definition registerPlugin :: "registration \<Rightarrow> plugins \<Rightarrow> plugins" where
  "registerPlugin r =
     (case r of
        Instance p \<Rightarrow> registerInstance p
      | Factory p \<Rightarrow> registerInstance p
      | Named i p \<Rightarrow> registerInstance (Plugin (Some i) (plugin_init p) (registers p) (has_destroy p)))"

text \<open>\<open>plugin.init( Reveal )\<close>, called by the loader.\<close>

definition run_init :: "plugin \<Rightarrow> plugins \<Rightarrow> plugins" where
  "run_init p st = fold registerInstance (registers p) (call (InitPlugin (init_name p)) st)"

section \<open>Loading\<close>

definition loadAsync :: "plugins \<Rightarrow> plugins" where
  "loadAsync st =
     call StartDeck
       (fold (\<lambda>s. call (RequestScript (dep_src s))) (asyncDependencies st) (st\<lparr>plugins_state := Loaded\<rparr>))"

text \<open>
  \<open>initNextPlugin\<close> and \<open>afterPlugInitialized\<close> on the plugins that are left: a plugin whose \<open>init\<close>
  returned a promise leaves the rest \<open>waiting\<close>.
\<close>

fun initNextPlugin :: "plugin list \<Rightarrow> plugins \<Rightarrow> plugins" where
  "initNextPlugin [] st = loadAsync st"
| "initNextPlugin (p # ps) st =
     (case plugin_init p of
        NoInit \<Rightarrow> initNextPlugin ps st
      | SyncInit \<Rightarrow> initNextPlugin ps (run_init p st)
      | AsyncInit \<Rightarrow> (run_init p st)\<lparr>waiting := Some ps\<rparr>)"

definition initPlugins :: "plugins \<Rightarrow> plugins" where
  "initPlugins st = initNextPlugin (object_values (registeredPlugins st)) st"

definition promiseFulfilled :: "plugins \<Rightarrow> plugins" where
  "promiseFulfilled st =
     (case waiting st of
        None \<Rightarrow> st
      | Some ps \<Rightarrow> initNextPlugin ps (st\<lparr>waiting := None\<rparr>))"

definition scriptLoadedCallback :: "dependency option \<Rightarrow> plugins \<Rightarrow> plugins" where
  "scriptLoadedCallback s st =
     (let st = (case s of
                  Some s \<Rightarrow> if dep_callback s then call (DependencyCallback (dep_src s)) st else st
                | None \<Rightarrow> st);
          st = st\<lparr>scriptsToLoad := scriptsToLoad st - 1\<rparr>
      in if scriptsToLoad st = 0 then initPlugins st else st)"

definition load_dependency :: "dependency \<Rightarrow> plugins \<Rightarrow> plugins" where
  "load_dependency s st =
     (if plugin_id (dep_plugin s) \<noteq> None
      then scriptLoadedCallback (Some s) (registerInstance (dep_plugin s) st)
      else if dep_src s \<noteq> None
      then call (RequestScript (dep_src s)) (st\<lparr>requested := requested st @ [s]\<rparr>)
      else scriptLoadedCallback None (call WarnDependency st))"

definition wanted :: "dependency \<Rightarrow> bool" where
  "wanted s \<longleftrightarrow> dep_condition s \<noteq> Some False"

definition load_plugins :: "registration list \<Rightarrow> dependency list \<Rightarrow> plugins \<Rightarrow> plugins" where
  "load_plugins ps deps st =
     (let st = fold registerPlugin ps (st\<lparr>plugins_state := Loading\<rparr>);
          st = st\<lparr>asyncDependencies := asyncDependencies st @ filter dep_async (filter wanted deps)\<rparr>;
          scripts = filter (\<lambda>s. \<not> dep_async s) (filter wanted deps)
      in if scripts \<noteq> [] then fold load_dependency scripts (st\<lparr>scriptsToLoad := int (length scripts)\<rparr>)
         else initPlugins st)"

text \<open>A requested script has run, or has failed.\<close>

definition scriptLoaded :: "dependency \<Rightarrow> plugins \<Rightarrow> plugins" where
  "scriptLoaded s st = scriptLoadedCallback (Some s) (st\<lparr>requested := remove1 s (requested st)\<rparr>)"

definition destroy_plugins :: "plugins \<Rightarrow> plugins" where
  "destroy_plugins st =
     (fold (\<lambda>p. if has_destroy p then call (DestroyPlugin (init_name p)) else id)
        (object_values (registeredPlugins st)) st)\<lparr>registeredPlugins := [], asyncDependencies := []\<rparr>"

end
