(* ===== verification/PageDetails.thy ===== *)
theory PageDetails
  imports Pointing Backgrounds Plugins Queries
begin

text \<open>
  The smaller operations of \<open>reveal.js\<close> and its controllers that prepare or clear what the page shows:
  the text for screen readers, the stretching of elements, the queries for attributes and backgrounds
  of slides, the help screen, the display of the slide number, the progress bar and the notes, the
  composition of the options, and the undoing of the document's changes by \<open>destroy\<close>.
\<close>

section \<open>Text for screen readers\<close>

text \<open>A node of the page: its text, or its \<open>aria-hidden\<close>, whether its display is none, and its children.\<close>

datatype page_node =
    TextNode string
  | ElementNode "string option" bool "page_node list"
  | CommentNode

definition status_piece :: "string \<Rightarrow> string" where
  "status_piece s = (let t = js_trim s in if t = [] then [] else t @ '' '')"

fun getStatusText :: "page_node \<Rightarrow> string" where
  "getStatusText (TextNode t) = status_piece t"
| "getStatusText (ElementNode hid none cs) =
     status_piece (if hid \<noteq> Some ''true'' \<and> \<not> none then concat (map getStatusText cs) else [])"
| "getStatusText CommentNode = status_piece []"

text \<open>What a reader sees: the texts of the shown nodes, one behind the other.\<close>

fun shown_text :: "page_node \<Rightarrow> string" where
  "shown_text (TextNode t) = t"
| "shown_text (ElementNode hid none cs) =
     (if hid = Some ''true'' \<or> none then [] else concat (map shown_text cs))"
| "shown_text CommentNode = []"

definition letters :: "string \<Rightarrow> string" where
  "letters = filter (\<lambda>c. \<not> is_ws c)"

lemma letters_append [simp]: "letters (s @ t) = letters s @ letters t" "letters [] = []"
  by (simp_all add: letters_def)

lemma letters_concat: "letters (concat ss) = concat (map letters ss)"
  by (induction ss) simp_all

lemma letters_dropWhile: "letters (dropWhile is_ws s) = letters s"
  by (induction s) (simp_all add: letters_def)

lemma letters_trim: "letters (js_trim s) = letters s"
proof -
  have r: "letters (rev t) = rev (letters t)" for t by (simp add: letters_def rev_filter)
  show ?thesis by (simp add: js_trim_def r letters_dropWhile)
qed

lemma letters_piece: "letters (status_piece s) = letters s"
proof -
  have "letters '' '' = []" by code_simp
  then show ?thesis
    using letters_trim [of s] by (cases "js_trim s = []") (simp_all add: status_piece_def Let_def)
qed

text \<open>No text is lost, added or moved: the announcement differs from the shown text in white space only.\<close>

lemma status_text_letters: "letters (getStatusText n) = letters (shown_text n)"
proof (induction n rule: getStatusText.induct)
  case (2 hid none cs)
  have "concat (map (letters \<circ> getStatusText) cs) = concat (map (letters \<circ> shown_text) cs)"
    if "hid \<noteq> Some ''true'' \<and> \<not> none"
    using 2 that by (simp cong: map_cong)
  then show ?case by (simp add: letters_piece letters_concat)
qed (simp_all add: letters_piece)

lemma trim_ends: "js_trim s = [] \<or> (\<not> is_ws (hd (js_trim s)) \<and> \<not> is_ws (last (js_trim s)))"
proof (cases "js_trim s = []")
  case False
  let ?t = "dropWhile is_ws s"
  let ?u = "dropWhile is_ws (rev ?t)"
  have u: "?u \<noteq> []" using False by (simp add: js_trim_def)
  then have "\<not> is_ws (last (js_trim s))"
    using hd_dropWhile [OF u] by (simp add: js_trim_def last_rev)
  moreover have "?t \<noteq> []" using u by (metis dropWhile.simps(1) rev.simps(1))
  then have h: "\<not> is_ws (hd ?t)" by (rule hd_dropWhile)
  have "\<exists>p. rev ?t = p @ ?u" by (metis takeWhile_dropWhile_id)
  then obtain p where "rev ?t = p @ ?u" ..
  then have "?t = rev ?u @ rev p" by (metis rev_append rev_rev_ident)
  then have "hd (rev ?u) = hd ?t" using u by (metis hd_append2 rev_is_Nil_conv)
  with h have "\<not> is_ws (hd (js_trim s))" by (simp add: js_trim_def)
  ultimately show ?thesis by simp
qed simp

section \<open>Stretched elements\<close>

text \<open>
  An element with the class \<open>r-stretch\<close>: the natural size of an image or a video (\<open>NaN\<close> when it has
  none), the height of its parent while the element has none, and the width and height of its style.
  A length that is not a number or negative is not a valid value and is ignored by the style.
\<close>

record stretched =
  is_picture :: bool
  natural_width :: jsnum
  natural_height :: jsnum
  parent_height :: rat
  style_width :: "rat option"
  style_height :: "rat option"

definition put_px :: "jsnum \<Rightarrow> rat option \<Rightarrow> rat option" where
  "put_px v old = (case v of Fin q \<Rightarrow> if 0 \<le> q then Some q else old | _ \<Rightarrow> old)"

text \<open>The old height is written back with a second unit, which is no valid value: the height stays 0.\<close>

definition getRemainingHeight :: "jsnum \<Rightarrow> stretched \<Rightarrow> jsnum \<times> stretched" where
  "getRemainingHeight height e = (js_sub height (Fin (parent_height e)), e\<lparr>style_height := Some 0\<rparr>)"

definition stretch :: "jsnum \<Rightarrow> jsnum \<Rightarrow> stretched \<Rightarrow> stretched" where
  "stretch width height e0 =
     (let (remaining, e) = getRemainingHeight height e0
      in if is_picture e
         then (let nw = natural_width e; nh = natural_height e;
                   es = js_min (js_div width nw) (js_div remaining nh)
               in e\<lparr>style_width := put_px (js_mul nw es) (style_width e),
                    style_height := put_px (js_mul nh es) (style_height e)\<rparr>)
         else e\<lparr>style_width := put_px width (style_width e),
                style_height := put_px remaining (style_height e)\<rparr>)"

text \<open>\<open>layout\<close> passes the configured sizes; a percentage is not a number.\<close>

definition dim_number :: "dim \<Rightarrow> jsnum" where
  "dim_number x = (case x of DimNum q \<Rightarrow> Fin q | DimPct s \<Rightarrow> NaN)"

definition layoutSlideContents :: "dim \<Rightarrow> dim \<Rightarrow> stretched list \<Rightarrow> stretched list" where
  "layoutSlideContents width height = map (stretch (dim_number width) (dim_number height))"

text \<open>A picture keeps its proportions and fits into the space that is left.\<close>

lemma stretch_fits:
  assumes p: "is_picture e" and n: "natural_width e = Fin a" "natural_height e = Fin b" "0 < a" "0 < b"
    and w: "0 \<le> w" and r: "parent_height e \<le> h"
  shows "\<exists>x y. style_width (stretch (Fin w) (Fin h) e) = Some x \<and> style_height (stretch (Fin w) (Fin h) e) = Some y
    \<and> x * b = y * a \<and> x \<le> w \<and> y \<le> h - parent_height e \<and> (x = w \<or> y = h - parent_height e)"
proof -
  let ?r = "h - parent_height e"
  define q where "q = min (w / a) (?r / b)"
  have q: "0 \<le> q" using assms by (simp add: q_def)
  have "js_min (Fin (w / a)) (Fin (?r / b)) = Fin q"
    by (simp add: js_min_def q_def min_def)
  then have s: "style_width (stretch (Fin w) (Fin h) e) = Some (a * q)"
    "style_height (stretch (Fin w) (Fin h) e) = Some (b * q)"
    using assms q by (simp_all add: stretch_def getRemainingHeight_def Let_def put_px_def js_sub_def)
  have "a * q \<le> w" "b * q \<le> ?r" using n by (simp_all add: q_def min_def field_simps)
  moreover have "a * q = w \<or> b * q = ?r" using n by (auto simp: q_def min_def field_simps)
  ultimately show ?thesis using s by auto
qed

text \<open>With a size in percent nothing is stretched, and every stretched element loses its height.\<close>

lemma percent_collapses:
  "dim_number height = NaN \<Longrightarrow> style_height (stretch width (dim_number height) e) = Some 0"
  by (cases "js_div width (natural_width e)"; cases "natural_height e")
    (simp_all add: stretch_def getRemainingHeight_def Let_def put_px_def js_sub_def js_min_def)

section \<open>Queries\<close>

datatype background_target = AtIndex int jsval | OfSlide "nat option"

definition getSlideBackground :: "deck \<Rightarrow> backgrounds \<Rightarrow> background_target \<Rightarrow> nat option" where
  "getSlideBackground d b x =
     Option.bind (case x of AtIndex i y \<Rightarrow> getSlide d i y | OfSlide s \<Rightarrow> s) (slideBackground b)"

definition getSlidesAttributes :: "deck \<Rightarrow> (attr \<Rightarrow> string option) list" where
  "getSlidesAttributes d = map (\<lambda>s. attrs (el (doc d) s)) (getSlides d)"

lemma attributes_of_all_slides: "length (getSlidesAttributes d) = getTotalSlides d"
  by (simp add: getSlidesAttributes_def getTotalSlides_def)

section \<open>Transforms of the slides container\<close>

record slides_transform =
  st_layout :: string
  st_overview :: string

text \<open>The new record and the value written to the style.\<close>

definition transformSlides :: "string option \<Rightarrow> string option \<Rightarrow> slides_transform \<Rightarrow> slides_transform \<times> string" where
  "transformSlides lay ov t =
     (let t1 = t\<lparr>st_layout := (case lay of Some s \<Rightarrow> s | None \<Rightarrow> st_layout t),
                st_overview := (case ov of Some s \<Rightarrow> s | None \<Rightarrow> st_overview t)\<rparr>
      in (t1, if st_layout t1 \<noteq> [] then st_layout t1 @ '' '' @ st_overview t1 else st_overview t1))"

section \<open>The help screen\<close>

type_synonym shortcut_table = "(string \<times> string) list"

definition registerKeyboardShortcut :: "string \<Rightarrow> string \<Rightarrow> shortcut_table \<Rightarrow> shortcut_table" where
  "registerKeyboardShortcut = AList.update"

definition mode_shortcuts :: "bool \<Rightarrow> (string \<times> string) list" where
  "mode_shortcuts lin =
     (if lin
      then [(''&#8594;  ,  &#8595;  ,  SPACE  ,  N  ,  L  ,  J'', ''Next slide''),
            (''&#8592;  ,  &#8593;  ,  P  ,  H  ,  K'', ''Previous slide'')]
      else [(''N  ,  SPACE'', ''Next slide''), (''P  ,  Shift SPACE'', ''Previous slide''),
            (''&#8592;  ,  H'', ''Navigate left''), (''&#8594;  ,  L'', ''Navigate right''),
            (''&#8593;  ,  K'', ''Navigate up''), (''&#8595;  ,  J'', ''Navigate down'')])"

definition common_shortcuts :: "(string \<times> string) list" where
  "common_shortcuts =
     [(''Alt + &#8592;/&#8593/&#8594;/&#8595;'', ''Navigate without fragments''),
      (''Shift + &#8592;/&#8593/&#8594;/&#8595;'', ''Jump to first/last slide''),
      (''B  ,  .'', ''Pause''), (''F'', ''Fullscreen''), (''ESC, O'', ''Slide overview'')]"

definition keyboard_configure :: "full_config \<Rightarrow> shortcut_table \<Rightarrow> shortcut_table" where
  "keyboard_configure c =
     fold (\<lambda>(k, v). AList.update k v) (mode_shortcuts (cfg_navigationMode c = NavLinear) @ common_shortcuts)"

text \<open>A binding for the help screen: its key and its description.\<close>

datatype key_binding = KeyObject string "string option" "string option" | KeyCode string

definition describe_binding ::
  "key_binding \<Rightarrow> (string \<times> string option \<times> string option) list \<Rightarrow> (string \<times> string option \<times> string option) list" where
  "describe_binding b =
     (case b of KeyObject code key text \<Rightarrow> AList.update code (key, text) | KeyCode code \<Rightarrow> AList.update code (None, None))"

definition table_row :: "string \<Rightarrow> string \<Rightarrow> string" where
  "table_row key text = ''<tr><td>'' @ key @ ''</td><td>'' @ text @ ''</td></tr>''"

definition binding_row :: "string option \<times> string option \<Rightarrow> string" where
  "binding_row b =
     (case b of
        (Some key, Some text) \<Rightarrow> if key \<noteq> [] \<and> text \<noteq> [] then table_row key text else []
      | _ \<Rightarrow> [])"

definition help_html :: "shortcut_table \<Rightarrow> (string \<times> string option \<times> string option) list \<Rightarrow> string" where
  "help_html shortcuts bindings =
     ''<p class=\"title\">Keyboard Shortcuts</p><br/>'' @ ''<table><th>KEY</th><th>ACTION</th>''
     @ concat (map (\<lambda>(k, v). table_row k v) (object_values (map (\<lambda>kv. (fst kv, kv)) shortcuts)))
     @ concat (map binding_row (object_values bindings)) @ ''</table>''"

text \<open>The table is never emptied: after a change of the mode it lists the keys of both modes.\<close>

lemma fold_update_keeps:
  "map_of t k = Some v \<Longrightarrow> k \<notin> fst ` set kvs \<Longrightarrow> map_of (fold (\<lambda>(k, v). AList.update k v) kvs t) k = Some v"
  by (induction kvs arbitrary: t) (auto simp: update_conv')

lemma fold_update_last:
  "distinct (map fst kvs) \<Longrightarrow> (k, v) \<in> set kvs \<Longrightarrow> map_of (fold (\<lambda>(k, v). AList.update k v) kvs t) k = Some v"
proof (induction kvs arbitrary: t)
  case (Cons p kvs)
  then show ?case
    by (cases p) (auto simp: update_conv' intro: fold_update_keeps)
qed simp

lemma stale_shortcuts:
  assumes "cfg_navigationMode c \<noteq> NavLinear" and "cfg_navigationMode c' = NavLinear"
  shows "map_of (keyboard_configure c' (keyboard_configure c t)) ''&#8593;  ,  K'' = Some ''Navigate up''"
proof -
  have "map_of (keyboard_configure c t) ''&#8593;  ,  K'' = Some ''Navigate up''"
    unfolding keyboard_configure_def
    by (rule fold_update_last) (use assms(1) in \<open>simp_all add: mode_shortcuts_def common_shortcuts_def\<close>)
  then show ?thesis
    using assms(2) unfolding keyboard_configure_def [of c']
    by (intro fold_update_keeps) (simp_all add: mode_shortcuts_def common_shortcuts_def)
qed

section \<open>Which displays are shown\<close>

definition slide_number_display :: "deck \<Rightarrow> string" where
  "slide_number_display d =
     (if slide_number_shown (cfg_slideNumber (cfg d)) \<and> \<not> isPrintingPDF (env d)
         \<and> (cfg_showSlideNumber (cfg d) = ''all''
            \<or> cfg_showSlideNumber (cfg d) = ''speaker'' \<and> isSpeakerNotes (env d))
      then ''block'' else ''none'')"

definition progress_display :: "full_config \<Rightarrow> string" where
  "progress_display c = (if cfg_progress c then ''block'' else ''none'')"

text \<open>The \<open>data-layout\<close> of the notes after \<open>configure\<close>; an empty string is falsy.\<close>

definition notes_layout_attribute :: "full_config \<Rightarrow> string option \<Rightarrow> string option" where
  "notes_layout_attribute c old =
     (case cfg_showNotes c of
        NotesOff \<Rightarrow> old
      | NotesOn \<Rightarrow> Some ''inline''
      | NotesLayout s \<Rightarrow> if s = [] then old else Some s)"

section \<open>The options of a deck\<close>

text \<open>
  The composition of the options by \<open>initialize\<close>, in the order of increasing precedence: the defaults,
  what \<open>configure\<close> was given before, what the constructor and \<open>initialize\<close> were given, and the query
  of the address, whose values are injected into the values of options by \<open>v\<close>.
\<close>

definition initial_config ::
  "(js_value \<Rightarrow> 'a) \<Rightarrow> (string \<rightharpoonup> 'a) \<Rightarrow> (string \<rightharpoonup> 'a) \<Rightarrow> (string \<rightharpoonup> 'a) \<Rightarrow> (string \<rightharpoonup> 'a) \<Rightarrow> string \<Rightarrow> (string \<rightharpoonup> 'a)" where
  "initial_config v defaults configured options initOptions search =
     defaults ++ configured ++ options ++ initOptions ++ (map_option v \<circ> getQueryHash search)"

datatype initialize_error = NoPresentationRoot | NoSlidesContainer

definition initialize_options ::
  "bool \<Rightarrow> bool \<Rightarrow> (js_value \<Rightarrow> 'a) \<Rightarrow> (string \<rightharpoonup> 'a) \<Rightarrow> (string \<rightharpoonup> 'a) \<Rightarrow> (string \<rightharpoonup> 'a) \<Rightarrow> (string \<rightharpoonup> 'a) \<Rightarrow> string
   \<Rightarrow> initialize_error + (string \<rightharpoonup> 'a)" where
  "initialize_options has_root has_slides v defaults configured options initOptions search =
     (if \<not> has_root then Inl NoPresentationRoot
      else if \<not> has_slides then Inl NoSlidesContainer
      else Inr (initial_config v defaults configured options initOptions search))"

text \<open>
  The address decides every option it names but the dependencies, which it cannot set; the plugins it
  can, and a string in their place makes the loading of the plugins throw.
\<close>

lemma address_sets_no_dependencies:
  "initial_config v defaults configured options initOptions search ''dependencies'' =
     (defaults ++ configured ++ options ++ initOptions) ''dependencies''"
  by (simp add: initial_config_def map_add_def no_dependencies)

lemma address_sets_options:
  assumes "query_object search k = Some t" and "k \<noteq> ''dependencies''"
  shows "initial_config v defaults configured options initOptions search k = Some (v (deserialize_string (unescape t)))"
  using assms by (simp add: initial_config_def map_add_def getQueryHash_eq)

section \<open>destroy\<close>

definition clear_slide :: "elem \<Rightarrow> elem" where
  "clear_slide e =
     remove_attr AriaHidden (remove_attr Hidden (e\<lparr>displayNone := False, top := TopUnset\<rparr>))"

text \<open>The part of \<open>destroy\<close> that is about the deck and its document.\<close>

definition destroy_deck :: "deck \<Rightarrow> deck" where
  "destroy_deck d =
     (let d1 = cancelAutoSlide d;
          d2 = showCursor (d1\<lparr>wrapperClasses := wrapperClasses d1 - {FocusedClass}\<rparr>);
          d3 = d2\<lparr>wrapperClasses := wrapperClasses d2 - {ReadyClass, HasHorizontalSlides, HasVerticalSlides},
                  slidesSize := None, layoutTransform := LayoutNone, overviewTransform := OverviewNone\<rparr>
      in update_doc (\<lambda>dm. update_all clear_slide (all_slides dm) dm) d3)"

lemma clear_slide_idem: "clear_slide (clear_slide e) = clear_slide e"
  by (simp add: clear_slide_def remove_attr_def fun_upd_twist)

text \<open>No slide stays hidden, and no automatic slide is pending.\<close>

lemma destroy_shows_slides:
  "s \<in> set (all_slides (doc d)) \<Longrightarrow>
   \<not> displayNone (el (doc (destroy_deck d)) s) \<and> attrs (el (doc (destroy_deck d)) s) Hidden = None \<and>
   attrs (el (doc (destroy_deck d)) s) AriaHidden = None"
  by (simp add: destroy_deck_def Let_def update_doc_def cancelAutoSlide_def clear_timeout_def showCursor_def
      el_update_all [OF clear_slide_idem] clear_slide_def remove_attr_def)

lemma destroy_stops_sliding:
  assumes "timers_ok d" and "t \<in> set (timers (destroy_deck d))"
  shows "taction t \<noteq> TimAutoSlide"
proof -
  have "timers (destroy_deck d) = timers (cancelAutoSlide d)"
    by (simp add: destroy_deck_def Let_def update_doc_def showCursor_def)
  then show ?thesis using cancel_empties [OF assms(1)] assms(2) by simp
qed

end
