(* ===== verification/Listeners.thy ===== *)
theory Listeners
  imports Lifecycle Regex
begin

text \<open>
  The event listeners of a deck: \<open>initialize\<close>, \<open>start\<close>, \<open>configure\<close>, \<open>sync\<close>, \<open>destroy\<close>,
  \<open>addEventListeners\<close> and \<open>removeEventListeners\<close> of \<open>reveal.js\<close>, and the methods \<open>bind\<close>,
  \<open>unbind\<close>, \<open>configure\<close> and \<open>destroy\<close> of the controllers, as far as they register listeners.  The
  registry is a set, since an element keeps a listener once however often it is added; a listener
  is its target, its event and its handler (the handler of a slide is the only capturing one).
  Every operation acts on a \<open>wiring\<close>: the registry with the options and the parts of the page that
  decide which listeners there are.
\<close>

datatype event_target = OnWindow | OnDocument | OnReveal | OnSlides | OnPauseOverlay | OnProgress
  | OnControl nat | OnLink nat | OnSlide nat

datatype handler = HLayout | HPostMessage | HFullscreenChange | HSetupPDF | HWindowResize
  | HSlidesClicked | HTransitionEnd | HResume | HVisibilityChange
  | HRevealPointerDown | HDocumentPointerDown | HKeyDown | HKeyPress | HWindowHashChange
  | HProgressClicked | HNavigateLeft | HNavigateRight | HNavigateUp | HNavigateDown
  | HNavigatePrev | HNavigateNext | HPointerDown | HPointerMove | HPointerUp
  | HTouchStart | HTouchMove | HTouchEnd | HMouseScroll | HCursorActive
  | HSlideClicked | HPreviewLinkClicked

type_synonym listener = "event_target \<times> string \<times> handler"

text \<open>The options that decide on listeners.\<close>

record wiring_config = full_config +
  cfg_previewLinks :: bool
  cfg_focusBodyOnPageVisibilityChange :: bool
  cfg_postMessage :: bool

definition default_wiring_config :: wiring_config where
  "default_wiring_config =
     full_config.extend default_config
       \<lparr>cfg_previewLinks = False, cfg_focusBodyOnPageVisibilityChange = True, cfg_postMessage = True\<rparr>"

text \<open>An element of the page with an \<open>href\<close> or a \<open>data-preview-link\<close>.\<close>

record link =
  link_id :: nat
  link_anchor :: bool
  link_href :: "string option"
  link_preview :: "string option"

record wiring_env =
  isAndroid :: bool
  onpointerdown :: bool
  msPointerEnabled :: bool
  printingPDF :: bool
  documentComplete :: bool
  controlsLeft :: "nat list"
  controlsRight :: "nat list"
  controlsUp :: "nat list"
  controlsDown :: "nat list"
  controlsPrev :: "nat list"
  controlsNext :: "nat list"
  page_links :: "link list"
  page_slides :: "nat list"

record wiring =
  w_cfg :: wiring_config
  w_env :: wiring_env
  registry :: "listener set"
  w_focus :: focus_state
  w_ready :: bool
  eventsAreBound :: bool
  w_overview :: bool
  scrollPrevention :: bool

definition addListener :: "listener \<Rightarrow> wiring \<Rightarrow> wiring" where
  "addListener l w = w\<lparr>registry := insert l (registry w)\<rparr>"

definition removeListener :: "listener \<Rightarrow> wiring \<Rightarrow> wiring" where
  "removeListener l w = w\<lparr>registry := registry w - {l}\<rparr>"

definition listen_all :: "listener list \<Rightarrow> wiring \<Rightarrow> wiring" where
  "listen_all ls = fold addListener ls"

definition unlisten_all :: "listener list \<Rightarrow> wiring \<Rightarrow> wiring" where
  "unlisten_all ls = fold removeListener ls"

section \<open>The controllers\<close>

definition pointer_listeners :: "listener list" where
  "pointer_listeners =
     [(OnReveal, ''pointerdown'', HPointerDown), (OnReveal, ''pointermove'', HPointerMove),
      (OnReveal, ''pointerup'', HPointerUp)]"

definition ms_pointer_listeners :: "listener list" where
  "ms_pointer_listeners =
     [(OnReveal, ''MSPointerDown'', HPointerDown), (OnReveal, ''MSPointerMove'', HPointerMove),
      (OnReveal, ''MSPointerUp'', HPointerUp)]"

definition touch_listeners :: "listener list" where
  "touch_listeners =
     [(OnReveal, ''touchstart'', HTouchStart), (OnReveal, ''touchmove'', HTouchMove),
      (OnReveal, ''touchend'', HTouchEnd)]"

definition touch_bind :: "wiring \<Rightarrow> wiring" where
  "touch_bind w =
     (if onpointerdown (w_env w) then listen_all pointer_listeners w
      else if msPointerEnabled (w_env w) then listen_all ms_pointer_listeners w
      else listen_all touch_listeners w)"

definition touch_unbind :: "wiring \<Rightarrow> wiring" where
  "touch_unbind w =
     unlisten_all touch_listeners (unlisten_all ms_pointer_listeners (unlisten_all pointer_listeners w))"

definition keyboard_bind :: "wiring \<Rightarrow> wiring" where
  "keyboard_bind =
     listen_all [(OnDocument, ''keydown'', HKeyDown), (OnDocument, ''keypress'', HKeyPress)]"

definition keyboard_unbind :: "wiring \<Rightarrow> wiring" where
  "keyboard_unbind =
     unlisten_all [(OnDocument, ''keydown'', HKeyDown), (OnDocument, ''keypress'', HKeyPress)]"

definition location_bind :: "wiring \<Rightarrow> wiring" where
  "location_bind = addListener (OnWindow, ''hashchange'', HWindowHashChange)"

definition location_unbind :: "wiring \<Rightarrow> wiring" where
  "location_unbind = removeListener (OnWindow, ''hashchange'', HWindowHashChange)"

definition progress_bind :: "wiring \<Rightarrow> wiring" where
  "progress_bind w =
     (if cfg_progress (w_cfg w) then addListener (OnProgress, ''click'', HProgressClicked) w else w)"

definition progress_unbind :: "wiring \<Rightarrow> wiring" where
  "progress_unbind w =
     (if cfg_progress (w_cfg w) then removeListener (OnProgress, ''click'', HProgressClicked) w else w)"

definition control_listeners :: "wiring_env \<Rightarrow> string \<Rightarrow> listener list" where
  "control_listeners e eventName =
     map (\<lambda>c. (OnControl c, eventName, HNavigateLeft)) (controlsLeft e)
     @ map (\<lambda>c. (OnControl c, eventName, HNavigateRight)) (controlsRight e)
     @ map (\<lambda>c. (OnControl c, eventName, HNavigateUp)) (controlsUp e)
     @ map (\<lambda>c. (OnControl c, eventName, HNavigateDown)) (controlsDown e)
     @ map (\<lambda>c. (OnControl c, eventName, HNavigatePrev)) (controlsPrev e)
     @ map (\<lambda>c. (OnControl c, eventName, HNavigateNext)) (controlsNext e)"

definition pointerEvents :: "wiring_env \<Rightarrow> string list" where
  "pointerEvents e = (if isAndroid e then [''touchstart''] else [''touchstart'', ''click''])"

definition controls_bind :: "wiring \<Rightarrow> wiring" where
  "controls_bind w =
     fold (\<lambda>eventName. listen_all (control_listeners (w_env w) eventName)) (pointerEvents (w_env w)) w"

definition controls_unbind :: "wiring \<Rightarrow> wiring" where
  "controls_unbind w =
     fold (\<lambda>eventName. unlisten_all (control_listeners (w_env w) eventName)) [''touchstart'', ''click''] w"

abbreviation reveal_press :: listener where
  "reveal_press \<equiv> (OnReveal, ''pointerdown'', HRevealPointerDown)"

abbreviation document_press :: listener where
  "document_press \<equiv> (OnDocument, ''pointerdown'', HDocumentPointerDown)"

definition focus_bind :: "wiring \<Rightarrow> wiring" where
  "focus_bind w = (if cfg_embedded (w_cfg w) then addListener reveal_press w else w)"

definition focus_unbind :: "wiring \<Rightarrow> wiring" where
  "focus_unbind w = removeListener document_press (removeListener reveal_press w)"

definition focus_gain :: "wiring \<Rightarrow> wiring" where
  "focus_gain w =
     (let w1 = (if w_focus w \<noteq> StateFocus then addListener document_press w else w)
      in w1\<lparr>w_focus := StateFocus\<rparr>)"

definition focus_lose :: "wiring \<Rightarrow> wiring" where
  "focus_lose w =
     (let w1 = (if w_focus w \<noteq> StateBlur then removeListener document_press w else w)
      in w1\<lparr>w_focus := StateBlur\<rparr>)"

definition configure_focus :: "wiring \<Rightarrow> wiring" where
  "configure_focus w =
     (if cfg_embedded (w_cfg w) then focus_lose w else focus_unbind (focus_gain w))"

definition wheel_listeners :: "listener list" where
  "wheel_listeners =
     [(OnDocument, ''DOMMouseScroll'', HMouseScroll), (OnDocument, ''mousewheel'', HMouseScroll)]"

definition cursor_listeners :: "listener list" where
  "cursor_listeners =
     [(OnDocument, ''mousemove'', HCursorActive), (OnDocument, ''mousedown'', HCursorActive)]"

definition configure_pointer :: "wiring \<Rightarrow> wiring" where
  "configure_pointer w =
     (let w1 = (if cfg_mouseWheel (w_cfg w) then listen_all wheel_listeners w
                else unlisten_all wheel_listeners w)
      in if cfg_hideInactiveCursor (w_cfg w) then listen_all cursor_listeners w1
         else unlisten_all cursor_listeners w1)"

definition pointer_destroy :: "wiring \<Rightarrow> wiring" where
  "pointer_destroy w = unlisten_all cursor_listeners (unlisten_all wheel_listeners w)"

section \<open>Preview links\<close>

text \<open>\<open>/^(http|www)/gi.test( element.getAttribute( 'href' ) )\<close>; a missing attribute is the text \<open>null\<close>.\<close>

definition web_href :: "string option \<Rightarrow> bool" where
  "web_href h = test (ignore_case (RSeq RBol (RAlt (word ''http'') (word ''www''))))
                  (case h of None \<Rightarrow> ''null'' | Some s \<Rightarrow> s)"

definition link_listeners :: "(link \<Rightarrow> bool) \<Rightarrow> wiring_env \<Rightarrow> listener list" where
  "link_listeners selector e =
     map (\<lambda>k. (OnLink (link_id k), ''click'', HPreviewLinkClicked))
       (filter (\<lambda>k. selector k \<and> web_href (link_href k)) (page_links e))"

definition enablePreviewLinks :: "(link \<Rightarrow> bool) \<Rightarrow> wiring \<Rightarrow> wiring" where
  "enablePreviewLinks selector w = listen_all (link_listeners selector (w_env w)) w"

definition disablePreviewLinks :: "(link \<Rightarrow> bool) \<Rightarrow> wiring \<Rightarrow> wiring" where
  "disablePreviewLinks selector w = unlisten_all (link_listeners selector (w_env w)) w"

text \<open>\<open>[data-preview-link=false]\<close> and \<open>[data-preview-link]:not([data-preview-link=false])\<close>\<close>

definition preview_off :: "link \<Rightarrow> bool" where
  "preview_off k \<longleftrightarrow> link_preview k = Some ''false''"

definition preview_on :: "link \<Rightarrow> bool" where
  "preview_on k \<longleftrightarrow> link_preview k \<noteq> None \<and> \<not> preview_off k"

definition configure_links :: "wiring \<Rightarrow> wiring" where
  "configure_links w =
     (if cfg_previewLinks (w_cfg w)
      then disablePreviewLinks preview_off (enablePreviewLinks link_anchor w)
      else enablePreviewLinks preview_on (disablePreviewLinks link_anchor w))"

section \<open>The deck\<close>

definition keys_on :: "keyboard_option \<Rightarrow> bool" where
  "keys_on k \<longleftrightarrow> k \<noteq> KeysOff"

abbreviation visibility_change :: listener where
  "visibility_change \<equiv> (OnDocument, ''visibilitychange'', HVisibilityChange)"

definition addEventListeners :: "wiring \<Rightarrow> wiring" where
  "addEventListeners w =
     (let c = w_cfg w;
          w1 = addListener (OnWindow, ''resize'', HWindowResize) (w\<lparr>eventsAreBound := True\<rparr>);
          w2 = (if cfg_touch c then touch_bind w1 else w1);
          w3 = (if keys_on (cfg_keyboard c) then keyboard_bind w2 else w2);
          w4 = (if cfg_progress c then progress_bind w3 else w3);
          w5 = (if cfg_respondToHashChanges c then location_bind w4 else w4);
          w6 = focus_bind (controls_bind w5);
          w7 = listen_all [(OnSlides, ''click'', HSlidesClicked),
                 (OnSlides, ''transitionend'', HTransitionEnd), (OnPauseOverlay, ''click'', HResume)] w6
      in if cfg_focusBodyOnPageVisibilityChange c then addListener visibility_change w7 else w7)"

definition removeEventListeners :: "wiring \<Rightarrow> wiring" where
  "removeEventListeners w =
     (let w1 = touch_unbind (w\<lparr>eventsAreBound := False\<rparr>);
          w2 = location_unbind (progress_unbind (controls_unbind (keyboard_unbind (focus_unbind w1))))
      in unlisten_all [(OnWindow, ''resize'', HWindowResize), (OnSlides, ''click'', HSlidesClicked),
           (OnSlides, ''transitionend'', HTransitionEnd), (OnPauseOverlay, ''click'', HResume)] w2)"

definition sync_wiring :: "wiring \<Rightarrow> wiring" where
  "sync_wiring w = addEventListeners (removeEventListeners w)"

definition configure_wiring :: "wiring_config \<Rightarrow> wiring \<Rightarrow> wiring" where
  "configure_wiring c w =
     (let w0 = w\<lparr>w_cfg := c\<rparr>
      in if \<not> w_ready w then w0
         else sync_wiring (configure_pointer (configure_focus (configure_links w0))))"

text \<open>The overview listens to clicks on the slides that are no stacks.\<close>

definition slide_click :: "nat \<Rightarrow> listener" where
  "slide_click s = (OnSlide s, ''click'', HSlideClicked)"

definition overview_open :: "(nat \<Rightarrow> bool) \<Rightarrow> wiring \<Rightarrow> wiring" where
  "overview_open is_stack w =
     (if cfg_overview (w_cfg w) \<and> \<not> w_overview w
      then listen_all (map slide_click (filter (\<lambda>s. \<not> is_stack s) (page_slides (w_env w))))
             (w\<lparr>w_overview := True\<rparr>)
      else w)"

definition overview_close :: "wiring \<Rightarrow> wiring" where
  "overview_close w =
     (if cfg_overview (w_cfg w)
      then unlisten_all (map slide_click (page_slides (w_env w))) (w\<lparr>w_overview := False\<rparr>)
      else w)"

text \<open>
  A press of the pointer.  It reaches the document last, and its listener sees the registry as the
  listener of the deck has left it; \<open>through\<close> says that the press is inside of the deck's element,
  \<open>own\<close> that the nearest \<open>.reveal\<close> around it is the deck's.
\<close>

definition pointer_press :: "bool \<Rightarrow> bool \<Rightarrow> wiring \<Rightarrow> wiring" where
  "pointer_press through own w =
     (let w1 = (if through \<and> reveal_press \<in> registry w then focus_gain w else w)
      in if document_press \<in> registry w1 \<and> \<not> own then focus_lose w1 else w1)"

definition window_load :: "handler \<Rightarrow> listener" where
  "window_load h = (OnWindow, ''load'', h)"

definition fullscreen_listeners :: "listener list" where
  "fullscreen_listeners =
     [(OnDocument, ''fullscreenchange'', HFullscreenChange),
      (OnDocument, ''webkitfullscreenchange'', HFullscreenChange)]"

definition post_message :: listener where
  "post_message = (OnWindow, ''message'', HPostMessage)"

definition initialize_wiring :: "wiring_config \<Rightarrow> wiring_env \<Rightarrow> wiring" where
  "initialize_wiring c e =
     addListener (window_load HLayout)
       \<lparr>w_cfg = c, w_env = e, registry = {}, w_focus = FocusUnset, w_ready = False,
        eventsAreBound = False, w_overview = False, scrollPrevention = False\<rparr>"

definition start_wiring :: "wiring \<Rightarrow> wiring" where
  "start_wiring w =
     (let w1 = w\<lparr>w_ready := True\<rparr>;
          w2 = (if cfg_postMessage (w_cfg w1) then addListener post_message w1 else w1);
          w3 = listen_all fullscreen_listeners (w2\<lparr>scrollPrevention := True\<rparr>);
          w4 = configure_wiring (w_cfg w3) w3
      in if printingPDF (w_env w4)
         then (let w5 = removeEventListeners w4
               in if documentComplete (w_env w5) then w5
                  else addListener (window_load HSetupPDF) w5)
         else w4)"

definition destroy_wiring :: "wiring \<Rightarrow> wiring" where
  "destroy_wiring w =
     (let w1 = pointer_destroy (disablePreviewLinks link_anchor (removeEventListeners w));
          w2 = controls_unbind w1
      in unlisten_all (fullscreen_listeners @ [visibility_change, post_message, window_load HLayout]) w2)"

end
