(* ===== verification/ListenerLaws.thy ===== *)
theory ListenerLaws
  imports Listeners
begin

text \<open>
  What the listener registry holds in every state a deck can reach.  A controller that adds and
  removes the same listeners is a \<open>registrar\<close>; the progress bar is none, because its \<open>unbind\<close> asks
  the options, which \<open>configure\<close> has replaced by then.
\<close>

section \<open>Adding and removing\<close>

lemma put_registry: "A = B \<Longrightarrow> w\<lparr>registry := A\<rparr> = w\<lparr>registry := B\<rparr>"
  by simp

lemma listen_all_eq: "listen_all ls w = w\<lparr>registry := registry w \<union> set ls\<rparr>"
  unfolding listen_all_def by (induction ls arbitrary: w) (auto simp: addListener_def)

lemma unlisten_all_eq: "unlisten_all ls w = w\<lparr>registry := registry w - set ls\<rparr>"
proof (induction ls arbitrary: w)
  case (Cons l ls)
  from Cons.IH [of "removeListener l w"] show ?case
    by (auto simp: unlisten_all_def removeListener_def intro!: put_registry)
qed (simp add: unlisten_all_def)

lemma add_if:
  "(if b then addListener l w else w) = w\<lparr>registry := registry w \<union> (if b then {l} else {})\<rparr>"
  by (simp add: addListener_def)

lemma remove_if:
  "(if b then removeListener l w else w) = w\<lparr>registry := registry w - (if b then {l} else {})\<rparr>"
  by (simp add: removeListener_def)

lemma remove_one: "removeListener l w = w\<lparr>registry := registry w - {l}\<rparr>"
  by (simp add: removeListener_def)

lemma add_one: "addListener l w = w\<lparr>registry := registry w \<union> {l}\<rparr>"
  by (simp add: addListener_def)

lemma diff_diff: "A - B - C = A - (B \<union> C)" for A :: "'a set"
  by auto

lemmas registry_simps = listen_all_eq unlisten_all_eq addListener_def removeListener_def

locale registrar =
  fixes bind unbind :: "wiring \<Rightarrow> wiring"
    and on off :: "wiring_config \<Rightarrow> wiring_env \<Rightarrow> listener set"
  assumes bind_eq: "bind w = w\<lparr>registry := registry w \<union> on (w_cfg w) (w_env w)\<rparr>"
    and unbind_eq: "unbind w = w\<lparr>registry := registry w - off (w_cfg w) (w_env w)\<rparr>"
    and on_off: "on c e \<subseteq> off c' e"
begin

lemma unbind_bind: "unbind (bind w) = unbind w"
  using on_off [of "w_cfg w" "w_env w" "w_cfg w"] by (auto simp: bind_eq unbind_eq intro!: put_registry)

lemma bind_if:
  "(if b then bind w else w)
     = w\<lparr>registry := registry w \<union> (if b then on (w_cfg w) (w_env w) else {})\<rparr>"
  by (simp add: bind_eq)

lemma bind_bind: "bind (bind w) = bind w"
  by (simp add: bind_eq Un_assoc)

text \<open>After a change of the options a controller that is unbound and bound has what it wants, and no more.\<close>

lemma rebind:
  "registry (bind (unbind (w\<lparr>w_cfg := c\<rparr>))) \<inter> off c (w_env w) = on c (w_env w)"
  using on_off [of c "w_env w" c] by (auto simp: bind_eq unbind_eq)

end

definition touch_on :: "wiring_env \<Rightarrow> listener set" where
  "touch_on e = set (if onpointerdown e then pointer_listeners
                     else if msPointerEnabled e then ms_pointer_listeners else touch_listeners)"

definition touch_off :: "listener set" where
  "touch_off = set pointer_listeners \<union> set ms_pointer_listeners \<union> set touch_listeners"

interpretation touch: registrar touch_bind touch_unbind "\<lambda>_. touch_on" "\<lambda>_ _. touch_off"
  by unfold_locales
    (simp_all add: touch_bind_def touch_unbind_def touch_on_def touch_off_def listen_all_eq
      unlisten_all_eq diff_diff Un_ac le_supI1 le_supI2)

definition keyboard_on :: "listener set" where
  "keyboard_on = {(OnDocument, ''keydown'', HKeyDown), (OnDocument, ''keypress'', HKeyPress)}"

interpretation keyboard: registrar keyboard_bind keyboard_unbind "\<lambda>_ _. keyboard_on" "\<lambda>_ _. keyboard_on"
  by unfold_locales (simp_all add: keyboard_bind_def keyboard_unbind_def keyboard_on_def registry_simps)

definition hash_on :: "listener set" where
  "hash_on = {(OnWindow, ''hashchange'', HWindowHashChange)}"

interpretation hash: registrar location_bind location_unbind "\<lambda>_ _. hash_on" "\<lambda>_ _. hash_on"
  by unfold_locales (simp_all add: location_bind_def location_unbind_def hash_on_def registry_simps)

definition controls_on :: "wiring_env \<Rightarrow> listener set" where
  "controls_on e = \<Union> (set (map (\<lambda>n. set (control_listeners e n)) (pointerEvents e)))"

definition controls_off :: "wiring_env \<Rightarrow> listener set" where
  "controls_off e = set (control_listeners e ''touchstart'') \<union> set (control_listeners e ''click'')"

interpretation controls: registrar controls_bind controls_unbind "\<lambda>_. controls_on" "\<lambda>_. controls_off"
  by unfold_locales
    (simp_all add: controls_bind_def controls_unbind_def controls_on_def controls_off_def
      pointerEvents_def listen_all_eq unlisten_all_eq diff_diff Un_ac le_supI1 le_supI2)

definition focus_on :: "wiring_config \<Rightarrow> listener set" where
  "focus_on c = (if cfg_embedded c then {reveal_press} else {})"

interpretation focus: registrar focus_bind focus_unbind "\<lambda>c _. focus_on c"
  "\<lambda>_ _. {reveal_press, document_press}"
  by unfold_locales
    (simp_all add: focus_bind_def focus_unbind_def focus_on_def add_one remove_one diff_diff insert_commute)

section \<open>What is asked for\<close>

definition always_bound :: "listener set" where
  "always_bound = {(OnWindow, ''resize'', HWindowResize), (OnSlides, ''click'', HSlidesClicked),
     (OnSlides, ''transitionend'', HTransitionEnd), (OnPauseOverlay, ''click'', HResume)}"

abbreviation progress_click :: listener where
  "progress_click \<equiv> (OnProgress, ''click'', HProgressClicked)"

text \<open>What \<open>addEventListeners\<close> is to register under these options.\<close>

definition asked_for :: "wiring_config \<Rightarrow> wiring_env \<Rightarrow> listener set" where
  "asked_for c e =
     always_bound \<union> controls_on e \<union> focus_on c
     \<union> (if cfg_touch c then touch_on e else {})
     \<union> (if keys_on (cfg_keyboard c) then keyboard_on else {})
     \<union> (if cfg_progress c then {progress_click} else {})
     \<union> (if cfg_respondToHashChanges c then hash_on else {})
     \<union> (if cfg_focusBodyOnPageVisibilityChange c then {visibility_change} else {})"

text \<open>Which links of the page open in the preview, under these options.\<close>

definition previewed :: "wiring_config \<Rightarrow> link \<Rightarrow> bool" where
  "previewed c k \<longleftrightarrow> web_href (link_href k) \<and>
     (if cfg_previewLinks c then link_anchor k \<and> \<not> preview_off k else preview_on k)"

definition link_click :: "link \<Rightarrow> listener" where
  "link_click k = (OnLink (link_id k), ''click'', HPreviewLinkClicked)"

definition preferred :: "wiring_config \<Rightarrow> wiring_env \<Rightarrow> listener set" where
  "preferred c e =
     (if cfg_mouseWheel c then set wheel_listeners else {})
     \<union> (if cfg_hideInactiveCursor c then set cursor_listeners else {})
     \<union> link_click ` {k \<in> set (page_links e). previewed c k}"

text \<open>What may be registered besides: listeners of the window, of a focused deck, of an open
  overview, and those the code does not take back.\<close>

definition window_listeners :: "listener set" where
  "window_listeners =
     {post_message, window_load HLayout, window_load HSetupPDF} \<union> set fullscreen_listeners"

definition kept :: "wiring \<Rightarrow> listener set" where
  "kept w =
     (if cfg_embedded (w_cfg w) \<and> w_focus w = StateFocus then {document_press} else {})
     \<union> (if w_overview w then slide_click ` set (page_slides (w_env w)) else {})
     \<union> {progress_click, visibility_change}
     \<union> link_click ` {k \<in> set (page_links (w_env w)). \<not> link_anchor k \<and> preview_on k}"

section \<open>The operations on the registry\<close>

definition removed :: "wiring_config \<Rightarrow> wiring_env \<Rightarrow> listener set" where
  "removed c e =
     always_bound \<union> touch_off \<union> {reveal_press, document_press} \<union> keyboard_on \<union> controls_off e
     \<union> (if cfg_progress c then {progress_click} else {}) \<union> hash_on"

lemma add_progress:
  "(if b then progress_bind w else w)
     = w\<lparr>registry := registry w \<union> (if b \<and> cfg_progress (w_cfg w) then {progress_click} else {})\<rparr>"
  by (simp add: progress_bind_def add_one)

lemma asked_alt:
  "asked_for c e = {(OnWindow, ''resize'', HWindowResize)}
     \<union> (if cfg_touch c then touch_on e else {})
     \<union> (if keys_on (cfg_keyboard c) then keyboard_on else {})
     \<union> (if cfg_progress c then {progress_click} else {})
     \<union> (if cfg_respondToHashChanges c then hash_on else {}) \<union> controls_on e \<union> focus_on c
     \<union> {(OnSlides, ''click'', HSlidesClicked), (OnSlides, ''transitionend'', HTransitionEnd),
        (OnPauseOverlay, ''click'', HResume)}
     \<union> (if cfg_focusBodyOnPageVisibilityChange c then {visibility_change} else {})"
  unfolding asked_for_def always_bound_def by blast

lemma addEventListeners_eq:
  "addEventListeners w =
     w\<lparr>registry := registry w \<union> asked_for (w_cfg w) (w_env w), eventsAreBound := True\<rparr>"
proof -
  have "w_cfg w = c \<Longrightarrow> w_env w = e \<Longrightarrow> ?thesis" for c e
    by (simp add: addEventListeners_def Let_def touch.bind_if keyboard.bind_if hash.bind_if
      add_progress controls.bind_eq focus.bind_eq add_if add_one listen_all_eq Un_assoc asked_alt
      del: if_split Un_insert_right Un_insert_left)
  then show ?thesis by blast
qed

lemma unbind_progress:
  "progress_unbind w = w\<lparr>registry := registry w - (if cfg_progress (w_cfg w) then {progress_click} else {})\<rparr>"
  by (simp add: progress_unbind_def remove_one)

lemma removed_alt:
  "removed c e = touch_off \<union> ({reveal_press, document_press} \<union> (keyboard_on \<union> (controls_off e
     \<union> ((if cfg_progress c then {progress_click} else {}) \<union> (hash_on \<union> always_bound)))))"
  unfolding removed_def by blast

lemma removeEventListeners_eq:
  "removeEventListeners w =
     w\<lparr>registry := registry w - removed (w_cfg w) (w_env w), eventsAreBound := False\<rparr>"
proof -
  have "w_cfg w = c \<Longrightarrow> w_env w = e \<Longrightarrow> ?thesis" for c e
    by (simp add: removeEventListeners_def Let_def touch.unbind_eq keyboard.unbind_eq hash.unbind_eq
      unbind_progress controls.unbind_eq focus.unbind_eq unlisten_all_eq always_bound_def [symmetric]
      removed_alt diff_diff Un_assoc del: if_split Un_insert_right Un_insert_left)
  then show ?thesis by blast
qed

lemma link_listeners_set:
  "set (link_listeners P e) = link_click ` {k \<in> set (page_links e). P k \<and> web_href (link_href k)}"
  by (auto simp: link_listeners_def link_click_def)

lemma focus_gain_eq:
  "focus_gain w = w\<lparr>registry := registry w \<union> (if w_focus w \<noteq> StateFocus then {document_press} else {}),
     w_focus := StateFocus\<rparr>"
  by (simp add: focus_gain_def addListener_def)

lemma focus_lose_eq:
  "focus_lose w = w\<lparr>registry := registry w - (if w_focus w \<noteq> StateBlur then {document_press} else {}),
     w_focus := StateBlur\<rparr>"
  by (simp add: focus_lose_def removeListener_def)

lemma configure_focus_eq:
  "configure_focus w = w\<lparr>registry := registry w -
       (if cfg_embedded (w_cfg w) then if w_focus w \<noteq> StateBlur then {document_press} else {}
        else {reveal_press, document_press}),
     w_focus := (if cfg_embedded (w_cfg w) then StateBlur else StateFocus)\<rparr>"
  by (auto simp: configure_focus_def focus_lose_eq focus_gain_eq focus.unbind_eq intro!: put_registry)

lemma configure_pointer_eq:
  "configure_pointer w = w\<lparr>registry := registry w
     - (set wheel_listeners \<union> set cursor_listeners)
     \<union> (if cfg_mouseWheel (w_cfg w) then set wheel_listeners else {})
     \<union> (if cfg_hideInactiveCursor (w_cfg w) then set cursor_listeners else {})\<rparr>"
  by (auto simp: configure_pointer_def wheel_listeners_def cursor_listeners_def registry_simps
      intro!: put_registry)

lemma configure_links_eq:
  "configure_links w = w\<lparr>registry :=
     (if cfg_previewLinks (w_cfg w)
      then registry w \<union> set (link_listeners link_anchor (w_env w))
             - set (link_listeners preview_off (w_env w))
      else registry w - set (link_listeners link_anchor (w_env w))
             \<union> set (link_listeners preview_on (w_env w)))\<rparr>"
  by (simp add: configure_links_def enablePreviewLinks_def disablePreviewLinks_def registry_simps)

section \<open>Reachable wirings\<close>

inductive wired :: "wiring \<Rightarrow> bool" where
  start: "distinct (map link_id (page_links e)) \<Longrightarrow> wired (start_wiring (initialize_wiring c e))"
| configure: "wired w \<Longrightarrow> wired (configure_wiring c w)"
| sync: "wired w \<Longrightarrow> wired (sync_wiring w)"
| add: "wired w \<Longrightarrow> wired (addEventListeners w)"
| remove: "wired w \<Longrightarrow> wired (removeEventListeners w)"
| overview_open: "wired w \<Longrightarrow> wired (overview_open is_stack w)"
| overview_close: "wired w \<Longrightarrow> wired (overview_close w)"
| press: "wired w \<Longrightarrow> (own \<longrightarrow> through) \<Longrightarrow> wired (pointer_press through own w)"

text \<open>What the registry may hold at most; \<open>configure\<close> needs no more than this.\<close>

definition bounded_by :: "listener set \<Rightarrow> wiring \<Rightarrow> bool" where
  "bounded_by S w \<longleftrightarrow>
     distinct (map link_id (page_links (w_env w))) \<and> w_ready w \<and>
     registry w \<subseteq> preferred (w_cfg w) (w_env w) \<union> S \<union> kept w \<union> window_listeners"

definition wiring_ok :: "wiring \<Rightarrow> bool" where
  "wiring_ok w \<longleftrightarrow>
     bounded_by (if eventsAreBound w then asked_for (w_cfg w) (w_env w) else {}) w \<and>
     preferred (w_cfg w) (w_env w) \<subseteq> registry w \<and>
     (eventsAreBound w \<longrightarrow> asked_for (w_cfg w) (w_env w) \<subseteq> registry w)"

text \<open>The groups of listeners are apart, by their handlers.\<close>

lemma handler_sets:
  "l \<in> touch_off \<Longrightarrow> snd (snd l) \<in> {HPointerDown, HPointerMove, HPointerUp, HTouchStart, HTouchMove, HTouchEnd}"
  "l \<in> set (control_listeners e n) \<Longrightarrow> snd (snd l) \<in> {HNavigateLeft, HNavigateRight, HNavigateUp,
     HNavigateDown, HNavigatePrev, HNavigateNext}"
  by (auto simp: touch_off_def pointer_listeners_def ms_pointer_listeners_def touch_listeners_def
      control_listeners_def)

lemma removed_handlers:
  "l \<in> removed c e \<Longrightarrow> snd (snd l) \<notin> {HMouseScroll, HCursorActive, HPreviewLinkClicked, HSlideClicked,
     HVisibilityChange, HPostMessage, HLayout, HSetupPDF, HFullscreenChange}"
  using handler_sets(1) [of l] handler_sets(2) [of l e]
  by (auto simp: removed_def always_bound_def keyboard_on_def controls_off_def hash_on_def
      split: if_splits dest!: handler_sets)

lemma preferred_handlers:
  "l \<in> preferred c e \<Longrightarrow> snd (snd l) \<in> {HMouseScroll, HCursorActive, HPreviewLinkClicked}"
  by (auto simp: preferred_def wheel_listeners_def cursor_listeners_def link_click_def split: if_splits)

lemma mem_if: "x \<in> (if b then A else {}) \<longleftrightarrow> b \<and> x \<in> A"
  by simp

lemma asked_removed: "asked_for c e \<subseteq> removed c' e \<union> {progress_click, visibility_change}"
proof
  fix l
  assume "l \<in> asked_for c e"
  then consider "l \<in> always_bound" | "l \<in> controls_on e" | "l \<in> focus_on c" | "l \<in> touch_on e"
    | "l \<in> keyboard_on" | "l \<in> {progress_click}" | "l \<in> hash_on" | "l \<in> {visibility_change}"
    unfolding asked_for_def Un_iff mem_if by blast
  then show "l \<in> removed c' e \<union> {progress_click, visibility_change}"
    unfolding removed_def Un_iff mem_if
    using touch.on_off [of e] controls.on_off [of e] focus.on_off [of c] by cases blast+
qed

lemma removed_preferred: "removed c e \<inter> preferred c' e' = {}"
  using removed_handlers preferred_handlers by fastforce

lemma kept_cong:
  "w_cfg w' = w_cfg w \<Longrightarrow> w_env w' = w_env w \<Longrightarrow> w_focus w' = w_focus w \<Longrightarrow> w_overview w' = w_overview w
     \<Longrightarrow> kept w' = kept w"
  by (simp add: kept_def)

lemma stale_kept: "{progress_click, visibility_change} \<subseteq> kept w"
  by (simp add: kept_def)

lemma remove_ok:
  assumes "bounded_by (asked_for (w_cfg w) (w_env w)) w"
  shows "bounded_by {} (removeEventListeners w)"
proof -
  let ?r = "removeEventListeners w"
  have k: "kept ?r = kept w" by (rule kept_cong) (simp_all add: removeEventListeners_eq)
  have "registry ?r \<subseteq> preferred (w_cfg w) (w_env w) \<union> kept w \<union> window_listeners"
    using assms asked_removed [of "w_cfg w" "w_env w" "w_cfg w"] stale_kept [of w]
    unfolding bounded_by_def removeEventListeners_eq by auto
  with assms show ?thesis by (simp add: bounded_by_def k) (simp add: removeEventListeners_eq)
qed

lemma add_ok:
  assumes "bounded_by S w" and "S \<subseteq> asked_for (w_cfg w) (w_env w)"
    and "preferred (w_cfg w) (w_env w) \<subseteq> registry w"
  shows "wiring_ok (addEventListeners w)"
proof -
  let ?a = "addEventListeners w"
  have k: "kept ?a = kept w" by (rule kept_cong) (simp_all add: addEventListeners_eq)
  have "registry ?a \<subseteq> preferred (w_cfg w) (w_env w) \<union> asked_for (w_cfg w) (w_env w) \<union> kept w \<union> window_listeners"
    using assms unfolding bounded_by_def addEventListeners_eq by auto
  with assms show ?thesis
    by (simp add: wiring_ok_def bounded_by_def k) (auto simp: addEventListeners_eq)
qed

lemma remove_preferred:
  "preferred (w_cfg w) (w_env w) \<subseteq> registry w \<Longrightarrow>
   preferred (w_cfg w) (w_env w) \<subseteq> registry (removeEventListeners w)"
  using removed_preferred [of "w_cfg w" "w_env w" "w_cfg w" "w_env w"]
  by (auto simp: removeEventListeners_eq)

lemma bounded_mono: "bounded_by S w \<Longrightarrow> S \<subseteq> T \<Longrightarrow> bounded_by T w"
  by (auto simp: bounded_by_def)

lemma sync_ok:
  assumes "bounded_by (asked_for (w_cfg w) (w_env w)) w" and "preferred (w_cfg w) (w_env w) \<subseteq> registry w"
  shows "wiring_ok (sync_wiring w)"
  unfolding sync_wiring_def
  by (rule add_ok [OF remove_ok [OF assms(1)]])
    (use remove_preferred [OF assms(2)] in \<open>simp_all add: removeEventListeners_eq\<close>)

text \<open>\<open>configure\<close>: the links, the focus and the pointer settle what is preferred.\<close>

definition configured :: "wiring \<Rightarrow> wiring" where
  "configured w = configure_pointer (configure_focus (configure_links w))"

lemma configured_fields:
  "w_cfg (configured w) = w_cfg w" "w_env (configured w) = w_env w" "w_ready (configured w) = w_ready w"
  "w_overview (configured w) = w_overview w" "eventsAreBound (configured w) = eventsAreBound w"
  "w_focus (configured w) = (if cfg_embedded (w_cfg w) then StateBlur else StateFocus)"
  by (simp_all add: configured_def configure_pointer_eq configure_focus_eq configure_links_eq)

lemma links_preferred:
  assumes "distinct (map link_id (page_links (w_env w)))"
  shows "link_click ` {k \<in> set (page_links (w_env w)). previewed (w_cfg w) k}
    \<subseteq> registry (configure_links w)"
proof -
  have same: "k = k'"
    if "k \<in> set (page_links (w_env w))" "k' \<in> set (page_links (w_env w))" "link_click k = link_click k'" for k k'
    using that assms by (auto simp: link_click_def distinct_map dest: inj_onD)
  show ?thesis
    by (auto simp: configure_links_eq link_listeners_set previewed_def preview_on_def dest: same)
qed

lemma pointer_preferred:
  "(if cfg_mouseWheel (w_cfg w) then set wheel_listeners else {})
     \<union> (if cfg_hideInactiveCursor (w_cfg w) then set cursor_listeners else {}) \<subseteq> registry (configure_pointer w)"
  by (auto simp: configure_pointer_eq)

lemma configured_preferred:
  assumes "distinct (map link_id (page_links (w_env w)))"
  shows "preferred (w_cfg w) (w_env w) \<subseteq> registry (configured w)"
proof -
  have "link_click k \<in> registry (configured w)" if "link_click k \<in> registry (configure_links w)" for k
    using that by (simp add: configured_def configure_pointer_eq configure_focus_eq link_click_def
      wheel_listeners_def cursor_listeners_def)
  with links_preferred [OF assms] pointer_preferred [of "configure_focus (configure_links w)"]
  show ?thesis unfolding preferred_def configured_def [symmetric]
    by (auto simp: configure_focus_eq configure_links_eq)
qed

end
