(* ===== verification/ListenerReach.thy ===== *)
theory ListenerReach
  imports ListenerLaws
begin

text \<open>
  The invariant of the listener registry over every run: what the options ask for is registered,
  and nothing else but the listeners \<open>kept\<close> and those of the window.
\<close>

lemma preferred_cases:
  assumes "l \<in> preferred c e"
  obtains "l \<in> set wheel_listeners \<union> set cursor_listeners"
    | k where "k \<in> set (page_links e)" "l = link_click k" "previewed c k"
  using assms unfolding preferred_def Un_iff mem_if by blast

lemma link_click_apart: "link_click k \<notin> set wheel_listeners \<union> set cursor_listeners"
  by (simp add: link_click_def wheel_listeners_def cursor_listeners_def)

lemma links_cases:
  assumes "l \<in> registry (configure_links w)"
  obtains "l \<in> link_click ` {k \<in> set (page_links (w_env w)). previewed (w_cfg w) k}"
    | "l \<in> registry w" "\<And>k. k \<in> set (page_links (w_env w)) \<Longrightarrow> l = link_click k \<Longrightarrow> web_href (link_href k)
         \<Longrightarrow> if cfg_previewLinks (w_cfg w) then \<not> preview_off k else \<not> link_anchor k"
  using assms unfolding configure_links_eq link_listeners_set previewed_def
  by (auto split: if_splits)

lemma preferred_link: "k \<in> set (page_links e) \<Longrightarrow> previewed c k \<Longrightarrow> link_click k \<in> preferred c e"
  unfolding preferred_def by blast

lemma kept_link:
  "k \<in> set (page_links (w_env w)) \<Longrightarrow> \<not> link_anchor k \<Longrightarrow> preview_on k \<Longrightarrow> link_click k \<in> kept w"
  unfolding kept_def by blast

lemma previewed_after:
  assumes "l \<in> registry (configure_links w)" and "l = link_click k" and "k \<in> set (page_links (w_env w))"
    and "previewed c0 k" and "w_env w' = w_env w"
  shows "l \<in> preferred (w_cfg w) (w_env w) \<or> l \<in> kept w'"
  using assms(1)
proof (cases rule: links_cases)
  case 1
  then show ?thesis by (elim imageE) (simp add: preferred_link)
next
  case 2
  have "previewed (w_cfg w) k \<or> \<not> link_anchor k \<and> preview_on k"
    using 2(2) [OF assms(3,2)] assms(4) by (auto simp: previewed_def split: if_splits)
  with assms(2,3,5) preferred_link [of k "w_env w" "w_cfg w"] kept_link [of k w'] show ?thesis by auto
qed

lemma configured_cases:
  assumes "l \<in> registry (configured w)"
  obtains "l \<in> preferred (w_cfg w) (w_env w)"
    | "l \<in> registry (configure_links w)" "l \<notin> set wheel_listeners \<union> set cursor_listeners"
proof (cases "l \<in> set wheel_listeners \<union> set cursor_listeners")
  case True
  with assms have "l \<in> preferred (w_cfg w) (w_env w)"
    unfolding configured_def preferred_def configure_pointer_eq configure_focus_eq configure_links_eq
    by (auto split: if_splits)
  then show ?thesis by (rule that(1))
next
  case False
  with assms have "l \<in> registry (configure_focus (configure_links w))"
    unfolding configured_def configure_pointer_eq by (auto split: if_splits)
  then have "l \<in> registry (configure_links w)" by (simp add: configure_focus_eq)
  with False show ?thesis by (rule that(2) [rotated])
qed

lemma kept_moves:
  assumes "l \<in> kept w" and "l \<notin> removed c e"
    and "w_env w' = w_env w" and "w_overview w' = w_overview w"
  shows "l \<in> kept w'"
  using assms unfolding kept_def removed_def Un_iff mem_if by auto

lemma configured_bounded:
  assumes "bounded_by S w" and "S \<subseteq> removed c (w_env w) \<union> {progress_click, visibility_change}"
  shows "bounded_by {} (removeEventListeners (configured (w\<lparr>w_cfg := c\<rparr>)))"
proof -
  let ?v = "w\<lparr>w_cfg := c\<rparr>"
  let ?r = "removeEventListeners (configured ?v)"
  have f: "w_cfg ?r = c" "w_env ?r = w_env w" "w_ready ?r = w_ready w" "w_overview ?r = w_overview w"
    by (simp_all add: removeEventListeners_eq configured_fields)
  have "l \<in> preferred c (w_env w) \<union> kept ?r \<union> window_listeners" if l: "l \<in> registry ?r" for l
  proof -
    from l have n: "l \<notin> removed c (w_env w)" and c: "l \<in> registry (configured ?v)"
      by (simp_all add: removeEventListeners_eq configured_fields)
    from c show ?thesis
    proof (cases rule: configured_cases)
      case 2
      from 2(1) show ?thesis
      proof (cases rule: links_cases)
        case 1
        then show ?thesis by (elim imageE) (simp add: preferred_link)
      next
        case b: 2
        from b(1) assms(1) consider "l \<in> preferred (w_cfg w) (w_env w)" | "l \<in> S" | "l \<in> kept w"
          | "l \<in> window_listeners" by (auto simp: bounded_by_def)
        then show ?thesis
        proof cases
          case 1
          then show ?thesis
          proof (cases rule: preferred_cases)
            case (2 k)
            from previewed_after [OF \<open>l \<in> registry (configure_links ?v)\<close> 2(2) _ 2(3), of ?r] 2(1) f
            show ?thesis by auto
          qed (use \<open>l \<notin> set wheel_listeners \<union> set cursor_listeners\<close> in simp)
        next
          case 2
          with assms(2) n stale_kept [of ?r] show ?thesis by auto
        next
          case 3
          from kept_moves [OF 3 n f(2,4)] show ?thesis by simp
        qed simp
      qed
    qed simp
  qed
  with assms(1) f show ?thesis by (auto simp: bounded_by_def)
qed

lemma configure_ok:
  assumes "bounded_by S w" and "S \<subseteq> asked_for c' (w_env w)"
  shows "wiring_ok (configure_wiring c w)"
proof -
  let ?w = "configured (w\<lparr>w_cfg := c\<rparr>)"
  have r: "w_ready w" "distinct (map link_id (page_links (w_env w)))"
    using assms(1) by (simp_all add: bounded_by_def)
  have p: "preferred (w_cfg ?w) (w_env ?w) \<subseteq> registry ?w"
    using configured_preferred [of "w\<lparr>w_cfg := c\<rparr>"] r(2) by (simp add: configured_fields)
  have "wiring_ok (addEventListeners (removeEventListeners ?w))"
    by (rule add_ok [OF configured_bounded [OF assms(1)]])
      (use asked_removed [of c' "w_env w" c] assms(2) remove_preferred [OF p] in
        \<open>auto simp: removeEventListeners_eq configured_fields\<close>)
  then show ?thesis
    using r(1) by (simp add: configure_wiring_def sync_wiring_def configured_def Let_def)
qed

section \<open>The other operations\<close>

lemma slide_click_apart:
  "slide_click s \<notin> preferred c e" "slide_click s \<notin> asked_for c e"
proof -
  show "slide_click s \<notin> preferred c e"
    using preferred_handlers [of "slide_click s" c e] by (auto simp: slide_click_def)
  show "slide_click s \<notin> asked_for c e"
    using asked_removed [of c e c] removed_handlers [of "slide_click s" c e] by (auto simp: slide_click_def)
qed

lemma kept_overview:
  "kept (w\<lparr>w_overview := True, registry := R\<rparr>) = kept w \<union> slide_click ` set (page_slides (w_env w))"
  "kept w - slide_click ` set (page_slides (w_env w)) \<subseteq> kept (w\<lparr>w_overview := False, registry := R\<rparr>)"
  unfolding kept_def by simp_all blast+

lemma close_ok:
  assumes "wiring_ok w"
  shows "wiring_ok (overview_close w)"
proof (cases "cfg_overview (w_cfg w)")
  case True
  let ?S = "slide_click ` set (page_slides (w_env w))"
  have c: "overview_close w = w\<lparr>w_overview := False, registry := registry w - ?S\<rparr>"
    using True by (simp add: overview_close_def unlisten_all_eq)
  have "preferred (w_cfg w) (w_env w) \<inter> ?S = {}" "asked_for (w_cfg w) (w_env w) \<inter> ?S = {}"
    using slide_click_apart [of _ "w_cfg w" "w_env w"] by auto
  with assms kept_overview(2) [of w "registry w - ?S"] show ?thesis
    unfolding c wiring_ok_def bounded_by_def by (simp split: if_split_asm) blast+
qed (use assms in \<open>simp add: overview_close_def\<close>)

lemma open_ok:
  assumes "wiring_ok w"
  shows "wiring_ok (overview_open is_stack w)"
proof (cases "cfg_overview (w_cfg w) \<and> \<not> w_overview w")
  case True
  let ?S = "slide_click ` set (filter (\<lambda>s. \<not> is_stack s) (page_slides (w_env w)))"
  have c: "overview_open is_stack w = w\<lparr>w_overview := True, registry := registry w \<union> ?S\<rparr>"
    using True by (simp add: overview_open_def listen_all_eq)
  have "?S \<subseteq> slide_click ` set (page_slides (w_env w))" by auto
  with assms show ?thesis
    unfolding c wiring_ok_def bounded_by_def kept_overview(1) by (simp split: if_split_asm) blast+
qed (use assms in \<open>simp add: overview_open_def del: if_split add: if_not_P\<close>)

lemma asked_cases:
  assumes "l \<in> asked_for c e"
  obtains "l \<in> always_bound \<union> keyboard_on \<union> hash_on \<union> {progress_click, visibility_change}"
    | n where "l \<in> set (control_listeners e n)" | "l \<in> focus_on c" | "l \<in> touch_off"
proof -
  have "l \<in> \<Union> (range (\<lambda>n. set (control_listeners e n)))" if "l \<in> controls_on e"
    using that by (auto simp: controls_on_def)
  with assms touch.on_off [of e] that show ?thesis unfolding asked_for_def Un_iff mem_if by blast
qed

lemma asked_press:
  assumes "l \<in> asked_for c e"
  shows "snd (snd l) \<noteq> HDocumentPointerDown" and "snd (snd l) = HRevealPointerDown \<Longrightarrow> cfg_embedded c"
proof -
  from assms have "snd (snd l) \<noteq> HDocumentPointerDown \<and> (snd (snd l) = HRevealPointerDown \<longrightarrow> cfg_embedded c)"
  proof (cases rule: asked_cases)
    case 1
    then show ?thesis by (auto simp: always_bound_def keyboard_on_def hash_on_def)
  next
    case 2
    from handler_sets(2) [OF this] show ?thesis by auto
  next
    case 3
    then show ?thesis by (auto simp: focus_on_def split: if_splits)
  next
    case 4
    from handler_sets(1) [OF this] show ?thesis by auto
  qed
  then show "snd (snd l) \<noteq> HDocumentPointerDown" and "snd (snd l) = HRevealPointerDown \<Longrightarrow> cfg_embedded c"
    by simp_all
qed

lemma window_handlers:
  "l \<in> window_listeners \<Longrightarrow> snd (snd l) \<in> {HPostMessage, HLayout, HSetupPDF, HFullscreenChange}"
  by (auto simp: window_listeners_def post_message_def window_load_def fullscreen_listeners_def)

text \<open>Where the two listeners of the focus can come from.\<close>

lemma press_registered:
  assumes "wiring_ok w"
  shows "document_press \<in> registry w \<Longrightarrow> cfg_embedded (w_cfg w) \<and> w_focus w = StateFocus"
    and "reveal_press \<in> registry w \<Longrightarrow> cfg_embedded (w_cfg w)"
proof -
  let ?W = "if eventsAreBound w then asked_for (w_cfg w) (w_env w) else {}"
  have u: "registry w \<subseteq> preferred (w_cfg w) (w_env w) \<union> ?W \<union> kept w \<union> window_listeners"
    using assms by (simp add: wiring_ok_def bounded_by_def)
  note p = preferred_handlers [of document_press "w_cfg w" "w_env w"]
    preferred_handlers [of reveal_press "w_cfg w" "w_env w"]
    window_handlers [of document_press] window_handlers [of reveal_press]
    asked_press [of document_press "w_cfg w" "w_env w"] asked_press [of reveal_press "w_cfg w" "w_env w"]
  show "cfg_embedded (w_cfg w) \<and> w_focus w = StateFocus" if d: "document_press \<in> registry w"
  proof -
    from d u p have "document_press \<in> kept w" by (auto split: if_splits)
    then show ?thesis unfolding kept_def Un_iff mem_if by (auto simp: link_click_def slide_click_def)
  qed
  show "cfg_embedded (w_cfg w)" if d: "reveal_press \<in> registry w"
  proof -
    have "reveal_press \<notin> kept w" unfolding kept_def Un_iff mem_if by (auto simp: link_click_def slide_click_def)
    with d u p show ?thesis by (auto split: if_splits)
  qed
qed

lemma gain_ok:
  assumes "wiring_ok w" and "reveal_press \<in> registry w"
  shows "wiring_ok (focus_gain w)"
proof -
  have e: "cfg_embedded (w_cfg w)" by (rule press_registered(2) [OF assms])
  have k: "kept w \<union> {document_press} \<subseteq> kept (focus_gain w)"
    unfolding kept_def focus_gain_eq using e by auto
  with assms(1) show ?thesis unfolding wiring_ok_def bounded_by_def focus_gain_eq
    by (auto split: if_splits)
qed

lemma lose_ok:
  assumes "wiring_ok w"
  shows "wiring_ok (focus_lose w)"
proof -
  have d: "document_press \<notin> registry (focus_lose w)"
    using press_registered(1) [OF assms] by (auto simp: focus_lose_eq)
  have k: "kept w - {document_press} \<subseteq> kept (focus_lose w)"
    unfolding kept_def focus_lose_eq by auto
  have n: "document_press \<notin> preferred (w_cfg w) (w_env w)" "document_press \<notin> asked_for (w_cfg w) (w_env w)"
    using preferred_handlers [of document_press "w_cfg w" "w_env w"]
      asked_press(1) [of document_press "w_cfg w" "w_env w"] by auto
  from assms d k n show ?thesis unfolding wiring_ok_def bounded_by_def focus_lose_eq
    by (auto split: if_splits)
qed

lemma press_ok:
  assumes "wiring_ok w"
  shows "wiring_ok (pointer_press through own w)"
  unfolding pointer_press_def Let_def using assms gain_ok lose_ok by simp

section \<open>Every run\<close>

lemma unbound_ok:
  assumes "wiring_ok w"
  shows "wiring_ok (removeEventListeners w)"
proof -
  have "bounded_by (asked_for (w_cfg w) (w_env w)) w"
    using assms by (auto simp: wiring_ok_def intro: bounded_mono split: if_splits)
  from remove_ok [OF this] remove_preferred [of w] assms show ?thesis
    by (simp add: wiring_ok_def) (simp add: removeEventListeners_eq)
qed

lemma window_ok: "wiring_ok w \<Longrightarrow> l \<in> window_listeners \<Longrightarrow> wiring_ok (addListener l w)"
  unfolding wiring_ok_def bounded_by_def add_one
  by (simp add: kept_cong [of "w\<lparr>registry := R\<rparr>" w for R] subset_insertI2 split: if_split_asm)

definition started :: "wiring_config \<Rightarrow> wiring_env \<Rightarrow> wiring" where
  "started c e =
    \<lparr>w_cfg = c, w_env = e,
     registry = {window_load HLayout} \<union> (if cfg_postMessage c then {post_message} else {})
       \<union> set fullscreen_listeners,
     w_focus = FocusUnset, w_ready = True, eventsAreBound = False, w_overview = False,
     scrollPrevention = True\<rparr>"

lemma start_eq:
  "start_wiring (initialize_wiring c e) =
     (let w = configure_wiring c (started c e)
      in if printingPDF e
         then if documentComplete e then removeEventListeners w
              else addListener (window_load HSetupPDF) (removeEventListeners w)
         else w)"
proof -
  have f: "w_env (configure_wiring c' w) = w_env w" "w_env (removeEventListeners w) = w_env w" for c' w
    by (simp_all add: configure_wiring_def sync_wiring_def addEventListeners_eq removeEventListeners_eq
      Let_def configured_def [symmetric] configured_fields)
  let ?w1 = "(initialize_wiring c e)\<lparr>w_ready := True\<rparr>"
  have s: "listen_all fullscreen_listeners
     ((if cfg_postMessage (w_cfg ?w1) then addListener post_message ?w1 else ?w1)\<lparr>scrollPrevention := True\<rparr>)
     = started c e"
    unfolding add_if add_one listen_all_eq initialize_wiring_def started_def by (simp add: insert_commute)
  show ?thesis
    unfolding start_wiring_def Let_def s f by (simp add: started_def)
qed

lemma started_ok:
  assumes "distinct (map link_id (page_links e))"
  shows "wiring_ok (start_wiring (initialize_wiring c e))"
proof -
  have "bounded_by {} (started c e)"
    using assms by (auto simp: bounded_by_def started_def window_listeners_def)
  from configure_ok [OF this, of c c] have "wiring_ok (configure_wiring c (started c e))" by simp
  from unbound_ok [OF this] this show ?thesis
    by (simp add: start_eq Let_def window_ok window_listeners_def)
qed

theorem wired_ok: "wired w \<Longrightarrow> wiring_ok w"
proof (induction rule: wired.induct)
  case (start e c)
  then show ?case by (rule started_ok)
next
  case (configure w c)
  then have "bounded_by (asked_for (w_cfg w) (w_env w)) w"
    by (auto simp: wiring_ok_def intro: bounded_mono split: if_splits)
  then show ?case by (rule configure_ok [where c' = "w_cfg w"]) simp
next
  case (sync w)
  then have "bounded_by (asked_for (w_cfg w) (w_env w)) w"
    by (auto simp: wiring_ok_def intro: bounded_mono split: if_splits)
  with sync show ?case by (intro sync_ok) (simp_all add: wiring_ok_def)
next
  case (add w)
  then show ?case
    by (intro add_ok [of "if eventsAreBound w then asked_for (w_cfg w) (w_env w) else {}"])
      (simp_all add: wiring_ok_def)
qed (simp_all add: unbound_ok open_ok close_ok press_ok)

lemma destroy_eq:
  "registry (destroy_wiring w) = registry (removeEventListeners w)
     - set (link_listeners link_anchor (w_env w)) - (set wheel_listeners \<union> set cursor_listeners)
     - controls_off (w_env w)
     - {visibility_change, post_message, window_load HLayout} - set fullscreen_listeners"
  by (auto simp: destroy_wiring_def Let_def disablePreviewLinks_def pointer_destroy_def unlisten_all_eq
      controls.unbind_eq removeEventListeners_eq)

lemma focus_survives:
  assumes "w_focus w = StateFocus" and "document_press \<notin> registry w"
  shows "w_focus (pointer_press through own w) = StateFocus \<and>
    document_press \<notin> registry (pointer_press through own w)"
  using assms by (auto simp: pointer_press_def Let_def focus_gain_eq)

lemma focus_survives_all:
  assumes "w_focus w = StateFocus" and "document_press \<notin> registry w"
  shows "w_focus (fold (\<lambda>p. pointer_press (fst p) (snd p)) ps w) = StateFocus \<and>
    document_press \<notin> registry (fold (\<lambda>p. pointer_press (fst p) (snd p)) ps w)"
  using assms by (induction ps arbitrary: w) (simp_all add: focus_survives)

lemma destroy_removed:
  assumes "l \<in> registry (destroy_wiring w)"
  shows "l \<in> registry (removeEventListeners w)" "l \<notin> removed (w_cfg w) (w_env w)"
    "snd (snd l) \<notin> {HMouseScroll, HCursorActive} \<or> l \<notin> preferred c e"
    "l \<notin> {visibility_change, post_message, window_load HLayout} \<union> set fullscreen_listeners"
    "k \<in> set (page_links (w_env w)) \<Longrightarrow> l = link_click k \<Longrightarrow> web_href (link_href k) \<Longrightarrow> \<not> link_anchor k"
proof -
  note d = assms [unfolded destroy_eq]
  then show "l \<in> registry (removeEventListeners w)" by simp
  then show "l \<notin> removed (w_cfg w) (w_env w)" by (simp add: removeEventListeners_eq)
  from d show "l \<notin> {visibility_change, post_message, window_load HLayout} \<union> set fullscreen_listeners" by simp
  have "l \<notin> set wheel_listeners \<union> set cursor_listeners" using d by simp
  then show "snd (snd l) \<notin> {HMouseScroll, HCursorActive} \<or> l \<notin> preferred c e"
    unfolding preferred_def Un_iff mem_if by (auto simp: link_click_def)
  show "\<not> link_anchor k" if "k \<in> set (page_links (w_env w))" "l = link_click k" "web_href (link_href k)"
    using d that by (auto simp: link_listeners_set)
qed

end
