(* ===== verification/ListenerSample.thy ===== *)
theory ListenerSample
  imports ListenerReach
begin

text \<open>A small page for the listeners: one arrow, two links and two slides.\<close>

definition web_link :: link where
  "web_link = \<lparr>link_id = 2, link_anchor = True, link_href = Some ''https://a.b'', link_preview = None\<rparr>"

definition slide_link :: link where
  "slide_link = \<lparr>link_id = 3, link_anchor = True, link_href = Some ''#/2'', link_preview = Some []\<rparr>"

definition sample_wiring_env :: wiring_env where
  "sample_wiring_env =
    \<lparr>isAndroid = False, onpointerdown = True, msPointerEnabled = False, printingPDF = False,
     documentComplete = True, controlsLeft = [1], controlsRight = [], controlsUp = [],
     controlsDown = [], controlsPrev = [], controlsNext = [],
     page_links = [web_link, slide_link],
     page_slides = [4, 5]\<rparr>"

definition sample_wiring :: "bool \<Rightarrow> wiring" where
  "sample_wiring emb =
     start_wiring (initialize_wiring (default_wiring_config\<lparr>cfg_embedded := emb, cfg_previewLinks := True\<rparr>)
       sample_wiring_env)"

lemma sample_wired: "wired (sample_wiring emb)"
  unfolding sample_wiring_def by (rule wired.start) (simp add: sample_wiring_env_def web_link_def slide_link_def)

lemma start_fields:
  "w_cfg (start_wiring (initialize_wiring c e)) = c" "w_env (start_wiring (initialize_wiring c e)) = e"
  "eventsAreBound (start_wiring (initialize_wiring c e)) \<longleftrightarrow> \<not> printingPDF e"
  "w_focus (start_wiring (initialize_wiring c e)) = (if cfg_embedded c then StateBlur else StateFocus)"
  "\<not> w_overview (start_wiring (initialize_wiring c e))"
  by (simp_all add: start_eq Let_def configure_wiring_def started_def sync_wiring_def addEventListeners_eq
      removeEventListeners_eq configured_def [symmetric] configured_fields addListener_def)

lemma sample_wiring_fields:
  "w_env (sample_wiring emb) = sample_wiring_env" "eventsAreBound (sample_wiring emb)"
  "cfg_embedded (w_cfg (sample_wiring emb)) = emb"
  by (simp_all add: sample_wiring_def start_fields sample_wiring_env_def)

lemma sample_links:
  "link_click web_link = (OnLink 2, ''click'', HPreviewLinkClicked)"
  "link_click slide_link = (OnLink 3, ''click'', HPreviewLinkClicked)"
  "set (page_links (w_env (sample_wiring emb))) = {web_link, slide_link}"
  by (simp_all add: link_click_def web_link_def slide_link_def sample_wiring_fields sample_wiring_env_def)

lemma sample_previewed:
  "previewed (w_cfg (sample_wiring emb)) web_link" "\<not> previewed (w_cfg (sample_wiring emb)) slide_link"
proof -
  have "cfg_previewLinks (w_cfg (sample_wiring emb))" by (simp add: sample_wiring_def start_fields)
  moreover have "web_href (link_href web_link)" "\<not> web_href (link_href slide_link)" by code_simp+
  ultimately show "previewed (w_cfg (sample_wiring emb)) web_link" "\<not> previewed (w_cfg (sample_wiring emb)) slide_link"
    by (simp_all add: previewed_def preview_off_def web_link_def)
qed

end
