(* ===== verification/BackgroundLaws.thy ===== *)
theory BackgroundLaws
  imports Backgrounds NavLaws
begin

text \<open>
  The backgrounds follow the slides: with one background per slide, \<open>update\<close> leaves the background of
  every slide that the transition marks with the classes of its slide, and the background it shows
  is that of the current slide.
\<close>

section \<open>Marking\<close>

abbreviation places :: "cls set" where
  "places \<equiv> {Past, Present, Future}"

lemma bgs_update_bg: "bgs (update_bg a f b) x = (if x = a then f (bgs b a) else bgs b x)"
  by (simp add: update_bg_def)

lemma update_bg_fields [simp]:
  "bg_columns (update_bg a f b) = bg_columns b" "slideBackground (update_bg a f b) = slideBackground b"
  "previousBackground (update_bg a f b) = previousBackground b"
  by (simp_all add: update_bg_def)

lemma bg_slide_place [simp]: "bg_slide (place_background c bg) = bg_slide bg"
  by (simp add: place_background_def)

lemma place_class_places: "place_class Past Future k v \<in> places" "place_class Future Past k v \<in> places"
  by (simp_all add: place_class_def)

lemma placed_classes:
  "c \<in> places \<Longrightarrow> bg_classes (place_background c bg) \<inter> places = {c}"
  by (auto simp: place_background_def)

text \<open>One column of rows.\<close>

definition rows_keep :: "backgrounds \<Rightarrow> backgrounds \<Rightarrow> bool" where
  "rows_keep b b' \<longleftrightarrow>
     bg_columns b' = bg_columns b \<and> slideBackground b' = slideBackground b
     \<and> previousBackground b' = previousBackground b"

lemma place_row_eq:
  "place_row v p (k, a) (cur, b) =
     (if place_class Past Future k v = Present \<and> p then Some a else cur,
      update_bg a (place_background (place_class Past Future k v)) b)"
  by (simp add: place_row_def Let_def)

lemma place_rows:
  assumes "distinct vs"
  shows "(let (cur', b') = fold (place_row v p) (enumerate k vs) (cur, b)
    in rows_keep b b'
       \<and> (\<forall>a. a \<notin> set vs \<longrightarrow> bgs b' a = bgs b a)
       \<and> (\<forall>n < length vs. bgs b' (vs ! n) = place_background (place_class Past Future (k + n) v) (bgs b (vs ! n)))
       \<and> (\<forall>j. v = Num j \<longrightarrow>
            cur' = (if p \<and> int k \<le> j \<and> j < int (k + length vs) then Some (vs ! nat (j - int k)) else cur)))"
  using assms
proof (induction vs arbitrary: k cur b)
  case Nil
  show ?case by (auto simp: rows_keep_def)
next
  case (Cons a vs)
  let ?c = "place_class Past Future k v"
  let ?b = "update_bg a (place_background ?c) b"
  let ?cur = "if ?c = Present \<and> p then Some a else cur"
  obtain cur' b' where r: "fold (place_row v p) (enumerate (Suc k) vs) (?cur, ?b) = (cur', b')"
    by (cases "fold (place_row v p) (enumerate (Suc k) vs) (?cur, ?b)")
  have f: "fold (place_row v p) (enumerate k (a # vs)) (cur, b) = (cur', b')"
    using r by (simp add: place_row_eq)
  note IH = Cons.IH [of "Suc k" ?cur ?b, unfolded r, simplified]
  from Cons.prems have d: "distinct vs" "a \<notin> set vs" by simp_all
  note IH = IH [OF d(1)]
  have nth: "bgs b' ((a # vs) ! n) = place_background (place_class Past Future (k + n) v) (bgs b ((a # vs) ! n))"
    if "n < length (a # vs)" for n
  proof (cases n)
    case 0
    with IH d(2) show ?thesis by (simp add: bgs_update_bg)
  next
    case (Suc m)
    with that have "vs ! m \<noteq> a" "m < length vs" using d(2) by (auto simp: in_set_conv_nth)
    with IH Suc show ?thesis by (simp add: bgs_update_bg)
  qed
  have cur: "cur' = (if p \<and> int k \<le> j \<and> j < int (k + length (a # vs)) then Some ((a # vs) ! nat (j - int k)) else cur)"
    if "v = Num j" for j
  proof -
    have "?c = Present \<longleftrightarrow> j = int k" using that by (auto simp: place_class_def)
    moreover have "cur' = (if p \<and> int (Suc k) \<le> j \<and> j < int (Suc k + length vs)
        then Some (vs ! nat (j - int (Suc k))) else ?cur)"
      using IH that by simp
    moreover have "nat (j - int k) = Suc (nat (j - int (Suc k)))" if "int k < j" using that by simp
    ultimately show ?thesis by (cases "j = int k") auto
  qed
  have "\<forall>x. x \<notin> set (a # vs) \<longrightarrow> bgs b' x = bgs b x" "rows_keep b b'"
    using IH by (auto simp: bgs_update_bg rows_keep_def)
  with nth cur show ?case unfolding f by auto
qed

text \<open>All columns.\<close>

definition column_addresses :: "nat \<times> nat list \<Rightarrow> nat list" where
  "column_addresses c = fst c # snd c"

definition placed_column ::
  "bool \<Rightarrow> bool \<Rightarrow> int \<Rightarrow> int \<Rightarrow> nat \<Rightarrow> nat \<times> nat list \<Rightarrow> backgrounds \<Rightarrow> backgrounds \<Rightarrow> bool" where
  "placed_column rtl inc i j h c b b' \<longleftrightarrow>
     bgs b' (fst c) = place_background
       (place_class (if rtl then Future else Past) (if rtl then Past else Future) h (Num i)) (bgs b (fst c))
     \<and> (\<forall>n < length (snd c). bgs b' (snd c ! n) =
          (if inc \<or> i = int h then place_background (place_class Past Future n (Num j)) (bgs b (snd c ! n))
           else bgs b (snd c ! n)))"

definition shown_background :: "int \<Rightarrow> nat \<times> nat list \<Rightarrow> nat" where
  "shown_background j c =
     (if 0 \<le> j \<and> j < int (length (snd c)) then snd c ! nat j else fst c)"

lemma place_column_step:
  assumes "distinct (column_addresses c)" and "ih ind = Num i" and "iv ind = Num j"
    and "place_column rtl inc ind (h, c) (cur, b) = (cur', b')"
  shows "rows_keep b b' \<and> (\<forall>a. a \<notin> set (column_addresses c) \<longrightarrow> bgs b' a = bgs b a)
    \<and> placed_column rtl inc i j h c b b'
    \<and> cur' = (if i = int h then Some (shown_background j c) else cur)"
proof -
  obtain m vs where c: "c = (m, vs)" by (cases c)
  let ?c = "place_class (if rtl then Future else Past) (if rtl then Past else Future) h (Num i)"
  let ?b = "update_bg m (place_background ?c) b"
  have d: "distinct vs" "m \<notin> set vs" using assms(1) by (simp_all add: c column_addresses_def)
  have present: "?c = Present \<longleftrightarrow> i = int h" by (auto simp: place_class_def)
  have r: "rows_keep ?b b' \<and> (\<forall>a. a \<notin> set vs \<longrightarrow> bgs b' a = bgs ?b a)
    \<and> (\<forall>n < length vs. bgs b' (vs ! n) =
        (if inc \<or> i = int h then place_background (place_class Past Future n (Num j)) (bgs ?b (vs ! n))
         else bgs ?b (vs ! n)))
    \<and> cur' = (if i = int h \<and> 0 \<le> j \<and> j < int (length vs) then Some (vs ! nat j)
       else if i = int h then Some m else cur)"
  proof (cases "inc \<or> i = int h")
    case True
    then have "fold (place_row (Num j) (i = int h)) (enumerate 0 vs)
        (if i = int h then Some m else cur, ?b) = (cur', b')"
      using assms(4) unfolding place_column_def c assms(2,3) prod.case Let_def present jsval.inject fst_conv snd_conv
      by (simp only: simp_thms if_True)
    with place_rows [OF d(1), of "Num j" "i = int h" 0 "if i = int h then Some m else cur" ?b] True
    show ?thesis by (simp add: Let_def split: prod.splits)
  next
    case False
    then have "(cur, ?b) = (cur', b')"
      using assms(4) unfolding place_column_def c assms(2,3) prod.case Let_def present jsval.inject fst_conv snd_conv
      by simp
    with False show ?thesis by (auto simp: rows_keep_def)
  qed
  have "vs ! n \<noteq> m" if "n < length vs" for n using d(2) that by (auto simp: in_set_conv_nth)
  with r d(2) show ?thesis
    by (auto simp: c column_addresses_def placed_column_def shown_background_def rows_keep_def bgs_update_bg)
qed

lemma place_columns:
  assumes "distinct (concat (map column_addresses cols))" and "ih ind = Num i" and "iv ind = Num j"
    and "fold (place_column rtl inc ind) (enumerate k cols) (cur, b) = (cur', b')"
  shows "rows_keep b b' \<and> (\<forall>a. a \<notin> set (concat (map column_addresses cols)) \<longrightarrow> bgs b' a = bgs b a)
    \<and> (\<forall>n < length cols. placed_column rtl inc i j (k + n) (cols ! n) b b')
    \<and> cur' = (if int k \<le> i \<and> i < int (k + length cols)
        then Some (shown_background j (cols ! nat (i - int k))) else cur)"
  using assms(1,4)
proof (induction cols arbitrary: k cur b)
  case Nil
  then show ?case by (auto simp: rows_keep_def)
next
  case (Cons c cols)
  obtain cur1 b1 where s: "place_column rtl inc ind (k, c) (cur, b) = (cur1, b1)"
    by (cases "place_column rtl inc ind (k, c) (cur, b)")
  with Cons.prems(2) have f: "fold (place_column rtl inc ind) (enumerate (Suc k) cols) (cur1, b1) = (cur', b')"
    by simp
  from Cons.prems(1) have d: "distinct (column_addresses c)" "distinct (concat (map column_addresses cols))"
    "set (column_addresses c) \<inter> set (concat (map column_addresses cols)) = {}" by simp_all
  note S = place_column_step [OF d(1) assms(2,3) s]
  note IH = Cons.IH [OF d(2) f]
  have same: "bgs b' a = bgs b1 a" if "a \<in> set (column_addresses c)" for a using IH d(3) that by blast
  have other: "bgs b1 a = bgs b a" if "a \<in> set (column_addresses x)" "x \<in> set cols" for a x
    using S d(3) that by auto
  have "placed_column rtl inc i j (k + n) ((c # cols) ! n) b b'" if "n < length (c # cols)" for n
  proof (cases n)
    case 0
    with S same show ?thesis by (auto simp: placed_column_def column_addresses_def)
  next
    case (Suc l)
    with that have x: "cols ! l \<in> set cols" by simp
    with Suc that IH other [OF _ x] show ?thesis by (auto simp: placed_column_def column_addresses_def)
  qed
  moreover have "cur' = (if int k \<le> i \<and> i < int (k + length (c # cols))
      then Some (shown_background j ((c # cols) ! nat (i - int k))) else cur)"
  proof (cases "i = int k")
    case False
    moreover have "nat (i - int k) = Suc (nat (i - int (Suc k)))" if "int k < i" using that by simp
    ultimately show ?thesis using S IH by auto
  qed (use S IH in auto)
  moreover have "rows_keep b b'" using S IH by (simp add: rows_keep_def)
  moreover have "bgs b' a = bgs b a" if "a \<notin> set (concat (map column_addresses (c # cols)))" for a
    using S IH that by auto
  ultimately show ?case by blast
qed
section \<open>Following the slides\<close>

text \<open>One background per slide, in columns like the slides, each under an address of its own.\<close>

definition addresses :: "backgrounds \<Rightarrow> nat list" where
  "addresses b = concat (map column_addresses (bg_columns b))"

definition mirrors :: "deck \<Rightarrow> backgrounds \<Rightarrow> bool" where
  "mirrors d b \<longleftrightarrow>
     map (\<lambda>c. (bg_slide (bgs b (fst c)), map (\<lambda>a. bg_slide (bgs b a)) (snd c))) (bg_columns b)
       = map (\<lambda>s. (s, queryAll (doc d) s is_section)) (getHorizontalSlides d)
     \<and> distinct (addresses b)
     \<and> list_all (\<lambda>a. slideBackground b (bg_slide (bgs b a)) = Some a) (addresses b)"

text \<open>The background of a slide has the same of the three classes.\<close>

definition same_place_class :: "deck \<Rightarrow> backgrounds \<Rightarrow> nat \<Rightarrow> bool" where
  "same_place_class d b s \<longleftrightarrow>
     (case slideBackground b s of
        None \<Rightarrow> False
      | Some a \<Rightarrow> \<forall>c \<in> {Past, Present, Future}. c \<in> bg_classes (bgs b a) \<longleftrightarrow> has_class c (el (doc d) s))"

lemma horizontal_not_vertical:
  assumes "wf_doc dm" and "s \<in> set (horizontal_slides dm)"
  shows "\<not> is_vertical dm s"
proof -
  obtain n where n: "n \<in> set (children (dom_root dm))" "nid n = s"
    using assms(2) by (auto simp: horizontal_slides_def horizontal_nodes_def section_children_def)
  have "parent_of dm (nid n) = Some (dom_root dm)"
    using parent_of_child [OF _ _ n(1)] assms(1) by (simp add: wf_doc_def nodes_def)
  with n(2) assms(1) show ?thesis by (simp add: is_vertical_def wf_doc_def)
qed

lemma mirrors_length:
  assumes "mirrors d b"
  shows "length (bg_columns b) = length (getHorizontalSlides d)"
proof -
  have "length (map (\<lambda>c. (bg_slide (bgs b (fst c)), map (\<lambda>a. bg_slide (bgs b a)) (snd c))) (bg_columns b))
      = length (map (\<lambda>s. (s, queryAll (doc d) s is_section)) (getHorizontalSlides d))"
    using assms by (simp only: mirrors_def)
  then show ?thesis by simp
qed

lemma mirrors_column:
  assumes "mirrors d b" and "k < length (getHorizontalSlides d)"
  shows "k < length (bg_columns b)"
    and "slideBackground b (getHorizontalSlides d ! k) = Some (fst (bg_columns b ! k))"
    and "length (snd (bg_columns b ! k)) = length (queryAll (doc d) (getHorizontalSlides d ! k) is_section)"
    and "n < length (queryAll (doc d) (getHorizontalSlides d ! k) is_section) \<Longrightarrow>
      slideBackground b (queryAll (doc d) (getHorizontalSlides d ! k) is_section ! n) = Some (snd (bg_columns b ! k) ! n)"
proof -
  let ?f = "\<lambda>c. (bg_slide (bgs b (fst c)), map (\<lambda>a. bg_slide (bgs b a)) (snd c))"
  let ?g = "\<lambda>s. (s, queryAll (doc d) s is_section)"
  have eq: "map ?f (bg_columns b) = map ?g (getHorizontalSlides d)" using assms(1) by (simp add: mirrors_def)
  from arg_cong [OF eq, of length] show k: "k < length (bg_columns b)" using assms(2) by simp
  have nth: "?f (bg_columns b ! k) = ?g (getHorizontalSlides d ! k)"
    using arg_cong [OF eq, of "\<lambda>l. l ! k"] k assms(2) by simp
  have mem: "a \<in> set (addresses b)" if "a \<in> set (column_addresses (bg_columns b ! k))" for a
    using that k by (auto simp: addresses_def)
  have bk: "slideBackground b (bg_slide (bgs b a)) = Some a" if "a \<in> set (column_addresses (bg_columns b ! k))" for a
    using mem [OF that] assms(1) by (simp add: mirrors_def list_all_iff)
  show "slideBackground b (getHorizontalSlides d ! k) = Some (fst (bg_columns b ! k))"
    using bk [of "fst (bg_columns b ! k)"] nth by (simp add: column_addresses_def)
  have q: "map (\<lambda>a. bg_slide (bgs b a)) (snd (bg_columns b ! k)) = queryAll (doc d) (getHorizontalSlides d ! k) is_section"
    using nth by simp
  from arg_cong [OF q, of length]
  show l: "length (snd (bg_columns b ! k)) = length (queryAll (doc d) (getHorizontalSlides d ! k) is_section)"
    by simp
  show "slideBackground b (queryAll (doc d) (getHorizontalSlides d ! k) is_section ! n) = Some (snd (bg_columns b ! k) ! n)"
    if "n < length (queryAll (doc d) (getHorizontalSlides d ! k) is_section)"
  proof -
    have "bg_slide (bgs b (snd (bg_columns b ! k) ! n)) = queryAll (doc d) (getHorizontalSlides d ! k) is_section ! n"
      using arg_cong [OF q, of "\<lambda>l. l ! n"] that l by simp
    moreover have "snd (bg_columns b ! k) ! n \<in> set (column_addresses (bg_columns b ! k))"
      using that l by (simp add: column_addresses_def)
    ultimately show ?thesis using bk by metis
  qed
qed

lemma show_background_fields [simp]:
  "bgs (show_background c b) = bgs b" "slideBackground (show_background c b) = slideBackground b"
  "previousBackground (show_background c b) = Some c" "bg_columns (show_background c b) = bg_columns b"
  by (simp_all add: show_background_def call_bg_def Let_def)

lemma bg_call_fields [simp]:
  "bgs (call_bg c b) = bgs b" "slideBackground (call_bg c b) = slideBackground b"
  by (simp_all add: call_bg_def)

lemma bubble_class_doc [simp]: "doc (bubble_class c w s d) = doc d"
  by (simp add: bubble_class_def)

text \<open>What \<open>update\<close> leaves, from what it computes for the columns.\<close>

lemma backgrounds_update_eq:
  assumes "place_all (cfg_rtl (cfg d)) inc (getIndices d None) b = (Some a, b1)"
    and "backgrounds_update inc (d, b) = (d', b')"
  shows "bgs b' = bgs b1 \<and> slideBackground b' = slideBackground b1 \<and> previousBackground b' = Some a
    \<and> doc d' = doc d"
  using assms by (auto simp: backgrounds_update_def Let_def split: option.splits)

lemma update_follows:
  assumes ok: "deck_ok d" and pos: "at_position i j d" and m: "mirrors d b"
    and up: "backgrounds_update inc (d, b) = (d', b')"
  shows "previousBackground b' = Option.bind (currentSlide d) (slideBackground b)
    \<and> list_all (same_place_class d' b') (getHorizontalSlides d @ column d i)"
proof -
  let ?hs = "getHorizontalSlides d"
  have wf: "wf_doc (doc d)" using ok by (simp add: deck_ok_def)
  note i = position_bounds(1,2) [OF pos]
  have ix: "ih (getIndices d None) = Num i" "iv (getIndices d None) = Num j"
    using pos by (auto simp: getIndices_def at_position_def)
  obtain cur b1 where p: "place_all (cfg_rtl (cfg d)) inc (getIndices d None) b = (cur, b1)"
    by (cases "place_all (cfg_rtl (cfg d)) inc (getIndices d None) b")
  have len: "length (bg_columns b) = length ?hs"
    by (rule mirrors_length [OF m])
  have dist: "distinct (concat (map column_addresses (bg_columns b)))"
    using m by (simp add: mirrors_def addresses_def)
  note pc = place_columns [OF dist ix p [unfolded place_all_def]]
  have cur: "cur = Some (shown_background j (bg_columns b ! nat i))"
    using pc i len by simp
  note u = backgrounds_update_eq [OF p [unfolded cur] up]
  have sb: "slideBackground b' = slideBackground b" using pc u by (simp add: rows_keep_def)
  note mc = mirrors_column [OF m]
  have ni: "nat i < length ?hs" using i by simp
  have "previousBackground b' = Option.bind (currentSlide d) (slideBackground b)"
  proof (cases "column d i = []")
    case True
    then show ?thesis
      using u mc(2,3) [OF ni] position_current [OF pos] by (simp add: shown_background_def column_def)
  next
    case False
    with position_bounds(3) [OF pos] have "0 \<le> j" "j < int (length (column d i))" by blast+
    with False show ?thesis
      using u mc(3,4) [OF ni] position_current [OF pos] by (simp add: shown_background_def column_def)
  qed
  moreover have "same_place_class d' b' (?hs ! k)" if "k < length ?hs" for k
  proof -
    have "placed_column (cfg_rtl (cfg d)) inc i j k (bg_columns b ! k) b b1" using pc mc(1) [OF that] by simp
    moreover have "\<not> is_vertical (doc d) (?hs ! k)"
      using horizontal_not_vertical [OF wf] that by (simp add: getHorizontalSlides_def)
    moreover have "marked d (doc d) ?hs i" using pos by (simp add: at_position_def)
    ultimately show ?thesis
      using that u sb mc(2) [OF that]
      by (auto simp: same_place_class_def placed_column_def place_background_def place_class_def marked_nth reversed_def)
  qed
  moreover have "same_place_class d' b' (column d i ! n)" if "n < length (column d i)" for n
  proof -
    have "placed_column (cfg_rtl (cfg d)) inc i j (nat i) (bg_columns b ! nat i) b b1" using pc mc(1) [OF ni] by simp
    moreover have "?hs ! nat i \<in> set (horizontal_slides (doc d))" using ni by (simp add: getHorizontalSlides_def)
    then obtain h where "h \<in> set (horizontal_nodes (doc d))" "nid h = ?hs ! nat i"
      by (auto simp: horizontal_slides_def)
    with wf_vertical_parent(2) [OF wf, of h "column d i ! n"] that have "is_vertical (doc d) (column d i ! n)"
      by (simp add: column_def)
    moreover have "marked d (doc d) (column d i) j" using pos by (simp add: at_position_def column_def)
    ultimately show ?thesis
      using that u sb mc(3) [OF ni] mc(4) [OF ni, of n] i(1)
      by (auto simp: same_place_class_def placed_column_def place_background_def place_class_def marked_nth
          reversed_def column_def)
  qed
  ultimately show ?thesis by (auto simp: list_all_length nth_append)
qed
section \<open>Creating the backgrounds\<close>

text \<open>
  The columns built so far, as slides: every address is older than the next one, and the slides
  refer back to their backgrounds.
\<close>

definition column_slides_of :: "backgrounds \<Rightarrow> nat \<times> nat list \<Rightarrow> nat \<times> nat list" where
  "column_slides_of b c = (bg_slide (bgs b (fst c)), map (\<lambda>a. bg_slide (bgs b a)) (snd c))"

definition built :: "dom \<Rightarrow> (nat \<times> nat list) list \<Rightarrow> deck \<times> backgrounds \<Rightarrow> bool" where
  "built dm pre db \<longleftrightarrow>
     map (column_slides_of (snd db)) (bg_columns (snd db)) = pre
     \<and> distinct (addresses (snd db))
     \<and> list_all (\<lambda>a. a < bg_fresh (snd db) \<and> slideBackground (snd db) (bg_slide (bgs (snd db) a)) = Some a)
         (addresses (snd db))
     \<and> same_shape dm (doc (fst db))"

lemma built_slides:
  "built dm pre db \<Longrightarrow>
     map (\<lambda>a. bg_slide (bgs (snd db) a)) (addresses (snd db)) = concat (map column_addresses pre)"
  by (auto simp: built_def addresses_def map_concat column_slides_of_def column_addresses_def comp_def)

lemma built_mem:
  assumes "built dm pre (d, b)" and "x \<in> set (addresses b)"
  shows "bg_slide (bgs b x) \<in> set (concat (map column_addresses pre))"
proof -
  have "bg_slide (bgs b x) \<in> set (map (\<lambda>a. bg_slide (bgs b a)) (addresses b))" using assms(2) by simp
  also have "map (\<lambda>a. bg_slide (bgs b a)) (addresses b) = concat (map column_addresses pre)"
    using built_slides [OF assms(1)] by simp
  finally show ?thesis .
qed

lemma sync_keeps:
  assumes "backgrounds_sync computed s (d, b) = (d', b')"
  shows "bg_columns b' = bg_columns b \<and> slideBackground b' = slideBackground b \<and> bg_fresh b' = bg_fresh b
    \<and> (\<forall>a. bg_slide (bgs b' a) = bg_slide (bgs b a)) \<and> same_shape (doc d) (doc d')"
proof -
  have "same_shape dm (update_el s (contrast_slide data c) dm)" for dm data c
    by (rule same_shape_update_el)
      (auto simp: contrast_slide_def contrast_class_def Let_def split: option.splits if_splits)
  with assms show ?thesis
    by (auto simp: backgrounds_sync_def Let_def update_bg_def style_bg_def split: option.splits)
qed

lemma createBackground_keeps:
  assumes "createBackground computed s container (d, b) = (a, d', b')"
  shows "a = bg_fresh b \<and> bg_columns b' = append_background container a (bg_columns b)
    \<and> slideBackground b' = (slideBackground b)(s \<mapsto> a) \<and> bg_fresh b' = Suc a
    \<and> (\<forall>x. bg_slide (bgs b' x) = (if x = a then s else bg_slide (bgs b x))) \<and> same_shape (doc d) (doc d')"
  using assms sync_keeps
  by (fastforce simp: createBackground_def Let_def blank_background_def)

lemma column_slides_cong:
  assumes "\<And>a. a \<in> set (column_addresses c) \<Longrightarrow> bg_slide (bgs b' a) = bg_slide (bgs b a)"
  shows "column_slides_of b' c = column_slides_of b c"
  using assms by (auto simp: column_slides_of_def column_addresses_def)

lemma built_fresh: "built dm pre db \<Longrightarrow> bg_fresh (snd db) \<notin> set (addresses (snd db))"
  by (auto simp: built_def list_all_iff)

text \<open>A new column.\<close>

lemma built_column:
  assumes b: "built dm pre (d, b)" and s: "s \<notin> set (concat (map column_addresses pre))"
    and c: "createBackground computed s None (d, b) = (a, d', b')"
  shows "built dm (pre @ [(s, [])]) (d', b') \<and> (\<exists>cols. bg_columns b' = cols @ [(a, [])])"
proof -
  note k = createBackground_keeps [OF c]
  have a: "a = bg_fresh b" "a \<notin> set (addresses b)" using k built_fresh [OF b] by simp_all
  have cols: "bg_columns b' = bg_columns b @ [(a, [])]" using k by (simp add: append_background_def)
  have ad: "addresses b' = addresses b @ [a]" by (simp add: addresses_def cols column_addresses_def)
  have "map (column_slides_of b') (bg_columns b) = map (column_slides_of b) (bg_columns b)"
  proof (rule map_cong [OF refl])
    fix c assume c: "c \<in> set (bg_columns b)"
    show "column_slides_of b' c = column_slides_of b c"
    proof (rule column_slides_cong)
      fix x assume "x \<in> set (column_addresses c)"
      with c have "x \<in> set (addresses b)" by (auto simp: addresses_def)
      with a k show "bg_slide (bgs b' x) = bg_slide (bgs b x)" by auto
    qed
  qed
  also have "\<dots> = pre" using b by (simp add: built_def)
  finally have m: "map (column_slides_of b') (bg_columns b') = pre @ [(s, [])]"
    using k by (simp add: cols column_slides_of_def)
  have old: "x < Suc a \<and> slideBackground b' (bg_slide (bgs b' x)) = Some x" if "x \<in> set (addresses b)" for x
  proof -
    have x: "x < a" "slideBackground b (bg_slide (bgs b x)) = Some x"
      using b that a(1) by (auto simp: built_def list_all_iff)
    have "bg_slide (bgs b x) \<noteq> s" using s built_mem [OF b that] by metis
    with x k show ?thesis by simp
  qed
  have "slideBackground b' (bg_slide (bgs b' a)) = Some a" using k by simp
  then have l: "list_all (\<lambda>a. a < bg_fresh b' \<and> slideBackground b' (bg_slide (bgs b' a)) = Some a) (addresses b')"
    using old k by (simp add: ad list_all_iff)
  have "same_shape dm (doc d')" "distinct (addresses b')"
    using b k a(2) same_shape_trans by (auto simp: built_def ad)
  with m l cols show ?thesis unfolding built_def fst_conv snd_conv by blast
qed

text \<open>A new row of the last column.\<close>

lemma built_row:
  assumes b: "built dm (pre @ [(s, us)]) (d, b)" and cols: "bg_columns b = cols @ [(m, vs)]"
    and v: "v \<notin> set (concat (map column_addresses (pre @ [(s, us)])))"
    and c: "create_vertical computed m v (d, b) = (d', b')"
  shows "built dm (pre @ [(s, us @ [v])]) (d', b') \<and> (\<exists>vs'. bg_columns b' = cols @ [(m, vs')])"
proof -
  obtain a d1 b1 where c1: "createBackground computed v (Some m) (d, b) = (a, d1, b1)"
    by (cases "createBackground computed v (Some m) (d, b)") auto
  have b': "d' = d1" "b' = update_bg m (\<lambda>bg. bg\<lparr>bg_classes := insert Stack (bg_classes bg)\<rparr>) b1"
    using c by (auto simp: create_vertical_def c1)
  note k = createBackground_keeps [OF c1]
  have a: "a = bg_fresh b" "a \<notin> set (addresses b)" using k built_fresh [OF b] by simp_all
  have dist: "distinct (addresses b)" using b by (simp add: built_def)
  then have "\<forall>c \<in> set cols. fst c \<noteq> m"
    by (auto simp: addresses_def cols column_addresses_def)
  then have "map (\<lambda>(m', vs). if m' = m then (m', vs @ [a]) else (m', vs)) cols = cols"
    by (intro map_idI) auto
  then have cols': "bg_columns b' = cols @ [(m, vs @ [a])]"
    using k by (simp add: b' cols append_background_def)
  have sl: "bg_slide (bgs b' x) = (if x = a then v else bg_slide (bgs b x))" for x
    using k by (simp add: b' update_bg_def)
  have ad: "addresses b = concat (map column_addresses cols) @ m # vs"
    "addresses b' = concat (map column_addresses cols) @ m # vs @ [a]"
    by (simp_all add: addresses_def cols cols' column_addresses_def)
  have "map (column_slides_of b') cols = map (column_slides_of b) cols"
  proof (rule map_cong [OF refl])
    fix c assume c: "c \<in> set cols"
    show "column_slides_of b' c = column_slides_of b c"
    proof (rule column_slides_cong)
      fix x assume "x \<in> set (column_addresses c)"
      with c have "x \<in> set (addresses b)" by (auto simp: ad)
      with a sl show "bg_slide (bgs b' x) = bg_slide (bgs b x)" by auto
    qed
  qed
  also have "\<dots> = pre" using b by (simp add: built_def cols)
  finally have pre: "map (column_slides_of b') cols = pre" .
  have us: "column_slides_of b (m, vs) = (s, us)" using b by (simp add: built_def cols)
  have "column_slides_of b' (m, vs @ [a]) = (fst (column_slides_of b (m, vs)), snd (column_slides_of b (m, vs)) @ [v])"
    using a(2) by (auto simp: column_slides_of_def sl ad)
  then have m: "map (column_slides_of b') (bg_columns b') = pre @ [(s, us @ [v])]"
    by (simp add: cols' pre us)
  have old: "x < Suc a \<and> slideBackground b' (bg_slide (bgs b' x)) = Some x" if "x \<in> set (addresses b)" for x
  proof -
    have x: "x < a" "slideBackground b (bg_slide (bgs b x)) = Some x"
      using b that a(1) by (auto simp: built_def list_all_iff)
    have "bg_slide (bgs b x) \<noteq> v" using v built_mem [OF b that] by metis
    with x k show ?thesis by (simp add: sl) (simp add: b')
  qed
  have "bg_fresh b' = Suc a" "slideBackground b' (bg_slide (bgs b' a)) = Some a"
    using k sl by (simp_all add: b' update_bg_def)
  moreover have mem: "set (addresses b') = insert a (set (addresses b))" by (auto simp: ad)
  ultimately have l: "list_all (\<lambda>a. a < bg_fresh b' \<and> slideBackground b' (bg_slide (bgs b' a)) = Some a) (addresses b')"
    using old unfolding list_all_iff mem by simp
  have "same_shape dm (doc d')" using b k same_shape_trans b'(1) by (auto simp: built_def)
  moreover have "distinct (addresses b')" using dist a(2) by (auto simp: ad)
  ultimately show ?thesis using m l cols' unfolding built_def fst_conv snd_conv by blast
qed

lemma built_rows:
  assumes "built dm (pre @ [(s, us)]) db" and "bg_columns (snd db) = cols @ [(m, ws)]"
    and "distinct vs" and "set vs \<inter> set (concat (map column_addresses (pre @ [(s, us)]))) = {}"
  shows "built dm (pre @ [(s, us @ vs)]) (fold (create_vertical computed m) vs db)"
  using assms
proof (induction vs arbitrary: us ws db)
  case Nil
  then show ?case by simp
next
  case (Cons v vs)
  obtain d b where db: "db = (d, b)" by (cases db)
  obtain d' b' where c: "create_vertical computed m v (d, b) = (d', b')"
    by (cases "create_vertical computed m v (d, b)")
  from built_row [OF Cons.prems(1,2) [unfolded db snd_conv] _ c] Cons.prems(4)
  obtain ws' where r: "built dm (pre @ [(s, us @ [v])]) (d', b')" "bg_columns b' = cols @ [(m, ws')]" by auto
  have "built dm (pre @ [(s, (us @ [v]) @ vs)]) (fold (create_vertical computed m) vs (d', b'))"
    using Cons.prems(3,4) r by (intro Cons.IH) (auto simp: column_addresses_def)
  then show ?case by (simp add: db c)
qed

lemma built_columns:
  assumes "built dm pre db" and "distinct (concat (map (\<lambda>s. s # queryAll dm s is_section) hs))"
    and "set (concat (map (\<lambda>s. s # queryAll dm s is_section) hs)) \<inter> set (concat (map column_addresses pre)) = {}"
  shows "built dm (pre @ map (\<lambda>s. (s, queryAll dm s is_section)) hs) (fold (create_horizontal computed) hs db)"
  using assms
proof (induction hs arbitrary: pre db)
  case Nil
  then show ?case by simp
next
  case (Cons s hs)
  obtain d b where db: "db = (d, b)" by (cases db)
  obtain a d' b' where c: "createBackground computed s None (d, b) = (a, d', b')"
    by (cases "createBackground computed s None (d, b)") auto
  have "s \<notin> set (concat (map column_addresses pre))" using Cons.prems(3) by auto
  from built_column [OF Cons.prems(1) [unfolded db] this c]
  obtain cols where n: "built dm (pre @ [(s, [])]) (d', b')" "bg_columns b' = cols @ [(a, [])]" by blast
  let ?vs = "queryAll dm s is_section"
  have q: "queryAll (doc d') s is_section = ?vs"
    using n(1) by (intro same_shape_queryAll) (auto simp: built_def same_shape_is_section)
  have "built dm (pre @ [(s, [] @ ?vs)]) (fold (create_vertical computed a) ?vs (d', b'))"
    by (rule built_rows [OF n(1), where cols = cols and ws = "[]"])
      (use n(2) Cons.prems(2,3) in \<open>auto simp: column_addresses_def\<close>)
  then have h: "built dm (pre @ [(s, ?vs)]) (create_horizontal computed s db)"
    by (simp add: create_horizontal_def db c q)
  have "built dm ((pre @ [(s, ?vs)]) @ map (\<lambda>s. (s, queryAll dm s is_section)) hs)
      (fold (create_horizontal computed) hs (create_horizontal computed s db))"
    using Cons.prems(2,3) by (intro Cons.IH [OF h]) (auto simp: column_addresses_def)
  then show ?case by simp
qed

section \<open>All the backgrounds\<close>

lemma built_mirrors:
  assumes "built (doc d0) (map (\<lambda>s. (s, queryAll (doc d0) s is_section)) (getHorizontalSlides d0)) (d, b)"
  shows "mirrors d b"
proof -
  have s: "same_shape (doc d0) (doc d)" using assms by (simp add: built_def)
  then show ?thesis
    using assms same_shape_getHorizontal [OF s] same_shape_sections [OF s]
    by (simp add: mirrors_def built_def column_slides_of_def [abs_def] list_all_iff)
qed

lemma distinct_trees:
  "distinct (map nid (forest ns)) \<Longrightarrow>
     distinct (concat (map (\<lambda>n. nid n # queryAll_node dm n P) (filter Q ns)))"
proof (induction ns)
  case Nil
  show ?case by simp
next
  case (Cons n ns)
  let ?own = "nid n # queryAll_node dm n P"
    and ?rest = "concat (map (\<lambda>n. nid n # queryAll_node dm n P) (filter Q ns))"
  have "set ?rest \<subseteq> nid ` set (forest ns)" "set ?own \<subseteq> nid ` set (n # descendants n)"
    by (auto simp: queryAll_node_def)
  moreover have "nid ` set (n # descendants n) \<inter> nid ` set (forest ns) = {}"
    using Cons.prems by auto
  ultimately have "set ?own \<inter> set ?rest = {}" by blast
  moreover have "distinct ?own" "distinct ?rest"
    using Cons by (auto simp: queryAll_node_def)
  ultimately have "distinct (?own @ ?rest)" unfolding distinct_append by blast
  with \<open>distinct ?rest\<close> show ?case by simp
qed

lemma distinct_slides:
  assumes "wf_doc dm"
  shows "distinct (concat (map (\<lambda>s. s # queryAll dm s is_section) (horizontal_slides dm)))"
proof -
  have "map (\<lambda>s. s # queryAll dm s is_section) (horizontal_slides dm)
      = map (\<lambda>n. nid n # queryAll_node dm n is_section) (horizontal_nodes dm)"
    using queryAll_horizontal assms by (simp add: horizontal_slides_def wf_doc_def)
  with distinct_trees [OF wf_forest [OF assms]] show ?thesis
    by (simp add: horizontal_nodes_def section_children_def)
qed

text \<open>The parallax options leave the columns and the document alone.\<close>

lemma parallax_setup_fields:
  "bgs (snd (parallax_setup cc db)) = bgs (snd db)"
  "bg_columns (snd (parallax_setup cc db)) = bg_columns (snd db)"
  "bg_fresh (snd (parallax_setup cc db)) = bg_fresh (snd db)"
  "slideBackground (snd (parallax_setup cc db)) = slideBackground (snd db)"
  "doc (fst (parallax_setup cc db)) = doc (fst db)"
  "env (fst (parallax_setup cc db)) = env (fst db)"
  "deckState (fst (parallax_setup cc db)) = deckState (fst db)"
  "currentSlide (fst (parallax_setup cc db)) = currentSlide (fst db)"
  by (simp_all add: parallax_setup_def split: prod.splits)

lemma create_built:
  assumes "wf_doc (doc d)"
  shows "built (doc d) (map (\<lambda>s. (s, queryAll (doc d) s is_section)) (getHorizontalSlides d))
    (backgrounds_create cc computed (d, b))"
proof -
  have "built (doc d) ([] @ map (\<lambda>s. (s, queryAll (doc d) s is_section)) (getHorizontalSlides d))
      (fold (create_horizontal computed) (getHorizontalSlides d) (d, b\<lparr>bg_columns := [], bg_noTransition := True\<rparr>))"
    using distinct_slides [OF assms]
    by (intro built_columns) (auto simp: built_def addresses_def getHorizontalSlides_def)
  moreover have "column_slides_of (snd (parallax_setup cc db)) = column_slides_of (snd db)" for db
    by (rule ext) (simp add: column_slides_of_def parallax_setup_fields)
  ultimately show ?thesis
    by (simp add: backgrounds_create_def built_def addresses_def parallax_setup_fields)
qed

lemma create_mirrors:
  assumes "wf_doc (doc d)" and "backgrounds_create cc computed (d, b) = (d', b')"
  shows "mirrors d' b'"
  using create_built [OF assms(1), of cc computed b] unfolding assms(2) by (rule built_mirrors)

text \<open>Of the deck, creation changes nothing that decides its well-formedness.\<close>

definition same_deck :: "deck \<Rightarrow> deck \<Rightarrow> bool" where
  "same_deck d d' \<longleftrightarrow>
     same_shape (doc d) (doc d') \<and> (\<forall>s. attrs (el (doc d') s) DataState = attrs (el (doc d) s) DataState)
     \<and> env d' = env d \<and> deckState d' = deckState d \<and> currentSlide d' = currentSlide d"

lemma same_deck_refl: "same_deck d d"
  by (simp add: same_deck_def)

lemma same_deck_trans [trans]: "same_deck a b \<Longrightarrow> same_deck b c \<Longrightarrow> same_deck a c"
  by (auto simp: same_deck_def intro: same_shape_trans)

lemma sync_same_deck: "same_deck d (fst (backgrounds_sync computed s (d, b)))"
proof -
  have "attrs (contrast_slide data c e) DataState = attrs e DataState" for data c e
    by (simp add: contrast_slide_def Let_def set_attr_def add_class_def remove_class_def split: option.splits)
  moreover have "same_shape (doc d) (doc (fst (backgrounds_sync computed s (d, b))))"
    using sync_keeps by (metis prod.collapse)
  ultimately show ?thesis
    by (auto simp: same_deck_def backgrounds_sync_def Let_def el_update_el split: option.splits)
qed

lemma createBackground_same_deck: "same_deck d (fst (snd (createBackground computed s c (d, b))))"
  by (simp add: createBackground_def Let_def sync_same_deck)

lemma create_vertical_same_deck: "same_deck (fst db) (fst (create_vertical computed a v db))"
  using createBackground_same_deck [of "fst db" computed v "Some a" "snd db"]
  by (cases "snd (createBackground computed v (Some a) db)") (simp add: create_vertical_def)

lemma fold_same_deck:
  assumes "\<And>x db. same_deck (fst db) (fst (f x db))"
  shows "same_deck (fst db) (fst (fold f xs db))"
proof (induction xs arbitrary: db)
  case Nil
  show ?case by (simp add: same_deck_refl)
next
  case (Cons x xs)
  from same_deck_trans [OF assms Cons.IH] show ?case by simp
qed

lemma create_horizontal_same_deck: "same_deck (fst db) (fst (create_horizontal computed s db))"
proof -
  obtain a db' where c: "createBackground computed s None db = (a, db')" by (cases "createBackground computed s None db")
  then have "same_deck (fst db) (fst db')"
    using createBackground_same_deck [of "fst db" computed s None "snd db"] by simp
  also have "same_deck (fst db') (fst (create_horizontal computed s db))"
    using fold_same_deck [of "create_vertical computed a", OF create_vertical_same_deck]
    by (simp add: create_horizontal_def c)
  finally show ?thesis .
qed

lemma create_same_deck: "same_deck d (fst (backgrounds_create cc computed (d, b)))"
  using fold_same_deck [of "create_horizontal computed", OF create_horizontal_same_deck,
      of "(d, b\<lparr>bg_columns := [], bg_noTransition := True\<rparr>)" "getHorizontalSlides d"]
  by (simp add: backgrounds_create_def same_deck_def parallax_setup_fields)

lemma same_deck_ok:
  assumes "same_deck d d'" and "deck_ok d"
  shows "deck_ok d'"
proof -
  have sh: "same_shape (doc d) (doc d')" using assms(1) by (simp add: same_deck_def)
  have "all_slides (doc d') = all_slides (doc d)"
    unfolding all_slides_def same_shape_root [OF sh]
    by (rule same_shape_queryAll_node [OF sh]) (rule same_shape_is_section [OF sh])
  then show ?thesis
    using assms
    by (simp add: deck_ok_def same_deck_def states_ok_def state_tokens_def leaf_current_def
        same_shape_wf [OF sh] same_shape_getHorizontal [OF sh] same_shape_sections [OF sh] cong: option.case_cong)
qed

text \<open>A deck that keeps the shape keeps its backgrounds.\<close>

lemma mirrors_shape: "mirrors d b \<Longrightarrow> same_shape (doc d) (doc d') \<Longrightarrow> mirrors d' b"
  by (simp add: mirrors_def same_shape_getHorizontal same_shape_sections)

lemma created_update_follows:
  assumes ok: "deck_ok d0" and c: "backgrounds_create cc computed (d0, b0) = (d1, b)"
    and s: "slide (Num x) (Num y) f d1 = Some d" and cont: "\<not> prevents (env d0) (Num x) (Num y)"
    and u: "backgrounds_update inc (d, b) = (d', b')"
  shows "at_position (settled_h d1 x) (settled_v d1 x y) d
    \<and> previousBackground b' = Option.bind (currentSlide d) (slideBackground b)
    \<and> list_all (same_place_class d' b') (getHorizontalSlides d @ column d (settled_h d1 x))"
proof -
  have same: "same_deck d0 d1" using create_same_deck [of d0 cc computed b0] c by simp
  have ok1: "deck_ok d1" by (rule same_deck_ok [OF same ok])
  have "\<not> prevents (env d1) (Num x) (Num y)" using same cont by (simp add: same_deck_def)
  with slide_lands [OF ok1, of "Num x" "Num y" x y f] s
  have d: "at_position (settled_h d1 x) (settled_v d1 x y) d" "deck_ok d"
    by (auto simp: jv_default_def resume_vertical_def)
  have "mirrors d b"
    using create_mirrors [OF _ c] slide_keeps_shape [OF s] mirrors_shape ok by (auto simp: deck_ok_def)
  with d update_follows [OF d(2,1) _ u] show ?thesis by blast
qed

section \<open>The parallax background\<close>

text \<open>
  With a single vertical slide in the deck and no configured distance, the vertical position of the
  parallax background is a product of infinity and 0.
\<close>

lemma parallax_lost:
  assumes "cfg_parallaxBackgroundImage cc \<noteq> []" and "cfg_parallaxBackgroundVertical cc = None"
    and "length (getVerticalSlides d) = 1" and "iv (getIndices d None) = Num 0"
  shows "map_option snd (updateParallax cc w h d b) = Some NaN"
proof -
  have "js_mul (js_div x (Fin 0)) (Fin 0) = NaN" for x
    by (cases x) (simp_all add: js_sgn_inf_def)
  with assms show ?thesis
    by (simp add: updateParallax_def Let_def vertical_multiplier_def index_num_def js_of_int_def js_max_value_def split: prod.splits)
qed

end
