(* ===== verification/PluginLaws.thy ===== *)
theory PluginLaws
  imports Plugins "HOL-Library.Multiset"
begin

text \<open>
  What the plugin loader guarantees: no plugin is initialised twice, the plugins known when the
  initialisation begins are initialised one after the other in the order of \<open>Object.values\<close>, the
  deck starts after the last of them, and the loader can only be waiting for a requested script
  or an unfulfilled promise.
\<close>

section \<open>Observations\<close>

definition inits :: "plugins \<Rightarrow> string list" where
  "inits st = concat (map (\<lambda>c. case c of InitPlugin n \<Rightarrow> [n] | _ \<Rightarrow> []) (calls st))"

definition starts :: "plugins \<Rightarrow> nat" where
  "starts st = length (filter ((=) StartDeck) (calls st))"

definition has_init :: "plugin \<Rightarrow> bool" where
  "has_init p \<longleftrightarrow> plugin_init p \<noteq> NoInit"

definition asyncs :: "plugin list \<Rightarrow> nat" where
  "asyncs ps = length (filter (\<lambda>p. plugin_init p = AsyncInit) ps)"

definition ids :: "plugins \<Rightarrow> string set" where
  "ids st = fst ` set (registeredPlugins st)"

lemma inits_call [simp]:
  "inits (call c st) = inits st @ (case c of InitPlugin n \<Rightarrow> [n] | _ \<Rightarrow> [])"
  by (simp add: inits_def call_def)

lemma starts_call [simp]: "starts (call c st) = starts st + (if c = StartDeck then 1 else 0)"
  by (auto simp: starts_def call_def)

lemma call_fields [simp]:
  "registeredPlugins (call c st) = registeredPlugins st"
  "plugins_state (call c st) = plugins_state st"
  "waiting (call c st) = waiting st"
  "requested (call c st) = requested st"
  "scriptsToLoad (call c st) = scriptsToLoad st"
  "asyncDependencies (call c st) = asyncDependencies st"
  by (simp_all add: call_def)

lemma inits_fields [simp]:
  "inits (st\<lparr>registeredPlugins := r\<rparr>) = inits st"
  "inits (st\<lparr>plugins_state := s\<rparr>) = inits st"
  "inits (st\<lparr>waiting := w\<rparr>) = inits st"
  "inits (st\<lparr>requested := q\<rparr>) = inits st"
  "inits (st\<lparr>scriptsToLoad := k\<rparr>) = inits st"
  "inits (st\<lparr>asyncDependencies := a\<rparr>) = inits st"
  by (simp_all add: inits_def)

lemma starts_fields [simp]:
  "starts (st\<lparr>registeredPlugins := r\<rparr>) = starts st"
  "starts (st\<lparr>plugins_state := s\<rparr>) = starts st"
  "starts (st\<lparr>waiting := w\<rparr>) = starts st"
  "starts (st\<lparr>requested := q\<rparr>) = starts st"
  "starts (st\<lparr>scriptsToLoad := k\<rparr>) = starts st"
  "starts (st\<lparr>asyncDependencies := a\<rparr>) = starts st"
  by (simp_all add: starts_def)

lemma ids_fields [simp]:
  "ids (call c st) = ids st"
  "ids (st\<lparr>plugins_state := s\<rparr>) = ids st"
  "ids (st\<lparr>waiting := w\<rparr>) = ids st"
  "ids (st\<lparr>requested := q\<rparr>) = ids st"
  "ids (st\<lparr>scriptsToLoad := k\<rparr>) = ids st"
  "ids (st\<lparr>asyncDependencies := a\<rparr>) = ids st"
  by (simp_all add: ids_def)

lemma no_plugins_fields [simp]:
  "registeredPlugins no_plugins = []" "plugins_state no_plugins = Idle" "asyncDependencies no_plugins = []"
  "waiting no_plugins = None" "requested no_plugins = []" "inits no_plugins = []" "starts no_plugins = 0"
  by (simp_all add: no_plugins_def inits_def starts_def)

section \<open>Registering\<close>

declare registerInstance.simps [simp del]

lemma undefined_key: "\<not> defined_key n st \<Longrightarrow> n \<notin> ids st"
  by (auto simp: defined_key_def ids_def map_of_eq_None_iff)

text \<open>
  A property that survives a warning, and a registration together with the call of \<open>init\<close>,
  survives \<open>registerPlugin\<close>.
\<close>

lemma register_keeps:
  assumes warn: "\<And>s c. P s \<Longrightarrow> c = WarnFormat \<or> (\<exists>n. c = WarnRegistered n) \<Longrightarrow> P (call c s)"
    and add: "\<And>s n q. P s \<Longrightarrow> n \<notin> ids s \<Longrightarrow> plugin_id q = Some n \<Longrightarrow>
      P (s\<lparr>registeredPlugins := registeredPlugins s @ [(n, q)]\<rparr>)"
    and init: "\<And>s n q. P s \<Longrightarrow> n \<notin> ids s \<Longrightarrow> plugin_id q = Some n \<Longrightarrow> plugins_state s = Loaded \<Longrightarrow>
      P (call (InitPlugin n) (s\<lparr>registeredPlugins := registeredPlugins s @ [(n, q)]\<rparr>))"
    and st: "P st"
  shows "P (registerInstance p st)"
  using st
proof (induction p st rule: registerInstance.induct)
  case (1 i k rs dst st)
  show ?case
  proof (cases "\<exists>n. i = Some n \<and> \<not> defined_key n st")
    case False
    then show ?thesis
      using warn [OF "1.prems"] by (cases i) (auto simp: registerInstance.simps)
  next
    case True
    then obtain n where n: "i = Some n" "\<not> defined_key n st" by blast
    define s where "s = st\<lparr>registeredPlugins := registeredPlugins st @ [(n, Plugin i k rs dst)]\<rparr>"
    show ?thesis
    proof (cases "plugins_state st = Loaded \<and> k \<noteq> NoInit")
      case False
      then show ?thesis
        using add [OF "1.prems" undefined_key [OF n(2)]] n
        by (auto simp: registerInstance.simps Let_def)
    next
      case load: True
      have "P (call (InitPlugin n) s)"
        unfolding s_def using init [OF "1.prems" undefined_key [OF n(2)]] n load by simp
      then have "P (fold registerInstance rs (call (InitPlugin n) s))"
        by (rule fold_invariant_mono [rotated])
          (use "1.IH" [OF n refl] load in \<open>auto simp: s_def\<close>)
      then show ?thesis
        using n load by (simp add: registerInstance.simps s_def)
    qed
  qed
qed

lemma registerPlugin_cases: "\<exists>p. registerPlugin r = registerInstance p"
  by (cases r) (auto simp: registerPlugin_def)

definition same_phase :: "plugins \<Rightarrow> plugins \<Rightarrow> bool" where
  "same_phase s t \<longleftrightarrow>
     plugins_state t = plugins_state s \<and> waiting t = waiting s \<and> requested t = requested s
     \<and> scriptsToLoad t = scriptsToLoad s \<and> asyncDependencies t = asyncDependencies s
     \<and> starts t = starts s \<and> set (registeredPlugins s) \<subseteq> set (registeredPlugins t)
     \<and> (plugins_state s \<noteq> Loaded \<longrightarrow> inits t = inits s)"

lemma same_phase_refl: "same_phase s s"
  by (simp add: same_phase_def)

lemma same_phase_trans: "same_phase s t \<Longrightarrow> same_phase t u \<Longrightarrow> same_phase s u"
  by (auto simp: same_phase_def)

lemma register_phase: "same_phase st (registerInstance p st)"
  by (rule register_keeps [where P = "same_phase st"]) (auto simp: same_phase_def)

text \<open>The registered plugins carry their key as id, and none has been initialised twice.\<close>

definition loader_ok :: "plugins \<Rightarrow> bool" where
  "loader_ok st \<longleftrightarrow>
     distinct (map fst (registeredPlugins st))
     \<and> list_all (\<lambda>(n, p). plugin_id p = Some n) (registeredPlugins st)
     \<and> distinct (inits st) \<and> set (inits st) \<subseteq> ids st"

lemma register_ok: "loader_ok st \<Longrightarrow> loader_ok (registerInstance p st)"
  by (rule register_keeps [where P = loader_ok]) (auto simp: loader_ok_def ids_def)

lemma registers_keep:
  "same_phase st (fold registerInstance ps st) \<and> (loader_ok st \<longrightarrow> loader_ok (fold registerInstance ps st))"
proof (induction ps arbitrary: st)
  case Nil
  show ?case by (simp add: same_phase_refl)
next
  case (Cons p ps)
  show ?case
    using Cons [of "registerInstance p st"] register_phase [of st p] register_ok [of st p]
    by (auto intro: same_phase_trans)
qed
section \<open>Initialising\<close>

lemma run_init_phase: "same_phase (call (InitPlugin (init_name p)) st) (run_init p st)"
  using registers_keep by (simp add: run_init_def)

lemma run_init_loading:
  assumes "plugins_state st = Loading"
  shows "plugins_state (run_init p st) = Loading" "inits (run_init p st) = inits st @ [init_name p]"
    "starts (run_init p st) = starts st" "waiting (run_init p st) = waiting st"
    "requested (run_init p st) = requested st"
    "set (registeredPlugins st) \<subseteq> set (registeredPlugins (run_init p st))"
  using assms run_init_phase [of p st] by (auto simp: same_phase_def)

text \<open>The plugins that are left: registered, different, and not initialised yet.\<close>

definition queued :: "plugin list \<Rightarrow> plugins \<Rightarrow> bool" where
  "queued ps st \<longleftrightarrow>
     distinct (map init_name ps)
     \<and> (\<forall>p \<in> set ps. (init_name p, p) \<in> set (registeredPlugins st) \<and> init_name p \<notin> set (inits st))"

lemma queued_tail: "queued (p # ps) st \<Longrightarrow> queued ps st"
  by (simp add: queued_def)

lemma queued_mono:
  "queued ps s \<Longrightarrow> set (registeredPlugins s) \<subseteq> set (registeredPlugins t) \<Longrightarrow> inits t = inits s \<Longrightarrow> queued ps t"
  by (auto simp: queued_def)

lemma queued_run_init:
  assumes "queued (p # ps) st" and "plugins_state st = Loading"
  shows "queued ps (run_init p st)"
proof -
  have "init_name p \<noteq> init_name q" if "q \<in> set ps" for q
    using assms(1) that by (auto simp: queued_def)
  with assms(1) run_init_loading [OF assms(2), of p] show ?thesis
    unfolding queued_def by fastforce
qed

lemma run_init_ok:
  assumes "loader_ok st" and "queued (p # ps) st"
  shows "loader_ok (run_init p st)"
proof -
  have "init_name p \<in> ids st" "init_name p \<notin> set (inits st)"
    using assms(2) by (auto simp: queued_def ids_def intro: rev_image_eqI)
  then have "loader_ok (call (InitPlugin (init_name p)) st)"
    using assms(1) by (simp add: loader_ok_def)
  then show ?thesis using registers_keep by (simp add: run_init_def)
qed

lemma object_values_mset: "mset (object_values kvs) = mset (map snd kvs)"
proof -
  have "mset kvs =
      filter_mset (\<lambda>kv. index_key (fst kv) \<noteq> None) (mset kvs)
        + filter_mset (\<lambda>kv. index_key (fst kv) = None) (mset kvs)"
    using multiset_partition [of "mset kvs" "\<lambda>kv. index_key (fst kv) \<noteq> None"] by simp
  then have "image_mset snd (mset kvs) =
      image_mset snd (filter_mset (\<lambda>kv. index_key (fst kv) \<noteq> None) (mset kvs))
        + image_mset snd (filter_mset (\<lambda>kv. index_key (fst kv) = None) (mset kvs))"
    by (metis image_mset_union)
  then show ?thesis by (simp add: object_values_def)
qed

lemma object_values_queued:
  assumes "loader_ok st" and "inits st = []"
  shows "queued (object_values (registeredPlugins st)) st"
proof -
  let ?r = "registeredPlugins st"
  have named: "init_name (snd kv) = fst kv" if "kv \<in> set ?r" for kv
    using assms(1) that by (auto simp: loader_ok_def list_all_iff init_name_def)
  have "mset (map init_name (object_values ?r)) = mset (map init_name (map snd ?r))"
    by (simp only: mset_map object_values_mset)
  also have "map init_name (map snd ?r) = map fst ?r" using named by simp
  finally have "distinct (map init_name (object_values ?r))"
    using assms(1) by (metis loader_ok_def mset_eq_imp_distinct_iff)
  moreover have "set (object_values ?r) = snd ` set ?r"
    by (metis list.set_map mset_eq_setD object_values_mset)
  ultimately show ?thesis
    using named assms(2) by (force simp: queued_def)
qed

section \<open>The order of initialisation\<close>

lemma calls_scripts:
  "inits (fold (\<lambda>s. call (RequestScript (dep_src s))) ss st) = inits st"
  "starts (fold (\<lambda>s. call (RequestScript (dep_src s))) ss st) = starts st"
  "plugins_state (fold (\<lambda>s. call (RequestScript (dep_src s))) ss st) = plugins_state st"
  "waiting (fold (\<lambda>s. call (RequestScript (dep_src s))) ss st) = waiting st"
  "requested (fold (\<lambda>s. call (RequestScript (dep_src s))) ss st) = requested st"
  "registeredPlugins (fold (\<lambda>s. call (RequestScript (dep_src s))) ss st) = registeredPlugins st"
  by (induction ss arbitrary: st) simp_all

lemma loadAsync_fields [simp]:
  "plugins_state (loadAsync st) = Loaded" "inits (loadAsync st) = inits st"
  "starts (loadAsync st) = Suc (starts st)" "waiting (loadAsync st) = waiting st"
  "requested (loadAsync st) = requested st" "registeredPlugins (loadAsync st) = registeredPlugins st"
  by (simp_all add: loadAsync_def calls_scripts)

lemma initNextPlugin_order:
  assumes "plugins_state st = Loading" and "waiting st = None"
  shows "let t = (promiseFulfilled ^^ asyncs ps) (initNextPlugin ps st)
         in plugins_state t = Loaded \<and> waiting t = None \<and> starts t = Suc (starts st)
            \<and> inits t = inits st @ map init_name (filter has_init ps)"
  using assms
proof (induction ps arbitrary: st)
  case Nil
  then show ?case by (simp add: asyncs_def)
next
  case (Cons p ps)
  note r = run_init_loading [OF Cons.prems(1), of p]
  show ?case
  proof (cases "plugin_init p")
    case NoInit
    with Cons show ?thesis by (simp add: asyncs_def has_init_def)
  next
    case SyncInit
    with Cons.IH [of "run_init p st"] Cons.prems r show ?thesis
      by (simp add: asyncs_def has_init_def Let_def)
  next
    case AsyncInit
    have w: "(run_init p st)\<lparr>waiting := None\<rparr> = run_init p st" using r Cons.prems by simp
    have "(promiseFulfilled ^^ asyncs (p # ps)) (initNextPlugin (p # ps) st) =
        (promiseFulfilled ^^ asyncs ps) (initNextPlugin ps (run_init p st))"
      by (simp add: AsyncInit asyncs_def funpow_Suc_right promiseFulfilled_def w del: funpow.simps)
    with AsyncInit Cons.IH [of "run_init p st"] Cons.prems r show ?thesis
      by (simp add: has_init_def Let_def)
  qed
qed

text \<open>As long as a promise is outstanding the loader stays in \<open>loading\<close>, and the deck is not started.\<close>

lemma initNextPlugin_waits:
  assumes "plugins_state st = Loading" and "waiting st = None" and "k < asyncs ps"
  shows "let t = (promiseFulfilled ^^ k) (initNextPlugin ps st)
         in plugins_state t = Loading \<and> waiting t \<noteq> None \<and> starts t = starts st"
  using assms
proof (induction ps arbitrary: st k)
  case Nil
  then show ?case by (simp add: asyncs_def)
next
  case (Cons p ps)
  note r = run_init_loading [OF Cons.prems(1), of p]
  show ?case
  proof (cases "plugin_init p")
    case NoInit
    with Cons show ?thesis by (simp add: asyncs_def)
  next
    case SyncInit
    with Cons.IH [of "run_init p st"] Cons.prems r show ?thesis
      by (simp add: asyncs_def Let_def)
  next
    case AsyncInit
    have w: "(run_init p st)\<lparr>waiting := None\<rparr> = run_init p st" using r Cons.prems by simp
    show ?thesis
    proof (cases k)
      case 0
      with AsyncInit r show ?thesis by simp
    next
      case (Suc j)
      have "(promiseFulfilled ^^ k) (initNextPlugin (p # ps) st) =
          (promiseFulfilled ^^ j) (initNextPlugin ps (run_init p st))"
        by (simp add: Suc AsyncInit funpow_Suc_right promiseFulfilled_def w del: funpow.simps)
      moreover have "j < asyncs ps" using Cons.prems(3) Suc AsyncInit by (simp add: asyncs_def)
      ultimately show ?thesis using Cons.IH [of "run_init p st" j] Cons.prems r by simp
    qed
  qed
qed
section \<open>The loader as a state machine\<close>

text \<open>
  Calls of \<open>Reveal.registerPlugin\<close> at any time, one \<open>Reveal.initialize\<close>, and the events of the
  browser.
\<close>

inductive plugins_reachable :: "plugins \<Rightarrow> bool" where
  start: "plugins_reachable no_plugins"
| register: "plugins_reachable st \<Longrightarrow> plugins_reachable (registerPlugin r st)"
| load: "plugins_reachable st \<Longrightarrow> plugins_state st = Idle \<Longrightarrow> plugins_reachable (load_plugins ps deps st)"
| script: "plugins_reachable st \<Longrightarrow> s \<in> set (requested st) \<Longrightarrow> plugins_reachable (scriptLoaded s st)"
| fulfilled: "plugins_reachable st \<Longrightarrow> waiting st \<noteq> None \<Longrightarrow> plugins_reachable (promiseFulfilled st)"

text \<open>\<open>k\<close> synchronous dependencies are still to be looked at.\<close>

definition awaiting_scripts :: "nat \<Rightarrow> plugins \<Rightarrow> bool" where
  "awaiting_scripts k st \<longleftrightarrow>
     plugins_state st = Loading \<and> waiting st = None \<and> inits st = [] \<and> starts st = 0
     \<and> scriptsToLoad st = int (length (requested st) + k)"

definition loader_inv :: "plugins \<Rightarrow> bool" where
  "loader_inv st \<longleftrightarrow> loader_ok st \<and>
     (case plugins_state st of
        Idle \<Rightarrow> waiting st = None \<and> requested st = [] \<and> inits st = [] \<and> starts st = 0
      | Loading \<Rightarrow>
          (case waiting st of
             None \<Rightarrow> awaiting_scripts 0 st \<and> requested st \<noteq> []
           | Some ps \<Rightarrow> queued ps st \<and> requested st = [] \<and> starts st = 0)
      | Loaded \<Rightarrow> waiting st = None \<and> requested st = [] \<and> starts st = 1)"

lemma initNextPlugin_inv:
  assumes "loader_ok st" "queued ps st" "plugins_state st = Loading" "waiting st = None"
    "requested st = []" "starts st = 0"
  shows "loader_inv (initNextPlugin ps st)"
  using assms
proof (induction ps arbitrary: st)
  case Nil
  then show ?case by (simp add: loader_inv_def loader_ok_def ids_def)
next
  case (Cons p ps)
  note r = run_init_loading [OF Cons.prems(3), of p]
  note ok = run_init_ok [OF Cons.prems(1,2)] queued_run_init [OF Cons.prems(2,3)]
  show ?case
  proof (cases "plugin_init p")
    case NoInit
    with Cons queued_tail show ?thesis by simp
  next
    case SyncInit
    with Cons.IH [OF ok] Cons.prems r show ?thesis by simp
  next
    case AsyncInit
    with ok Cons.prems r show ?thesis
      by (simp add: loader_inv_def loader_ok_def queued_def)
  qed
qed

lemma initPlugins_inv:
  assumes "loader_ok st" "awaiting_scripts 0 st" "requested st = []"
  shows "loader_inv (initPlugins st)"
  using assms initNextPlugin_inv [OF assms(1) object_values_queued]
  by (simp add: initPlugins_def awaiting_scripts_def)

lemma awaiting_call:
  "c \<noteq> StartDeck \<Longrightarrow> \<forall>n. c \<noteq> InitPlugin n \<Longrightarrow> awaiting_scripts k (call c st) = awaiting_scripts k st"
  by (cases c) (simp_all add: awaiting_scripts_def)

lemma loader_ok_call: "\<forall>n. c \<noteq> InitPlugin n \<Longrightarrow> loader_ok (call c st) = loader_ok st"
  by (cases c) (simp_all add: loader_ok_def)

lemma initNextPlugin_requested:
  "plugins_state st = Loading \<Longrightarrow> requested (initNextPlugin ps st) = requested st"
  by (induction ps arbitrary: st) (auto simp: run_init_loading split: init_kind.splits)

text \<open>
  One more dependency is done: either others are outstanding, or the initialisation begins.
\<close>

definition loading :: "nat \<Rightarrow> plugins \<Rightarrow> bool" where
  "loading k st \<longleftrightarrow>
     (if requested st = [] \<and> k = 0 then loader_inv st else loader_ok st \<and> awaiting_scripts k st)"

lemma scriptLoadedCallback_loading:
  assumes "loader_ok st" "awaiting_scripts (Suc k) st"
  shows "loading k (scriptLoadedCallback s st)"
proof -
  define t where "t = (case s of
      Some s \<Rightarrow> if dep_callback s then call (DependencyCallback (dep_src s)) st else st | None \<Rightarrow> st)"
  have t: "loader_ok t" "awaiting_scripts (Suc k) t"
    using assms by (auto simp: t_def loader_ok_call awaiting_call split: option.splits)
  let ?u = "t\<lparr>scriptsToLoad := scriptsToLoad t - 1\<rparr>"
  have u: "loader_ok ?u" "awaiting_scripts k ?u"
    using t by (simp_all add: loader_ok_def awaiting_scripts_def)
  have eq: "scriptLoadedCallback s st = (if scriptsToLoad ?u = 0 then initPlugins ?u else ?u)"
    by (simp add: scriptLoadedCallback_def t_def [symmetric] Let_def)
  have zero: "scriptsToLoad ?u = 0 \<longleftrightarrow> requested ?u = [] \<and> k = 0"
    using u(2) unfolding awaiting_scripts_def of_nat_eq_0_iff [symmetric, where 'a = int]
    by (simp add: of_nat_eq_0_iff del: of_nat_add)
  show ?thesis
  proof (cases "scriptsToLoad ?u = 0")
    case True
    then have "requested ?u = []" "awaiting_scripts 0 ?u" using zero u(2) by auto
    moreover from this have "requested (initPlugins ?u) = []"
      by (simp add: initPlugins_def initNextPlugin_requested awaiting_scripts_def)
    ultimately show ?thesis
      using initPlugins_inv [OF u(1)] True zero unfolding loading_def eq by simp
  next
    case False
    then show ?thesis using u zero unfolding loading_def eq by auto
  qed
qed

lemma load_dependency_loading:
  assumes "loader_ok st" "awaiting_scripts (Suc k) st"
  shows "loading k (load_dependency s st)"
proof -
  consider (plugin) "plugin_id (dep_plugin s) \<noteq> None"
    | (src) "plugin_id (dep_plugin s) = None" "dep_src s \<noteq> None"
    | (none) "plugin_id (dep_plugin s) = None" "dep_src s = None" by blast
  then show ?thesis
  proof cases
    case plugin
    let ?t = "registerInstance (dep_plugin s) st"
    have "loader_ok ?t" "awaiting_scripts (Suc k) ?t"
      using assms register_ok register_phase [of st "dep_plugin s"]
      by (auto simp: awaiting_scripts_def same_phase_def)
    from scriptLoadedCallback_loading [OF this] plugin show ?thesis
      by (simp add: load_dependency_def)
  next
    case src
    with assms show ?thesis
      by (simp add: load_dependency_def loader_ok_def awaiting_scripts_def loading_def)
  next
    case none
    from scriptLoadedCallback_loading [of "call WarnDependency st" k None] assms none show ?thesis
      by (simp add: load_dependency_def loader_ok_call awaiting_call)
  qed
qed

lemma load_dependencies_loading:
  "loader_ok st \<Longrightarrow> awaiting_scripts (length ss) st \<Longrightarrow> ss \<noteq> [] \<Longrightarrow> loading 0 (fold load_dependency ss st)"
proof (induction ss arbitrary: st)
  case Nil
  then show ?case by simp
next
  case (Cons s ss)
  then have l: "loading (length ss) (load_dependency s st)"
    using load_dependency_loading [of st "length ss" s] by simp
  show ?case
  proof (cases ss)
    case Nil
    with l show ?thesis by simp
  next
    case (Cons x xs)
    with l Cons.IH [of "load_dependency s st"] show ?thesis by (auto simp: loading_def)
  qed
qed

lemma loading_0: "loading 0 st \<Longrightarrow> loader_inv st"
  by (auto simp: loading_def loader_inv_def awaiting_scripts_def split: if_splits)

lemma registrations_keep:
  "same_phase st (fold registerPlugin rs st) \<and> (loader_ok st \<longrightarrow> loader_ok (fold registerPlugin rs st))"
proof (induction rs arbitrary: st)
  case Nil
  show ?case by (simp add: same_phase_refl)
next
  case (Cons r rs)
  obtain p where "registerPlugin r = registerInstance p" using registerPlugin_cases by blast
  with Cons [of "registerInstance p st"] register_phase [of st p] register_ok [of st p] show ?case
    by (auto intro: same_phase_trans)
qed

lemma same_phase_inv:
  assumes "loader_inv s" and "same_phase s t" and "loader_ok t"
  shows "loader_inv t"
  using assms
  by (auto simp: loader_inv_def same_phase_def awaiting_scripts_def queued_def
      split: load_state.splits option.splits)

lemma load_plugins_inv:
  assumes "loader_inv st" and "plugins_state st = Idle"
  shows "loader_inv (load_plugins rs deps st)"
proof -
  define t where "t = fold registerPlugin rs (st\<lparr>plugins_state := Loading\<rparr>)"
  have "loader_ok (st\<lparr>plugins_state := Loading\<rparr>)"
    using assms by (simp add: loader_inv_def loader_ok_def)
  then have t: "loader_ok t" "same_phase (st\<lparr>plugins_state := Loading\<rparr>) t"
    using registrations_keep unfolding t_def by auto
  define u where "u = t\<lparr>asyncDependencies := asyncDependencies t @ filter dep_async (filter wanted deps)\<rparr>"
  let ?ss = "filter (\<lambda>s. \<not> dep_async s) (filter wanted deps)"
  have st: "waiting st = None" "inits st = []" "starts st = 0" "requested st = []"
    using assms by (simp_all add: loader_inv_def)
  have "plugins_state t = Loading" "waiting t = None" "inits t = []" "starts t = 0" "requested t = []"
    using t(2) st unfolding same_phase_def by simp_all
  then have u: "loader_ok u" "plugins_state u = Loading" "waiting u = None" "inits u = []" "starts u = 0"
    "requested u = []"
    using t(1) by (simp_all add: u_def loader_ok_def)
  have eq: "load_plugins rs deps st = (if ?ss \<noteq> [] then
      fold load_dependency ?ss (u\<lparr>scriptsToLoad := int (length ?ss)\<rparr>) else initPlugins u)"
    by (simp only: load_plugins_def Let_def t_def u_def)
  show ?thesis
  proof (cases "?ss = []")
    case True
    then show ?thesis
      using initNextPlugin_inv [OF u(1) object_values_queued [OF u(1,4)] u(2,3,6,5)]
      by (simp only: eq initPlugins_def) simp
  next
    case False
    have "loader_ok (u\<lparr>scriptsToLoad := int (length ?ss)\<rparr>)"
      "awaiting_scripts (length ?ss) (u\<lparr>scriptsToLoad := int (length ?ss)\<rparr>)"
      using u by (simp_all add: loader_ok_def awaiting_scripts_def)
    from loading_0 [OF load_dependencies_loading [OF this False]] False show ?thesis
      by (simp only: eq) simp
  qed
qed

lemma scriptLoaded_inv:
  assumes "loader_inv st" and "s \<in> set (requested st)"
  shows "loader_inv (scriptLoaded s st)"
proof -
  define q where "q = remove1 s (requested st)"
  have "awaiting_scripts 0 st" "loader_ok st"
    using assms by (auto simp: loader_inv_def split: load_state.splits option.splits)
  moreover have "length (requested st) = Suc (length q)"
    using length_pos_if_in_set [OF assms(2)] assms(2) by (simp add: q_def length_remove1)
  ultimately have "loader_ok (st\<lparr>requested := q\<rparr>)" "awaiting_scripts (Suc 0) (st\<lparr>requested := q\<rparr>)"
    by (simp_all add: loader_ok_def awaiting_scripts_def)
  from scriptLoadedCallback_loading [OF this] show ?thesis
    by (simp add: scriptLoaded_def q_def loading_0)
qed

lemma promiseFulfilled_inv:
  assumes "loader_inv st" and "waiting st \<noteq> None"
  shows "loader_inv (promiseFulfilled st)"
proof -
  obtain ps where w: "waiting st = Some ps" using assms(2) by blast
  with assms(1) have "loader_ok (st\<lparr>waiting := None\<rparr>)" "queued ps (st\<lparr>waiting := None\<rparr>)"
    "plugins_state st = Loading" "requested st = []" "starts st = 0"
    by (auto simp: loader_inv_def loader_ok_def queued_def split: load_state.splits)
  then show ?thesis
    using initNextPlugin_inv by (simp add: promiseFulfilled_def w)
qed

theorem plugins_reachable_inv: "plugins_reachable st \<Longrightarrow> loader_inv st"
proof (induction rule: plugins_reachable.induct)
  case start
  show ?case by (simp add: loader_inv_def loader_ok_def no_plugins_def inits_def starts_def)
next
  case (register st r)
  obtain p where "registerPlugin r = registerInstance p" using registerPlugin_cases by blast
  with register same_phase_inv [OF register.IH register_phase [of st p]] register_ok [of st p]
  show ?case by (simp add: loader_inv_def)
qed (simp_all add: load_plugins_inv scriptLoaded_inv promiseFulfilled_inv)
section \<open>Progress\<close>

text \<open>The events of the browser alone, and what they consume.\<close>

inductive browser_step :: "plugins \<Rightarrow> plugins \<Rightarrow> bool" where
  script: "s \<in> set (requested st) \<Longrightarrow> browser_step st (scriptLoaded s st)"
| fulfilled: "waiting st \<noteq> None \<Longrightarrow> browser_step st (promiseFulfilled st)"

definition load_measure :: "plugins \<Rightarrow> nat \<times> nat" where
  "load_measure st =
     (length (requested st), case waiting st of None \<Rightarrow> 0 | Some ps \<Rightarrow> Suc (length ps))"

lemma initNextPlugin_waiting:
  assumes "plugins_state st = Loading" and "waiting st = None"
  shows "\<forall>qs. waiting (initNextPlugin ps st) = Some qs \<longrightarrow> length qs < length ps"
  using assms
proof (induction ps arbitrary: st)
  case Nil
  then show ?case by simp
next
  case (Cons p ps)
  then show ?case
    using Cons.IH [of st] Cons.IH [of "run_init p st"] run_init_loading [of st p]
    by (cases "plugin_init p") (auto split: option.splits intro: less_SucI)
qed

lemma scriptLoadedCallback_requested:
  "plugins_state st = Loading \<Longrightarrow> requested (scriptLoadedCallback s st) = requested st"
  by (auto simp: scriptLoadedCallback_def Let_def initPlugins_def initNextPlugin_requested split: option.splits)

lemma loading_enabled:
  assumes "loader_inv st" and "plugins_state st = Loading"
  shows "\<exists>t. browser_step st t"
proof (cases "waiting st")
  case None
  then have "requested st \<noteq> []" using assms by (simp add: loader_inv_def)
  then have "hd (requested st) \<in> set (requested st)" by simp
  then show ?thesis using browser_step.script by blast
next
  case Some
  then show ?thesis using browser_step.fulfilled by blast
qed

lemma browser_step_decreases:
  assumes "loader_inv st" and "browser_step st t"
  shows "(load_measure t, load_measure st) \<in> less_than <*lex*> less_than"
  using assms(2)
proof cases
  case (script s)
  from script(2) assms(1) have "plugins_state st = Loading"
    by (auto simp: loader_inv_def split: load_state.splits)
  then have "requested t = remove1 s (requested st)"
    by (simp add: script(1) scriptLoaded_def scriptLoadedCallback_requested)
  with script(2) length_pos_if_in_set [OF script(2)] show ?thesis
    by (simp add: load_measure_def length_remove1)
next
  case fulfilled
  then obtain ps where w: "waiting st = Some ps" by blast
  with assms(1) have st: "plugins_state st = Loading" by (auto simp: loader_inv_def split: load_state.splits)
  have "t = initNextPlugin ps (st\<lparr>waiting := None\<rparr>)" by (simp add: fulfilled(1) promiseFulfilled_def w)
  with initNextPlugin_waiting [of "st\<lparr>waiting := None\<rparr>" ps] st w
    initNextPlugin_requested [of "st\<lparr>waiting := None\<rparr>" ps]
  show ?thesis by (auto simp: load_measure_def split: option.splits)
qed

section \<open>The whole load\<close>

text \<open>Without synchronous dependencies the initialisation begins at once.\<close>

definition plugins_to_init :: "registration list \<Rightarrow> plugins \<Rightarrow> plugin list" where
  "plugins_to_init rs st =
     object_values (registeredPlugins (fold registerPlugin rs (st\<lparr>plugins_state := Loading\<rparr>)))"

lemma load_plugins_init:
  assumes "loader_inv st" and "plugins_state st = Idle" and "list_all (\<lambda>s. dep_async s) (filter wanted deps)"
  shows "\<exists>u. load_plugins rs deps st = initNextPlugin (plugins_to_init rs st) u \<and> plugins_state u = Loading
    \<and> waiting u = None \<and> inits u = [] \<and> starts u = 0"
proof -
  define t where "t = fold registerPlugin rs (st\<lparr>plugins_state := Loading\<rparr>)"
  let ?u = "t\<lparr>asyncDependencies := asyncDependencies t @ filter dep_async (filter wanted deps)\<rparr>"
  have "filter (\<lambda>s. \<not> dep_async s) (filter wanted deps) = []"
    using assms(3) by (auto simp: filter_empty_conv list_all_iff)
  then have "load_plugins rs deps st = initNextPlugin (plugins_to_init rs st) ?u"
    by (simp add: load_plugins_def Let_def t_def initPlugins_def plugins_to_init_def del: filter_filter)
  moreover have "same_phase (st\<lparr>plugins_state := Loading\<rparr>) t"
    using registrations_keep unfolding t_def by blast
  then have "plugins_state ?u = Loading" "waiting ?u = None" "inits ?u = []" "starts ?u = 0"
    using assms(1,2) by (simp_all add: same_phase_def loader_inv_def)
  ultimately show ?thesis by blast
qed

text \<open>A plugin that is registered but was left out stays out.\<close>

lemma left_out:
  assumes "n \<in> ids st" and "n \<notin> set (inits st)"
  shows "n \<in> ids (fold registerPlugin rs st) \<and> n \<notin> set (inits (fold registerPlugin rs st))"
proof (rule fold_invariant_mono [where P = "\<lambda>s. n \<in> ids s \<and> n \<notin> set (inits s)"])
  fix r s
  assume s: "n \<in> ids s \<and> n \<notin> set (inits s)"
  obtain p where "registerPlugin r = registerInstance p" using registerPlugin_cases by blast
  moreover have "n \<in> ids (registerInstance p s) \<and> n \<notin> set (inits (registerInstance p s))"
    by (rule register_keeps [where P = "\<lambda>s. n \<in> ids s \<and> n \<notin> set (inits s)"]) (use s in \<open>auto simp: ids_def\<close>)
  ultimately show "n \<in> ids (registerPlugin r s) \<and> n \<notin> set (inits (registerPlugin r s))" by simp
qed (use assms in simp)

text \<open>A plugin for the examples.\<close>

definition demo_plugin :: "string \<Rightarrow> init_kind \<Rightarrow> plugin" where
  "demo_plugin i k = Plugin (Some i) k [] False"

text \<open>A loader in \<open>loading\<close> waits for an event that is still to come, and every event brings it closer to the end.\<close>

lemma loading_progress:
  assumes "plugins_reachable st" and "plugins_state st = Loading"
  shows "(\<exists>t. browser_step st t) \<and>
    (\<forall>t. browser_step st t \<longrightarrow> (load_measure t, load_measure st) \<in> less_than <*lex*> less_than)"
  using loading_enabled browser_step_decreases plugins_reachable_inv [OF assms(1)] assms(2) by blast

text \<open>
  A plugin can be lost: one that another plugin registers from its \<open>init\<close> while the loader is still
  \<open>loading\<close> is registered, but it is not among the plugins being initialised and \<open>registerPlugin\<close> does
  not initialise it either.  The loader ends in \<open>loaded\<close> without having called its \<open>init\<close>, and no
  later registration changes that.
\<close>

lemma late_plugin_lost:
  assumes "plugin_id q = Some n" and "has_init q" and "m \<noteq> n"
    and "m \<notin> set object_prototype" and "n \<notin> set object_prototype"
  shows "let st = load_plugins [Instance (Plugin (Some m) SyncInit [q] d)] [] no_plugins
    in plugins_state st = Loaded \<and> getPlugin n st = Some q \<and> inits st = [m]
       \<and> n \<notin> set (inits (fold registerPlugin rs st))"
proof -
  let ?p = "Plugin (Some m) SyncInit [q] d"
  let ?st = "load_plugins [Instance ?p] [] no_plugins"
  obtain k rs' dst where q: "q = Plugin (Some n) k rs' dst" using assms(1) by (cases q) auto
  have v: "object_values [(m, p)] = [p]" for p :: plugin by (simp add: object_values_def)
  have st: "plugins_state ?st = Loaded" "inits ?st = [m]" "registeredPlugins ?st = [(m, ?p), (n, q)]"
    using assms
    by (simp_all add: load_plugins_def registerPlugin_def registerInstance.simps defined_key_def
        initPlugins_def v run_init_def q init_name_def Let_def)
  then have "n \<in> ids ?st" "n \<notin> set (inits ?st)" using assms(3) by (simp_all add: ids_def)
  from left_out [OF this] st assms(3) show ?thesis by (simp add: getPlugin_def Let_def)
qed

end
