(* ===== verification/Highlight.thy ===== *)
theory Highlight
  imports Queries
begin

text \<open>
  The code highlight plugin, plugin/highlight/plugin.js: the notation of the highlight steps, the
  fragments a code block with several steps is expanded into, the lines a step emphasises, the
  scrolling to the first of them, and \<open>betterTrim\<close>.  The library highlight.js is foreign code: the
  HTML it makes of a block and the number of rows of its table of lines are parameters.  Numbers
  are exact.
\<close>

section \<open>The notation of highlight steps\<close>

text \<open>\<open>{}\<close>, \<open>{start}\<close> or \<open>{start, end}\<close>: a missing member is \<^const>\<open>Undef\<close>.\<close>

record highlight =
  h_start :: jsval
  h_end :: jsval

definition no_highlight :: highlight where
  "no_highlight = \<lparr>h_start = Undef, h_end = Undef\<rparr>"

type_synonym steps = "highlight list list"

definition is_jsnumber :: "jsval \<Rightarrow> bool" where
  "is_jsnumber v \<longleftrightarrow> v \<noteq> Undef"

definition show_number :: "jsval \<Rightarrow> string" where
  "show_number v = (case v of Num i \<Rightarrow> show_int i | NaNv \<Rightarrow> ''NaN'' | Undef \<Rightarrow> ''undefined'')"

definition is_line_range :: "string \<Rightarrow> bool" where
  "is_line_range s \<longleftrightarrow> s \<noteq> [] \<and> list_all (\<lambda>c. is_digit c \<or> c = CHR ''-'') s"

definition parse_highlight :: "string \<Rightarrow> highlight" where
  "parse_highlight s =
     (if is_line_range s
      then (let parts = split_on (CHR ''-'') s;
                lineStart = jv_of_parse (parseInt10 (parts ! 0));
                lineEnd = (if length parts > 1 then jv_of_parse (parseInt10 (parts ! 1)) else NaNv)
            in if lineEnd = NaNv then \<lparr>h_start = lineStart, h_end = Undef\<rparr>
               else \<lparr>h_start = lineStart, h_end = lineEnd\<rparr>)
      else no_highlight)"

definition deserializeHighlightSteps :: "string \<Rightarrow> steps" where
  "deserializeHighlightSteps s =
     map (\<lambda>highlights. map parse_highlight (split_on (CHR '','') highlights))
       (split_on (CHR ''|'') (filter (\<lambda>c. \<not> is_ws c) s))"

definition show_highlight :: "highlight \<Rightarrow> string" where
  "show_highlight h =
     (if is_jsnumber (h_end h) then show_number (h_start h) @ ''-'' @ show_number (h_end h)
      else if is_jsnumber (h_start h) then show_number (h_start h)
      else [])"

definition serializeHighlightSteps :: "steps \<Rightarrow> string" where
  "serializeHighlightSteps ss =
     join_with ''|'' (map (\<lambda>highlights. join_with '','' (map show_highlight highlights)) ss)"

section \<open>Code blocks\<close>

text \<open>
  A \<open>code\<close> element: its HTML, the attributes \<open>data-line-numbers\<close> and \<open>data-fragment-index\<close>, the
  class \<open>fragment\<close>, the number of table rows it has, and the rows with the class \<open>highlight-line\<close>
  (numbered from 1).
\<close>

record code_block =
  html :: string
  line_numbers :: "string option"
  fragment_index :: "string option"
  is_fragment_block :: bool
  rows :: nat
  highlighted :: "nat list"
  has_highlights :: bool

text \<open>
  The rows \<open>tr:nth-child(n+a):nth-child(-n+b)\<close> or \<open>tr:nth-child(a)\<close> selects.  With \<open>NaN\<close> in it the
  selector is no selector and \<open>querySelectorAll\<close> throws: \<^const>\<open>None\<close>.
\<close>

definition rows_to_highlight :: "nat \<Rightarrow> highlight \<Rightarrow> nat list option" where
  "rows_to_highlight n h =
     (if is_jsnumber (h_end h)
      then (case (h_start h, h_end h) of
              (Num a, Num b) \<Rightarrow> Some (filter (\<lambda>i. a \<le> int i \<and> int i \<le> b) [1..<Suc n])
            | _ \<Rightarrow> None)
      else if is_jsnumber (h_start h)
      then (case h_start h of
              Num a \<Rightarrow> Some (filter (\<lambda>i. int i = a) [1..<Suc n])
            | _ \<Rightarrow> None)
      else Some [])"

definition highlight_rows :: "highlight \<Rightarrow> code_block \<Rightarrow> code_block option" where
  "highlight_rows h b =
     map_option
       (\<lambda>ls. if ls = [] then b
             else b\<lparr>highlighted := highlighted b @ filter (\<lambda>i. i \<notin> set (highlighted b)) ls,
                    has_highlights := True\<rparr>)
       (rows_to_highlight (rows b) h)"

fun highlight_all :: "highlight list \<Rightarrow> code_block \<Rightarrow> code_block option" where
  "highlight_all [] b = Some b"
| "highlight_all (h # hs) b = do { b' \<leftarrow> highlight_rows h b; highlight_all hs b' }"

definition highlightLines :: "string option \<Rightarrow> code_block \<Rightarrow> code_block option" where
  "highlightLines linesToHighlight b =
     do { s \<leftarrow> (case linesToHighlight of Some l \<Rightarrow> if l \<noteq> [] then Some l else line_numbers b
                | None \<Rightarrow> line_numbers b);
          case deserializeHighlightSteps s of
            [] \<Rightarrow> Some b
          | hs # _ \<Rightarrow> highlight_all hs b }"

definition trim_left :: "string \<Rightarrow> string" where
  "trim_left s = dropWhile is_ws s"

text \<open>The clones made for the steps after the first, and the block itself.\<close>

definition step_clone :: "code_block \<Rightarrow> highlight list \<Rightarrow> int option \<Rightarrow> code_block option" where
  "step_clone b hs fragmentIndex =
     do { c \<leftarrow> highlightLines None
            (b\<lparr>line_numbers := Some (serializeHighlightSteps [hs]), is_fragment_block := True\<rparr>);
          Some (c\<lparr>fragment_index := map_option show_int fragmentIndex\<rparr>) }"

fun step_clones :: "code_block \<Rightarrow> steps \<Rightarrow> int option \<Rightarrow> code_block list option" where
  "step_clones b [] fragmentIndex = Some []"
| "step_clones b (hs # ss) fragmentIndex =
     do { c \<leftarrow> step_clone b hs fragmentIndex;
          cs \<leftarrow> step_clones b ss (map_option (\<lambda>i. i + 1) fragmentIndex);
          Some (c # cs) }"

definition highlightBlock ::
  "(string \<Rightarrow> string) \<Rightarrow> (string \<Rightarrow> nat) \<Rightarrow> code_block \<Rightarrow> (code_block \<times> code_block list) option" where
  "highlightBlock hljs table_rows block =
     (let b = block\<lparr>html := hljs (html block)\<rparr>
      in if js_trim (html b) = [] then Some (b, [])
         else (case line_numbers b of
                 None \<Rightarrow> Some (b, [])
               | Some l \<Rightarrow>
                   let b = b\<lparr>rows := table_rows (html b)\<rparr>;
                       highlightSteps = deserializeHighlightSteps l
                   in if length highlightSteps > 1
                      then do { cs \<leftarrow> step_clones b (tl highlightSteps)
                                  (Option.bind (fragment_index b) parseInt10);
                                b' \<leftarrow> highlightLines None
                                  (b\<lparr>fragment_index := None,
                                     line_numbers := Some (serializeHighlightSteps [hd highlightSteps])\<rparr>);
                                Some (b', cs) }
                      else do { b' \<leftarrow> highlightLines None b; Some (b', []) }))"

section \<open>Scrolling\<close>

definition easeInOutQuart :: "rat \<Rightarrow> rat" where
  "easeInOutQuart t =
     (if t < 1 / 2 then 8 * t * t * t * t
      else let t = t - 1 in 1 - 8 * t * t * t * t)"

text \<open>
  The geometry the browser reports: offsets and heights in pixels.  \<open>highlight_top\<close> and
  \<open>highlight_bottom\<close> are \<open>getHighlightedLineBounds\<close> of the block.
\<close>

record block_geometry =
  scroll_top :: rat
  offset_height :: rat
  scroll_height :: rat
  padding_top :: rat
  padding_bottom :: rat
  table_offset :: "rat option"
  line_boxes :: "(rat \<times> rat) list"

definition getHighlightedLineBounds :: "block_geometry \<Rightarrow> rat \<times> rat" where
  "getHighlightedLineBounds g =
     (if line_boxes g = [] then (0, 0)
      else (fst (hd (line_boxes g)), fst (last (line_boxes g)) + snd (last (line_boxes g))))"

definition viewport_height :: "block_geometry \<Rightarrow> rat" where
  "viewport_height g = offset_height g - (padding_top g + padding_bottom g)"

definition target_top :: "block_geometry \<Rightarrow> rat" where
  "target_top g =
     (let (top, bottom) = getHighlightedLineBounds g;
          t = top + (min (bottom - top) (viewport_height g) - viewport_height g) / 2;
          t = (case table_offset g of Some off \<Rightarrow> t + (off - padding_top g) | None \<Rightarrow> t)
      in max (min t (scroll_height g - viewport_height g)) 0)"

text \<open>The scroll positions of the animation, frame by frame, from the time that has passed.\<close>

function animate :: "rat \<Rightarrow> rat \<Rightarrow> rat \<Rightarrow> rat list" where
  "animate startTop targetTop time =
     (let time = min (time + 1 / 50) 1;
          pos = startTop + (targetTop - startTop) * easeInOutQuart time
      in if time < 1 then pos # animate startTop targetTop time else [pos])"
  by pat_completeness auto

termination
proof (relation "measure (\<lambda>(s, t, time). nat \<lceil>(1 - time) * 50\<rceil>)")
  fix s t time x pos :: rat
  assume "x = min (time + 1 / 50) 1" and "x < 1"
  then have x: "x = time + 1 / 50" "time < 1" by (auto simp: min_def split: if_splits)
  then have "\<lceil>(1 - x) * 50\<rceil> = \<lceil>(1 - time) * 50\<rceil> - 1"
    by (simp add: algebra_simps flip: ceiling_diff_one)
  moreover have "0 < \<lceil>(1 - time) * 50\<rceil>" using x(2) by simp
  ultimately show "((s, t, x), s, t, time) \<in> measure (\<lambda>(s, t, time). nat \<lceil>(1 - time) * 50\<rceil>)" by simp
qed simp

declare animate.simps [simp del]

text \<open>The positions a block takes when it is scrolled to its highlight.\<close>

definition scrollHighlightedLineIntoView :: "bool \<Rightarrow> block_geometry \<Rightarrow> rat list" where
  "scrollHighlightedLineIntoView skipAnimation g =
     (if skipAnimation \<or> scroll_top g = target_top g then [target_top g]
      else if scroll_height g \<le> viewport_height g then []
      else animate (scroll_top g) (target_top g) 0)"

section \<open>betterTrim\<close>

definition is_blank :: "string \<Rightarrow> bool" where
  "is_blank l \<longleftrightarrow> js_trim l = []"

definition trimLineBreaks :: "string \<Rightarrow> string list" where
  "trimLineBreaks input =
     rev (dropWhile is_blank (rev (dropWhile is_blank (split_on (CHR 0x0A) input))))"

text \<open>The smallest indentation of the lines that are not blank; without one every line is cut off.\<close>

definition indentation :: "string \<Rightarrow> nat" where
  "indentation l = length l - length (trim_left l)"

definition pad_of :: "string list \<Rightarrow> nat option" where
  "pad_of lines =
     foldl (\<lambda>acc line.
         if trim_left line \<noteq> [] \<and> (case acc of None \<Rightarrow> True | Some p \<Rightarrow> p > indentation line)
         then Some (indentation line) else acc)
       None lines"

definition slice_from :: "nat option \<Rightarrow> string \<Rightarrow> string" where
  "slice_from pad line = (case pad of None \<Rightarrow> [] | Some p \<Rightarrow> drop p line)"

definition betterTrim :: "string \<Rightarrow> string" where
  "betterTrim innerHTML =
     (let content = join_with [CHR 0x0A] (trimLineBreaks innerHTML);
          lines = split_on (CHR 0x0A) content
      in join_with [CHR 0x0A] (map (slice_from (pad_of lines)) lines))"

end
