(* ===== verification/HighlightLaws.thy ===== *)
theory HighlightLaws
  imports Highlight
begin

text \<open>
  The notation of the highlight steps is read back as it was written; a block is expanded into one
  fragment per further step; scrolling stays between its two ends and inside the block.
\<close>

section \<open>Joining and splitting\<close>

lemma split_join:
  "ss \<noteq> [] \<Longrightarrow> list_all (\<lambda>s. c \<notin> set s) ss \<Longrightarrow> split_on c (join_with [c] ss) = ss"
  by (induction ss rule: induct_list012) (auto simp: split_on_no_sep split_on_append_sep)

lemma list_all_join:
  "list_all P s \<Longrightarrow> list_all (list_all P) ss \<Longrightarrow> list_all P (join_with s ss)"
  by (induction ss rule: induct_list012) auto

section \<open>The notation\<close>

definition valid_highlight :: "highlight \<Rightarrow> bool" where
  "valid_highlight h \<longleftrightarrow>
     (case h_start h of
        Undef \<Rightarrow> h = no_highlight
      | NaNv \<Rightarrow> False
      | Num a \<Rightarrow> 0 \<le> a \<and> (case h_end h of Undef \<Rightarrow> True | NaNv \<Rightarrow> False | Num b \<Rightarrow> 0 \<le> b))"

definition valid_steps :: "steps \<Rightarrow> bool" where
  "valid_steps ss \<longleftrightarrow> ss \<noteq> [] \<and> list_all (\<lambda>hs. hs \<noteq> [] \<and> list_all valid_highlight hs) ss"

lemma valid_highlight_cases [consumes 1, case_names none single range]:
  assumes "valid_highlight h"
  obtains "h = no_highlight"
    | n where "h = \<lparr>h_start = Num (int n), h_end = Undef\<rparr>"
    | n m where "h = \<lparr>h_start = Num (int n), h_end = Num (int m)\<rparr>"
proof (cases "h_start h")
  case (Num a)
  with assms consider (open_end) "0 \<le> a" "h_end h = Undef" | (closed) b where "0 \<le> a" "h_end h = Num b" "0 \<le> b"
    by (auto simp: valid_highlight_def split: jsval.splits)
  then show ?thesis
  proof cases
    case open_end
    with Num that(2) [of "nat a"] show ?thesis by (cases h) simp
  next
    case closed
    with Num that(3) [of "nat a" "nat b"] show ?thesis by (cases h) simp
  qed
qed (use assms that in \<open>auto simp: valid_highlight_def\<close>)

lemma show_num: "show_number (Num (int n)) = show_nat n"
  by (simp add: show_number_def show_int_nonneg)

lemma show_nat_chars:
  "c \<in> set (show_nat n) \<Longrightarrow> is_digit c"
  using show_nat_digits [of n] by (auto simp: list_all_iff)

text \<open>What is written for a highlight: digits and at most a dash.\<close>

definition plain_char :: "char \<Rightarrow> bool" where
  "plain_char c \<longleftrightarrow> is_digit c \<or> c = CHR ''-''"

lemma show_highlight_plain:
  assumes "valid_highlight h"
  shows "list_all plain_char (show_highlight h)"
  using assms
  by (cases h rule: valid_highlight_cases)
    (auto simp: show_highlight_def no_highlight_def is_jsnumber_def show_num plain_char_def list_all_iff
      dest: show_nat_chars)

lemma plain_char_not: "plain_char c \<Longrightarrow> c \<noteq> CHR '','' \<and> c \<noteq> CHR ''|'' \<and> \<not> is_ws c"
  by (auto simp: plain_char_def is_digit_def is_ws_def)

lemma dash_free: "CHR ''-'' \<notin> set (show_nat n)"
  using show_nat_chars [of "CHR ''-''" n] by (auto simp: is_digit_def)

lemma parse_show_highlight:
  assumes "valid_highlight h"
  shows "parse_highlight (show_highlight h) = h"
  using assms
proof (cases h rule: valid_highlight_cases)
  case none
  then show ?thesis
    by (simp add: show_highlight_def no_highlight_def is_jsnumber_def parse_highlight_def is_line_range_def)
next
  case (single n)
  have "is_line_range (show_nat n)"
    using show_nat_digits [of n] by (auto simp: is_line_range_def list_all_iff)
  with single show ?thesis
    by (simp add: show_highlight_def is_jsnumber_def show_num parse_highlight_def
        split_on_no_sep dash_free jv_of_parse_def)
next
  case (range n m)
  have "is_line_range (show_nat n @ CHR ''-'' # show_nat m)"
    using show_nat_digits [of n] show_nat_digits [of m] by (auto simp: is_line_range_def list_all_iff)
  with range show ?thesis
    by (simp add: show_highlight_def is_jsnumber_def show_num parse_highlight_def split_on_append_sep
        split_on_no_sep dash_free jv_of_parse_def Let_def)
qed

definition show_step :: "highlight list \<Rightarrow> string" where
  "show_step hs = join_with '','' (map show_highlight hs)"

lemma serialize_eq: "serializeHighlightSteps ss = join_with ''|'' (map show_step ss)"
  unfolding serializeHighlightSteps_def show_step_def [abs_def] by (rule refl)

lemma show_step_chars:
  assumes "list_all valid_highlight hs"
  shows "list_all (\<lambda>c. plain_char c \<or> c = CHR '','') (show_step hs)"
  unfolding show_step_def
  by (rule list_all_join) (use assms show_highlight_plain in \<open>auto simp: list_all_iff\<close>)

theorem deserialize_serialize:
  assumes "valid_steps ss"
  shows "deserializeHighlightSteps (serializeHighlightSteps ss) = ss"
proof -
  have chars: "list_all (\<lambda>c. plain_char c \<or> c = CHR '','') (show_step hs)" if "hs \<in> set ss" for hs
    using show_step_chars assms that by (auto simp: valid_steps_def list_all_iff)
  have "list_all (\<lambda>c. \<not> is_ws c) (serializeHighlightSteps ss)"
    unfolding serialize_eq
    by (rule list_all_join) (use chars plain_char_not in \<open>fastforce simp: list_all_iff is_ws_def\<close>)+
  then have "filter (\<lambda>c. \<not> is_ws c) (serializeHighlightSteps ss) = serializeHighlightSteps ss"
    by (simp add: filter_id_conv list_all_iff)
  moreover have "split_on (CHR ''|'') (serializeHighlightSteps ss) = map show_step ss"
    unfolding serialize_eq
    by (rule split_join)
      (use assms chars plain_char_not in \<open>fastforce simp: valid_steps_def list_all_iff\<close>)+
  moreover have "map parse_highlight (split_on (CHR '','') (show_step hs)) = hs" if "hs \<in> set ss" for hs
  proof -
    from that assms have hs: "hs \<noteq> []" "list_all valid_highlight hs"
      by (auto simp: valid_steps_def list_all_iff)
    then have "split_on (CHR '','') (show_step hs) = map show_highlight hs"
      unfolding show_step_def
      by (intro split_join) (use show_highlight_plain plain_char_not in \<open>fastforce simp: list_all_iff\<close>)+
    with hs show ?thesis by (simp add: parse_show_highlight list_all_iff map_idI)
  qed
  ultimately show ?thesis
    by (simp add: deserializeHighlightSteps_def map_idI)
qed
section \<open>Highlighted lines\<close>

definition covers :: "highlight \<Rightarrow> nat \<Rightarrow> bool" where
  "covers h i =
     (case h_start h of
        Num a \<Rightarrow> (case h_end h of Num b \<Rightarrow> a \<le> int i \<and> int i \<le> b | _ \<Rightarrow> int i = a)
      | _ \<Rightarrow> False)"

definition step_rows :: "nat \<Rightarrow> highlight list \<Rightarrow> nat set" where
  "step_rows n hs = {i. 1 \<le> i \<and> i \<le> n \<and> (\<exists>h \<in> set hs. covers h i)}"

lemma rows_to_highlight_valid:
  assumes "valid_highlight h"
  shows "\<exists>ls. rows_to_highlight n h = Some ls \<and> set ls = step_rows n [h]"
  using assms
proof (cases h rule: valid_highlight_cases)
  case none
  then show ?thesis
    by (simp add: rows_to_highlight_def no_highlight_def is_jsnumber_def step_rows_def covers_def)
next
  case (single k)
  then show ?thesis
    by (auto simp: rows_to_highlight_def is_jsnumber_def step_rows_def covers_def)
next
  case (range k m)
  then show ?thesis
    by (auto simp: rows_to_highlight_def is_jsnumber_def step_rows_def covers_def)
qed

lemma highlight_rows_valid:
  assumes "valid_highlight h"
  shows "\<exists>ls f. highlight_rows h b = Some (b\<lparr>highlighted := ls, has_highlights := f\<rparr>)
    \<and> set ls = set (highlighted b) \<union> step_rows (rows b) [h]"
proof -
  obtain ls where ls: "rows_to_highlight (rows b) h = Some ls" "set ls = step_rows (rows b) [h]"
    using rows_to_highlight_valid [OF assms] by blast
  show ?thesis
  proof (cases "ls = []")
    case True
    with ls have "highlight_rows h b = Some (b\<lparr>highlighted := highlighted b, has_highlights := has_highlights b\<rparr>)"
      by (simp add: highlight_rows_def)
    with True ls(2) show ?thesis by fastforce
  next
    case False
    with ls have "highlight_rows h b = Some (b\<lparr>highlighted :=
        highlighted b @ filter (\<lambda>i. i \<notin> set (highlighted b)) ls, has_highlights := True\<rparr>)"
      by (simp add: highlight_rows_def)
    moreover have "set (highlighted b @ filter (\<lambda>i. i \<notin> set (highlighted b)) ls) =
        set (highlighted b) \<union> step_rows (rows b) [h]"
      using ls(2) by auto
    ultimately show ?thesis by blast
  qed
qed

lemma step_rows_Cons: "step_rows n (h # hs) = step_rows n [h] \<union> step_rows n hs"
  by (auto simp: step_rows_def)

lemma highlight_all_valid:
  "list_all valid_highlight hs \<Longrightarrow>
     \<exists>ls f. highlight_all hs b = Some (b\<lparr>highlighted := ls, has_highlights := f\<rparr>)
       \<and> set ls = set (highlighted b) \<union> step_rows (rows b) hs"
proof (induction hs arbitrary: b)
  case Nil
  have "highlight_all [] b = Some (b\<lparr>highlighted := highlighted b, has_highlights := has_highlights b\<rparr>)"
    by simp
  then show ?case by (fastforce simp: step_rows_def)
next
  case (Cons h hs)
  then obtain ls f where h: "highlight_rows h b = Some (b\<lparr>highlighted := ls, has_highlights := f\<rparr>)"
    "set ls = set (highlighted b) \<union> step_rows (rows b) [h]"
    using highlight_rows_valid [of h b] by auto
  with Cons.IH [of "b\<lparr>highlighted := ls, has_highlights := f\<rparr>"] Cons.prems show ?case
    by (auto simp: step_rows_Cons [of _ h hs])
qed

text \<open>\<open>highlightLines\<close> on a block whose attribute is one step.\<close>

lemma valid_single: "list_all valid_highlight hs \<Longrightarrow> hs \<noteq> [] \<Longrightarrow> valid_steps [hs]"
  by (simp add: valid_steps_def)

lemma highlightLines_step:
  assumes "line_numbers b = Some (serializeHighlightSteps (hs # ss))" and "valid_steps (hs # ss)"
  shows "\<exists>ls f. highlightLines None b = Some (b\<lparr>highlighted := ls, has_highlights := f\<rparr>)
    \<and> set ls = set (highlighted b) \<union> step_rows (rows b) hs"
  using highlight_all_valid [of hs b] assms
  by (auto simp: highlightLines_def deserialize_serialize valid_steps_def)

text \<open>
  What the expansion promises for a fragment: it shows the rows of its step, and takes the next
  fragment index when the block had one.
\<close>

definition shows_step :: "code_block \<Rightarrow> highlight list \<Rightarrow> int option \<Rightarrow> code_block \<Rightarrow> bool" where
  "shows_step b hs idx c \<longleftrightarrow>
     set (highlighted c) = set (highlighted b) \<union> step_rows (rows b) hs
     \<and> line_numbers c = Some (serializeHighlightSteps [hs])
     \<and> is_fragment_block c \<and> html c = html b
     \<and> fragment_index c = map_option show_int idx"

lemma step_clone_valid:
  assumes "list_all valid_highlight hs" and "hs \<noteq> []"
  shows "\<exists>c. step_clone b hs idx = Some c \<and> shows_step b hs idx c"
proof -
  let ?b = "b\<lparr>line_numbers := Some (serializeHighlightSteps [hs]), is_fragment_block := True\<rparr>"
  obtain ls f where "highlightLines None ?b = Some (?b\<lparr>highlighted := ls, has_highlights := f\<rparr>)"
    "set ls = set (highlighted b) \<union> step_rows (rows b) hs"
    using highlightLines_step [of ?b hs "[]"] valid_single [OF assms] by auto
  then show ?thesis by (simp add: step_clone_def shows_step_def)
qed

lemma step_clones_valid:
  assumes "list_all (\<lambda>hs. hs \<noteq> [] \<and> list_all valid_highlight hs) ss"
  shows "\<exists>cs. step_clones b ss idx = Some cs \<and> length cs = length ss
    \<and> (\<forall>k < length ss. shows_step b (ss ! k) (map_option (\<lambda>i. i + int k) idx) (cs ! k))"
  using assms
proof (induction ss arbitrary: idx)
  case Nil
  show ?case by simp
next
  case (Cons hs ss)
  from Cons.prems obtain c where c: "step_clone b hs idx = Some c" "shows_step b hs idx c"
    using step_clone_valid [of hs b idx] by auto
  from Cons obtain cs where cs: "step_clones b ss (map_option (\<lambda>i. i + 1) idx) = Some cs" "length cs = length ss"
    "\<forall>k < length ss. shows_step b (ss ! k) (map_option (\<lambda>i. i + int k) (map_option (\<lambda>i. i + 1) idx)) (cs ! k)"
    using Cons.IH [of "map_option (\<lambda>i. i + 1) idx"] by auto
  have "shows_step b ((hs # ss) ! k) (map_option (\<lambda>i. i + int k) idx) ((c # cs) ! k)"
    if "k < Suc (length ss)" for k
  proof (cases k)
    case 0
    with c(2) show ?thesis by (simp add: option.map_ident)
  next
    case (Suc j)
    moreover have "map_option (\<lambda>i. i + int j) (map_option (\<lambda>i. i + 1) idx) = map_option (\<lambda>i. i + int (Suc j)) idx"
      by (cases idx) auto
    ultimately show ?thesis using cs(3) that by (metis nth_Cons_Suc Suc_less_eq)
  qed
  with c(1) cs(1,2) show ?case by simp
qed

lemma highlightBlock_valid:
  assumes "line_numbers b = Some (serializeHighlightSteps ss)" and "valid_steps ss"
    and "length ss > 1" and "js_trim (hljs (html b)) \<noteq> []"
  shows "\<exists>b' cs. highlightBlock hljs table_rows b = Some (b', cs) \<and> Suc (length cs) = length ss
    \<and> set (highlighted b') = set (highlighted b) \<union> step_rows (table_rows (hljs (html b))) (hd ss)
    \<and> line_numbers b' = Some (serializeHighlightSteps [hd ss]) \<and> fragment_index b' = None
    \<and> (\<forall>k < length cs. shows_step (b\<lparr>html := hljs (html b), rows := table_rows (hljs (html b))\<rparr>)
         (ss ! Suc k) (map_option (\<lambda>i. i + int k) (Option.bind (fragment_index b) parseInt10)) (cs ! k))"
proof -
  define u where "u = b\<lparr>html := hljs (html b), rows := table_rows (hljs (html b))\<rparr>"
  define idx where "idx = Option.bind (fragment_index b) parseInt10"
  obtain hs ts where ss: "ss = hs # ts" "ts \<noteq> []"
    using assms(3) by (cases ss) auto
  from assms(2) have v: "list_all valid_highlight hs" "hs \<noteq> []"
    "list_all (\<lambda>hs. hs \<noteq> [] \<and> list_all valid_highlight hs) ts"
    by (simp_all add: ss valid_steps_def)
  obtain cs where cs: "step_clones u ts idx = Some cs" "length cs = length ts"
    "\<forall>k < length ts. shows_step u (ts ! k) (map_option (\<lambda>i. i + int k) idx) (cs ! k)"
    using step_clones_valid [OF v(3)] by blast
  let ?v = "u\<lparr>fragment_index := None, line_numbers := Some (serializeHighlightSteps [hs])\<rparr>"
  obtain ls f where b': "highlightLines None ?v = Some (?v\<lparr>highlighted := ls, has_highlights := f\<rparr>)"
    "set ls = set (highlighted b) \<union> step_rows (table_rows (hljs (html b))) hs"
    using highlightLines_step [of ?v hs "[]"] valid_single [OF v(1,2)] by (auto simp: u_def)
  have "highlightBlock hljs table_rows b = Some (?v\<lparr>highlighted := ls, has_highlights := f\<rparr>, cs)"
    using assms cs(1) b'(1) unfolding highlightBlock_def
    by (simp add: deserialize_serialize ss u_def idx_def Let_def)
  with cs(2,3) b'(2) show ?thesis
    by (simp add: ss u_def idx_def)
qed

section \<open>Scrolling\<close>

lemma easing_square: "8 * t * t * t * t = 8 * ((t * t) * (t * t))" for t :: rat
  by (simp add: mult.assoc)

lemma fourth_power_bound:
  fixes u :: rat
  assumes "0 \<le> u" and "u \<le> 1 / 2"
  shows "0 \<le> 8 * ((u * u) * (u * u)) \<and> 8 * ((u * u) * (u * u)) \<le> 1"
proof -
  define q where "q = u * u"
  have "u * u \<le> 1 / 2 * (1 / 2)" using assms by (intro mult_mono) auto
  then have q: "0 \<le> q" "q \<le> 1 / 4" by (simp_all add: q_def)
  then have "q * q \<le> 1 / 4 * (1 / 4)" by (intro mult_mono) auto
  with q show ?thesis by (simp add: q_def [symmetric])
qed

text \<open>The easing function stays between 0 and 1 and reaches both.\<close>

lemma easing_bounds:
  assumes "0 \<le> t" and "t \<le> 1"
  shows "0 \<le> easeInOutQuart t \<and> easeInOutQuart t \<le> 1"
proof (cases "t < 1 / 2")
  case True
  with assms fourth_power_bound [of t] show ?thesis
    unfolding easeInOutQuart_def easing_square by simp
next
  case False
  have u: "(t - 1) * (t - 1) = (1 - t) * (1 - t)" by (simp add: algebra_simps)
  from False assms fourth_power_bound [of "1 - t"] show ?thesis
    unfolding easeInOutQuart_def Let_def easing_square u by simp
qed

lemma easing_ends: "easeInOutQuart 0 = 0" "easeInOutQuart 1 = 1"
  by (simp_all add: easeInOutQuart_def)

lemma animate_nonempty: "animate s t x \<noteq> []"
  by (subst animate.simps) (simp add: Let_def)

lemma animate_ends: "last (animate s t x) = t"
proof (induction s t x rule: animate.induct)
  case (1 s t x)
  then show ?case
    by (subst animate.simps) (auto simp: Let_def animate_nonempty easing_ends min_def split: if_splits)
qed

lemma between_convex:
  fixes s t e :: rat
  assumes "0 \<le> e" and "e \<le> 1"
  shows "min s t \<le> s + (t - s) * e \<and> s + (t - s) * e \<le> max s t"
proof (cases "s \<le> t")
  case True
  then have "0 \<le> (t - s) * e" "(t - s) * e \<le> (t - s) * 1"
    using assms by (intro mult_nonneg_nonneg mult_left_mono; simp)+
  with True show ?thesis by simp
next
  case False
  define d where "d = (s - t) * e"
  have "0 \<le> d" "d \<le> (s - t) * 1"
    unfolding d_def using False assms by (intro mult_nonneg_nonneg mult_left_mono; simp)+
  moreover have "(t - s) * e = - d" by (simp add: d_def algebra_simps)
  ultimately show ?thesis using False by simp
qed

lemma animate_between:
  "0 \<le> x \<Longrightarrow> p \<in> set (animate s t x) \<Longrightarrow> min s t \<le> p \<and> p \<le> max s t"
proof (induction s t x rule: animate.induct)
  case (1 s t x)
  let ?x = "min (x + 1 / 50) 1"
  have e: "0 \<le> ?x" "?x \<le> 1" using "1.prems" by auto
  have pos: "min s t \<le> s + (t - s) * easeInOutQuart ?x \<and> s + (t - s) * easeInOutQuart ?x \<le> max s t"
    using between_convex easing_bounds [OF e] by blast
  from "1.prems"(2) consider "p = s + (t - s) * easeInOutQuart ?x" | "?x < 1" "p \<in> set (animate s t ?x)"
    by (subst (asm) animate.simps) (auto simp: Let_def split: if_splits)
  then show ?case
    using pos "1.IH" [OF refl refl] e by cases auto
qed

lemma target_top_bounds: "0 \<le> target_top g \<and> target_top g \<le> max 0 (scroll_height g - viewport_height g)"
  by (auto simp: target_top_def Let_def split: prod.splits)
lemma scroll_positions:
  assumes "0 \<le> scroll_top g" and "scroll_top g \<le> max 0 (scroll_height g - viewport_height g)"
    and "p \<in> set (scrollHighlightedLineIntoView skip g)"
  shows "0 \<le> p \<and> p \<le> max 0 (scroll_height g - viewport_height g)
    \<and> last (scrollHighlightedLineIntoView skip g) = target_top g"
proof -
  consider "scrollHighlightedLineIntoView skip g = [target_top g]"
    | "scrollHighlightedLineIntoView skip g = animate (scroll_top g) (target_top g) 0"
    using assms(3) by (auto simp: scrollHighlightedLineIntoView_def split: if_splits)
  then show ?thesis
  proof cases
    case 1
    with assms(3) target_top_bounds [of g] show ?thesis by simp
  next
    case 2
    with assms(3) have "min (scroll_top g) (target_top g) \<le> p" "p \<le> max (scroll_top g) (target_top g)"
      using animate_between [of 0] by auto
    with assms(1,2) target_top_bounds [of g] have "0 \<le> p \<and> p \<le> max 0 (scroll_height g - viewport_height g)"
      by (auto simp: min_def max_def split: if_splits)
    with 2 show ?thesis by (simp add: animate_ends)
  qed
qed

section \<open>A block for the examples\<close>

definition sample_steps :: steps where
  "sample_steps = [[\<lparr>h_start = Num 1, h_end = Undef\<rparr>], [\<lparr>h_start = Num 2, h_end = Num 3\<rparr>]]"

definition sample_block :: code_block where
  "sample_block =
     \<lparr>html = ''a = 1'', line_numbers = Some (serializeHighlightSteps sample_steps), fragment_index = Some ''4'',
      is_fragment_block = False, rows = 0, highlighted = [], has_highlights = False\<rparr>"

lemma sample_block_facts:
  "line_numbers sample_block = Some (serializeHighlightSteps sample_steps)" "valid_steps sample_steps"
  "length sample_steps > 1" "js_trim (id (html sample_block)) \<noteq> []"
  by (simp_all add: sample_block_def sample_steps_def valid_steps_def valid_highlight_def js_trim_def is_ws_def)

definition sample_geometry :: block_geometry where
  "sample_geometry =
     \<lparr>scroll_top = 0, offset_height = 120, scroll_height = 400, padding_top = 10, padding_bottom = 10,
      table_offset = Some 10, line_boxes = [(180, 20), (200, 20)]\<rparr>"

end
