(* ===== verification/Markdown.thy ===== *)
theory Markdown
  imports Queries Regex
begin

text \<open>
  The markdown plugin, plugin/markdown/plugin.js: cutting a document into slides, the HTML it
  writes for them, and the renderer of code blocks.  The library \<open>marked\<close> is foreign code and a
  parameter.  \<open>slidify\<close> runs its separator over the document until it finds no more; a separator
  that matches the empty string never gets there, so the loop is a partial function and \<^const>\<open>None\<close>
  is a call that does not return.
\<close>

section \<open>Options\<close>

text \<open>The patterns are given compiled; \<^const>\<open>None\<close> is an option that is missing or empty.\<close>

record slidify_options =
  separator :: "regex option"
  verticalSeparator :: "regex option"
  notesSeparator :: "regex option"
  attributes :: "string option"

definition newline_regex :: regex where
  "newline_regex = RSeq (optional (RClass ((=) (CHR 0x0D)))) (RClass ((=) (CHR 0x0A)))"

text \<open>\<open>\r?\n---\r?\n\<close>\<close>

definition DEFAULT_SLIDE_SEPARATOR :: regex where
  "DEFAULT_SLIDE_SEPARATOR = RSeq newline_regex (RSeq (word ''---'') newline_regex)"

text \<open>\<open>notes?:\<close>\<close>

definition DEFAULT_NOTES_SEPARATOR :: regex where
  "DEFAULT_NOTES_SEPARATOR = RSeq (word ''note'') (RSeq (optional (word ''s'')) (word '':''))"

record full_options =
  o_separator :: regex
  o_vertical :: "regex option"
  o_notes :: regex
  o_attributes :: string

definition getSlidifyOptions :: "slidify_options \<Rightarrow> full_options" where
  "getSlidifyOptions opts =
     \<lparr>o_separator = (case separator opts of Some r \<Rightarrow> r | None \<Rightarrow> DEFAULT_SLIDE_SEPARATOR),
      o_vertical = verticalSeparator opts,
      o_notes = (case notesSeparator opts of Some r \<Rightarrow> r | None \<Rightarrow> DEFAULT_NOTES_SEPARATOR),
      o_attributes = (case attributes opts of Some a \<Rightarrow> a | None \<Rightarrow> [])\<rparr>"

section \<open>One slide\<close>

definition SCRIPT_END_PLACEHOLDER :: string where
  "SCRIPT_END_PLACEHOLDER = ''__SCRIPT_END__''"

definition quote_char :: string where
  "quote_char = [CHR 0x22]"

definition createMarkdownSlide :: "(string \<Rightarrow> string) \<Rightarrow> string \<Rightarrow> full_options \<Rightarrow> string" where
  "createMarkdownSlide marked_lib content opts =
     (let notesMatch = split_regex True (ignore_case (o_notes opts)) content;
          content = (if length notesMatch = 2
                     then notesMatch ! 0 @ ''<aside class='' @ quote_char @ ''notes'' @ quote_char @ ''>''
                            @ marked_lib (js_trim (notesMatch ! 1)) @ ''</aside>''
                     else content);
          content = replace_all (word ''</script>'') SCRIPT_END_PLACEHOLDER content
      in ''<script type='' @ quote_char @ ''text/template'' @ quote_char @ ''>'' @ content @ ''</script>'')"

section \<open>slidify\<close>

text \<open>An entry of \<open>sectionStack\<close>: a text, or an array of texts.\<close>

datatype entry = Horizontal string | Vertical "string list"

text \<open>\<open>sectionStack[sectionStack.length-1].push( content )\<close>: a text has no \<open>push\<close>.\<close>

definition push_last :: "string \<Rightarrow> entry list \<Rightarrow> entry list option" where
  "push_last content stack =
     (if stack = [] then None
      else (case last stack of
              Vertical cs \<Rightarrow> Some (butlast stack @ [Vertical (cs @ [content])])
            | Horizontal _ \<Rightarrow> None))"

definition separatorRegex :: "full_options \<Rightarrow> regex" where
  "separatorRegex opts =
     (case o_vertical opts of Some v \<Rightarrow> RAlt (o_separator opts) v | None \<Rightarrow> o_separator opts)"

partial_function (option) collect_sections ::
  "regex \<Rightarrow> regex \<Rightarrow> string \<Rightarrow> nat \<Rightarrow> bool \<Rightarrow> entry list \<Rightarrow> entry list option" where
  "collect_sections sep hor md lastIndex wasHorizontal stack =
     (case exec True sep md lastIndex of
        None \<Rightarrow>
          (if wasHorizontal then Some (stack @ [Horizontal (drop lastIndex md)])
           else push_last (drop lastIndex md) stack)
      | Some (i, e) \<Rightarrow>
          let isHorizontal = test hor (substring md i e);
              stack = (if \<not> isHorizontal \<and> wasHorizontal then stack @ [Vertical []] else stack);
              content = substring md lastIndex i
          in Option.bind
               (if isHorizontal \<and> wasHorizontal then Some (stack @ [Horizontal content])
                else push_last content stack)
               (collect_sections sep hor md e isHorizontal))"

definition section_html :: "(string \<Rightarrow> string) \<Rightarrow> full_options \<Rightarrow> entry \<Rightarrow> string" where
  "section_html marked_lib opts en =
     (case en of
        Vertical cs \<Rightarrow>
          ''<section '' @ o_attributes opts @ ''>''
          @ concat (map (\<lambda>child. ''<section data-markdown>'' @ createMarkdownSlide marked_lib child opts
                                 @ ''</section>'') cs)
          @ ''</section>''
      | Horizontal c \<Rightarrow>
          ''<section '' @ o_attributes opts @ '' data-markdown>'' @ createMarkdownSlide marked_lib c opts
          @ ''</section>'')"

definition slidify :: "(string \<Rightarrow> string) \<Rightarrow> string \<Rightarrow> slidify_options \<Rightarrow> string option" where
  "slidify marked_lib markdown options =
     (let opts = getSlidifyOptions options
      in map_option (\<lambda>stack. concat (map (section_html marked_lib opts) stack))
           (collect_sections (separatorRegex opts) (o_separator opts) markdown 0 True []))"

section \<open>Reading a section\<close>

text \<open>\<open>text.match( /^\n?(\s*)/ )[1].length\<close> and the same for tabs.\<close>

definition after_newline :: "string \<Rightarrow> string" where
  "after_newline s = (case s of c # t \<Rightarrow> if c = CHR 0x0A then t else s | [] \<Rightarrow> [])"

definition leading_ws :: "string \<Rightarrow> nat" where
  "leading_ws s = length (takeWhile is_ws (after_newline s))"

definition leading_tabs :: "string \<Rightarrow> nat" where
  "leading_tabs s = length (takeWhile ((=) (CHR 0x09)) (after_newline s))"

definition indent_regex :: "char \<Rightarrow> nat \<Rightarrow> regex" where
  "indent_regex c n = RSeq (optional (RClass ((=) (CHR 0x0A)))) (word (replicate n c))"

definition getMarkdownFromSlide :: "string \<Rightarrow> string" where
  "getMarkdownFromSlide textContent =
     (let text = replace_all (word SCRIPT_END_PLACEHOLDER) ''</script>'' textContent
      in if leading_tabs text > 0
         then replace_all (indent_regex (CHR 0x09) (leading_tabs text)) [CHR 0x0A] text
         else if leading_ws text > 1
         then replace_all (indent_regex (CHR '' '') (leading_ws text)) [CHR 0x0A] text
         else text)"

text \<open>The attributes of a section that are not about markdown, in their order.\<close>

definition markdown_attribute :: "string \<Rightarrow> bool" where
  "markdown_attribute name \<longleftrightarrow>
     test (ignore_case (RSeq (word ''data-'')
       (RAlt (word ''markdown'') (RAlt (word ''separator'') (RAlt (word ''vertical'') (word ''notes'')))))) name"

definition forward_attribute :: "string \<times> string \<Rightarrow> string" where
  "forward_attribute nv =
     (if snd nv \<noteq> [] then fst nv @ ''='' @ quote_char @ snd nv @ quote_char else fst nv)"

definition getForwardedAttributes :: "(string \<times> string) list \<Rightarrow> string" where
  "getForwardedAttributes attrs =
     join_with '' '' (map forward_attribute (filter (\<lambda>nv. \<not> markdown_attribute (fst nv)) attrs))"

text \<open>A section with \<open>data-markdown\<close>, and what the server answers for an external document.\<close>

record markdown_section =
  data_markdown :: string
  text_content :: string
  section_options :: slidify_options
  section_attributes :: "(string \<times> string) list"

datatype response = Loaded_text string | Failed string

definition fetch_error :: "string \<Rightarrow> string \<Rightarrow> string" where
  "fetch_error url status =
     ''<section data-state='' @ quote_char @ ''alert'' @ quote_char @ ''>''
     @ ''ERROR: The attempt to fetch '' @ url @ '' failed with HTTP status '' @ status @ ''.''
     @ ''Check your browser'' @ [CHR 0x27] @ ''s JavaScript console for more details.''
     @ ''<p>Remember that you need to serve the presentation HTML from a HTTP server.</p>''
     @ ''</section>''"

definition process_section ::
  "(string \<Rightarrow> string) \<Rightarrow> (string \<Rightarrow> response) \<Rightarrow> markdown_section \<Rightarrow> string option" where
  "process_section marked_lib fetch sec =
     (let opts = (section_options sec)\<lparr>attributes := Some (getForwardedAttributes (section_attributes sec))\<rparr>
      in if data_markdown sec \<noteq> []
         then (case fetch (data_markdown sec) of
                 Loaded_text t \<Rightarrow> slidify marked_lib t opts
               | Failed status \<Rightarrow> Some (fetch_error ''undefined'' status))
         else slidify marked_lib (getMarkdownFromSlide (text_content sec)) opts)"

section \<open>Code blocks\<close>

definition HTML_ESCAPE_MAP :: "char \<Rightarrow> string option" where
  "HTML_ESCAPE_MAP =
     [CHR ''&'' \<mapsto> ''&amp;'', CHR ''<'' \<mapsto> ''&lt;'', CHR ''>'' \<mapsto> ''&gt;'',
      CHR 0x22 \<mapsto> ''&quot;'', CHR 0x27 \<mapsto> ''&#39;'']"

definition escapeForHTML :: "string \<Rightarrow> string" where
  "escapeForHTML input =
     concat (map (\<lambda>c. case HTML_ESCAPE_MAP c of Some e \<Rightarrow> e | None \<Rightarrow> [c]) input)"

text \<open>\<open>/\[([\s\d,|-]*)\]/\<close>\<close>

definition CODE_LINE_NUMBER_REGEX :: regex where
  "CODE_LINE_NUMBER_REGEX =
     RSeq (RClass ((=) (CHR ''['')))
       (RSeq (RStar (RClass (\<lambda>c. is_ws c \<or> is_digit c \<or> c \<in> set '',|-''))) (RClass ((=) (CHR '']''))))"

definition code_renderer :: "string \<Rightarrow> string \<Rightarrow> string" where
  "code_renderer code language =
     (let (lineNumbers, language) =
        (case exec False CODE_LINE_NUMBER_REGEX language 0 of
           Some (i, e) \<Rightarrow>
             (''data-line-numbers='' @ quote_char
                @ js_trim (substring language (Suc i) (e - 1)) @ quote_char,
              js_trim (take i language @ drop e language))
         | None \<Rightarrow> ([], language))
      in ''<pre><code '' @ lineNumbers @ '' class='' @ quote_char @ language @ quote_char @ ''>''
         @ escapeForHTML code @ ''</code></pre>'')"

text \<open>With \<open>animateLists\<close> every list item is a fragment.\<close>

definition listitem_renderer :: "string \<Rightarrow> string" where
  "listitem_renderer t = ''<li class='' @ quote_char @ ''fragment'' @ quote_char @ ''>'' @ t @ ''</li>''"

text \<open>All sections, in document order; external documents arrive in any order, each replaces its own section.\<close>

fun processSlides ::
  "(string \<Rightarrow> string) \<Rightarrow> (string \<Rightarrow> response) \<Rightarrow> markdown_section list \<Rightarrow> string list option" where
  "processSlides marked_lib fetch [] = Some []"
| "processSlides marked_lib fetch (sec # secs) =
     do { h \<leftarrow> process_section marked_lib fetch sec;
          hs \<leftarrow> processSlides marked_lib fetch secs;
          Some (h # hs) }"

end
