(* ===== verification/MarkdownLaws.thy ===== *)
theory MarkdownLaws
  imports Markdown
begin

text \<open>
  Cutting a document into slides keeps all of it, and stacks exactly the texts that a vertical
  separator connects; a separator that matches the empty string makes it run forever; the escaped
  text of a code block is free of markup and decodes to the original.
\<close>

section \<open>Pieces and groups\<close>

text \<open>
  The reference: the text before the first separator, and for every separator whether it is a
  horizontal one, its text, and the text behind it.
\<close>

function pieces :: "regex \<Rightarrow> regex \<Rightarrow> string \<Rightarrow> nat \<Rightarrow> string \<times> (bool \<times> string \<times> string) list" where
  "pieces sep hor md lo =
     (case exec True sep md lo of
        None \<Rightarrow> (drop lo md, [])
      | Some (i, e) \<Rightarrow>
          if lo < e \<and> e \<le> length md
          then (let (c, r) = pieces sep hor md e; s = substring md i e
                in (substring md lo i, (test hor s, s, c) # r))
          else (drop lo md, []))"
  by pat_completeness auto

termination
  by (relation "measure (\<lambda>(sep, hor, md, lo). length md - lo)") auto

declare pieces.simps [simp del]

text \<open>Texts with a vertical separator between them belong to one group.\<close>

fun groups :: "string \<Rightarrow> (bool \<times> string \<times> string) list \<Rightarrow> string list list" where
  "groups c [] = [[c]]"
| "groups c ((h, s, d) # r) =
     (if h then [c] # groups d r
      else (case groups d r of g # gs \<Rightarrow> (c # g) # gs | [] \<Rightarrow> [[c]]))"

definition entry_of :: "string list \<Rightarrow> entry" where
  "entry_of g = (case g of [c] \<Rightarrow> Horizontal c | _ \<Rightarrow> Vertical g)"

lemma slide_groups_nonempty: "groups c r \<noteq> [] \<and> [] \<notin> set (groups c r)"
  by (induction c r rule: groups.induct) (auto split: list.splits)

lemma concat_groups: "concat (groups c r) = c # map (snd \<circ> snd) r"
proof (induction c r rule: groups.induct)
  case (2 c h s d r)
  then show ?case using slide_groups_nonempty [of d r] by (cases h) (auto split: list.splits)
qed simp

lemma push_last_stack: "push_last c (st @ [Vertical cs]) = Some (st @ [Vertical (cs @ [c])])"
  by (simp add: push_last_def)

text \<open>The loop, inside and outside of a vertical group.\<close>

lemma collect_groups:
  assumes "\<not> nullable sep"
  shows "collect_sections sep hor md l True st =
      Some (st @ map entry_of (groups (fst (pieces sep hor md l)) (snd (pieces sep hor md l))))
    \<and> (cs \<noteq> [] \<longrightarrow> collect_sections sep hor md l False (st @ [Vertical cs]) =
      Some (st @ Vertical (cs @ hd (groups (fst (pieces sep hor md l)) (snd (pieces sep hor md l))))
        # map entry_of (tl (groups (fst (pieces sep hor md l)) (snd (pieces sep hor md l))))))"
  using assms
proof (induction sep hor md l arbitrary: st cs rule: pieces.induct)
  case (1 sep hor md l)
  show ?case
  proof (cases "exec True sep md l")
    case None
    then show ?thesis
      by (simp add: collect_sections.simps [of sep hor md l] pieces.simps [of sep hor md l]
          entry_of_def push_last_stack)
  next
    case (Some m)
    obtain i e where m: "m = (i, e)" by (cases m)
    with Some have ex: "exec True sep md l = Some (i, e)" by simp
    with exec_Some [OF ex] exec_advances [OF ex "1.prems"] have adv: "l < e \<and> e \<le> length md" by simp
    obtain d r where dr: "pieces sep hor md e = (d, r)" by (cases "pieces sep hor md e")
    let ?h = "test hor (substring md i e)"
    have p: "pieces sep hor md l = (substring md l i, (?h, substring md i e, d) # r)"
      using adv by (simp add: pieces.simps [of sep hor md l] ex dr Let_def)
    obtain g gs where g: "groups d r = g # gs" "g \<noteq> []"
      using slide_groups_nonempty [of d r] by (cases "groups d r") auto
    note IH = "1.IH" [OF ex refl adv "1.prems", unfolded dr fst_conv snd_conv g(1)]
    have True_case: "collect_sections sep hor md l True st =
        Some (st @ map entry_of (groups (substring md l i) ((?h, substring md i e, d) # r)))"
    proof (cases ?h)
      case True
      then show ?thesis
        using IH by (simp add: collect_sections.simps [of sep hor md l] ex Let_def g(1) entry_of_def)
    next
      case False
      then show ?thesis
        using IH [of st "[substring md l i]"] g(2)
        by (cases g)
          (simp_all add: collect_sections.simps [of sep hor md l] ex Let_def g(1) entry_of_def
            push_last_stack [where cs = "[]", simplified])
    qed
    have False_case: "collect_sections sep hor md l False (st @ [Vertical cs]) =
        Some (st @ Vertical (cs @ hd (groups (substring md l i) ((?h, substring md i e, d) # r)))
          # map entry_of (tl (groups (substring md l i) ((?h, substring md i e, d) # r))))"
    proof (cases ?h)
      case True
      then show ?thesis
        using IH by (simp add: collect_sections.simps [of sep hor md l] ex Let_def g(1) push_last_stack)
    next
      case False
      then show ?thesis
        using IH [of st "cs @ [substring md l i]"]
        by (simp add: collect_sections.simps [of sep hor md l] ex Let_def g(1) push_last_stack)
    qed
    from True_case False_case show ?thesis by (simp add: p)
  qed
qed
text \<open>Nothing of the document is lost: texts and separators together are the document.\<close>

lemma substring_split: "l \<le> i \<Longrightarrow> i \<le> length s \<Longrightarrow> substring s l i @ drop i s = drop l s"
  by (metis append_take_drop_id drop_drop le_add_diff_inverse2 substring_def)

lemma pieces_document:
  "\<not> nullable sep \<Longrightarrow>
     fst (pieces sep hor md lo) @ concat (map (\<lambda>(h, s, c). s @ c) (snd (pieces sep hor md lo))) = drop lo md"
proof (induction sep hor md lo rule: pieces.induct)
  case (1 sep hor md lo)
  show ?case
  proof (cases "exec True sep md lo")
    case None
    then show ?thesis by (simp add: pieces.simps [of sep hor md lo])
  next
    case (Some m)
    obtain i e where m: "m = (i, e)" by (cases m)
    with Some have ex: "exec True sep md lo = Some (i, e)" by simp
    from exec_Some [OF ex] exec_advances [OF ex "1.prems"]
    have adv: "lo < e \<and> e \<le> length md" and ie: "lo \<le> i" "i \<le> e" "e \<le> length md" by simp_all
    obtain d r where dr: "pieces sep hor md e = (d, r)" by (cases "pieces sep hor md e")
    have "d @ concat (map (\<lambda>(h, s, c). s @ c) r) = drop e md"
      using "1.IH" [OF ex refl adv "1.prems"] by (simp add: dr)
    moreover have "substring md lo i @ substring md i e @ drop e md = drop lo md"
      using ie by (simp add: substring_split)
    ultimately show ?thesis
      using adv by (simp add: pieces.simps [of sep hor md lo] ex dr Let_def)
  qed
qed

text \<open>A section of the HTML per group.\<close>

lemma slidify_groups:
  assumes "\<not> nullable (separatorRegex (getSlidifyOptions options))"
  shows "slidify marked_lib md options =
    (let opts = getSlidifyOptions options; (c, r) = pieces (separatorRegex opts) (o_separator opts) md 0
     in Some (concat (map (section_html marked_lib opts \<circ> entry_of) (groups c r))))"
  using collect_groups [OF assms, of "o_separator (getSlidifyOptions options)" md 0 "[]"]
  by (simp add: slidify_def Let_def split: prod.splits)

section \<open>A separator that matches nothing\<close>

lemma collect_stuck:
  assumes "exec True sep md l = Some (i, l)"
  shows "collect_sections sep hor md l was stack = None"
proof -
  have "exec True sep md l \<noteq> Some (i, l)" if "collect_sections sep hor md l was stack = Some y" for y
    by (rule collect_sections.raw_induct
          [where P = "\<lambda>sep hor md l was stack y. exec True sep md l \<noteq> Some (i, l)", OF _ that])
      (auto simp: Let_def split: option.splits if_splits Option.bind_splits)
  then show ?thesis using assms by (cases "collect_sections sep hor md l was stack") auto
qed

lemma slidify_stuck:
  assumes "exec True (separatorRegex (getSlidifyOptions options)) md 0 = Some (i, 0)"
  shows "slidify marked_lib md options = None"
  by (simp add: slidify_def Let_def collect_stuck [OF assms])

lemma default_separators:
  "\<not> nullable DEFAULT_SLIDE_SEPARATOR"
  by (simp add: DEFAULT_SLIDE_SEPARATOR_def newline_regex_def optional_def)

section \<open>Escaping\<close>

text \<open>What the parser of the browser makes of the text again.\<close>

definition entities :: "(string \<times> char) list" where
  "entities =
     [(''amp;'', CHR ''&''), (''lt;'', CHR ''<''), (''gt;'', CHR ''>''), (''quot;'', CHR 0x22),
      (''#39;'', CHR 0x27)]"

definition entity_at :: "string \<Rightarrow> (string \<times> char) option" where
  "entity_at s = List.find (\<lambda>e. take (length (fst e)) s = fst e) entities"

fun decode_html :: "string \<Rightarrow> string" where
  "decode_html [] = []"
| "decode_html (c # s) =
     (if c = CHR ''&''
      then (case entity_at s of
              Some (n, d) \<Rightarrow> d # decode_html (drop (length n) s)
            | None \<Rightarrow> c # decode_html s)
      else c # decode_html s)"

lemma escape_Cons:
  "escapeForHTML (c # s) = (case HTML_ESCAPE_MAP c of Some e \<Rightarrow> e | None \<Rightarrow> [c]) @ escapeForHTML s"
  by (simp add: escapeForHTML_def)

lemma escape_map_cases:
  "HTML_ESCAPE_MAP c = None \<and> c \<notin> {CHR ''&'', CHR ''<'', CHR ''>'', CHR 0x22, CHR 0x27}
   \<or> (\<exists>n. HTML_ESCAPE_MAP c = Some (CHR ''&'' # n) \<and> (n, c) \<in> set entities
        \<and> set n \<inter> {CHR ''&'', CHR ''<'', CHR ''>'', CHR 0x22, CHR 0x27} = {})"
  by (auto simp: HTML_ESCAPE_MAP_def entities_def)

lemma entity_at_entity:
  assumes "(n, c) \<in> set entities"
  shows "entity_at (n @ s) = Some (n, c)"
proof -
  consider "n = ''amp;''" "c = CHR ''&''" | "n = ''lt;''" "c = CHR ''<''" | "n = ''gt;''" "c = CHR ''>''"
    | "n = ''quot;''" "c = CHR 0x22" | "n = ''#39;''" "c = CHR 0x27"
    using assms unfolding entities_def by force
  then show ?thesis
    by cases (simp_all add: entity_at_def entities_def)
qed

lemma decode_escape: "decode_html (escapeForHTML s) = s"
proof (induction s)
  case Nil
  show ?case by (simp add: escapeForHTML_def)
next
  case (Cons c s)
  then show ?case
    using escape_map_cases [of c] by (auto simp: escape_Cons entity_at_entity)
qed

lemma escape_chars: "set (escapeForHTML s) \<inter> {CHR ''<'', CHR ''>'', CHR 0x22, CHR 0x27} = {}"
proof (induction s)
  case Nil
  show ?case by (simp add: escapeForHTML_def)
next
  case (Cons c s)
  then show ?case using escape_map_cases [of c] by (auto simp: escape_Cons)
qed
section \<open>A document for the examples\<close>

definition plain_options :: slidify_options where
  "plain_options = \<lparr>separator = None, verticalSeparator = None, notesSeparator = None, attributes = None\<rparr>"

definition two_slides :: string where
  "two_slides = ''a'' @ [CHR 0x0A] @ ''---'' @ [CHR 0x0A] @ ''b''"

end
