(* ===== verification/MarkdownAttributes.thy ===== *)
theory MarkdownAttributes
  imports Markdown
begin

text \<open>
  The second half of the markdown plugin, \<open>convertSlides\<close>, \<open>addAttributes\<close> and
  \<open>addAttributeInElement\<close> of plugin/markdown/plugin.js: a slide is replaced by the HTML of its
  markdown, and comments such as \<open>.element: class="red"\<close> in it set attributes on elements.  marked and
  the HTML parser are a parameter that yields a tree; the tree does not change afterwards, so the
  values of the comments and the attributes of the elements are a store beside it.  \<^const>\<open>None\<close> is a
  call that throws.
\<close>

section \<open>The document\<close>

datatype markup = MElement nat string "markup list" | MComment nat | MText

record markup_store =
  nodeValue :: "nat \<Rightarrow> string"
  markup_attrs :: "nat \<Rightarrow> string \<Rightarrow> string option"

fun nodeName :: "markup \<Rightarrow> string" where
  "nodeName (MElement i n cs) = n"
| "nodeName (MComment i) = ''#comment''"
| "nodeName MText = ''#text''"

text \<open>An element whose \<open>tagName\<close> is not \<open>BR\<close> can be the target of a comment behind it.\<close>

fun target_of :: "markup \<Rightarrow> nat option" where
  "target_of (MElement i n cs) = (if n \<noteq> ''BR'' then Some i else None)"
| "target_of _ = None"

text \<open>
  \<open>setAttribute\<close> puts the name in lower case and throws for a name that is none; which names are
  allowed is the browser's (\<open>valid_name\<close>).
\<close>

definition setAttribute :: "(string \<Rightarrow> bool) \<Rightarrow> nat option \<Rightarrow> string \<times> string \<Rightarrow> markup_store \<Rightarrow> markup_store option" where
  "setAttribute valid_name target nv st =
     (case target of
        Some e \<Rightarrow>
          if valid_name (fst nv)
          then Some (st\<lparr>markup_attrs := (markup_attrs st)(e := (markup_attrs st e)(map lower_char (fst nv) \<mapsto> snd nv))\<rparr>)
          else None
      | None \<Rightarrow> None)"

section \<open>Patterns\<close>

text \<open>A pattern \<open>before(group)after\<close>; without a group its text is \<open>undefined\<close>.\<close>

record attr_separator =
  sep_before :: regex
  sep_group :: "regex option"
  sep_after :: regex

definition any_char :: "char \<Rightarrow> bool" where
  "any_char c \<longleftrightarrow> \<not> is_newline c"

definition lazy_plus :: "regex \<Rightarrow> regex" where
  "lazy_plus r = RSeq r (RLazyStar r)"

text \<open>\<open>\.element\s*?(.+?)$\<close> and \<open>\.slide:\s*?(\S.+?)$\<close>\<close>

definition DEFAULT_ELEMENT_ATTRIBUTES_SEPARATOR :: attr_separator where
  "DEFAULT_ELEMENT_ATTRIBUTES_SEPARATOR =
     \<lparr>sep_before = RSeq (word ''.element'') (RLazyStar (RClass is_ws)),
      sep_group = Some (lazy_plus (RClass any_char)), sep_after = REol\<rparr>"

definition DEFAULT_SLIDE_ATTRIBUTES_SEPARATOR :: attr_separator where
  "DEFAULT_SLIDE_ATTRIBUTES_SEPARATOR =
     \<lparr>sep_before = RSeq (word ''.slide:'') (RLazyStar (RClass is_ws)),
      sep_group = Some (RSeq (RClass (\<lambda>c. \<not> is_ws c)) (lazy_plus (RClass any_char))), sep_after = REol\<rparr>"

text \<open>The matches at a position, in the order of the matcher: where the group begins and ends, and the end.\<close>

definition sep_matches :: "attr_separator \<Rightarrow> string \<Rightarrow> nat \<Rightarrow> (nat \<times> nat \<times> nat) list" where
  "sep_matches sep s i =
     (let g = (case sep_group sep of None \<Rightarrow> REmpty | Some r \<Rightarrow> r)
      in concat (map (\<lambda>j. concat (map (\<lambda>k. map (\<lambda>e. (j, k, e)) (match_at True s (sep_after sep) k))
           (match_at True s g j))) (match_at True s (sep_before sep) i)))"

text \<open>\<open>new RegExp( separator, 'mg' ).exec( nodeValue )\<close>: the position, the group, and \<open>lastIndex\<close>.\<close>

definition exec_separator :: "attr_separator \<Rightarrow> string \<Rightarrow> (nat \<times> string \<times> nat) option" where
  "exec_separator sep s =
     map_option
       (\<lambda>i. case hd (sep_matches sep s i) of
              (j, k, e) \<Rightarrow> (i, (if sep_group sep = None then ''undefined'' else substring s j k), e))
       (List.find (\<lambda>i. sep_matches sep s i \<noteq> []) [0..<Suc (length s)])"

text \<open>
  \<open>([^"= ]+?)="([^"]+?)"|(data-[^"= ]+?)(?=[" ])\<close>: the first alternative has an equals sign, the
  second has none, so the text of a match tells which one it is.
\<close>

definition name_char :: "char \<Rightarrow> bool" where
  "name_char c \<longleftrightarrow> c \<noteq> CHR 0x22 \<and> c \<noteq> CHR ''='' \<and> c \<noteq> CHR '' ''"

definition value_char :: "char \<Rightarrow> bool" where
  "value_char c \<longleftrightarrow> c \<noteq> CHR 0x22"

definition assign_regex :: regex where
  "assign_regex =
     RSeq (lazy_plus (RClass name_char))
       (RSeq (word (CHR ''='' # quote_char))
         (RSeq (lazy_plus (RClass value_char)) (word quote_char)))"

definition flag_regex :: regex where
  "flag_regex = RSeq (word ''data-'') (lazy_plus (RClass name_char))"

definition pair_matches :: "string \<Rightarrow> nat \<Rightarrow> nat list" where
  "pair_matches s i =
     match_at True s assign_regex i
     @ filter (\<lambda>j. j < length s \<and> (s ! j = CHR 0x22 \<or> s ! j = CHR '' '')) (match_at True s flag_regex i)"

definition pair_of :: "string \<Rightarrow> string \<times> string" where
  "pair_of m =
     (if CHR ''='' \<in> set m
      then (takeWhile ((\<noteq>) (CHR ''='')) m, butlast (drop 2 (dropWhile ((\<noteq>) (CHR ''='')) m)))
      else (m, []))"

definition next_pair :: "string \<Rightarrow> nat \<Rightarrow> (nat \<times> nat) option" where
  "next_pair s l =
     map_option (\<lambda>i. (i, hd (pair_matches s i)))
       (List.find (\<lambda>i. pair_matches s i \<noteq> []) [l..<Suc (length s)])"

text \<open>The loop over \<open>mardownClassRegex.exec( classes )\<close>; every match is beyond the last one.\<close>

function attribute_pairs :: "string \<Rightarrow> nat \<Rightarrow> (string \<times> string) list" where
  "attribute_pairs s l =
     (case next_pair s l of
        None \<Rightarrow> []
      | Some (i, e) \<Rightarrow>
          if l < e \<and> e \<le> length s then pair_of (substring s i e) # attribute_pairs s e else [])"
  by pat_completeness auto

termination
  by (relation "measure (\<lambda>(s, l). length s - l)") auto

declare attribute_pairs.simps [simp del]

section \<open>Attributes from comments\<close>

fun set_attributes ::
  "(string \<Rightarrow> bool) \<Rightarrow> nat option \<Rightarrow> (string \<times> string) list \<Rightarrow> markup_store \<Rightarrow> markup_store option" where
  "set_attributes valid_name target [] st = Some st"
| "set_attributes valid_name target (nv # nvs) st =
     Option.bind (setAttribute valid_name target nv st) (set_attributes valid_name target nvs)"

definition addAttributeInElement ::
  "(string \<Rightarrow> bool) \<Rightarrow> nat \<Rightarrow> nat option \<Rightarrow> attr_separator \<Rightarrow> markup_store \<Rightarrow> (bool \<times> markup_store) option" where
  "addAttributeInElement valid_name node elementTarget sep st =
     (case exec_separator sep (nodeValue st node) of
        None \<Rightarrow> Some (False, st)
      | Some (index, classes, lastIndex) \<Rightarrow>
          let s = nodeValue st node;
              st1 = st\<lparr>nodeValue := (nodeValue st)(node := take index s @ drop lastIndex s)\<rparr>
          in map_option (Pair True)
               (set_attributes valid_name elementTarget (attribute_pairs classes 0) st1))"

text \<open>
  \<open>addAttributes\<close> with the loop over the children: the children before the current one come nearest
  first, and \<open>previousParentElement\<close> is kept from one turn to the next.
\<close>

fun addAttributes ::
    "(string \<Rightarrow> bool) \<Rightarrow> attr_separator \<Rightarrow> attr_separator \<Rightarrow> nat \<Rightarrow> markup \<Rightarrow> nat option \<Rightarrow> markup_store
      \<Rightarrow> markup_store option"
  and add_children ::
    "(string \<Rightarrow> bool) \<Rightarrow> attr_separator \<Rightarrow> attr_separator \<Rightarrow> nat \<Rightarrow> markup list \<Rightarrow> markup list \<Rightarrow> nat
      \<Rightarrow> markup_store \<Rightarrow> markup_store option" where
  "addAttributes valid_name es ss section (MElement i n cs) previousElement st =
     add_children valid_name es ss section cs [] i st"
| "addAttributes valid_name es ss section (MComment c) previousElement st =
     (case addAttributeInElement valid_name c previousElement es st of
        None \<Rightarrow> None
      | Some (True, st1) \<Rightarrow> Some st1
      | Some (False, st1) \<Rightarrow>
          map_option snd (addAttributeInElement valid_name c (Some section) ss st1))"
| "addAttributes valid_name es ss section MText previousElement st = Some st"
| "add_children valid_name es ss section [] before previousParentElement st = Some st"
| "add_children valid_name es ss section (c # cs) before previousParentElement st =
     (let pp = (case List.map_filter target_of before of b # _ \<Rightarrow> b | [] \<Rightarrow> previousParentElement);
          (sec, pp') = (case c of
                          MElement i n _ \<Rightarrow> if n = ''section'' then (i, i) else (section, pp)
                        | _ \<Rightarrow> (section, pp))
      in Option.bind (addAttributes valid_name es ss sec c (Some pp') st)
           (add_children valid_name es ss section cs (c # before) pp'))"

section \<open>Slides\<close>

text \<open>
  A section with unparsed markdown: its text, the patterns given by its own attributes and by those of
  its parent (\<^const>\<open>None\<close> for a missing or empty attribute), and its notes.  Such sections do not contain
  each other.
\<close>

record markdown_slide =
  ms_section :: nat
  ms_text :: string
  ms_element :: "attr_separator option"
  ms_slide :: "attr_separator option"
  ms_parent_element :: "attr_separator option"
  ms_parent_slide :: "attr_separator option"
  ms_notes :: "markup option"

definition or_else :: "'a option \<Rightarrow> 'a option \<Rightarrow> 'a \<Rightarrow> 'a" where
  "or_else x y z = (case x of Some a \<Rightarrow> a | None \<Rightarrow> (case y of Some b \<Rightarrow> b | None \<Rightarrow> z))"

text \<open>\<open>render\<close> gives the nodes of the HTML of a text and the values of its comments.\<close>

definition convert_slide ::
  "(string \<Rightarrow> bool) \<Rightarrow> (nat \<Rightarrow> string \<Rightarrow> markup list \<times> (nat \<times> string) list) \<Rightarrow> markdown_slide \<Rightarrow> markup_store
    \<Rightarrow> (markup list \<times> markup_store) option" where
  "convert_slide valid_name render sl st =
     (let sec = ms_section sl;
          st1 = st\<lparr>markup_attrs := (markup_attrs st)(sec := (markup_attrs st sec)(''data-markdown-parsed'' \<mapsto> ''true''))\<rparr>;
          (ns, vs) = render sec (getMarkdownFromSlide (ms_text sl));
          st2 = st1\<lparr>nodeValue := fold (\<lambda>v m. m(fst v := snd v)) vs (nodeValue st1)\<rparr>
      in map_option (Pair (ns @ (case ms_notes sl of None \<Rightarrow> [] | Some n \<Rightarrow> [n])))
           (addAttributes valid_name
              (or_else (ms_element sl) (ms_parent_element sl) DEFAULT_ELEMENT_ATTRIBUTES_SEPARATOR)
              (or_else (ms_slide sl) (ms_parent_slide sl) DEFAULT_SLIDE_ATTRIBUTES_SEPARATOR)
              sec (MElement sec ''SECTION'' ns) None st2))"

fun convertSlides ::
  "(string \<Rightarrow> bool) \<Rightarrow> (nat \<Rightarrow> string \<Rightarrow> markup list \<times> (nat \<times> string) list) \<Rightarrow> markdown_slide list \<Rightarrow> markup_store
    \<Rightarrow> (markup list list \<times> markup_store) option" where
  "convertSlides valid_name render [] st = Some ([], st)"
| "convertSlides valid_name render (sl # sls) st =
     do { (ns, st1) \<leftarrow> convert_slide valid_name render sl st;
          (nss, st2) \<leftarrow> convertSlides valid_name render sls st1;
          Some (ns # nss, st2) }"

end
