(* ===== verification/MarkdownAttributeLaws.thy ===== *)
theory MarkdownAttributeLaws
  imports MarkdownAttributes
begin

text \<open>
  A comment of a markdown slide sets attributes on the element before it, or else on its parent; and
  the attributes written in a comment are the ones that are set.
\<close>

section \<open>The target of a comment\<close>

text \<open>
  The reference: every comment of a node, in document order, with its target, the last element before it
  that is no line break, or else the node it is in.
\<close>

fun comment_targets :: "markup \<Rightarrow> (nat \<times> nat) list"
  and child_targets :: "nat \<Rightarrow> markup list \<Rightarrow> markup list \<Rightarrow> (nat \<times> nat) list" where
  "comment_targets (MElement i n cs) = child_targets i [] cs"
| "comment_targets (MComment c) = []"
| "comment_targets MText = []"
| "child_targets p before [] = []"
| "child_targets p before (c # cs) =
     (case c of
        MComment m \<Rightarrow> [(m, last (p # List.map_filter target_of before))]
      | _ \<Rightarrow> comment_targets c)
     @ child_targets p (before @ [c]) cs"

text \<open>The effect of one comment, and of a list of comments.\<close>

fun run_comments ::
  "(string \<Rightarrow> bool) \<Rightarrow> attr_separator \<Rightarrow> attr_separator \<Rightarrow> nat \<Rightarrow> (nat \<times> nat) list \<Rightarrow> markup_store
    \<Rightarrow> markup_store option" where
  "run_comments v es ss sec [] st = Some st"
| "run_comments v es ss sec (ct # cts) st =
     Option.bind (addAttributes v es ss sec (MComment (fst ct)) (Some (snd ct)) st)
       (run_comments v es ss sec cts)"

lemma run_comments_append:
  "run_comments v es ss sec (xs @ ys) st =
     Option.bind (run_comments v es ss sec xs st) (run_comments v es ss sec ys)"
  by (induction xs arbitrary: st) (auto split: Option.bind_split)

text \<open>The HTML parser gives elements names in capital letters.\<close>

fun html_node :: "markup \<Rightarrow> bool" where
  "html_node (MElement i n cs) \<longleftrightarrow> n \<noteq> ''section'' \<and> list_all html_node cs"
| "html_node _ = True"

fun is_element :: "markup \<Rightarrow> bool" where
  "is_element (MElement i n cs) = True"
| "is_element _ = False"

lemma map_filter_rev: "List.map_filter f (rev xs) = rev (List.map_filter f xs)"
  by (simp add: map_filter_def rev_map rev_filter)

lemma nearest_target:
  assumes "List.map_filter target_of before = [] \<Longrightarrow> pp = p"
  shows "(case List.map_filter target_of before of b # _ \<Rightarrow> b | [] \<Rightarrow> pp)
    = last (p # List.map_filter target_of (rev before))"
  using assms by (cases "List.map_filter target_of before") (simp_all add: map_filter_rev)

lemma addAttributes_targets:
  "html_node m \<Longrightarrow> is_element m \<Longrightarrow>
     addAttributes v es ss sec m prev st = run_comments v es ss sec (comment_targets m) st"
  and add_children_targets:
  "list_all html_node cs \<Longrightarrow> (List.map_filter target_of before = [] \<Longrightarrow> pp = p) \<Longrightarrow>
     add_children v es ss sec cs before pp st = run_comments v es ss sec (child_targets p (rev before) cs) st"
proof (induction v es ss sec m prev st and v es ss sec cs before pp st arbitrary: and p
    rule: addAttributes_add_children.induct)
  case (1 v es ss sec i n cs prev st)
  then show ?case by simp
next
  case (5 v es ss sec c cs before pp st)
  let ?pp = "last (p # List.map_filter target_of (rev before))"
  have pp: "(case List.map_filter target_of before of b # _ \<Rightarrow> b | [] \<Rightarrow> pp) = ?pp"
    by (rule nearest_target) (rule "5.prems"(2))
  have later: "List.map_filter target_of (c # before) = [] \<Longrightarrow> ?pp = p"
    by (cases "target_of c") (simp_all add: map_filter_rev map_filter_simps)
  have sec: "(case c of MElement i n _ \<Rightarrow> if n = ''section'' then (i, i) else (sec, ?pp) | _ \<Rightarrow> (sec, ?pp)) = (sec, ?pp)"
    using "5.prems"(1) by (cases c) simp_all
  let ?x = "addAttributes v es ss sec c (Some ?pp) st"
  have step: "add_children v es ss sec cs (c # before) ?pp st' =
      run_comments v es ss sec (child_targets p (rev before @ [c]) cs) st'" if "?x = Some st'" for st'
    using "5.IH"(2) [OF pp [symmetric] sec [symmetric] refl that, of p] "5.prems"(1) later
    by (simp del: last.simps)
  have "add_children v es ss sec (c # cs) before pp st = Option.bind ?x (add_children v es ss sec cs (c # before) ?pp)"
    unfolding add_children.simps Let_def pp sec by simp
  also have "\<dots> = Option.bind ?x (run_comments v es ss sec (child_targets p (rev before @ [c]) cs))"
    using step by (cases ?x) simp_all
  also have "\<dots> = run_comments v es ss sec (child_targets p (rev before) (c # cs)) st"
  proof (cases c)
    case (MElement i n ds)
    then have "?x = run_comments v es ss sec (comment_targets c) st"
      using "5.IH"(1) [OF pp [symmetric] sec [symmetric] refl] "5.prems"(1) by (simp del: last.simps)
    then show ?thesis using MElement by (simp add: run_comments_append)
  qed (simp_all del: last.simps)
  finally show ?case .
qed simp_all

section \<open>Matching single characters\<close>

lemma lazy_run:
  assumes "i \<le> length s"
  shows "match_at m s (RLazyStar (RClass P)) i = [i..<Suc (i + length (takeWhile P (drop i s)))]"
  using assms
proof (induction "length s - i" arbitrary: i)
  case 0
  then show ?case by (simp add: match_at.simps(6))
next
  case (Suc n)
  then have d: "drop i s = s ! i # drop (Suc i) s" by (simp add: Cons_nth_drop_Suc)
  show ?case
  proof (cases "P (s ! i)")
    case True
    let ?k = "length (takeWhile P (drop (Suc i) s))"
    have "match_at m s (RLazyStar (RClass P)) (Suc i) = [Suc i..<Suc (Suc i + ?k)]"
      using Suc by (intro Suc.hyps(1)) simp_all
    then have "match_at m s (RLazyStar (RClass P)) i = i # [Suc i..<Suc (Suc i + ?k)]"
      using True Suc by (simp add: match_at.simps(6) [of m s "RClass P" i] del: upt_Suc)
    also have "\<dots> = [i..<Suc (i + Suc ?k)]" by (simp add: upt_conv_Cons del: upt_Suc)
    finally show ?thesis using True by (simp add: d del: upt_Suc)
  qed (use Suc d in \<open>simp add: match_at.simps(6) [of m s "RClass P" i]\<close>)
qed

lemma lazy_stop:
  "i \<le> length s \<Longrightarrow> takeWhile P (drop i s) = [] \<Longrightarrow> match_at m s (RLazyStar (RClass P)) i = [i]"
  by (simp add: lazy_run)

lemma lazy_plus_run:
  assumes "i \<le> length s"
  shows "match_at m s (lazy_plus (RClass P)) i = [Suc i..<Suc (i + length (takeWhile P (drop i s)))]"
proof (cases "i < length s \<and> P (s ! i)")
  case True
  then have d: "drop i s = s ! i # drop (Suc i) s" by (simp add: Cons_nth_drop_Suc)
  from True show ?thesis by (simp add: lazy_plus_def lazy_run d)
next
  case False
  with assms have "takeWhile P (drop i s) = []"
    by (cases "i < length s") (simp_all add: Cons_nth_drop_Suc [symmetric])
  with False show ?thesis by (auto simp: lazy_plus_def)
qed

lemma word_run:
  "i \<le> length s \<Longrightarrow> match_at m s (word w) i = (if take (length w) (drop i s) = w then [i + length w] else [])"
proof (induction w arbitrary: i)
  case (Cons c w)
  show ?case
  proof (cases "i < length s")
    case True
    then have d: "drop i s = s ! i # drop (Suc i) s" by (simp add: Cons_nth_drop_Suc)
    from True show ?thesis using Cons.IH [of "Suc i"] by (simp add: d)
  qed (use Cons.prems in simp)
qed simp

lemma concat_last:
  "a \<le> b \<Longrightarrow> (\<And>j. a \<le> j \<Longrightarrow> j < b \<Longrightarrow> f j = []) \<Longrightarrow> concat (map f [a..<Suc b]) = f b"
  by (simp add: concat_eq_Nil_conv)

lemma takeWhile_run: "list_all P n \<Longrightarrow> (\<And>c. r \<noteq> [] \<Longrightarrow> \<not> P (hd r)) \<Longrightarrow> takeWhile P (n @ r) = n"
  by (induction n) (cases r; simp)+

section \<open>One assignment\<close>

definition quoted :: "string \<Rightarrow> string" where
  "quoted v = quote_char @ v @ quote_char"

lemma drop_at: "drop i s = xs @ r \<Longrightarrow> drop (i + length xs) s = r"
  by (metis add.commute append_eq_conv_conj drop_drop)

lemma substring_at: "drop i s = xs @ r \<Longrightarrow> substring s i (i + length xs) = xs"
  by (simp add: substring_def)

lemma drop_length: "drop i s = xs \<Longrightarrow> xs \<noteq> [] \<Longrightarrow> length s = i + length xs"
  by (metis drop_eq_Nil le_add_diff_inverse length_drop nat_le_linear)

lemma drop_nth: "drop i s = xs @ r \<Longrightarrow> k < length xs \<Longrightarrow> s ! (i + k) = xs ! k"
  by (metis length_drop length_append nth_append nth_drop add_leD1 nat_le_linear drop_eq_Nil append_is_Nil_conv list.size(3) not_less_zero)

lemma word_head:
  "k < length s \<Longrightarrow> w \<noteq> [] \<Longrightarrow> s ! k \<noteq> hd w \<Longrightarrow> match_at m s (word w) k = []"
  by (cases w) auto

text \<open>A run of characters is taken up to its end when what follows cannot match inside of it.\<close>

lemma run_then:
  assumes d: "drop i s = n @ r" and n: "n \<noteq> []" "list_all P n" "r = [] \<or> \<not> P (hd r)"
    and inside: "\<And>k. k < length s \<Longrightarrow> P (s ! k) \<Longrightarrow> match_at m s b k = []"
  shows "match_at m s (RSeq (lazy_plus (RClass P)) b) i = match_at m s b (i + length n)"
proof -
  let ?f = "\<lambda>k. if i \<le> k then match_at m s b k else []"
  have len: "length s = i + length n + length r" using drop_length [OF d] n(1) by simp
  have "takeWhile P (drop i s) = n"
    unfolding d by (rule takeWhile_run) (use n in auto)
  then have "match_at m s (RSeq (lazy_plus (RClass P)) b) i = concat (map ?f [Suc i..<Suc (i + length n)])"
    using lazy_plus_run [of i s m P] len by (simp del: upt_Suc)
  also have "\<dots> = ?f (i + length n)"
  proof (rule concat_last)
    fix k
    assume "Suc i \<le> k" "k < i + length n"
    then have k: "k = i + (k - i)" "k - i < length n" by simp_all
    then have "s ! k = n ! (k - i)" using drop_nth [OF d k(2)] by simp
    then show "?f k = []" using n(2) k len inside [of k] by (simp add: list_all_length)
  qed (use n in \<open>simp add: Suc_le_eq\<close>)
  finally show ?thesis by simp
qed

lemma assign_here:
  assumes d: "drop i s = n @ ''='' @ quoted v @ r" and n: "n \<noteq> []" "list_all name_char n"
    and v: "v \<noteq> []" "list_all value_char v"
  shows "match_at m s assign_regex i = [i + length n + length v + 3]"
proof -
  let ?j = "i + length n"
  let ?rhs = "RSeq (lazy_plus (RClass value_char)) (word quote_char)"
  have len: "length s = i + length n + length v + 3 + length r"
    using drop_length [OF d] n by (simp add: quoted_def quote_char_def)
  have d2: "drop ?j s = (CHR ''='' # quote_char) @ v @ quote_char @ r"
    using drop_at [OF d] by (simp add: quoted_def)
  have d3: "drop (?j + 2) s = v @ quote_char @ r" using drop_at [OF d2] by (simp add: quote_char_def)
  have d4: "drop (?j + 2 + length v) s = quote_char @ r" by (rule drop_at [OF d3])
  have "match_at m s ?rhs (?j + 2) = match_at m s (word quote_char) (?j + 2 + length v)"
    by (rule run_then [OF d3]) (use v in \<open>auto simp: value_char_def quote_char_def\<close>)
  also have "\<dots> = [i + length n + length v + 3]"
  proof -
    have "?j + 2 + length v \<le> length s" using len by simp
    moreover have "take (length quote_char) (drop (?j + 2 + length v) s) = quote_char"
      unfolding d4 by (simp add: quote_char_def)
    ultimately show ?thesis by (simp only: word_run) (simp add: quote_char_def)
  qed
  finally have val: "match_at m s ?rhs (?j + 2) = [i + length n + length v + 3]" .
  have "match_at m s assign_regex i = match_at m s (RSeq (word (CHR ''='' # quote_char)) ?rhs) ?j"
    unfolding assign_regex_def
    by (rule run_then [OF d]) (use n in \<open>auto simp: name_char_def quote_char_def\<close>)
  also have "\<dots> = match_at m s ?rhs (?j + 2)"
  proof -
    have "match_at m s (word (CHR ''='' # quote_char)) ?j = [?j + 2]"
      using d2 len word_run [of ?j s m "CHR ''='' # quote_char"] by (simp add: quote_char_def)
    then show ?thesis by simp
  qed
  finally show ?thesis using val by simp
qed

section \<open>The list of assignments\<close>

definition valid_pair :: "string \<times> string \<Rightarrow> bool" where
  "valid_pair nv \<longleftrightarrow> fst nv \<noteq> [] \<and> list_all name_char (fst nv) \<and> snd nv \<noteq> [] \<and> list_all value_char (snd nv)"

fun show_pairs :: "(string \<times> string) list \<Rightarrow> string" where
  "show_pairs [] = []"
| "show_pairs ((n, v) # nvs) = CHR '' '' # n @ ''='' @ quoted v @ show_pairs nvs"

lemma pair_of_assignment:
  assumes "list_all name_char n"
  shows "pair_of (n @ ''='' @ quoted v) = (n, v)"
proof -
  have eq: "list_all ((\<noteq>) (CHR ''='')) n" using assms by (auto simp: list_all_iff name_char_def)
  have "takeWhile ((\<noteq>) (CHR ''='')) (n @ ''='' @ quoted v) = n" by (rule takeWhile_run [OF eq]) simp
  moreover have "dropWhile ((\<noteq>) (CHR ''='')) (n @ ''='' @ quoted v) = ''='' @ quoted v"
    using eq by (induction n) auto
  ultimately show ?thesis by (simp add: pair_of_def quoted_def quote_char_def)
qed

lemma flag_fails: "i < length s \<Longrightarrow> s ! i \<noteq> CHR ''d'' \<Longrightarrow> match_at m s flag_regex i = []"
  by (simp add: flag_regex_def)

lemma no_pair_at:
  assumes "i < length s" and "s ! i = CHR '' '' \<or> s ! i = CHR '':'' \<and> (Suc i < length s \<longrightarrow> s ! Suc i = CHR '' '')"
  shows "pair_matches s i = []"
proof -
  have "match_at True s assign_regex i = []"
  proof (cases "s ! i = CHR '' ''")
    case True
    then show ?thesis using assms(1) by (simp add: assign_regex_def lazy_plus_def name_char_def)
  next
    case False
    let ?w = "RSeq (word (CHR ''='' # quote_char)) (RSeq (lazy_plus (RClass value_char)) (word quote_char))"
    have d: "drop i s = '':'' @ drop (Suc i) s" using assms False by (simp add: Cons_nth_drop_Suc [symmetric])
    have stop: "drop (Suc i) s = [] \<or> \<not> name_char (hd (drop (Suc i) s))"
      using assms False by (cases "Suc i < length s") (auto simp: hd_drop_conv_nth name_char_def)
    have "match_at True s assign_regex i = match_at True s ?w (i + length '':'')"
      unfolding assign_regex_def
      by (rule run_then [where P = name_char, OF d _ _ stop]) (auto simp: name_char_def quote_char_def)
    also have "\<dots> = []" using assms False by auto
    finally show ?thesis .
  qed
  moreover have "match_at True s flag_regex i = []" using flag_fails [OF assms(1)] assms(2) by auto
  ultimately show ?thesis by (simp add: pair_matches_def)
qed

lemma next_pair_skip:
  "i < length s \<Longrightarrow> pair_matches s i = [] \<Longrightarrow> next_pair s i = next_pair s (Suc i)"
  by (simp add: next_pair_def upt_conv_Cons del: upt_Suc)

lemma next_pair_here:
  "i < length s \<Longrightarrow> pair_matches s i = e # es \<Longrightarrow> next_pair s i = Some (i, e)"
  by (simp add: next_pair_def upt_conv_Cons del: upt_Suc)

lemma no_pair_spaces:
  assumes "set (drop i s) \<subseteq> {CHR '' ''}" and "i \<le> length s"
  shows "next_pair s i = None"
  using assms
proof (induction "length s - i" arbitrary: i)
  case 0
  then have "i = length s" by simp
  then show ?case by (simp add: next_pair_def pair_matches_def assign_regex_def flag_regex_def lazy_plus_def)
next
  case (Suc n)
  then have d: "drop i s = s ! i # drop (Suc i) s" by (simp add: Cons_nth_drop_Suc)
  with Suc have "next_pair s i = next_pair s (Suc i)" by (intro next_pair_skip no_pair_at) auto
  also have "\<dots> = None" using Suc d by (intro Suc.hyps(1)) auto
  finally show ?case .
qed

lemma attribute_pairs_read:
  assumes "drop i s = show_pairs nvs @ r" and "list_all valid_pair nvs" and "set r \<subseteq> {CHR '' ''}" and "i \<le> length s"
  shows "attribute_pairs s i = nvs"
  using assms
proof (induction nvs arbitrary: i)
  case Nil
  then show ?case by (simp add: attribute_pairs.simps [of s i] no_pair_spaces)
next
  case (Cons nv nvs)
  obtain n v where nv: "nv = (n, v)" by (cases nv)
  let ?e = "Suc i + length n + length v + 3"
  from Cons.prems nv have ok: "n \<noteq> []" "list_all name_char n" "v \<noteq> []" "list_all value_char v"
    by (simp_all add: valid_pair_def)
  have d: "drop i s = '' '' @ n @ ''='' @ quoted v @ show_pairs nvs @ r" using Cons.prems(1) nv by simp
  then have len: "length s = ?e + length (show_pairs nvs @ r)"
    using drop_length [OF d] by (simp add: quoted_def quote_char_def)
  have d1: "drop (Suc i) s = n @ ''='' @ quoted v @ show_pairs nvs @ r" using drop_at [OF d] by simp
  have d2: "drop ?e s = show_pairs nvs @ r"
    using drop_at [of "Suc i" s "n @ ''='' @ quoted v"] d1 by (simp add: quoted_def quote_char_def eval_nat_numeral add.assoc)
  have "s ! i = CHR '' ''" using drop_nth [OF d, of 0] by simp
  then have "next_pair s i = next_pair s (Suc i)" using len by (intro next_pair_skip no_pair_at) simp_all
  also have "\<dots> = Some (Suc i, ?e)"
    using assign_here [OF d1 ok, of True] len by (intro next_pair_here) (simp_all add: pair_matches_def)
  finally have "next_pair s i = Some (Suc i, ?e)" .
  moreover have "substring s (Suc i) ?e = n @ ''='' @ quoted v"
    using substring_at [of "Suc i" s "n @ ''='' @ quoted v" "show_pairs nvs @ r"] d1
    by (simp add: quoted_def quote_char_def eval_nat_numeral add.assoc)
  moreover have "attribute_pairs s ?e = nvs"
    using Cons.prems d2 len by (intro Cons.IH) (simp_all add: nv)
  ultimately show ?case
    using len pair_of_assignment [OF ok(2), of v] by (simp add: attribute_pairs.simps [of s i] nv)
qed

text \<open>The loop over the matches always advances, so its guard never ends it early.\<close>

lemma pair_matches_advance:
  assumes "e \<in> set (pair_matches s i)" and "i \<le> length s"
  shows "i < e \<and> e \<le> length s"
proof -
  have "\<not> nullable assign_regex" "\<not> nullable flag_regex"
    by (simp_all add: assign_regex_def flag_regex_def lazy_plus_def)
  with assms show ?thesis
    unfolding pair_matches_def by (auto dest: match_at_advances match_at_bounds)
qed

lemma next_pair_advances:
  assumes "next_pair s l = Some (i, e)"
  shows "l \<le> i \<and> i < e \<and> e \<le> length s"
proof -
  from assms have f: "List.find (\<lambda>i. pair_matches s i \<noteq> []) [l..<Suc (length s)] = Some i"
    and e: "e = hd (pair_matches s i)" by (auto simp: next_pair_def)
  from f have "pair_matches s i \<noteq> []" "i \<in> set [l..<Suc (length s)]"
    by (auto simp: find_Some_iff simp del: upt_Suc intro!: nth_mem)
  with e pair_matches_advance [of e s i] show ?thesis by auto
qed

lemma attribute_pairs_skip:
  assumes "i < length s" and "pair_matches s i = []"
  shows "attribute_pairs s i = attribute_pairs s (Suc i)"
  using next_pair_skip [OF assms] next_pair_advances [of s "Suc i"]
  by (auto simp: attribute_pairs.simps [of s i] attribute_pairs.simps [of s "Suc i"] split: option.split)

section \<open>The whole comment\<close>

definition no_newline :: "string \<times> string \<Rightarrow> bool" where
  "no_newline nv \<longleftrightarrow> list_all any_char (fst nv) \<and> list_all any_char (snd nv)"

lemma any_char_consts: "any_char (CHR '' '')" "any_char (CHR ''='')" "any_char (CHR 0x22)" "any_char (CHR '':'')"
  by (simp_all add: any_char_def is_newline_def)

lemma show_pairs_line: "list_all no_newline nvs \<Longrightarrow> list_all any_char (show_pairs nvs)"
proof (induction nvs)
  case (Cons nv nvs)
  then show ?case
    by (cases nv) (simp add: no_newline_def quoted_def quote_char_def any_char_consts)
qed simp

lemma dot_first:
  assumes "i < length pre" and "CHR ''.'' \<notin> set pre"
  shows "sep_matches DEFAULT_ELEMENT_ATTRIBUTES_SEPARATOR (pre @ s) i = []"
proof -
  have "pre ! i \<noteq> CHR ''.''" using assms nth_mem by metis
  then have "match_at True (pre @ s) (word ''.element'') i = []"
    using assms(1) by (intro word_head) (simp_all add: nth_append)
  then show ?thesis
    by (simp add: sep_matches_def DEFAULT_ELEMENT_ATTRIBUTES_SEPARATOR_def del: word.simps)
qed

lemma find_first: "(\<And>i. i < n \<Longrightarrow> \<not> P i) \<Longrightarrow> P n \<Longrightarrow> n < m \<Longrightarrow> List.find P [0..<m] = Some n"
  unfolding find_Some_iff by (intro exI [of _ n]) simp

lemma line_end:
  assumes "drop i s = l" and "list_all any_char l" and "l \<noteq> []"
  shows "concat (map (\<lambda>k. map (\<lambda>e. (j, k, e)) (match_at True s REol k)) [Suc i..<Suc (length s)])
    = [(j, length s, length s)]"
proof -
  have len: "length s = i + length l" using drop_length [OF assms(1,3)] .
  have "concat (map (\<lambda>k. map (\<lambda>e. (j, k, e)) (match_at True s REol k)) [Suc i..<Suc (length s)])
      = map (\<lambda>e. (j, length s, e)) (match_at True s REol (length s))"
  proof (rule concat_last)
    fix k
    assume k: "Suc i \<le> k" "k < length s"
    then obtain q where q: "k = i + q" "q < length l" using len by (metis Suc_leD le_Suc_ex nat_add_left_cancel_less)
    then have "s ! k = l ! q" using drop_nth [of i s l "[]" q] assms(1) by simp
    then have "\<not> is_newline (s ! k)" using assms(2) q by (simp add: list_all_length any_char_def)
    then show "map (\<lambda>e. (j, k, e)) (match_at True s REol k) = []" using k by simp
  qed (use assms(3) len in \<open>simp add: Suc_le_eq\<close>)
  then show ?thesis by simp
qed

lemma element_comment:
  assumes pre: "CHR ''.'' \<notin> set pre" and line: "list_all any_char l"
  shows "exec_separator DEFAULT_ELEMENT_ATTRIBUTES_SEPARATOR (pre @ ''.element:'' @ l)
    = Some (length pre, '':'' @ l, length (pre @ ''.element:'' @ l))"
proof -
  let ?s = "pre @ ''.element:'' @ l" and ?i = "length pre" and ?S = "DEFAULT_ELEMENT_ATTRIBUTES_SEPARATOR"
  have d: "drop (?i + 8) ?s = '':'' @ l" by simp
  have w: "match_at True ?s (word ''.element'') ?i = [?i + 8]"
    using word_run [of ?i ?s True "''.element''"] by simp
  have "match_at True ?s (RLazyStar (RClass is_ws)) (?i + 8) = [?i + 8]"
    by (rule lazy_stop) (simp_all add: is_ws_def)
  then have b: "match_at True ?s (sep_before ?S) ?i = [?i + 8]"
    using w by (simp add: DEFAULT_ELEMENT_ATTRIBUTES_SEPARATOR_def del: word.simps)
  have l: "list_all any_char ('':'' @ l)" using line by (simp add: any_char_def is_newline_def)
  then have tw: "takeWhile any_char ('':'' @ l) = '':'' @ l" by (simp add: list_all_iff takeWhile_eq_all_conv)
  have le: "?i + 8 \<le> length ?s" and len: "length ?s = ?i + 8 + length ('':'' @ l)" by simp_all
  then have g: "match_at True ?s (lazy_plus (RClass any_char)) (?i + 8) = [Suc (?i + 8)..<Suc (length ?s)]"
    by (simp only: lazy_plus_run [OF le] d tw len)
  have "sep_matches ?S ?s ?i = [(?i + 8, length ?s, length ?s)]"
    using line_end [OF d l, of "?i + 8"] b g
    by (simp add: sep_matches_def DEFAULT_ELEMENT_ATTRIBUTES_SEPARATOR_def del: upt_Suc word.simps match_at.simps)
  moreover have "List.find (\<lambda>i. sep_matches ?S ?s i \<noteq> []) [0..<Suc (length ?s)] = Some ?i"
    by (rule find_first) (use dot_first [OF _ pre] calculation in simp_all)
  ultimately show ?thesis
    by (simp add: exec_separator_def DEFAULT_ELEMENT_ATTRIBUTES_SEPARATOR_def substring_def)
qed

lemma set_attributes_valid:
  assumes "list_all (\<lambda>nv. valid_name (fst nv)) nvs"
  shows "set_attributes valid_name (Some e) nvs st = Some (st\<lparr>markup_attrs :=
    (markup_attrs st)(e := fold (\<lambda>nv m. m(map lower_char (fst nv) \<mapsto> snd nv)) nvs (markup_attrs st e))\<rparr>)"
  using assms by (induction nvs arbitrary: st) (simp_all add: setAttribute_def)

lemma comment_pairs:
  assumes "list_all valid_pair nvs" and "set r \<subseteq> {CHR '' ''}"
  shows "attribute_pairs ('':'' @ show_pairs nvs @ r) 0 = nvs"
proof -
  let ?s = "'':'' @ show_pairs nvs @ r"
  have "?s ! 0 = CHR '':'' \<and> (Suc 0 < length ?s \<longrightarrow> ?s ! Suc 0 = CHR '' '')"
    using assms(2) by (cases nvs; cases r) auto
  then have "attribute_pairs ?s 0 = attribute_pairs ?s (Suc 0)"
    by (intro attribute_pairs_skip no_pair_at) simp_all
  also have "\<dots> = nvs" by (rule attribute_pairs_read [OF _ assms]) simp_all
  finally show ?thesis .
qed

lemma comment_sets_attributes:
  assumes "nodeValue st c = pre @ ''.element:'' @ show_pairs nvs @ r" and "CHR ''.'' \<notin> set pre"
    and "list_all valid_pair nvs" and "list_all no_newline nvs" and "set r \<subseteq> {CHR '' ''}"
    and "list_all (\<lambda>nv. valid_name (fst nv)) nvs"
  shows "addAttributeInElement valid_name c (Some e) DEFAULT_ELEMENT_ATTRIBUTES_SEPARATOR st =
    Some (True, st\<lparr>nodeValue := (nodeValue st)(c := pre), markup_attrs :=
      (markup_attrs st)(e := fold (\<lambda>nv m. m(map lower_char (fst nv) \<mapsto> snd nv)) nvs (markup_attrs st e))\<rparr>)"
proof -
  have "list_all any_char r" using assms(5) by (auto simp: list_all_iff any_char_consts)
  then have l: "list_all any_char (show_pairs nvs @ r)" using show_pairs_line [OF assms(4)] by simp
  have "exec_separator DEFAULT_ELEMENT_ATTRIBUTES_SEPARATOR (nodeValue st c)
      = Some (length pre, '':'' @ show_pairs nvs @ r, length (nodeValue st c))"
    unfolding assms(1) by (rule element_comment [OF assms(2) l])
  moreover have "take (length pre) (nodeValue st c) = pre" by (simp add: assms(1))
  ultimately show ?thesis
    by (simp add: addAttributeInElement_def Let_def comment_pairs [OF assms(3,5), simplified]
      set_attributes_valid [OF assms(6)])
qed

text \<open>A name directly behind the colon takes the colon along.\<close>

lemma colon_joins_name:
  "attribute_pairs ('':class='' @ quoted ''x'') 0 = [('':class'', ''x'')]"
  by code_simp

text \<open>A name without a value is only seen when a space or a quote follows it.\<close>

lemma flag_needs_space:
  "attribute_pairs ''data-x'' 0 = []" "attribute_pairs ''data-x '' 0 = [(''data-x'', [])]"
  by code_simp+

section \<open>An example\<close>

text \<open>\<open><p>text<em>text</em><br><!-- .element: class="red" --></p>\<close>\<close>

definition sample_markup :: markup where
  "sample_markup = MElement 1 ''SECTION''
     [MElement 2 ''P'' [MText, MElement 3 ''EM'' [MText], MElement 4 ''BR'' [], MComment 5]]"

definition sample_store :: markup_store where
  "sample_store = \<lparr>nodeValue = (\<lambda>_. []) (5 := '' '' @ ''.element:'' @ show_pairs [(''class'', ''red'')] @ '' ''),
     markup_attrs = (\<lambda>_ _. None)\<rparr>"

end
