(* ===== verification/Spec2Isabelle.thy ===== *)
theory Spec2Isabelle
  imports FilmSample PageDetails ListenerSample BackgroundLaws PluginLaws HighlightLaws MarkdownLaws MarkdownAttributeLaws
begin

text \<open>
  A model of the presentation runtime reveal.js as this repository carries it in
  docs/demos/lcore (js/ and plugin/), and the theorems that say what makes it correct.  It is the
  program of the repository that is written in JavaScript by hand; the other JavaScript files are
  vendored libraries and generated pages, and the service itself is written in Python.

  \<^bold>\<open>The program.\<close>  js/reveal.js holds the variables of a deck (the current slide, its two indices, the
  states in force, the timer of the automatic slide show) and the commands that change them.  All
  of them end in \<open>slide\<close>, which marks the slides of the document as past, present and future,
  chooses the current slide, and tells the controllers (js/controllers/*.js): fragments, location,
  progress, controls, notes, slide number, overview, keyboard, pointer, touch, focus, plugins.  The
  plugins under plugin/ work on the document before the deck starts.

  \<^bold>\<open>The theories.\<close>  Each models one part, in the order in which the parts use each other.
  \<^item> Prelude, JsStrings, JsNum, Regex: folds and stores; the string operations, \<open>parseInt\<close>, URI
    components; index arguments and quantities with the exceptional values of JavaScript; regular
    expressions.
  \<^item> Dom, Config, Deck: the slides container as a tree of addresses with a store of elements, so that
    two variables can hold the same element; config.js; the record \<open>deck\<close> with the variables of
    js/reveal.js, its queries and its event dispatch.
  \<^item> Contracts: the interfaces as locales: \<open>quiet_operation\<close> (the position is left alone), \<open>timer_slot\<close> (a
    variable that owns one timer), \<open>timer_operation\<close> (the timers stay in order) and
    \<open>passive_operation\<close>.  Each is interpreted on the model's operations where these are defined.
  \<^item> Location, Displays, AutoSlide, Layout, Fragments, Overview: js/controllers/location.js; progress.js,
    controls.js, slidenumber.js, notes.js; the automatic slide show and the pause of js/reveal.js; its
    layout; js/controllers/fragments.js and overview.js.
  \<^item> Slides, Marking, Transition, Navigation: \<open>updateSlides\<close> and \<open>updateSlidesVisibility\<close>; what they leave at
    each element; \<open>slide\<close>, phase by phase; the navigation commands and \<open>setState\<close>.
  \<^item> Input, Pointing, Lifecycle: keyboard.js, clicks, messages and overlays; touch.js, pointer.js,
    focus.js; removal of hidden slides, shuffle, \<open>sync\<close>, \<open>configure\<close>, \<open>start\<close>.
  \<^item> Positions, Steps, Machine, Startup, Opening: where \<open>slide\<close> lands; that every handler keeps the
    invariant; the deck as a transition system with the inputs of the user, the timers and the
    browser as events; \<open>start\<close> from the initial state.
  \<^item> Places, HashLaws, NavLaws, DocOrder, FragmentLaws, FragmentSteps, LifecycleLaws: indices and slides,
    the address, the arrows, document order, fragment numbers, stepping through fragments, and
    the preparation of the document.
  \<^item> Colors, Queries: js/utils/color.js and the reading of values in js/utils/util.js.
  \<^item> Backgrounds, BackgroundLaws: js/controllers/backgrounds.js on a store of background elements.
  \<^item> SlideContent, Subtrees, ContentLaws: js/controllers/slidecontent.js, lazy loading and playback; the
    elements below a slide; what loading, unloading, starting and stopping do to them.
  \<^item> MediaFlow, MediaHandover: which operations of the deck call the media controller (the locale
    \<open>silent_operation\<close> is for those that do not), and what the calls of a transition do when they are
    carried out, each on the document of its moment.
  \<^item> AutoAnimate, AnimateLaws: js/controllers/autoanimate.js, the matching of elements and its rules.
  \<^item> Print, PrintLaws: js/controllers/print.js, the pages of the PDF.
  \<^item> Plugins, PluginLaws: js/controllers/plugins.js and js/utils/loader.js as a transition system.
  \<^item> Highlight, HighlightLaws: plugin/highlight/plugin.js.
  \<^item> Markdown, MarkdownLaws, MarkdownAttributes, MarkdownAttributeLaws: plugin/markdown/plugin.js, the cutting
    into slides and the attributes that comments set.
  \<^item> Search, SearchLaws, Speaker, Zoom, Playback: plugin/search/plugin.js, plugin/notes/plugin.js,
    plugin/zoom/plugin.js and js/components/playback.js, with the invariants of the last two.
  \<^item> Listeners, ListenerLaws, ListenerReach: the event listeners of js/reveal.js and its controllers as a
    registry of their own (\<open>wiring\<close>), the controllers as interpretations of the locale \<open>registrar\<close>, and
    the invariant of the registry.
  \<^item> PageDetails: the text for screen readers, stretched elements, the queries for attributes and
    backgrounds, the help screen, the display of slide number, progress bar and notes, and what \<open>destroy\<close>
    does to the deck and its document.
  \<^item> Sample, MediaSample, FilmSample, ListenerSample: the decks and slides the witnesses of the theorems evaluate.

  \<^bold>\<open>How code becomes definitions.\<close>  A function of the code is a function on \<open>deck\<close> (or on the state of
  its component) with the name it has in the code; a call that throws is \<^const>\<open>None\<close>.  An argument
  that may be \<open>undefined\<close> or \<open>NaN\<close> is a \<open>jsval\<close>, a quantity that is divided is a \<open>jsnum\<close>.  Loops over
  elements are folds, loops with an early exit are recursive functions; the loop of \<open>slidify\<close>,
  which need not end, is a partial function.  The shuffle of a tree takes as fuel the number of its
  nodes, which bounds its depth.  The controllers of media, backgrounds, auto-animation and printing
  have states of their own and work on the document; a call of them from the deck is an entry in
  the log of the deck, as are announcements to screen readers.
  Code that is not in the repository is a parameter: the sizes the browser reports, the random
  numbers, the listeners that may prevent a slide change (\<open>prevents\<close>), highlight.js, marked, and
  what a plugin's \<open>init\<close> registers.

  \<^bold>\<open>What the theorems show.\<close>  The deck: \<open>slide\<close> arrives where it says, and in every reachable state
  the indices name the current slide, exactly the right slides are marked, the state keeps its
  types, and at most one automatic slide is pending, none while paused.  Starting a well-formed
  document returns with an open deck.  The arrow commands refine moves on a grid of columns, and next
  and previous follow document order.  Fragments: stepping shows exactly a prefix of the groups,
  ends, and is undone by stepping back; sorting numbers the groups and is stable.  The address: an
  index, a name and a saved state lead back to the same slide.  Then bounds of the progress, when
  \<open>slide\<close> throws, listeners that follow the options and are taken back by \<open>destroy\<close>, and
  backgrounds that follow the slides.  Media: loading can be undone and repeated,
  only what may play is started, leaving a slide stops it, and a transition hands over from one slide
  to the next.  Auto-animation pairs elements in order
  and is taken back by a reset.  The PDF has the slides in order and repeats fragments step by step.
  Then the plugin loader (each plugin once, in order, before the deck starts); the highlight
  steps (round trip, fragments), the slides cut from a markdown document and the attributes set by its
  comments.  The search lists the
  slides with the words of a query.  Further lemmas of the theories are about the shuffle, the walk
  through the slides found, named addresses, the number of past slides, the timer of the automatic slides,
  the scale, the routes and the order of fragments, scrolling to a highlight, the escaping of code,
  colours, the options in the address, zooming, the playback control, the text for screen readers,
  stretched elements, and what is left after \<open>destroy\<close>.

  \<^bold>\<open>Where the code is not what it means to be\<close> is a theorem too: going back in a right-to-left
  deck can go forward, a synchronised deck does not give up the focus any more, a medium that loads late
  plays behind the next slide of its stack, notes in an attribute of the slide do not reach the speaker view,
  and an interval of its handshake can be left running.  Lemmas of the theories show that a named
  slide whose name is a number is misread from the address (HashLaws), that the sources of a lazily
  loaded video are never unloaded (ContentLaws), that a search without a word hangs (SearchLaws), that a plugin
  another one registers during loading is never initialised (PluginLaws) and that a separator of slides
  that matches the empty string makes \<open>slidify\<close> run forever (MarkdownLaws).

  \<^bold>\<open>Not modelled.\<close>  Rounding and the sign of zero of floats; strings are their UTF-8 bytes, and white
  space is that of ASCII.  Listeners of the deck's own events are called, but what they call back is
  not (except that they may prevent a slide change); elements outside of the slides container are only found where the
  code is given them.  \<open>configure\<close> is an operation but not a step of the transition system, since it
  may turn the direction of the deck around.  The delay argument of \<open>writeURL\<close>, which no caller
  passes, is left out.  The pauses of \<open>setupPDF\<close> for animation frames, the place of its pages in the
  document, the text of style rules, the arguments given to fitty, the speaker view page and
  js/utils/device.js are not modelled, nor are the interval that takes back scrolling of the wrapper and the
  moves of the page's focus.
\<close>

section \<open>Position\<close>

text \<open>
  C1: A call of \<open>slide\<close> with numbers on a well-formed deck returns, and the deck it leaves shows the
  slide at the requested position after looping or clamping: the indices are the settled ones, the
  current slide is the slide at these indices, and both dimensions carry the classes past, present
  and future of the new position.
\<close>

theorem slide_arrives:
  assumes "deck_ok d" and "\<not> prevents (env d) (Num a) (Num b)"
  shows "\<exists>d'. slide (Num a) (Num b) f d = Some d' \<and>
    at_position (settled_h d a) (settled_v d a b) d'"
  using slide_lands [of d "Num a" "Num b" a b f] assms
  by (auto simp: jv_default_def resume_vertical_def)

theorem slide_arrives_witness:
  "\<exists>d'. slide (Num 1) (Num 7) (Num 0) sample_deck = Some d' \<and>
    at_position (settled_h sample_deck 1) (settled_v sample_deck 1 7) d'"
  by (rule slide_arrives) (simp_all add: sample_ok)



text \<open>
  C3: The two timers the deck keeps a handle of are never doubled: in every reachable state at most
  one automatic slide and at most one URL update are pending, and no automatic slide is pending
  while the deck is paused, shows the overview, or the user has stopped the automatic sliding.
\<close>

theorem reachable_timers:
  assumes "reachable s d" and "deck_inv s"
  shows "length (filter (\<lambda>t. taction t = TimAutoSlide) (timers d)) \<le> 1 \<and>
    length (filter (\<lambda>t. is_replace_timer (taction t)) (timers d)) \<le> 1 \<and>
    \<not> ((isPaused d \<or> overviewActive d \<or> autoSlidePaused d) \<and>
      TimAutoSlide \<in> taction ` set (timers d))"
proof -
  have ok: "timers_ok d" using reachable_inv [OF assms] by (simp add: deck_inv_def)
  have "length (filter (\<lambda>t. taction t = TimAutoSlide) (timers d)) \<le> 1"
    using auto_slot.at_most_one [of d] ok by (simp add: timers_ok_def is_auto_timer_def)
  moreover have "length (filter (\<lambda>t. is_replace_timer (taction t)) (timers d)) \<le> 1"
    using replace_slot.at_most_one [of d] ok by (simp add: timers_ok_def)
  ultimately show ?thesis using ok by (auto simp: timers_ok_def auto_blocked_def)
qed

theorem reachable_timers_witness:
  "length (filter (\<lambda>t. taction t = TimAutoSlide) (timers sample_paused)) \<le> 1 \<and>
    length (filter (\<lambda>t. is_replace_timer (taction t)) (timers sample_paused)) \<le> 1 \<and>
    \<not> ((isPaused sample_paused \<or> overviewActive sample_paused \<or> autoSlidePaused sample_paused) \<and>
      TimAutoSlide \<in> taction ` set (timers sample_paused))"
  by (rule reachable_timers [OF sample_reachable sample_inv])

section \<open>Opening a deck\<close>

text \<open>
  C4: Opening a deck returns: on a well-formed document, with no listener that cancels the change and
  no shuffle, \<open>start\<close> on a page whose hash names a position by its indices leaves a settled deck with
  its timers in order, on the position of the hash after clamping, counted without the hidden slides.
\<close>

theorem start_returns:
  fixes rnd :: "nat \<Rightarrow> nat"
  assumes "can_open (removeHiddenSlides (initial_deck c b dm hash t))"
    and "\<not> cfg_shuffle c" and "\<not> isPrintingPDF b" and "\<And>h v. \<not> prevents b h v"
    and "index_hash hash"
    and "getIndicesFromHash (initial_deck c b dm hash t) hash = Some \<lparr>ih = Num x, iv = Num y, ifr = f\<rparr>"
  shows "\<exists>d'. start rnd (initial_deck c b dm hash t) = Some d' \<and> deck_inv d' \<and>
    at_position (settled_h (removeHiddenSlides (initial_deck c b dm hash t)) x)
      (settled_v (removeHiddenSlides (initial_deck c b dm hash t)) x y) d'"
  using assms by (intro start_opens [OF _ refl])

theorem start_returns_witness:
  "\<exists>d'. start id (initial_deck default_config sample_browser sample_dom ''#/1/1'' 5000) = Some d' \<and> deck_inv d' \<and>
    at_position (settled_h (removeHiddenSlides (initial_deck default_config sample_browser sample_dom ''#/1/1'' 5000)) 1)
      (settled_v (removeHiddenSlides (initial_deck default_config sample_browser sample_dom ''#/1/1'' 5000)) 1 1) d'"
proof (rule start_returns)
  have "removeHiddenSlides (initial_deck default_config sample_browser sample_dom ''#/1/1'' 5000) =
      (removeHiddenSlides sample_new)\<lparr>urlHash := ''#/1/1''\<rparr>"
    by (simp add: removeHiddenSlides_def sample_new_def initial_deck_def update_doc_def)
  then show "can_open (removeHiddenSlides (initial_deck default_config sample_browser sample_dom ''#/1/1'' 5000))"
    using sample_open(2) by (simp add: can_open_def getHorizontalSlides_def)
  show "\<not> cfg_shuffle default_config" by (simp add: default_config_def)
  show "index_hash ''#/1/1''" by code_simp
  show "getIndicesFromHash (initial_deck default_config sample_browser sample_dom ''#/1/1'' 5000) ''#/1/1'' =
      Some \<lparr>ih = Num 1, iv = Num 1, ifr = Undef\<rparr>"
    by code_simp
qed simp_all

section \<open>Navigation\<close>







section \<open>Fragments\<close>

text \<open>
  C8: \<open>Fragments.goto\<close> with an index shows exactly the groups of fragments up to that index: on a
  slide whose enabled fragments can be sorted, the fragments end up numbered by their groups, and
  those with a number up to the index, cut to the range from -1 to the last group, are the visible
  ones.
\<close>

theorem goto_shows_groups:
  assumes "cfg_fragments (cfg d)" and "enabled_fragments d \<noteq> []" and "length (enabled_fragments d) < 2 ^ 32"
    and "sortable (enabled_fragments d) (doc d)"
  shows "staged (length (fragment_groups (doc d) (enabled_fragments d)))
    (reached_group (length (fragment_groups (doc d) (enabled_fragments d))) i)
    (snd (fragments_goto (Num i) 0 d))"
  by (rule goto_index [OF assms])

theorem goto_shows_groups_witness:
  "staged (length (fragment_groups (doc sample_deck) (enabled_fragments sample_deck)))
    (reached_group (length (fragment_groups (doc sample_deck) (enabled_fragments sample_deck))) 0)
    (snd (fragments_goto (Num 0) 0 sample_deck))"
proof -
  have "enabled_fragments sample_deck = [16, 17]" "sortable [16, 17] (doc sample_deck)" by code_simp+
  then show ?thesis by (intro goto_shows_groups) simp_all
qed

text \<open>
  C9: Stepping through a slide ends: on a slide that shows \<open>c + 1\<close> of its \<open>n\<close> groups, \<open>k\<close> calls of
  \<open>Fragments.next\<close> answer true for the groups that are left and false from then on.
\<close>

theorem next_ends:
  assumes "staged n c d"
  shows "next_answers k d =
    replicate (min k (nat (int n - 1 - c))) True @ replicate (k - nat (int n - 1 - c)) False"
proof (rule nth_equalityI)
  show "length (next_answers k d) =
      length (replicate (min k (nat (int n - 1 - c))) True @ replicate (k - nat (int n - 1 - c)) False)"
    by (simp add: next_answers_staged [OF assms])
  fix j assume "j < length (next_answers k d)"
  then show "next_answers k d ! j =
      (replicate (min k (nat (int n - 1 - c))) True @ replicate (k - nat (int n - 1 - c)) False) ! j"
    by (auto simp: next_answers_staged [OF assms] nth_append)
qed

theorem next_ends_witness: "next_answers 4 sample_staged = [True, True, False, False]"
  using next_ends [OF sample_staged, of 4] by (simp add: numeral_eq_Suc)

text \<open>C10: \<open>Fragments.prev\<close> undoes \<open>Fragments.next\<close>: the same groups are shown as before.\<close>

theorem prev_undoes_next:
  assumes "staged n c d" and "fst (fragments_next d)"
  shows "staged n c (snd (fragments_prev (snd (fragments_next d))))"
proof -
  have "c + 1 < int n" using next_staged(2) [OF assms(1)] assms(2) by simp
  then have "staged n (c + 1) (snd (fragments_next d))" using next_staged(1) [OF assms(1)] by simp
  from prev_staged(1) [OF this] show ?thesis using staged_facts(2) [OF assms(1)] by simp
qed

theorem prev_undoes_next_witness: "staged 2 (- 1) (snd (fragments_prev (snd (fragments_next sample_staged))))"
  by (rule prev_undoes_next [OF sample_staged]) (simp add: next_staged(2) [OF sample_staged])



section \<open>Location\<close>

text \<open>
  C12: Reading the hash that is written for the current slide gives its position back: on a slide
  without an id, \<open>getIndicesFromHash\<close> of the hash \<open>getHash\<close> writes returns the horizontal and vertical
  index of the deck, and the fragment index when the hash shows one.
\<close>

theorem hash_round_trip:
  assumes "at_position i j d" and "0 \<le> j" and "currentSlide d = Some s" and "\<not> has_id (doc d) s"
  shows "getIndicesFromHash d (CHR 0x23 # getHash d None) =
    Some \<lparr>ih = Num i, iv = Num j, ifr = hash_fragment d\<rparr>"
  using assms position_bounds(1) [OF assms(1)] by (intro hash_indices [of d s]) (simp_all add: at_position_def)

theorem hash_round_trip_witness:
  "getIndicesFromHash sample_second (CHR 0x23 # getHash sample_second None) =
    Some \<lparr>ih = Num 1, iv = Num 0, ifr = hash_fragment sample_second\<rparr>"
  by (rule hash_round_trip [OF second_at(1) _ second_fields(11)]) (simp, code_simp)

section \<open>Queries\<close>



section \<open>The transition\<close>



text \<open>
  C15: A saved state is restored: \<open>setState\<close> of what \<open>getState\<close> returned, on any well-formed deck with the
  same slides, returns and shows the saved position, paused exactly when the saved deck was.
\<close>

theorem state_round_trip:
  assumes "at_place i j d" and "same_shape (doc d) (doc e)" and "deck_ok e"
    and "\<And>h v. \<not> prevents (env e) h v" and "cfg_pause (cfg e)" and "overviewActive e = overviewActive d"
  shows "\<exists>e'. setState (getState d) e = Some e' \<and> at_place i j e' \<and> isPaused e' = isPaused d \<and>
    overviewActive e' = overviewActive d"
  by (rule setState_restores [OF assms])

theorem state_round_trip_witness:
  "\<exists>e'. setState (getState sample_second) sample_deck = Some e' \<and> at_place 1 0 e' \<and>
    isPaused e' = isPaused sample_second \<and> overviewActive e' = overviewActive sample_second"
  by (rule state_round_trip [OF second_place _ sample_ok]) (use second_shape in simp_all)

text \<open>
  C16: In a right-to-left deck prev goes forward: from a column whose predecessor is a single slide,
  \<open>navigatePrev\<close> leads to the column that follows, because it falls back on \<open>navigateLeft\<close>.
\<close>

theorem prev_goes_forward_rtl:
  assumes "open_deck d" and "\<not> cfg_loop (cfg d)" and "cfg_rtl (cfg d)"
    and "\<And>h v. \<not> prevents (env d) h v" and "resumable d" and "at_position i 0 d"
    and "0 < i" and "i + 1 < int (length (getHorizontalSlides d))"
    and "\<not> has_class Stack (el (doc d) (getHorizontalSlides d ! nat (i - 1)))"
  shows "\<exists>d' j'. navigatePrev True d = Some d' \<and> at_position (i + 1) j' d'"
  by (rule prev_rtl_lands [OF assms])

theorem prev_goes_forward_rtl_witness:
  "\<exists>d' j'. navigatePrev True sample_rtl = Some d' \<and> at_position (1 + 1) j' d'"
proof (rule prev_goes_forward_rtl [OF _ _ _ _ second_resumable(2) second_at(2)])
  show "\<not> has_class Stack (el (doc sample_rtl) (getHorizontalSlides sample_rtl ! nat (1 - 1)))" by code_simp
qed (simp_all add: open_deck_def second_ok getHorizontalSlides_def)

section \<open>The running deck\<close>



section \<open>Listeners\<close>





text \<open>
  C20: An embedded deck that has the focus gives it up when the pointer is pressed outside of it.  After a
  \<open>sync\<close> it no longer does: the listener on the document is gone and the state still says that the
  deck has the focus, so nothing adds it again, whatever is pressed.
\<close>

theorem sync_forgets_blur:
  assumes "wired w" and "cfg_embedded (w_cfg w)" and "w_focus w = StateFocus"
  shows "(document_press \<in> registry w \<longrightarrow> w_focus (pointer_press False False w) = StateBlur) \<and>
    w_focus (fold (\<lambda>p. pointer_press (fst p) (snd p)) ps (sync_wiring w)) = StateFocus"
proof -
  have "w_focus (sync_wiring w) = StateFocus"
    using assms(3) by (simp add: sync_wiring_def addEventListeners_eq removeEventListeners_eq)
  moreover have "document_press \<notin> registry (sync_wiring w)"
    using asked_press(1) [of document_press "w_cfg w" "w_env w"]
    by (auto simp: sync_wiring_def addEventListeners_eq removeEventListeners_eq removed_def)
  ultimately show ?thesis
    using focus_survives_all [of "sync_wiring w" ps] by (simp add: pointer_press_def focus_lose_eq)
qed

theorem sync_forgets_blur_witness:
  "w_focus (pointer_press False False (sync_wiring (pointer_press True True (sample_wiring True)))) = StateFocus"
proof -
  let ?w = "pointer_press True True (sample_wiring True)"
  have "reveal_press \<in> registry (sample_wiring True)"
    using wired_ok [OF sample_wired, of True] sample_wiring_fields [of True]
    by (auto simp: wiring_ok_def asked_for_def focus_on_def)
  then have "w_focus ?w = StateFocus" "w_cfg ?w = w_cfg (sample_wiring True)"
    by (simp_all add: pointer_press_def focus_gain_eq)
  moreover have "wired ?w" by (rule wired.press [OF sample_wired]) simp
  ultimately show ?thesis using sync_forgets_blur [of ?w "[(False, False)]"] sample_wiring_fields by simp
qed

section \<open>Backgrounds\<close>

text \<open>
  C21: The backgrounds follow the slides: after the backgrounds of a well-formed deck have been created
  and \<open>slide\<close> has moved to any position, \<open>update\<close> (of the current column or of all) shows the
  background of the current slide, and every horizontal slide and every slide of the current column
  has the same of the classes past, present and future as its background.
\<close>

theorem backgrounds_follow:
  assumes "deck_ok d0" and "backgrounds_create cc computed (d0, b0) = (d1, b)"
    and "slide (Num x) (Num y) f d1 = Some d" and "\<not> prevents (env d0) (Num x) (Num y)"
    and "backgrounds_update inc (d, b) = (d', b')"
  shows "at_position (settled_h d1 x) (settled_v d1 x y) d
    \<and> previousBackground b' = Option.bind (currentSlide d) (slideBackground b)
    \<and> list_all (same_place_class d' b') (getHorizontalSlides d @ column d (settled_h d1 x))"
  by (rule created_update_follows [OF assms])

theorem backgrounds_follow_witness:
  "\<exists>d1 b d d' b'. backgrounds_create default_content_config (\<lambda>_. None) (sample_deck, no_backgrounds) = (d1, b)
    \<and> slide (Num 1) (Num 1) (Num 0) d1 = Some d \<and> backgrounds_update False (d, b) = (d', b')
    \<and> previousBackground b' = Option.bind (currentSlide d) (slideBackground b)"
proof -
  obtain d1 b where c: "backgrounds_create default_content_config (\<lambda>_. None) (sample_deck, no_backgrounds) = (d1, b)"
    by (cases "backgrounds_create default_content_config (\<lambda>_. None) (sample_deck, no_backgrounds)")
  then have same: "same_deck sample_deck d1"
    using create_same_deck [of sample_deck default_content_config "\<lambda>_. None" no_backgrounds] by simp
  then have "\<not> prevents (env d1) (Num 1) (Num 1)" by (simp add: same_deck_def)
  moreover have "deck_ok d1" by (rule same_deck_ok [OF same sample_ok])
  ultimately obtain d where d: "slide (Num 1) (Num 1) (Num 0) d1 = Some d"
    using slide_lands [of d1 "Num 1" "Num 1" 1 1 "Num 0"] by (auto simp: jv_default_def resume_vertical_def)
  obtain d' b' where u: "backgrounds_update False (d, b) = (d', b')" by (cases "backgrounds_update False (d, b)")
  from backgrounds_follow [OF sample_ok c d _ u] c d u show ?thesis by auto
qed

section \<open>Media of the slides\<close>

text \<open>
  C22: Lazy loading can be repeated: after a slide has been loaded, unloaded and loaded again, every
  element has the addresses it had after the first time, and a medium of the slide with \<open>data-src\<close> is
  given its address by \<open>load\<close>, and by \<open>unload\<close> the state it had before.
\<close>

theorem lazy_round_trip:
  assumes "distinct_ids (cdoc c)" and "no_media_above (cdoc c) s"
    and "tag (el (cdoc c) x) = Iframe \<Longrightarrow> shouldPreload cc (el (cdoc c) x)"
  shows "let first = content_load cc ce ex s (c, b);
             gone = content_unload s first;
             again = content_load cc ce ex s gone
    in attrs (el (cdoc (fst again)) x) Src = attrs (el (cdoc (fst first)) x) Src
       \<and> attrs (el (cdoc (fst again)) x) DataSrc = attrs (el (cdoc (fst first)) x) DataSrc
       \<and> (below (cdoc c) s x \<and> tag (el (cdoc c) x) \<in> {Video, Audio, Iframe} \<and> attrs (el (cdoc c) x) DataSrc = Some v \<longrightarrow>
            attrs (el (cdoc (fst first)) x) Src = Some v
            \<and> attrs (el (cdoc (fst gone)) x) Src = None \<and> attrs (el (cdoc (fst gone)) x) DataSrc = Some v)"
  using load_unload_load [of "cdoc c" "(c, b)" _ cc ce ex s x] load_then_unload [of "cdoc c" "(c, b)" _ cc ce ex s x v] assms
  by (auto simp: Let_def)

theorem lazy_round_trip_witness:
  "let first = content_load default_content_config media_env False 21 media_state;
       gone = content_unload 21 first;
       again = content_load default_content_config media_env False 21 gone
   in attrs (el (cdoc (fst again)) 23) Src = attrs (el (cdoc (fst first)) 23) Src
      \<and> attrs (el (cdoc (fst first)) 23) Src = Some ''b.mp4'' \<and> attrs (el (cdoc (fst gone)) 23) Src = None"
  using lazy_round_trip [of media_content 21 23 default_content_config media_env False no_backgrounds "''b.mp4''"] media_facts
  by (simp add: Let_def)

text \<open>
  C23: Only what may play is started: \<open>startEmbeddedContent\<close> plays media below the slide that autoplay and
  are not inside of a hidden fragment, posts to frames outside of hidden fragments, reloads images,
  and installs listeners only on media it may start later.
\<close>

theorem only_allowed_media_start:
  "let c' = startEmbeddedContent cc ce (Some s) c
   in (\<exists>new. content_calls c' = content_calls c @ new \<and> list_all (may_start cc (cdoc c) s) new)
      \<and> loadeddata c' \<subseteq> loadeddata c \<union> {i. may_start cc (cdoc c) s (PlayMedia i)}"
  by (rule start_allowed)

text \<open>
  C24: Leaving a slide stops it: \<open>stopEmbeddedContent\<close> on a slide of the document pauses every medium that
  is not to be ignored, no frame below it keeps the listener that would start it once it has loaded,
  and frames with a \<open>data-src\<close> lose their address when they are to be unloaded.
\<close>

theorem leaving_stops_media:
  assumes "is_attached (cdoc c) s" and "below (cdoc c) s x"
  shows "let c' = stopEmbeddedContent ce unload (Some s) c
    in (is_av (el (cdoc c) x) \<and> \<not> has_attr DataIgnore (el (cdoc c) x) \<longrightarrow>
          PauseMedia x \<in> set (drop (length (content_calls c)) (content_calls c')))
       \<and> (is_iframe (el (cdoc c) x) \<longrightarrow> x \<notin> frame_load c'
           \<and> (unload \<and> has_attr DataSrc (el (cdoc c) x) \<longrightarrow> attrs (el (cdoc c') x) Src = None))"
  by (rule stop_stops [OF assms])

theorem leaving_stops_media_witness:
  "PauseMedia 23 \<in> set (content_calls (stopEmbeddedContent media_env True (Some 21) media_content))"
  using leaving_stops_media [of media_content 21 23 media_env True] media_facts
  by (simp add: Let_def is_av_def has_attr_def)

text \<open>
  C25: A transition hands the media over: whatever documents with the same elements \<open>slide\<close> finds while
  it runs, the calls it makes of the media controller pause every medium of the slide that is left
  (unless it is to be ignored), and play only media of the slide that is shown, none of the slide
  that is left.
\<close>

theorem slide_changes_media:
  assumes "positioned d" and "slide h v f d = Some d'"
    and "\<not> prevents (env d) (jv_default h (indexh d)) (jv_default v (indexv d))"
    and "currentSlide d = Some p" and "currentSlide d' = Some c" and "c \<noteq> p"
    and "map fst es = drop (length (media_calls d)) (media_calls d')"
    and "list_all (\<lambda>e. same_media (doc d) (snd e)) es"
  shows "\<exists>new. content_calls (play_calls cc ce es k) = content_calls k @ new
    \<and> (\<forall>x. PlayMedia x \<in> set new \<longrightarrow> below (doc d) c x \<and> \<not> below (doc d) p x)
    \<and> (\<forall>x. below (doc d) p x \<and> is_av (el (doc d) x) \<and> \<not> has_attr DataIgnore (el (doc d) x) \<longrightarrow> PauseMedia x \<in> set new)"
  by (rule media_change_hands(1) [OF assms])

theorem slide_changes_media_witness:
  "\<exists>new. content_calls (play_calls default_content_config media_env film_calls film_content) = content_calls film_content @ new
    \<and> PauseMedia 16 \<in> set new \<and> PlayMedia 16 \<notin> set new"
  using slide_changes_media [OF film_positioned film_moves(1), of 13 14 film_calls default_content_config
      media_env film_content] film_call_facts film_facts film_moves(2) by auto

text \<open>
  C26: A medium that has not loaded when its slide is left plays behind the next slide of the stack: it
  still waits after the transition, and when it has loaded, the slide it is on is not present, but
  the stack is, which is enough for it to be played from its start.
\<close>

theorem late_medium_plays:
  assumes "positioned d" and "slide h v f d = Some d'"
    and "\<not> prevents (env d) (jv_default h (indexh d)) (jv_default v (indexv d))"
    and "currentSlide d = Some p" and "currentSlide d' = Some c" and "c \<noteq> p"
    and "map fst es = drop (length (media_calls d)) (media_calls d')"
    and "list_all (\<lambda>e. same_media (doc d) (snd e)) es"
    and "indexh d' = indexh d" and "below (doc d) p x" and "x \<in> loadeddata k"
  shows "let after = (play_calls cc ce es k)\<lparr>cdoc := doc d'\<rparr>
    in \<not> has_class Present (el (doc d') p)
       \<and> content_calls (media_loaded x after) = content_calls after @ [RewindMedia x, PlayMedia x]"
  using within_stack [OF assms(1,2,4,5,6,9,10)] media_change_hands(2) [OF assms(1-8,10,11)]
  by (simp add: Let_def late_start)

theorem late_medium_plays_witness:
  "let after = (play_calls default_content_config slow_env film_calls film_content)\<lparr>cdoc := doc film_next\<rparr>
   in \<not> has_class Present (el (doc film_next) 13)
      \<and> content_calls (media_loaded 16 after) = content_calls after @ [RewindMedia 16, PlayMedia 16]"
  using late_medium_plays [OF film_positioned film_moves(1), of 13 14 film_calls 16 film_content
      default_content_config slow_env]
    film_call_facts film_facts film_moves film_waits by simp

section \<open>Auto-animation\<close>

text \<open>
  C27: The search for matching elements pairs in order: among the pairs of a key, the k-th element of the
  new slide with this key is paired with the k-th element of the old slide with it, elements
  without a text are not paired, and the search throws exactly when the key of an element is a
  member of \<open>Object.prototype\<close>.
\<close>

theorem matches_in_order:
  "(findAutoAnimateMatches opts key fs ts = None \<longleftrightarrow> list_ex (\<lambda>e. key e \<in> set object_prototype) (fs @ ts))
   \<and> map (\<lambda>p. (p_from p, p_to p)) (filter (\<lambda>p. key (p_to p) = k)
        (case findAutoAnimateMatches opts key fs ts of None \<Rightarrow> [] | Some ps \<Rightarrow> ps)) =
      (if k = [] \<or> findAutoAnimateMatches opts key fs ts = None then []
       else zip (filter (\<lambda>f. key f = k) fs) (filter (\<lambda>t. key t = k) ts))"
proof (cases "findAutoAnimateMatches opts key fs ts")
  case None
  then show ?thesis by (auto simp: find_matches_eq list_ex_iff split: if_splits)
next
  case (Some ps)
  then have "\<not> list_ex (\<lambda>e. key e \<in> set object_prototype) (fs @ ts)"
    by (auto simp: find_matches_eq list_ex_iff split: if_splits)
  with find_matches_zip(1) [OF Some, of k] Some show ?thesis by auto
qed



section \<open>The PDF\<close>


text \<open>
  C30: The PDF repeats the fragments step by step: on a slide whose fragments are not yet shown, the k-th
  copy of its page shows exactly the first k groups of fragments, with the k-th as the current one,
  it has the number of the page with the number of the group after it, and the original page is left
  with all fragments hidden.
\<close>

theorem pdf_steps:
  assumes "separate_fragments pg s dm = (ps, dm')" and "sortable (page_fragments dm s) dm"
    and "list_all (\<lambda>f. \<not> has_class Visible (el dm f)) (page_fragments dm s)"
    and "\<And>f. \<not> has_class CurrentFragment (el dm f)"
  shows "length ps = length (fragment_groups dm (page_fragments dm s))
    \<and> (\<forall>k < length ps. pg_slide (ps ! k) = pg_slide pg
        \<and> pg_number (ps ! k) = map_option (\<lambda>n. n @ ''.'' @ show_nat (group_places dm (page_fragments dm s) ! k + 1)) (pg_number pg)
        \<and> (\<exists>d. pg_copy (ps ! k) = Some d
            \<and> filter (\<lambda>f. has_class Visible (el d f)) (page_fragments dm s)
                = filter (\<lambda>f. f \<in> set (concat (take (Suc k) (fragment_groups dm (page_fragments dm s))))) (page_fragments dm s)
            \<and> filter (\<lambda>f. has_class CurrentFragment (el d f)) (page_fragments dm s)
                = filter (\<lambda>f. f \<in> set (fragment_groups dm (page_fragments dm s) ! k)) (page_fragments dm s)))
    \<and> (\<forall>f \<in> set (page_fragments dm s). \<not> has_class Visible (el dm' f) \<and> \<not> has_class CurrentFragment (el dm' f))"
  by (rule separate_fragments_steps [OF assms])

theorem pdf_steps_witness:
  "\<exists>ps dm'. separate_fragments sample_page 11 sample_dom = (ps, dm') \<and> length ps = 2"
proof -
  obtain ps dm' where s: "separate_fragments sample_page 11 sample_dom = (ps, dm')"
    by (cases "separate_fragments sample_page 11 sample_dom")
  have fs: "page_fragments sample_dom 11 = [16, 17]" by code_simp
  have "\<not> has_class CurrentFragment (el sample_dom f)" for f
    by (simp add: sample_dom_def sample_el_def marked_elem_def has_class_def blank_elem_def)
  moreover have "sortable [16, 17] sample_dom" "length (fragment_groups sample_dom [16, 17]) = 2"
    "list_all (\<lambda>f. \<not> has_class Visible (el sample_dom f)) [16, 17]"
    by code_simp+
  ultimately show ?thesis using pdf_steps [OF s] s unfolding fs by auto
qed

section \<open>Plugins\<close>

text \<open>
  C31: Plugins are initialised in order: loaded into an idle loader without synchronous dependencies, the
  registered plugins that have an \<open>init\<close> are initialised one after the other in the order of
  \<open>Object.values\<close>, each once.  While a promise is outstanding the loader stays in \<open>loading\<close> and the
  deck is not started; when the last one is fulfilled it is \<open>loaded\<close> and the deck has been started once.
\<close>

theorem plugins_in_order:
  assumes "plugins_reachable st" and "plugins_state st = Idle" and "list_all dep_async (filter wanted deps)"
  shows "let ps = plugins_to_init rs st; run = (\<lambda>k. (promiseFulfilled ^^ k) (load_plugins rs deps st))
    in plugins_state (run (asyncs ps)) = Loaded \<and> starts (run (asyncs ps)) = 1
       \<and> inits (run (asyncs ps)) = map init_name (filter has_init ps)
       \<and> (\<forall>k < asyncs ps. plugins_state (run k) = Loading \<and> starts (run k) = 0)"
proof -
  obtain u where u: "load_plugins rs deps st = initNextPlugin (plugins_to_init rs st) u"
    "plugins_state u = Loading" "waiting u = None" "inits u = []" "starts u = 0"
    using load_plugins_init [OF plugins_reachable_inv [OF assms(1)] assms(2,3)] by blast
  show ?thesis
    using initNextPlugin_order [OF u(2,3), of "plugins_to_init rs st"]
      initNextPlugin_waits [OF u(2,3), where ps = "plugins_to_init rs st"] u(4,5)
    by (simp add: Let_def u(1))
qed

theorem plugins_in_order_witness:
  "let st = load_plugins [Instance (demo_plugin ''notes'' AsyncInit), Factory (demo_plugin ''zoom'' SyncInit)] []
         no_plugins
   in plugins_state st = Loading \<and> inits (promiseFulfilled st) = [''notes'', ''zoom'']
      \<and> plugins_state (promiseFulfilled st) = Loaded"
proof -
  let ?rs = "[Instance (demo_plugin ''notes'' AsyncInit), Factory (demo_plugin ''zoom'' SyncInit)]"
  have ps: "plugins_to_init ?rs no_plugins = [demo_plugin ''notes'' AsyncInit, demo_plugin ''zoom'' SyncInit]"
    by code_simp
  have a: "asyncs (plugins_to_init ?rs no_plugins) = 1" unfolding ps by code_simp
  have i: "map init_name (filter has_init (plugins_to_init ?rs no_plugins)) = [''notes'', ''zoom'']"
    unfolding ps by code_simp
  have "plugins_state no_plugins = Idle" by (simp add: no_plugins_def)
  from plugins_in_order [OF plugins_reachable.start this, of "[]" ?rs]
  show ?thesis unfolding a i Let_def by simp
qed



section \<open>Code blocks\<close>

text \<open>
  C33: The notation of the highlight steps round-trips: steps of line numbers and line ranges, none of
  them empty, are read back exactly as \<open>serializeHighlightSteps\<close> stored them in the document.
\<close>

theorem highlight_round_trip:
  assumes "valid_steps ss"
  shows "deserializeHighlightSteps (serializeHighlightSteps ss) = ss"
  by (rule deserialize_serialize [OF assms])

theorem highlight_round_trip_witness:
  "deserializeHighlightSteps (serializeHighlightSteps
     [[\<lparr>h_start = Num 1, h_end = Undef\<rparr>, \<lparr>h_start = Num 5, h_end = Num 10\<rparr>], [no_highlight]]) =
   [[\<lparr>h_start = Num 1, h_end = Undef\<rparr>, \<lparr>h_start = Num 5, h_end = Num 10\<rparr>], [no_highlight]]"
  by (rule highlight_round_trip) code_simp

text \<open>
  C34: \<open>highlightBlock\<close> turns a block with several steps into one fragment per further step.  The block
  shows exactly the rows of the first step and gives up its fragment index, the k-th fragment shows
  exactly the rows of step k+1, and the fragments take consecutive indices from that of the block
  when it had one and none otherwise.
\<close>

theorem highlight_fragments:
  assumes "line_numbers b = Some (serializeHighlightSteps ss)" and "valid_steps ss"
    and "length ss > 1" and "js_trim (hljs (html b)) \<noteq> []"
  shows "\<exists>b' cs. highlightBlock hljs table_rows b = Some (b', cs) \<and> Suc (length cs) = length ss
    \<and> set (highlighted b') = set (highlighted b) \<union> step_rows (table_rows (hljs (html b))) (hd ss)
    \<and> line_numbers b' = Some (serializeHighlightSteps [hd ss]) \<and> fragment_index b' = None
    \<and> (\<forall>k < length cs. shows_step (b\<lparr>html := hljs (html b), rows := table_rows (hljs (html b))\<rparr>)
         (ss ! Suc k) (map_option (\<lambda>i. i + int k) (Option.bind (fragment_index b) parseInt10)) (cs ! k))"
  by (rule highlightBlock_valid [where hljs = hljs, OF assms])

theorem highlight_fragments_witness:
  "\<exists>b' cs. highlightBlock id length sample_block = Some (b', cs) \<and> Suc (length cs) = length sample_steps
    \<and> set (highlighted b') = set (highlighted sample_block) \<union> step_rows (length (id (html sample_block))) (hd sample_steps)
    \<and> line_numbers b' = Some (serializeHighlightSteps [hd sample_steps]) \<and> fragment_index b' = None"
  using highlight_fragments [of sample_block sample_steps id length] sample_block_facts by blast

section \<open>Markdown\<close>

text \<open>
  C35: \<open>slidify\<close> with separators that cannot match the empty string returns, and loses nothing: the texts
  between the separators, put together with them, are the document.  Every text becomes a slide, in
  order, and exactly the texts that a vertical separator connects share a stack.
\<close>

theorem slidify_keeps_document:
  assumes "\<not> nullable (separatorRegex (getSlidifyOptions options))"
  shows "let opts = getSlidifyOptions options; p = pieces (separatorRegex opts) (o_separator opts) md 0
    in slidify marked_lib md options =
         Some (concat (map (section_html marked_lib opts \<circ> entry_of) (groups (fst p) (snd p))))
       \<and> fst p @ concat (map (\<lambda>(h, s, c). s @ c) (snd p)) = md
       \<and> concat (groups (fst p) (snd p)) = fst p # map (snd \<circ> snd) (snd p)"
  using slidify_groups [OF assms, of marked_lib md] pieces_document [OF assms]
  by (simp add: Let_def concat_groups split: prod.splits)

theorem slidify_keeps_document_witness:
  "let opts = getSlidifyOptions plain_options; p = pieces (separatorRegex opts) (o_separator opts) two_slides 0
   in slidify id two_slides plain_options =
        Some (concat (map (section_html id opts \<circ> entry_of) (groups (fst p) (snd p))))
      \<and> fst p @ concat (map (\<lambda>(h, s, c). s @ c) (snd p)) = two_slides
      \<and> concat (groups (fst p) (snd p)) = fst p # map (snd \<circ> snd) (snd p)"
  by (rule slidify_keeps_document)
    (simp add: plain_options_def getSlidifyOptions_def separatorRegex_def default_separators)

text \<open>
  C36: A comment in the HTML of a markdown slide acts on the element before it: \<open>addAttributes\<close> has exactly the
  effects of the comments in document order, each with the last element before it that is no line
  break as its target, or else the element it is in.
\<close>

theorem comments_reach_targets:
  assumes "html_node (MElement sec n cs)"
  shows "addAttributes v es ss sec (MElement sec n cs) None st =
    run_comments v es ss sec (comment_targets (MElement sec n cs)) st"
  by (rule addAttributes_targets [OF assms]) simp

theorem comments_reach_targets_witness:
  "addAttributes (\<lambda>_. True) DEFAULT_ELEMENT_ATTRIBUTES_SEPARATOR DEFAULT_SLIDE_ATTRIBUTES_SEPARATOR 1 sample_markup None
     sample_store =
   run_comments (\<lambda>_. True) DEFAULT_ELEMENT_ATTRIBUTES_SEPARATOR DEFAULT_SLIDE_ATTRIBUTES_SEPARATOR 1 [(5, 3)] sample_store"
proof -
  have "html_node sample_markup" by code_simp
  then have "addAttributes (\<lambda>_. True) DEFAULT_ELEMENT_ATTRIBUTES_SEPARATOR DEFAULT_SLIDE_ATTRIBUTES_SEPARATOR 1
      sample_markup None sample_store =
    run_comments (\<lambda>_. True) DEFAULT_ELEMENT_ATTRIBUTES_SEPARATOR DEFAULT_SLIDE_ATTRIBUTES_SEPARATOR 1
      (comment_targets sample_markup) sample_store"
    unfolding sample_markup_def by (rule comments_reach_targets)
  moreover have "comment_targets sample_markup = [(5, 3)]" by code_simp
  ultimately show ?thesis by (simp only:)
qed

text \<open>
  C37: The attributes written in a comment are the ones that are set: a comment of the form
  \<open>.element: a="x" b="y"\<close> with names without quotes, equals signs and spaces and values without quotes sets
  exactly these attributes of its target, in this order, and leaves the text before \<open>.element\<close>.
\<close>

theorem comment_round_trip:
  assumes "nodeValue st c = pre @ ''.element:'' @ show_pairs nvs @ r" and "CHR ''.'' \<notin> set pre"
    and "list_all valid_pair nvs" and "list_all no_newline nvs" and "set r \<subseteq> {CHR '' ''}"
    and "list_all (\<lambda>nv. valid_name (fst nv)) nvs"
  shows "addAttributeInElement valid_name c (Some e) DEFAULT_ELEMENT_ATTRIBUTES_SEPARATOR st =
    Some (True, st\<lparr>nodeValue := (nodeValue st)(c := pre), markup_attrs :=
      (markup_attrs st)(e := fold (\<lambda>nv m. m(map lower_char (fst nv) \<mapsto> snd nv)) nvs (markup_attrs st e))\<rparr>)"
  by (rule comment_sets_attributes [OF assms])

theorem comment_round_trip_witness:
  "\<exists>st. addAttributeInElement (\<lambda>_. True) 5 (Some 3) DEFAULT_ELEMENT_ATTRIBUTES_SEPARATOR sample_store = Some (True, st)
     \<and> nodeValue st 5 = '' '' \<and> markup_attrs st 3 ''class'' = Some ''red''"
proof -
  have v: "nodeValue sample_store 5 = '' '' @ ''.element:'' @ show_pairs [(''class'', ''red'')] @ '' ''"
    by (simp add: sample_store_def)
  have "list_all valid_pair [(''class'', ''red'')]" "list_all no_newline [(''class'', ''red'')]" by code_simp+
  moreover have "map lower_char ''class'' = ''class''" by code_simp
  ultimately show ?thesis using comment_round_trip [OF v, of "\<lambda>_. True" 3] by simp
qed

section \<open>Search and speaker view\<close>

text \<open>
  C38: The search finds the slides with the words: for a query with a word character, none of whose words
  is \<open>length\<close>, on a page without \<open>em\<close> elements, the search returns, the positions it lists are those of
  the slides around the texts that match, each once and in the order of the page, and removing the
  highlights gives the texts back.
\<close>

theorem search_finds_slides:
  assumes "list_ex is_word_char q" and "list_all (\<lambda>w. map lower_char w \<noteq> ''length'') (alternatives_of (trim_query q))"
    and "indices_known d" and "no_hilites body"
  shows "\<exists>body' h. apply_hilitor inherited d q body = Some (body', h)
    \<and> map position_of (matchingSlides h) =
        rev (remdups (rev (map (position_of \<circ> getIndices d) (match_sections (setRegex q) None body))))
    \<and> (\<exists>ns. remove_hilites body' = Some ns \<and> merged ns = merged body)"
  by (rule search_result [OF assms])

theorem search_finds_slides_witness:
  "\<exists>body' h. apply_hilitor (\<lambda>_. False) sample_deck ''time!'' sample_body = Some (body', h)
    \<and> map position_of (matchingSlides h) = [(Num 0, Undef), (Num 1, Num 1)]"
proof -
  have "rev (remdups (rev (map (position_of \<circ> getIndices sample_deck) (match_sections (setRegex ''time!'') None sample_body))))
      = [(Num 0, Undef), (Num 1, Num 1)]"
    by code_simp
  moreover have "list_ex is_word_char ''time!''"
    "list_all (\<lambda>w. map lower_char w \<noteq> ''length'') (alternatives_of (trim_query ''time!''))" "no_hilites sample_body"
    by code_simp+
  moreover have "indices_known sample_deck" by (simp add: indices_known_def)
  ultimately show ?thesis
    using search_finds_slides [of "''time!''" sample_deck sample_body "\<lambda>_. False"] by auto
qed

text \<open>
  C39: Notes in an attribute of the slide do not reach the speaker: the deck shows them as the notes of the
  slide, but the message to the speaker view has the empty string in their place, because the list of
  \<open>aside\<close> elements is taken for there even when it is empty.
\<close>

theorem speaker_misses_notes:
  assumes "currentSlide d = Some s" and "attrs (el (doc d) s) DataNotes = Some t"
    and "querySelector (doc d) s (has_class CurrentFragment) = None" and "queryAll (doc d) s is_notes_aside = []"
    and "speakerWindow sp = Some w"
  shows "getSlideNotes d s = t \<and> (\<exists>n. post_state d sp = Some (call_window (PostWindow w (StateMsg n (getState d))) sp)
    \<and> nd_notes n = [] \<and> nd_markdown n = None)"
  by (rule slide_notes_lost [OF assms])

theorem speaker_misses_notes_witness:
  "getSlideNotes sample_noted 11 = ''Slow down'' \<and>
    (\<exists>n. post_state sample_noted sample_speaker =
       Some (call_window (PostWindow 1 (StateMsg n (getState sample_noted))) sample_speaker) \<and> nd_notes n = [])"
proof -
  have "currentSlide sample_noted = Some 11" by (simp add: sample_noted_def update_doc_def)
  moreover have "attrs (el (doc sample_noted) 11) DataNotes = Some ''Slow down''"
    by (simp add: sample_noted_def update_doc_def el_update_el)
  moreover have "querySelector (doc sample_noted) 11 (has_class CurrentFragment) = None"
    "queryAll (doc sample_noted) 11 is_notes_aside = []" by code_simp+
  moreover have "speakerWindow sample_speaker = Some 1" by (simp add: sample_speaker_def)
  ultimately show ?thesis using speaker_misses_notes by blast
qed

text \<open>
  C40: The handshake can leave a timer behind: when the speaker view was closed before it connected and is
  opened again, the interval of the first attempt runs on, and nothing that happens afterwards, the
  answer of the window included, clears it.
\<close>

theorem connect_interval_leaks:
  assumes "window_open s = None" and "connectInterval s = Some i" and "i \<in> set (intervals s)" and "i < next_interval s"
    and "speaker_steps (fst (openSpeakerWindow (Some w) s)) s'"
  shows "i \<in> set (intervals s') \<and> connectInterval s' \<noteq> Some i"
  using lost_steps [OF assms(5) reopened_loses [OF assms(1-4)]] by (simp add: lost_interval_def)

theorem connect_interval_leaks_witness:
  "1 \<in> set (intervals (fst (openSpeakerWindow (Some 2) sample_closed)))"
proof -
  have "window_open sample_closed = None" "connectInterval sample_closed = Some 1" "1 \<in> set (intervals sample_closed)"
    "1 < next_interval sample_closed"
    by code_simp+
  from connect_interval_leaks [OF this speaker_steps.none] show ?thesis by blast
qed

end
